(* ===== verification/Prelude.thy ===== *)
theory Prelude
  imports Complex_Main "HOL-Library.Multiset"
begin

text \<open>
  Prelude of the development: the parts of the JavaScript language and standard library
  that the modelled TypeScript uses (strings, \<open>Number\<close>, \<open>Math\<close>, JSON values, truthiness),
  and the generic lemmas on lists and folds the component theories share.

  Conventions.  Strings are lists of ASCII characters, so the case mappings cover the ASCII
  letters.  A JavaScript number is \<open>jsnum\<close>: a finite value, held as an exact rational, or
  \<open>NaN\<close> or one of the infinities; the rounding of IEEE doubles is not modelled (the amounts
  of this program are integers far below $2^{53}$, on which doubles are exact).  Values the
  database stores in an integer column are \<open>int\<close>; points in time are \<open>int\<close>.
\<close>

named_theorems js_defs "definitions of the JavaScript library functions"

type_synonym uuid = string
type_synonym instant = int

section \<open>Strings\<close>

definition lower_char :: "char \<Rightarrow> char" where
  "lower_char c = (let n = of_char c :: nat in if 65 \<le> n \<and> n \<le> 90 then char_of (n + 32) else c)"

definition upper_char :: "char \<Rightarrow> char" where
  "upper_char c = (let n = of_char c :: nat in if 97 \<le> n \<and> n \<le> 122 then char_of (n - 32) else c)"

definition toLowerCase :: "string \<Rightarrow> string" where
  "toLowerCase s = map lower_char s"

definition toUpperCase :: "string \<Rightarrow> string" where
  "toUpperCase s = map upper_char s"

text \<open>White space of \<open>String.prototype.trim\<close>: tab, line feed, vertical tab, form feed, carriage return, space.\<close>

definition is_space :: "char \<Rightarrow> bool" where
  "is_space c \<longleftrightarrow> (let n = of_char c :: nat in n = 32 \<or> 9 \<le> n \<and> n \<le> 13)"

definition js_trim :: "string \<Rightarrow> string" where
  "js_trim s = rev (dropWhile is_space (rev (dropWhile is_space s)))"

definition is_digit :: "char \<Rightarrow> bool" where
  "is_digit c \<longleftrightarrow> (let n = of_char c :: nat in 48 \<le> n \<and> n \<le> 57)"

fun starts_with :: "string \<Rightarrow> string \<Rightarrow> bool" where
  "starts_with [] s = True"
| "starts_with (p # ps) [] = False"
| "starts_with (p # ps) (c # cs) = (p = c \<and> starts_with ps cs)"

fun str_includes :: "string \<Rightarrow> string \<Rightarrow> bool" where
  "str_includes needle [] = starts_with needle []"
| "str_includes needle (c # cs) = (starts_with needle (c # cs) \<or> str_includes needle cs)"

text \<open>The text before the first occurrence of a separator character: \<open>s.split(c)[0]\<close>.\<close>

definition split_head :: "char \<Rightarrow> string \<Rightarrow> string" where
  "split_head c s = takeWhile (\<lambda>x. x \<noteq> c) s"

text \<open>\<open>s.replace(pat, '')\<close> with a string pattern: the first occurrence is removed.\<close>

fun remove_first :: "string \<Rightarrow> string \<Rightarrow> string" where
  "remove_first pat [] = []"
| "remove_first pat (c # cs) =
     (if starts_with pat (c # cs) then drop (length pat) (c # cs) else c # remove_first pat cs)"

text \<open>\<open>a || b\<close> on strings that may be undefined: the empty string is falsy.\<close>

definition str_or :: "string option \<Rightarrow> string \<Rightarrow> string" where
  "str_or v d = (case v of None \<Rightarrow> d | Some s \<Rightarrow> if s = [] then d else s)"

section \<open>Numbers\<close>

datatype jsnum = Fin rat | NaN | PosInf | NegInf

fun finite_value :: "jsnum \<Rightarrow> rat option" where
  "finite_value (Fin x) = Some x"
| "finite_value _ = None"

definition js_trunc :: "rat \<Rightarrow> int" where
  "js_trunc x = (if 0 \<le> x then \<lfloor>x\<rfloor> else - \<lfloor>- x\<rfloor>)"

definition js_round :: "rat \<Rightarrow> int" where
  "js_round x = \<lfloor>x + 1 / 2\<rfloor>"

definition digit_val :: "char \<Rightarrow> nat" where
  "digit_val c = (of_char c :: nat) - 48"

definition digits_nat :: "string \<Rightarrow> nat" where
  "digits_nat ds = foldl (\<lambda>n c. 10 * n + digit_val c) 0 ds"

text \<open>The exponent part of a decimal literal, after the \<open>e\<close>: an optional sign and digits up to the end.\<close>

definition scale_exponent :: "rat \<Rightarrow> string \<Rightarrow> jsnum" where
  "scale_exponent x e =
     (let neg = (case e of [] \<Rightarrow> False | c # _ \<Rightarrow> c = CHR ''-'');
          ds = (case e of [] \<Rightarrow> [] | c # cs \<Rightarrow> if c = CHR ''-'' \<or> c = CHR ''+'' then cs else e)
      in if ds = [] \<or> \<not> list_all is_digit ds then NaN
         else if neg then Fin (x / 10 ^ digits_nat ds) else Fin (x * 10 ^ digits_nat ds))"

definition unsigned_literal :: "string \<Rightarrow> jsnum" where
  "unsigned_literal s =
     (let ip = takeWhile is_digit s; r = dropWhile is_digit s in
      case r of
        [] \<Rightarrow> if ip = [] then NaN else Fin (of_nat (digits_nat ip))
      | c # cs \<Rightarrow>
          if c = CHR ''.'' then
            (let fp = takeWhile is_digit cs; r2 = dropWhile is_digit cs;
                 x = of_nat (digits_nat (ip @ fp)) / 10 ^ length fp in
             if ip = [] \<and> fp = [] then NaN
             else case r2 of [] \<Rightarrow> Fin x
                  | d # ds \<Rightarrow> if d = CHR ''e'' \<or> d = CHR ''E'' then scale_exponent x ds else NaN)
          else if (c = CHR ''e'' \<or> c = CHR ''E'') \<and> ip \<noteq> [] then scale_exponent (of_nat (digits_nat ip)) cs
          else NaN)"

fun negate_num :: "jsnum \<Rightarrow> jsnum" where
  "negate_num (Fin x) = Fin (- x)"
| "negate_num NaN = NaN"
| "negate_num PosInf = NegInf"
| "negate_num NegInf = PosInf"

text \<open>
  \<open>Number(s)\<close> on a string: surrounding white space is dropped, the empty text is 0, then an
  optional sign, \<open>Infinity\<close> or a decimal literal.  (The \<open>0x\<close>, \<open>0o\<close> and \<open>0b\<close> forms, which no
  text of the modelled configuration uses, are read as \<open>NaN\<close>.)
\<close>

definition js_number :: "string \<Rightarrow> jsnum" where
  "js_number s =
     (let t = js_trim s;
          body = (\<lambda>u. if u = ''Infinity'' then PosInf else unsigned_literal u) in
      case t of
        [] \<Rightarrow> Fin 0
      | c # cs \<Rightarrow> if c = CHR ''-'' then negate_num (body cs)
                 else if c = CHR ''+'' then body cs else body t)"

text \<open>\<open>String(n)\<close> for an integer.\<close>

fun show_nat :: "nat \<Rightarrow> string" where
  "show_nat n = (if n < 10 then [char_of (n + 48)] else show_nat (n div 10) @ [char_of (n mod 10 + 48)])"

declare show_nat.simps [simp del]

definition show_int :: "int \<Rightarrow> string" where
  "show_int i = (if i < 0 then CHR ''-'' # show_nat (nat (- i)) else show_nat (nat i))"

lemmas [js_defs] =
  toLowerCase_def toUpperCase_def lower_char_def upper_char_def js_trim_def is_space_def
  is_digit_def split_head_def str_or_def js_trunc_def js_round_def

section \<open>Shared lemmas\<close>

lemma toUpperCase_Nil [simp]: "toUpperCase [] = []"
  by (simp add: toUpperCase_def)

lemma toLowerCase_Nil [simp]: "toLowerCase [] = []"
  by (simp add: toLowerCase_def)

lemma js_trim_Nil [simp]: "js_trim [] = []"
  by (simp add: js_trim_def)

lemma lower_char_idem [simp]: "lower_char (lower_char c) = lower_char c"
proof (cases "65 \<le> (of_char c :: nat) \<and> (of_char c :: nat) \<le> 90")
  case True
  then have "lower_char c = char_of ((of_char c :: nat) + 32)"
    by (simp add: lower_char_def)
  moreover from True have "(of_char (char_of ((of_char c :: nat) + 32) :: char) :: nat) = of_char c + 32"
    by (simp add: of_char_mod_256)
  ultimately show ?thesis using True by (simp add: lower_char_def Let_def)
next
  case False
  then show ?thesis by (auto simp add: lower_char_def Let_def)
qed

lemma toLowerCase_idem [simp]: "toLowerCase (toLowerCase s) = toLowerCase s"
  by (simp add: toLowerCase_def)

lemma js_trunc_of_int [simp]: "js_trunc (of_int i) = i"
  by (simp add: js_trunc_def)

lemma js_trunc_numeral [simp]:
  "js_trunc (numeral n) = numeral n" "js_trunc 0 = 0" "js_trunc 1 = 1"
  by (simp_all add: js_trunc_def)

lemma js_round_of_int [simp]: "js_round (of_int i) = i"
  by (simp add: js_round_def floor_eq_iff)

lemma js_round_mono: "x \<le> y \<Longrightarrow> js_round x \<le> js_round y"
  by (simp add: js_round_def floor_mono)

lemma js_round_nonneg: "0 \<le> x \<Longrightarrow> 0 \<le> js_round x"
  using js_round_mono [of 0 x] by (simp add: js_round_def)

lemma distinct_map_eq: "distinct (map f xs) \<Longrightarrow> x \<in> set xs \<Longrightarrow> y \<in> set xs \<Longrightarrow> f x = f y \<Longrightarrow> x = y"
  by (simp add: distinct_map inj_on_def)

lemma find_SomeD: "find P xs = Some x \<Longrightarrow> P x \<and> x \<in> set xs"
  by (auto simp: find_Some_iff)

lemma find_NoneD: "find P xs = None \<Longrightarrow> x \<in> set xs \<Longrightarrow> \<not> P x"
  by (auto simp: find_None_iff)

lemma find_append_new: "find P xs = None \<Longrightarrow> P y \<Longrightarrow> find P (xs @ [y]) = Some y"
  by (induction xs) (auto split: if_splits)

lemma find_append: "find P (xs @ ys) = (case find P xs of None \<Rightarrow> find P ys | Some x \<Rightarrow> Some x)"
  by (induction xs) simp_all

lemma find_map_id: "(\<And>x. k (f x) = k x) \<Longrightarrow> find (\<lambda>x. k x = i) (map f xs) = map_option f (find (\<lambda>x. k x = i) xs)"
  by (induction xs) simp_all

lemma map_filter_cong: "(\<And>x. x \<in> set xs \<Longrightarrow> f x = g x) \<Longrightarrow> List.map_filter f xs = List.map_filter g xs"
  by (induction xs) (simp_all add: option.case_eq_if)

lemma map_filter_append: "List.map_filter f (xs @ ys) = List.map_filter f xs @ List.map_filter f ys"
  by (induction xs) (simp_all split: option.split)

text \<open>A fold whose step adds a measure of the element sums the measure.\<close>

lemma foldl_measure:
  assumes "\<And>a x. m (f a x) = m a + (w x :: int)"
  shows "m (foldl f a xs) = m a + sum_list (map w xs)"
  using assms by (induction xs arbitrary: a) (simp_all add: algebra_simps)

lemma sum_list_if_filter: "sum_list (map (\<lambda>x. if P x then f x else (0::int)) xs) = sum_list (map f (filter P xs))"
  by (induction xs) simp_all

lemma sum_list_map_mset: "mset xs = mset ys \<Longrightarrow> sum_list (map w xs) = (sum_list (map w ys) :: int)"
  by (metis mset_map sum_mset_sum_list)

lemma sum_list_map_minus: "sum_list (map (\<lambda>x. - f x) xs) = - (sum_list (map f xs) :: int)"
  by (induction xs) simp_all

lemma sum_list_map_add: "sum_list (map (\<lambda>x. f x + g x) xs) = (sum_list (map f xs) + sum_list (map g xs) :: int)"
  by (induction xs) simp_all

section \<open>Numbers as text\<close>

lemma digit_char:
  assumes "d < 10"
  shows "is_digit (char_of (d + 48))" "digit_val (char_of (d + 48)) = d"
  using assms by (simp_all add: is_digit_def digit_val_def of_char_mod_256 Let_def)

lemma digits_nat_snoc: "digits_nat (ds @ [c]) = 10 * digits_nat ds + digit_val c"
  by (simp add: digits_nat_def)

lemma show_nat_digits: "show_nat n \<noteq> [] \<and> list_all is_digit (show_nat n) \<and> digits_nat (show_nat n) = n"
proof (induction n rule: show_nat.induct)
  case (1 n)
  have split: "show_nat n = (if n < 10 then [] else show_nat (n div 10)) @ [char_of (n mod 10 + 48)]"
    by (subst show_nat.simps) (simp add: mod_less)
  have d: "is_digit (char_of (n mod 10 + 48))" "digit_val (char_of (n mod 10 + 48)) = n mod 10"
    by (simp_all add: digit_char)
  show ?case
  proof (cases "n < 10")
    case True
    then show ?thesis unfolding split using d by (simp add: digits_nat_def)
  next
    case False
    with 1 have ih: "list_all is_digit (show_nat (n div 10))" "digits_nat (show_nat (n div 10)) = n div 10" by auto
    have "10 * (n div 10) + n mod 10 = n" by simp
    then show ?thesis unfolding split using False d ih by (simp add: digits_nat_snoc)
  qed
qed

lemma digit_not: "is_digit c \<Longrightarrow> \<not> is_space c \<and> c \<noteq> CHR ''-'' \<and> c \<noteq> CHR ''+'' \<and> c \<noteq> CHR ''I''"
  by (auto simp: is_digit_def is_space_def Let_def)

lemma js_trim_nonspace: "s \<noteq> [] \<Longrightarrow> \<not> is_space (hd s) \<Longrightarrow> \<not> is_space (last s) \<Longrightarrow> js_trim s = s"
proof -
  assume s: "s \<noteq> []" "\<not> is_space (hd s)" "\<not> is_space (last s)"
  then have "dropWhile is_space s = s" by (cases s) simp_all
  moreover have "dropWhile is_space (rev s) = rev s" using s by (cases s rule: rev_cases) simp_all
  ultimately show ?thesis by (simp add: js_trim_def)
qed

lemma unsigned_digits: "ds \<noteq> [] \<Longrightarrow> list_all is_digit ds \<Longrightarrow> unsigned_literal ds = Fin (of_nat (digits_nat ds))"
proof -
  assume ds: "ds \<noteq> []" "list_all is_digit ds"
  then have t: "takeWhile is_digit ds = ds" by (simp add: list_all_iff takeWhile_eq_all_conv)
  have d: "dropWhile is_digit ds = []" using ds by (simp add: list_all_iff)
  show ?thesis unfolding unsigned_literal_def t d using ds by simp
qed

lemma digits_hd_last: "ds \<noteq> [] \<Longrightarrow> list_all is_digit ds \<Longrightarrow> is_digit (hd ds) \<and> is_digit (last ds)"
  by (simp add: list_all_iff)

text \<open>\<open>Number(String(i))\<close> is \<open>i\<close>.\<close>

lemma js_number_show_int [simp]: "js_number (show_int i) = Fin (of_int i)"
proof -
  define ds where "ds = show_nat (nat \<bar>i\<bar>)"
  have ds: "ds \<noteq> []" "list_all is_digit ds" "digits_nat ds = nat \<bar>i\<bar>"
    using show_nat_digits by (simp_all add: ds_def)
  have e: "is_digit (hd ds)" "is_digit (last ds)" using digits_hd_last ds(1,2) by auto
  note n = digit_not [OF e(1)] digit_not [OF e(2)]
  have lit: "unsigned_literal ds = Fin (of_nat (nat \<bar>i\<bar>))" using unsigned_digits [OF ds(1,2)] ds(3) by simp
  have inf: "ds \<noteq> ''Infinity''" using n(1) by auto
  show ?thesis
  proof (cases "i < 0")
    case True
    have t: "show_int i = CHR ''-'' # ds" using True by (simp add: show_int_def ds_def)
    have "js_trim (CHR ''-'' # ds) = CHR ''-'' # ds"
      by (rule js_trim_nonspace) (use n ds in \<open>simp_all add: is_space_def\<close>)
    then show ?thesis using True lit inf by (simp add: js_number_def t)
  next
    case False
    have t: "show_int i = ds" using False by (simp add: show_int_def ds_def)
    have tr: "js_trim ds = ds" by (rule js_trim_nonspace) (use n ds in simp_all)
    obtain c cs where c: "ds = c # cs" using ds(1) by (cases ds) auto
    have "c \<noteq> CHR ''-''" "c \<noteq> CHR ''+''" using n(1) c by simp_all
    then show ?thesis using False lit inf tr by (simp add: js_number_def t c)
  qed
qed

end
