(* ===== verification/PayoutStatus.thy ===== *)
theory PayoutStatus
  imports Prelude
begin

text \<open>
  The status vocabulary of a courier payout (\<open>services/payoutStatusPolicy.ts\<close>), and the
  transition table of the payment exception queue (\<open>services/paymentExceptionPolicy.ts\<close>).
  A status is the string stored in the database; the functions below classify and label it.
\<close>

section \<open>Status sets, labels and risk actions\<close>

definition activePayoutStatuses :: "string list" where
  "activePayoutStatuses =
     [''requested'', ''risk_screening'', ''approved_auto'', ''risk_hold'', ''manual_review'',
      ''under_review'', ''approved'', ''processing'']"

definition terminalPayoutStatuses :: "string list" where
  "terminalPayoutStatuses = [''paid'', ''failed'', ''rejected'', ''blocked'', ''cancelled'']"

definition payoutStatusLabel :: "string \<Rightarrow> string" where
  "payoutStatusLabel status =
     (if status \<in> {''requested'', ''risk_screening''} then ''Dalam pemeriksaan otomatis''
      else if status \<in> {''approved_auto'', ''approved'', ''processing''} then ''Diproses''
      else if status \<in> {''risk_hold'', ''manual_review'', ''under_review''} then ''Butuh review''
      else if status = ''paid'' then ''Berhasil''
      else if status \<in> {''blocked'', ''rejected''} then ''Ditolak''
      else if status = ''failed'' then ''Gagal''
      else if status = ''cancelled'' then ''Dibatalkan''
      else map (\<lambda>c. if c = CHR ''_'' then CHR '' '' else c) status)"

definition payoutRiskAction :: "string \<Rightarrow> string option \<Rightarrow> string" where
  "payoutRiskAction status decision =
     (if status = ''approved_auto'' \<or> decision = Some ''auto_approved'' then ''auto_approved''
      else if status = ''blocked'' \<or> decision = Some ''blocked'' then ''blocked_by_risk''
      else if status \<in> set [''risk_hold'', ''manual_review'', ''under_review'']
              \<or> decision = Some ''manual_review'' then ''needs_review''
      else if status \<in> set [''processing'', ''approved''] then ''processing''
      else if status \<in> set terminalPayoutStatuses then ''terminal''
      else ''screening'')"

definition payoutMobileMessage :: "string \<Rightarrow> string" where
  "payoutMobileMessage status =
     (if status \<in> {''requested'', ''risk_screening''}
        then ''Pengajuan sedang dicek otomatis. Kamu bisa memantau statusnya di sini.''
      else if status \<in> {''approved_auto'', ''approved'', ''processing''}
        then ''Pengajuan sedang diproses ke rekening pencairan.''
      else if status \<in> {''risk_hold'', ''manual_review'', ''under_review''}
        then ''Sedang diverifikasi oleh tim operasional.''
      else if status = ''paid'' then ''Pencairan berhasil diproses.''
      else if status \<in> {''rejected'', ''blocked''}
        then ''Pengajuan belum dapat diproses. Cek detail atau hubungi operasional jika perlu.''
      else if status = ''failed''
        then ''Pencairan belum berhasil. Saldo tetap tercatat dan akan ditinjau.''
      else if status = ''cancelled'' then ''Pengajuan dibatalkan.''
      else ''Pengajuan pencairan saldo berhasil dibuat.'')"

text \<open>The five fields \<open>decoratePayoutRequest\<close> adds to a row.\<close>

record payout_decoration =
  status_label :: string
  status_message :: string
  risk_action :: string
  auto_approved :: bool
  requires_manual_review :: bool

definition decoratePayoutRequest :: "string \<Rightarrow> string option \<Rightarrow> payout_decoration" where
  "decoratePayoutRequest status risk_decision =
     \<lparr>status_label = payoutStatusLabel status,
      status_message = payoutMobileMessage status,
      risk_action = payoutRiskAction status risk_decision,
      auto_approved = (status = ''approved_auto'' \<or> risk_decision = Some ''auto_approved''),
      requires_manual_review =
        (status \<in> set [''risk_hold'', ''manual_review'', ''under_review'']
         \<or> risk_decision = Some ''manual_review'')\<rparr>"

section \<open>Payment exception transitions\<close>

definition PAYMENT_EXCEPTION_TRANSITIONS :: "string \<Rightarrow> string list option" where
  "PAYMENT_EXCEPTION_TRANSITIONS = map_of
     [(''OPEN'', [''IN_REVIEW'', ''ACCEPTED'']),
      (''IN_REVIEW'', [''OPEN'', ''RESOLVED'', ''ACCEPTED'']),
      (''RESOLVED'', [''IN_REVIEW'']),
      (''ACCEPTED'', [''IN_REVIEW''])]"

definition canTransitionPaymentException :: "string \<Rightarrow> string \<Rightarrow> bool" where
  "canTransitionPaymentException from_status to_status =
     (case PAYMENT_EXCEPTION_TRANSITIONS (toUpperCase (js_trim from_status)) of
        None \<Rightarrow> False
      | Some targets \<Rightarrow> toUpperCase (js_trim to_status) \<in> set targets)"

section \<open>Lemmas\<close>

lemma active_terminal_disjoint: "set activePayoutStatuses \<inter> set terminalPayoutStatuses = {}"
  by (simp add: activePayoutStatuses_def terminalPayoutStatuses_def)

text \<open>Upper-casing a trimmed table key gives the key back.\<close>

lemma exception_key_norm:
  "s \<in> {''OPEN'', ''IN_REVIEW'', ''RESOLVED'', ''ACCEPTED''} \<Longrightarrow> toUpperCase (js_trim s) = s"
proof -
  have "list_all (\<lambda>s. toUpperCase (js_trim s) = s) [''OPEN'', ''IN_REVIEW'', ''RESOLVED'', ''ACCEPTED'']"
    by code_simp
  then show "s \<in> {''OPEN'', ''IN_REVIEW'', ''RESOLVED'', ''ACCEPTED''} \<Longrightarrow> toUpperCase (js_trim s) = s"
    by auto
qed

lemma canTransition_iff:
  "canTransitionPaymentException a b \<longleftrightarrow>
     (toUpperCase (js_trim a), toUpperCase (js_trim b)) \<in>
       {(''OPEN'', ''IN_REVIEW''), (''OPEN'', ''ACCEPTED''), (''IN_REVIEW'', ''OPEN''),
        (''IN_REVIEW'', ''RESOLVED''), (''IN_REVIEW'', ''ACCEPTED''),
        (''RESOLVED'', ''IN_REVIEW''), (''ACCEPTED'', ''IN_REVIEW'')}"
  by (auto simp: canTransitionPaymentException_def PAYMENT_EXCEPTION_TRANSITIONS_def
      split: option.splits if_splits)

text \<open>
  Payment exception queue.  A review is reachable from every state of the table
  (\<open>OPEN\<close>, \<open>RESOLVED\<close> and \<open>ACCEPTED\<close> each may move to \<open>IN_REVIEW\<close>), no state may move to
  itself whatever the case and padding of the two arguments, and only a state that reads
  \<open>IN_REVIEW\<close> may become \<open>RESOLVED\<close>: an exception is never resolved without a review.
\<close>

theorem payment_exception_review:
  "canTransitionPaymentException ''OPEN'' ''IN_REVIEW''
   \<and> canTransitionPaymentException ''RESOLVED'' ''IN_REVIEW''
   \<and> canTransitionPaymentException ''ACCEPTED'' ''IN_REVIEW''
   \<and> \<not> (canTransitionPaymentException a b \<and> toUpperCase (js_trim a) = toUpperCase (js_trim b))
   \<and> canTransitionPaymentException a ''RESOLVED'' = (toUpperCase (js_trim a) = ''IN_REVIEW'')"
  unfolding canTransition_iff by (auto simp: exception_key_norm)

end
