(* ===== verification/PayoutLedger.thy ===== *)
theory PayoutLedger
  imports PayoutStatus
begin

text \<open>
  The courier payout balance (\<open>services/payoutLedger.ts\<close>): a fold over the earnings ledger
  that fills ten buckets, and the eligibility test for a payout request.  An entry is a
  record with the optional fields of the TypeScript type; the fold is the source's
  \<open>reduce\<close>, one \<open>if\<close> per bucket.  The lemmas give each bucket as a sum over the ledger.
\<close>

section \<open>Ledger entries and the balance\<close>

datatype ledger_direction = Credit | Debit

record payout_ledger_entry =
  direction :: ledger_direction
  amountIdr :: jsnum
  settlementStatus :: string
  hasOpenDispute :: "bool option"
  withdrawable :: "bool option"
  statementCategory :: "string option"
  entry_source :: "string option"

record payout_balance =
  totalBalanceIdr :: int
  availableBalanceIdr :: int
  pendingBalanceIdr :: int
  heldBalanceIdr :: int
  withdrawnBalanceIdr :: int
  orderEarningsIdr :: int
  incentiveEarningsIdr :: int
  adjustmentIdr :: int
  taxIdr :: int
  feeIdr :: int

definition signedAmount :: "payout_ledger_entry \<Rightarrow> int \<Rightarrow> int" where
  "signedAmount entry amount = (if direction entry = Credit then amount else - amount)"

definition statementCategoryOf :: "payout_ledger_entry \<Rightarrow> string" where
  "statementCategoryOf entry =
     (if str_or (statementCategory entry) [] \<noteq> [] then the (statementCategory entry)
      else if entry_source entry = Some ''delivery'' then ''order''
      else if entry_source entry = Some ''incentive'' then ''incentive''
      else if entry_source entry = Some ''adjustment'' \<or> entry_source entry = Some ''reversal''
        then ''adjustment''
      else if entry_source entry = Some ''payout'' then ''payout''
      else ''other'')"

definition entryAmount :: "payout_ledger_entry \<Rightarrow> int" where
  "entryAmount entry = (case finite_value (amountIdr entry) of Some x \<Rightarrow> js_trunc x | None \<Rightarrow> 0)"

definition isWithdrawable :: "payout_ledger_entry \<Rightarrow> bool" where
  "isWithdrawable entry \<longleftrightarrow> withdrawable entry \<noteq> Some False"

definition zero_balance :: payout_balance where
  "zero_balance =
     \<lparr>totalBalanceIdr = 0, availableBalanceIdr = 0, pendingBalanceIdr = 0, heldBalanceIdr = 0,
      withdrawnBalanceIdr = 0, orderEarningsIdr = 0, incentiveEarningsIdr = 0, adjustmentIdr = 0,
      taxIdr = 0, feeIdr = 0\<rparr>"

text \<open>
  One step of the \<open>reduce\<close>: every \<open>acc.bucket += \<dots>\<close> of the source with its condition.  No
  bucket is read by the update of another, so the sequence of assignments is one record.
\<close>

definition addEntry :: "payout_balance \<Rightarrow> payout_ledger_entry \<Rightarrow> payout_balance" where
  "addEntry acc entry =
     (let amount = entryAmount entry;
          signed = signedAmount entry amount;
          category = statementCategoryOf entry;
          credit = (direction entry = Credit);
          debit = (direction entry = Debit);
          st = settlementStatus entry;
          isW = isWithdrawable entry
      in \<lparr>totalBalanceIdr = totalBalanceIdr acc + signed,
          availableBalanceIdr = availableBalanceIdr acc
            + (if credit \<and> st = ''available'' \<and> isW \<and> hasOpenDispute entry \<noteq> Some True then amount else 0)
            - (if debit \<and> st \<in> set [''requested'', ''processing'', ''paid''] then amount else 0),
          pendingBalanceIdr = pendingBalanceIdr acc
            + (if credit \<and> st = ''pending'' \<and> isW then amount else 0)
            + (if debit \<and> st \<in> set [''requested'', ''processing''] then amount else 0),
          heldBalanceIdr = heldBalanceIdr acc
            + (if credit \<and> st \<noteq> ''cancelled'' \<and> (st = ''held'' \<or> \<not> isW) then amount else 0),
          withdrawnBalanceIdr = withdrawnBalanceIdr acc
            + (if debit \<and> st = ''paid'' then amount else 0),
          orderEarningsIdr = orderEarningsIdr acc + (if category = ''order'' then signed else 0),
          incentiveEarningsIdr = incentiveEarningsIdr acc + (if category = ''incentive'' then signed else 0),
          adjustmentIdr = adjustmentIdr acc + (if category = ''adjustment'' then signed else 0),
          taxIdr = taxIdr acc + (if category = ''tax'' then signed else 0),
          feeIdr = feeIdr acc + (if category = ''fee'' then signed else 0)\<rparr>)"

definition calculatePayoutBalance :: "payout_ledger_entry list \<Rightarrow> payout_balance" where
  "calculatePayoutBalance entries = foldl addEntry zero_balance entries"

definition canCreatePayoutRequest :: "payout_balance \<Rightarrow> int \<Rightarrow> int \<Rightarrow> bool \<Rightarrow> bool" where
  "canCreatePayoutRequest balance amount minAmount hasVerifiedAccount =
     (if \<not> hasVerifiedAccount then False
      else if amount < minAmount then False
      else availableBalanceIdr balance \<ge> amount)"

section \<open>The contribution of one entry to each bucket\<close>

definition available_weight :: "payout_ledger_entry \<Rightarrow> int" where
  "available_weight e =
     (if direction e = Credit \<and> settlementStatus e = ''available'' \<and> isWithdrawable e
         \<and> hasOpenDispute e \<noteq> Some True then entryAmount e
      else if direction e = Debit \<and> settlementStatus e \<in> {''requested'', ''processing'', ''paid''}
        then - entryAmount e else 0)"

definition category_weight :: "string \<Rightarrow> payout_ledger_entry \<Rightarrow> int" where
  "category_weight c e = (if statementCategoryOf e = c then signedAmount e (entryAmount e) else 0)"

definition pending_weight :: "payout_ledger_entry \<Rightarrow> int" where
  "pending_weight e =
     (if direction e = Credit \<and> settlementStatus e = ''pending'' \<and> isWithdrawable e
         \<or> direction e = Debit \<and> settlementStatus e \<in> {''requested'', ''processing''}
      then entryAmount e else 0)"

definition held_weight :: "payout_ledger_entry \<Rightarrow> int" where
  "held_weight e =
     (if direction e = Credit \<and> settlementStatus e \<noteq> ''cancelled''
         \<and> (settlementStatus e = ''held'' \<or> \<not> isWithdrawable e) then entryAmount e else 0)"

definition withdrawn_weight :: "payout_ledger_entry \<Rightarrow> int" where
  "withdrawn_weight e =
     (if direction e = Debit \<and> settlementStatus e = ''paid'' then entryAmount e else 0)"

lemma addEntry_total: "totalBalanceIdr (addEntry a e) = totalBalanceIdr a + signedAmount e (entryAmount e)"
  by (simp add: addEntry_def Let_def)

lemma addEntry_available: "availableBalanceIdr (addEntry a e) = availableBalanceIdr a + available_weight e"
  by (cases "direction e") (simp_all add: addEntry_def available_weight_def Let_def)

lemma addEntry_pending: "pendingBalanceIdr (addEntry a e) = pendingBalanceIdr a + pending_weight e"
  by (cases "direction e") (simp_all add: addEntry_def pending_weight_def Let_def)

lemma addEntry_held: "heldBalanceIdr (addEntry a e) = heldBalanceIdr a + held_weight e"
  by (simp add: addEntry_def held_weight_def Let_def)

lemma addEntry_withdrawn: "withdrawnBalanceIdr (addEntry a e) = withdrawnBalanceIdr a + withdrawn_weight e"
  by (simp add: addEntry_def withdrawn_weight_def Let_def)

lemma addEntry_categories:
  "orderEarningsIdr (addEntry a e) = orderEarningsIdr a + category_weight ''order'' e"
  "incentiveEarningsIdr (addEntry a e) = incentiveEarningsIdr a + category_weight ''incentive'' e"
  "adjustmentIdr (addEntry a e) = adjustmentIdr a + category_weight ''adjustment'' e"
  "taxIdr (addEntry a e) = taxIdr a + category_weight ''tax'' e"
  "feeIdr (addEntry a e) = feeIdr a + category_weight ''fee'' e"
  by (simp_all add: addEntry_def category_weight_def Let_def)

lemmas addEntry_buckets = addEntry_total addEntry_available addEntry_pending addEntry_held
  addEntry_withdrawn addEntry_categories

lemma zero_balance_sel [simp]:
  "totalBalanceIdr zero_balance = 0" "availableBalanceIdr zero_balance = 0"
  "pendingBalanceIdr zero_balance = 0" "heldBalanceIdr zero_balance = 0"
  "withdrawnBalanceIdr zero_balance = 0" "orderEarningsIdr zero_balance = 0"
  "incentiveEarningsIdr zero_balance = 0" "adjustmentIdr zero_balance = 0"
  "taxIdr zero_balance = 0" "feeIdr zero_balance = 0"
  by (simp_all add: zero_balance_def)

lemma balance_bucket_sum:
  assumes "\<And>a e. bucket (addEntry a e) = bucket a + (w e :: int)" and "bucket zero_balance = 0"
  shows "bucket (calculatePayoutBalance es) = sum_list (map w es)"
  using assms foldl_measure [of bucket addEntry w zero_balance es]
  by (simp add: calculatePayoutBalance_def)

lemmas available_sum = balance_bucket_sum [where bucket = availableBalanceIdr, OF addEntry_available, simplified]
lemmas total_sum = balance_bucket_sum [where bucket = totalBalanceIdr, OF addEntry_total, simplified]
lemmas pending_sum = balance_bucket_sum [where bucket = pendingBalanceIdr, OF addEntry_pending, simplified]
lemmas held_sum = balance_bucket_sum [where bucket = heldBalanceIdr, OF addEntry_held, simplified]
lemmas withdrawn_sum = balance_bucket_sum [where bucket = withdrawnBalanceIdr, OF addEntry_withdrawn, simplified]
lemmas order_sum = balance_bucket_sum [where bucket = orderEarningsIdr, OF addEntry_categories(1), simplified]
lemmas incentive_sum = balance_bucket_sum [where bucket = incentiveEarningsIdr, OF addEntry_categories(2), simplified]
lemmas adjustment_sum = balance_bucket_sum [where bucket = adjustmentIdr, OF addEntry_categories(3), simplified]
lemmas tax_sum = balance_bucket_sum [where bucket = taxIdr, OF addEntry_categories(4), simplified]
lemmas fee_sum = balance_bucket_sum [where bucket = feeIdr, OF addEntry_categories(5), simplified]

lemmas balance_sums = available_sum total_sum pending_sum held_sum withdrawn_sum order_sum
  incentive_sum adjustment_sum tax_sum fee_sum

section \<open>Properties of the balance\<close>

text \<open>The ledger entry a payout request writes, and the credit that reverses it.\<close>

definition requested_entry :: "int \<Rightarrow> payout_ledger_entry" where
  "requested_entry amount =
     \<lparr>direction = Debit, amountIdr = Fin (of_int amount), settlementStatus = ''requested'',
      hasOpenDispute = None, withdrawable = None, statementCategory = None, entry_source = Some ''payout''\<rparr>"

definition reversal_entry :: "int \<Rightarrow> payout_ledger_entry" where
  "reversal_entry amount =
     \<lparr>direction = Credit, amountIdr = Fin (of_int amount), settlementStatus = ''available'',
      hasOpenDispute = None, withdrawable = None, statementCategory = None, entry_source = Some ''payout''\<rparr>"

lemma requested_entry_weights [simp]:
  "available_weight (requested_entry a) = - a" "pending_weight (requested_entry a) = a"
  "held_weight (requested_entry a) = 0" "withdrawn_weight (requested_entry a) = 0"
  "signedAmount (requested_entry a) (entryAmount (requested_entry a)) = - a"
  by (simp_all add: requested_entry_def available_weight_def pending_weight_def held_weight_def
      withdrawn_weight_def entryAmount_def signedAmount_def)

lemma reversal_entry_weights [simp]:
  "available_weight (reversal_entry a) = a" "pending_weight (reversal_entry a) = 0"
  "held_weight (reversal_entry a) = 0" "withdrawn_weight (reversal_entry a) = 0"
  "signedAmount (reversal_entry a) (entryAmount (reversal_entry a)) = a"
  by (simp_all add: reversal_entry_def available_weight_def pending_weight_def held_weight_def
      withdrawn_weight_def entryAmount_def signedAmount_def isWithdrawable_def)

text \<open>
  Functional specification of the payout balance: the available bucket is the sum of the
  settled, withdrawable, undisputed credits less every debit that is requested, in processing or
  paid; the total is the signed sum of the whole ledger.
\<close>

theorem calculatePayoutBalance_spec:
  "availableBalanceIdr (calculatePayoutBalance es) =
     sum_list (map entryAmount
       (filter (\<lambda>e. direction e = Credit \<and> settlementStatus e = ''available''
          \<and> isWithdrawable e \<and> hasOpenDispute e \<noteq> Some True) es))
     - sum_list (map entryAmount
       (filter (\<lambda>e. direction e = Debit \<and> settlementStatus e \<in> {''requested'', ''processing'', ''paid''}) es))
   \<and> totalBalanceIdr (calculatePayoutBalance es) =
     sum_list (map entryAmount (filter (\<lambda>e. direction e = Credit) es))
     - sum_list (map entryAmount (filter (\<lambda>e. direction e = Debit) es))"
proof -
  have 1: "available_weight = (\<lambda>e. (if direction e = Credit \<and> settlementStatus e = ''available''
          \<and> isWithdrawable e \<and> hasOpenDispute e \<noteq> Some True then entryAmount e else 0)
      + - (if direction e = Debit \<and> settlementStatus e \<in> {''requested'', ''processing'', ''paid''}
           then entryAmount e else 0))"
    by (rule ext) (auto simp: available_weight_def)
  have 2: "(\<lambda>e. signedAmount e (entryAmount e)) = (\<lambda>e. (if direction e = Credit then entryAmount e else 0)
      + - (if direction e = Debit then entryAmount e else 0))"
  proof
    fix e show "signedAmount e (entryAmount e) = (if direction e = Credit then entryAmount e else 0)
      + - (if direction e = Debit then entryAmount e else 0)"
      by (cases "direction e") (simp_all add: signedAmount_def)
  qed
  show ?thesis
    unfolding balance_sums 1 2 sum_list_map_add sum_list_map_minus sum_list_if_filter
    by (simp only: diff_conv_add_uminus)
qed

text \<open>
  The balance does not depend on the order in which the ledger rows are read: the query
  behind it may return them in any order.
\<close>

theorem balance_order_independent:
  assumes "mset es = mset es'"
  shows "calculatePayoutBalance es = calculatePayoutBalance es'"
  by (rule payout_balance.equality)
    (simp_all add: balance_sums sum_list_map_mset [OF assms])

theorem balance_order_independent_witness:
  "calculatePayoutBalance [requested_entry 30, reversal_entry 30]
   = calculatePayoutBalance [reversal_entry 30, requested_entry 30]"
  by (rule balance_order_independent) simp

text \<open>
  Holding and releasing a payout.  If the eligibility test accepts a request, recording its
  debit leaves the available balance non-negative and moves the amount to the pending bucket;
  appending the reversal credit afterwards gives back exactly the available and total balance
  from before the request.
\<close>

theorem payout_hold_and_release:
  assumes "canCreatePayoutRequest (calculatePayoutBalance es) amount minAmount verified"
  shows "verified \<and> minAmount \<le> amount
     \<and> 0 \<le> availableBalanceIdr (calculatePayoutBalance (es @ [requested_entry amount]))
     \<and> pendingBalanceIdr (calculatePayoutBalance (es @ [requested_entry amount]))
        = pendingBalanceIdr (calculatePayoutBalance es) + amount
     \<and> availableBalanceIdr (calculatePayoutBalance (es @ [requested_entry amount, reversal_entry amount]))
        = availableBalanceIdr (calculatePayoutBalance es)
     \<and> totalBalanceIdr (calculatePayoutBalance (es @ [requested_entry amount, reversal_entry amount]))
        = totalBalanceIdr (calculatePayoutBalance es)"
  using assms by (simp add: balance_sums canCreatePayoutRequest_def split: if_splits)

theorem payout_hold_and_release_witness:
  "0 \<le> availableBalanceIdr (calculatePayoutBalance ([reversal_entry 50000] @ [requested_entry 30000]))"
proof -
  have "canCreatePayoutRequest (calculatePayoutBalance [reversal_entry 50000]) 30000 25000 True"
    by (simp add: canCreatePayoutRequest_def balance_sums)
  from payout_hold_and_release [OF this] show ?thesis by blast
qed

text \<open>
  Opening disputes on any set of entries never raises the available balance, as long as the
  ledger amounts are non-negative (the table's check constraint).
\<close>

theorem dispute_never_raises_available:
  assumes "\<forall>e \<in> set es. 0 \<le> entryAmount e"
  shows "availableBalanceIdr (calculatePayoutBalance
           (map (\<lambda>e. if disputed e then e\<lparr>hasOpenDispute := Some True\<rparr> else e) es))
         \<le> availableBalanceIdr (calculatePayoutBalance es)"
proof -
  have "available_weight (if disputed e then e\<lparr>hasOpenDispute := Some True\<rparr> else e) \<le> available_weight e"
    if "e \<in> set es" for e
    using assms that by (auto simp: available_weight_def entryAmount_def isWithdrawable_def)
  then show ?thesis
    by (simp add: balance_sums o_def sum_list_mono)
qed

theorem dispute_never_raises_available_witness:
  "availableBalanceIdr (calculatePayoutBalance
     (map (\<lambda>e. if True then e\<lparr>hasOpenDispute := Some True\<rparr> else e) [reversal_entry 10]))
   \<le> availableBalanceIdr (calculatePayoutBalance [reversal_entry 10])"
  by (rule dispute_never_raises_available) (simp add: reversal_entry_def entryAmount_def)

end
