(* ===== verification/JsonText.thy ===== *)
theory JsonText
  imports Prelude "HOL-Library.Char_ord" "HOL-Library.List_Lexorder"
begin

text \<open>
  JSON values and their stable text (\<open>stableJson\<close> of \<open>middleware/idempotencyRequirement.ts\<close>): objects
  are printed with their keys sorted, so that the text, and with it the request fingerprint, does
  not depend on the order in which a client wrote them.  The lemmas show that the text is the
  same exactly when the values are the same up to the order of object keys.

  A number is represented by the text \<open>JSON.stringify\<close> prints for it; strings are lists of code
  points below 256.
\<close>

section \<open>Values\<close>

datatype json = JNull | JBool bool | JNum string | JStr string | JArr "json list" | JObj "(string \<times> json) list"

text \<open>JavaScript truthiness.\<close>

fun js_truthy :: "json \<Rightarrow> bool" where
  "js_truthy JNull = False"
| "js_truthy (JBool b) = b"
| "js_truthy (JNum t) = (t \<noteq> ''0'')"
| "js_truthy (JStr s) = (s \<noteq> [])"
| "js_truthy (JArr _) = True"
| "js_truthy (JObj _) = True"

definition number_char :: "char \<Rightarrow> bool" where
  "number_char c = (is_digit c \<or> c \<in> set ''+-.e'')"

definition number_text :: "string \<Rightarrow> bool" where
  "number_text t = (t \<noteq> [] \<and> (is_digit (hd t) \<or> hd t = CHR ''-'') \<and> list_all number_char t)"

text \<open>A value a JavaScript program can hold: numbers print as numbers, the keys of an object are distinct.\<close>

fun json_ok :: "json \<Rightarrow> bool" where
  "json_ok (JNum t) = number_text t"
| "json_ok (JArr vs) = (\<forall>v \<in> set vs. json_ok v)"
| "json_ok (JObj kvs) = (distinct (map fst kvs) \<and> (\<forall>kv \<in> set kvs. json_ok (snd kv)))"
| "json_ok _ = True"

section \<open>Printing\<close>

definition hex_digit :: "nat \<Rightarrow> char" where
  "hex_digit n = ''0123456789abcdef'' ! n"

definition json_char :: "char \<Rightarrow> string" where
  "json_char c =
     (let n = (of_char c :: nat) in
      if n = 34 \<or> n = 92 then [CHR 92, c]
      else if n = 8 then [CHR 92, CHR ''b'']
      else if n = 9 then [CHR 92, CHR ''t'']
      else if n = 10 then [CHR 92, CHR ''n'']
      else if n = 12 then [CHR 92, CHR ''f'']
      else if n = 13 then [CHR 92, CHR ''r'']
      else if n < 32 then CHR 92 # ''u00'' @ [hex_digit (n div 16), hex_digit (n mod 16)]
      else [c])"

definition json_string :: "string \<Rightarrow> string" where
  "json_string s = CHR 34 # concat (map json_char s) @ [CHR 34]"

text \<open>\<open>xs.join(',')\<close>.\<close>

fun comma_join :: "string list \<Rightarrow> string" where
  "comma_join [] = []"
| "comma_join (x # xs) = x @ concat (map (\<lambda>y. CHR '','' # y) xs)"

text \<open>\<open>String(v)\<close>.\<close>

fun json_text :: "json \<Rightarrow> string" where
  "json_text JNull = ''null''"
| "json_text (JBool b) = (if b then ''true'' else ''false'')"
| "json_text (JNum t) = t"
| "json_text (JStr s) = s"
| "json_text (JArr vs) = comma_join (map (\<lambda>v. if v = JNull then [] else json_text v) vs)"
| "json_text (JObj _) = ''[object Object]''"

text \<open>\<open>Number(value)\<close>; the text of an array of one element is the text of the element.\<close>

fun element_number :: "json \<Rightarrow> jsnum" where
  "element_number JNull = Fin 0"
| "element_number (JBool _) = NaN"
| "element_number (JNum t) = js_number t"
| "element_number (JStr s) = js_number s"
| "element_number (JArr []) = Fin 0"
| "element_number (JArr [v]) = element_number v"
| "element_number (JArr _) = NaN"
| "element_number (JObj _) = NaN"

fun json_number :: "json option \<Rightarrow> jsnum" where
  "json_number None = NaN"
| "json_number (Some (JBool b)) = Fin (if b then 1 else 0)"
| "json_number (Some v) = element_number v"

fun json_field :: "string \<Rightarrow> json \<Rightarrow> json option" where
  "json_field k (JObj kvs) = map_of kvs k"
| "json_field _ _ = None"

function stableJson :: "json \<Rightarrow> string" where
  "stableJson JNull = ''null''"
| "stableJson (JBool b) = (if b then ''true'' else ''false'')"
| "stableJson (JNum t) = t"
| "stableJson (JStr s) = json_string s"
| "stableJson (JArr vs) = CHR ''['' # comma_join (map stableJson vs) @ '']''"
| "stableJson (JObj kvs) = CHR ''{'' #
     comma_join (map (\<lambda>kv. json_string (fst kv) @ CHR '':'' # stableJson (snd kv)) (sort_key fst kvs)) @ ''}''"
  by pat_completeness auto

lemma json_size_arr: "v \<in> set vs \<Longrightarrow> size v < size (JArr vs)"
  by (induction vs) auto

lemma json_size_obj: "kv \<in> set kvs \<Longrightarrow> size (snd kv) < size (JObj kvs)"
  by (induction kvs) (auto simp: less_Suc_eq_le)

termination stableJson
  by (relation "measure size") (use json_size_arr json_size_obj in auto)

section \<open>The value up to key order\<close>

text \<open>The value with the keys of every object sorted.\<close>

function sorted_keys :: "json \<Rightarrow> json" where
  "sorted_keys (JArr vs) = JArr (map sorted_keys vs)"
| "sorted_keys (JObj kvs) = JObj (map (\<lambda>kv. (fst kv, sorted_keys (snd kv))) (sort_key fst kvs))"
| "sorted_keys JNull = JNull"
| "sorted_keys (JBool b) = JBool b"
| "sorted_keys (JNum t) = JNum t"
| "sorted_keys (JStr s) = JStr s"
  by pat_completeness auto

termination sorted_keys
  by (relation "measure size") (use json_size_arr json_size_obj in auto)

section \<open>The text determines the value\<close>

text \<open>Reading one escaped character back.\<close>

definition hex_val :: "char \<Rightarrow> nat" where
  "hex_val c = (if is_digit c then of_char c - 48 else of_char c - 87)"

fun read_char :: "string \<Rightarrow> (char \<times> string) option" where
  "read_char [] = None"
| "read_char (c # cs) =
     (if of_char c = (34 :: nat) then None
      else if of_char c = (92 :: nat) then
        (case cs of [] \<Rightarrow> None
         | d # ds \<Rightarrow>
           if d = CHR ''b'' then Some (char_of (8 :: nat), ds) else if d = CHR ''t'' then Some (char_of (9 :: nat), ds)
           else if d = CHR ''n'' then Some (char_of (10 :: nat), ds) else if d = CHR ''f'' then Some (char_of (12 :: nat), ds)
           else if d = CHR ''r'' then Some (char_of (13 :: nat), ds)
           else if d = CHR ''u'' then Some (char_of (16 * hex_val (ds ! 2) + hex_val (ds ! 3)), drop 4 ds)
           else Some (d, ds))
      else Some (c, cs))"


lemma hex_round: "n < 16 \<Longrightarrow> hex_val (hex_digit n) = n"
  by (auto simp: hex_val_def hex_digit_def is_digit_def less_Suc_eq numeral_eq_Suc)

lemma read_escape: "c \<noteq> CHR ''u'' \<Longrightarrow> read_char (CHR 92 # c # x) =
    Some (if c = CHR ''b'' then char_of (8 :: nat) else if c = CHR ''t'' then char_of (9 :: nat)
      else if c = CHR ''n'' then char_of (10 :: nat) else if c = CHR ''f'' then char_of (12 :: nat)
      else if c = CHR ''r'' then char_of (13 :: nat) else c, x)"
  by simp

lemma read_hex: "read_char (CHR 92 # ''u00'' @ [a, b] @ x) = Some (char_of (16 * hex_val a + hex_val b), x)"
  by simp

lemma char_code: "of_char c = (n :: nat) \<Longrightarrow> char_of n = c"
  by auto

lemma quote_or_backslash: "of_char c = (34 :: nat) \<Longrightarrow> c = CHR 34" "of_char c = (92 :: nat) \<Longrightarrow> c = CHR 92"
  using of_char_eq_iff [of c "CHR 34", where 'a = nat] of_char_eq_iff [of c "CHR 92", where 'a = nat]
  by (simp_all del: of_char_eq_iff)

lemma read_json_char: "read_char (json_char c @ x) = Some (c, x)"
proof -
  let ?n = "of_char c :: nat"
  consider "?n = 34 \<or> ?n = 92" | "?n \<in> {8, 9, 10, 12, 13}"
    | "?n < 32" "?n \<notin> {8, 9, 10, 12, 13}" | "32 \<le> ?n" "?n \<noteq> 34" "?n \<noteq> 92" by force
  then show ?thesis
  proof cases
    case 1
    then have "c = CHR 34 \<or> c = CHR 92" using quote_or_backslash by blast
    then show ?thesis by (auto simp: json_char_def read_escape simp del: read_char.simps)
  next
    case 2
    then show ?thesis by (auto simp: json_char_def read_escape char_code simp del: read_char.simps)
  next
    case 3
    then have "json_char c = CHR 92 # ''u00'' @ [hex_digit (?n div 16), hex_digit (?n mod 16)]"
      by (simp add: json_char_def Let_def)
    moreover have "?n div 16 < 16" "?n mod 16 < 16" using 3(1) by simp_all
    ultimately show ?thesis by (simp only: append_Cons append_assoc append_Nil read_hex [simplified] hex_round)
        (simp add: hex_round)
  next
    case 4
    then show ?thesis by (simp add: json_char_def Let_def)
  qed
qed

lemma json_char_inj: "json_char c @ x = json_char d @ y \<Longrightarrow> c = d \<and> x = y"
  by (metis read_json_char option.inject prod.inject)

lemma json_char_open: "\<exists>e es. json_char c = e # es \<and> e \<noteq> CHR 34"
  using quote_or_backslash(1) by (auto simp: json_char_def Let_def)

lemma chars_inj:
  "concat (map json_char s) @ CHR 34 # r = concat (map json_char t) @ CHR 34 # r' \<Longrightarrow> s = t \<and> r = r'"
proof (induction s arbitrary: t)
  case Nil
  show ?case
  proof (cases t)
    case Nil
    with Nil.prems show ?thesis by simp
  next
    case (Cons d t')
    with Nil.prems json_char_open [of d] show ?thesis by auto
  qed
next
  case (Cons c s)
  then obtain d t' where t: "t = d # t'" using json_char_open [of c] by (cases t) auto
  from Cons.prems t have "c = d \<and> concat (map json_char s) @ CHR 34 # r = concat (map json_char t') @ CHR 34 # r'"
    by (intro json_char_inj) simp
  with Cons.IH t show ?case by blast
qed

lemma json_string_inj: "json_string s @ r = json_string t @ r' \<Longrightarrow> s = t \<and> r = r'"
  unfolding json_string_def by (rule chars_inj) simp


text \<open>The first character of a text tells the constructor.\<close>

definition closing :: "char \<Rightarrow> bool" where
  "closing c = (c = CHR '','' \<or> c = CHR '']'' \<or> c = CHR ''}'')"

definition ends :: "string \<Rightarrow> bool" where
  "ends r = (r = [] \<or> closing (hd r))"

fun kind_of :: "json \<Rightarrow> nat" where
  "kind_of JNull = 0" | "kind_of (JBool _) = 1" | "kind_of (JNum _) = 2"
| "kind_of (JStr _) = 3" | "kind_of (JArr _) = 4" | "kind_of (JObj _) = 5"

definition lead :: "char \<Rightarrow> nat" where
  "lead c = (if c = CHR ''n'' then 0 else if c = CHR ''t'' \<or> c = CHR ''f'' then 1
     else if c = CHR 34 then 3 else if c = CHR ''['' then 4 else if c = CHR ''{'' then 5 else 2)"

lemma number_lead: "is_digit c \<or> c = CHR ''-'' \<Longrightarrow> lead c = 2 \<and> \<not> closing c"
proof -
  have "\<not> is_digit d" if "d \<in> {CHR ''n'', CHR ''t'', CHR ''f'', CHR 34, CHR ''['', CHR ''{'', CHR '','', CHR '']'', CHR ''}''}" for d
    using that by (auto simp: is_digit_def)
  then show "is_digit c \<or> c = CHR ''-'' \<Longrightarrow> lead c = 2 \<and> \<not> closing c"
    unfolding lead_def closing_def by fastforce
qed

lemma stable_lead:
  assumes "json_ok v"
  shows "\<exists>c cs. stableJson v = c # cs \<and> lead c = kind_of v \<and> \<not> closing c"
proof (cases v)
  case (JNum t)
  with assms obtain c cs where "t = c # cs" "is_digit c \<or> c = CHR ''-''"
    by (cases t) (auto simp: number_text_def)
  then show ?thesis using JNum number_lead by simp
qed (simp_all add: lead_def closing_def json_string_def)

lemma same_kind:
  assumes "json_ok v" "json_ok w" "stableJson v @ r = stableJson w @ r'"
  shows "kind_of v = kind_of w"
  using stable_lead [OF assms(1)] stable_lead [OF assms(2)] assms(3) by auto

lemma closing_number: "closing c \<Longrightarrow> \<not> number_char c"
  by (auto simp: closing_def number_char_def is_digit_def)

lemma number_inj:
  assumes "number_text t" "number_text u" "ends r" "ends r'" "t @ r = u @ r'"
  shows "t = u \<and> r = r'"
proof -
  have tw: "takeWhile number_char (x @ z) = x" if "number_text x" "ends z" for x z
  proof -
    have "takeWhile number_char z = []" using that(2) closing_number by (cases z) (auto simp: ends_def)
    then show ?thesis using that(1) by (simp add: number_text_def list_all_iff)
  qed
  have "t = u" using tw [OF assms(1,3)] tw [OF assms(2,4)] assms(5) by simp
  then show ?thesis using assms(5) by simp
qed

text \<open>A list of texts, joined and closed, is read back element by element.\<close>

lemma tail_inj:
  assumes "concat (map (\<lambda>x. CHR '','' # p x) xs) @ c # r = concat (map (\<lambda>x. CHR '','' # p x) ys) @ c # r'"
    and "closing c" "c \<noteq> CHR '',''"
    and step: "\<And>x y a b. x \<in> set xs \<Longrightarrow> y \<in> set ys \<Longrightarrow> ends a \<Longrightarrow> ends b \<Longrightarrow> p x @ a = p y @ b \<Longrightarrow> f x = f y \<and> a = b"
  shows "map f xs = map f ys \<and> r = r'"
  using assms(1) step
proof (induction xs arbitrary: ys)
  case Nil
  then show ?case using assms(3) by (cases ys) auto
next
  case (Cons x xs)
  from Cons.prems(1) assms(3) obtain y ys' where ys: "ys = y # ys'" by (cases ys) auto
  let ?a = "concat (map (\<lambda>x. CHR '','' # p x) xs) @ c # r" and ?b = "concat (map (\<lambda>x. CHR '','' # p x) ys') @ c # r'"
  have e: "ends (concat (map (\<lambda>x. CHR '','' # p x) zs) @ c # q)" for zs q
    using assms(2) by (cases zs) (simp_all add: ends_def closing_def)
  have "p x @ ?a = p y @ ?b" using Cons.prems(1) ys by simp
  with Cons.prems(2) [of x y ?a ?b] ys e have "f x = f y \<and> ?a = ?b" by auto
  moreover have "map f xs = map f ys' \<and> r = r'" if "?a = ?b"
    by (rule Cons.IH [OF that]) (use Cons.prems(2) ys in auto)
  ultimately show ?case using ys by simp
qed

lemma join_inj:
  assumes "comma_join (map p xs) @ c # r = comma_join (map p ys) @ c # r'"
    and "closing c" "c \<noteq> CHR '',''"
    and open_: "\<And>x. x \<in> set xs \<union> set ys \<Longrightarrow> \<exists>d ds. p x = d # ds \<and> \<not> closing d"
    and step: "\<And>x y a b. x \<in> set xs \<Longrightarrow> y \<in> set ys \<Longrightarrow> ends a \<Longrightarrow> ends b \<Longrightarrow> p x @ a = p y @ b \<Longrightarrow> f x = f y \<and> a = b"
  shows "map f xs = map f ys \<and> r = r'"
proof (cases "xs = [] \<or> ys = []")
  case True
  with assms(1,2) show ?thesis
    using open_ [of "hd xs"] open_ [of "hd ys"] by (cases xs; cases ys) auto
next
  case False
  have cs: "CHR '','' # comma_join (map p zs) = concat (map (\<lambda>x. CHR '','' # p x) zs)" if "zs \<noteq> []" for zs
    using that by (cases zs) (simp_all add: comp_def)
  have "concat (map (\<lambda>x. CHR '','' # p x) zs) @ q = CHR '','' # comma_join (map p zs) @ q" if "zs \<noteq> []" for zs q
    using cs [OF that, symmetric] by (simp only: append_Cons)
  with assms(1) False have "concat (map (\<lambda>x. CHR '','' # p x) xs) @ c # r = concat (map (\<lambda>x. CHR '','' # p x) ys) @ c # r'"
    by presburger
  then show ?thesis using assms(2,3) step by (rule tail_inj)
qed


text \<open>The members of an object, as printed.\<close>

abbreviation member_text :: "string \<times> json \<Rightarrow> string" where
  "member_text kv \<equiv> json_string (fst kv) @ CHR '':'' # stableJson (snd kv)"

abbreviation sorted_member :: "string \<times> json \<Rightarrow> string \<times> json" where
  "sorted_member kv \<equiv> (fst kv, sorted_keys (snd kv))"

lemma member_inj:
  assumes "member_text x @ a = member_text y @ b"
    and "\<And>a b. stableJson (snd x) @ a = stableJson (snd y) @ b \<Longrightarrow> ends a \<Longrightarrow> ends b \<Longrightarrow> sorted_keys (snd x) = sorted_keys (snd y) \<and> a = b"
    and "ends a" "ends b"
  shows "sorted_member x = sorted_member y \<and> a = b"
proof -
  have "fst x = fst y \<and> CHR '':'' # stableJson (snd x) @ a = CHR '':'' # stableJson (snd y) @ b"
    by (rule json_string_inj) (use assms(1) in simp)
  then show ?thesis using assms(2) [of a b] assms(3,4) by simp
qed

lemma member_open: "\<exists>d ds. member_text x = d # ds \<and> \<not> closing d"
  by (simp add: json_string_def closing_def)

text \<open>Equal texts come from values that are equal up to key order, whatever follows them.\<close>

lemma stable_inj:
  "stableJson v @ r = stableJson w @ r' \<Longrightarrow> json_ok v \<Longrightarrow> json_ok w \<Longrightarrow> ends r \<Longrightarrow> ends r' \<Longrightarrow>
     sorted_keys v = sorted_keys w \<and> r = r'"
proof (induction v arbitrary: w r r' rule: stableJson.induct)
  case 1
  then have "kind_of w = 0" using same_kind [of JNull w] by fastforce
  then show ?case using 1 by (cases w) simp_all
next
  case (2 b)
  then have "kind_of w = 1" using same_kind [of "JBool b" w] by fastforce
  then show ?case using 2 by (cases w) (auto split: if_splits)
next
  case (3 t)
  then have "kind_of w = 2" using same_kind [of "JNum t" w] by fastforce
  then obtain u where w: "w = JNum u" by (cases w) simp_all
  show ?case using number_inj [of t u r r'] 3 w by simp
next
  case (4 s)
  then have "kind_of w = 3" using same_kind [of "JStr s" w] by fastforce
  then obtain u where w: "w = JStr u" by (cases w) simp_all
  show ?case using json_string_inj [of s r u r'] 4 w by simp
next
  case (5 vs)
  then have "kind_of w = 4" using same_kind [of "JArr vs" w] by fastforce
  then obtain ws where w: "w = JArr ws" by (cases w) simp_all
  have "map sorted_keys vs = map sorted_keys ws \<and> r = r'"
  proof (rule join_inj)
    show "comma_join (map stableJson vs) @ CHR '']'' # r = comma_join (map stableJson ws) @ CHR '']'' # r'"
      using "5.prems"(1) w by simp
    show "\<exists>d ds. stableJson x = d # ds \<and> \<not> closing d" if "x \<in> set vs \<union> set ws" for x
      using stable_lead [of x] that "5.prems"(2,3) w by auto
    show "sorted_keys x = sorted_keys y \<and> a = b"
      if "x \<in> set vs" "y \<in> set ws" "ends a" "ends b" "stableJson x @ a = stableJson y @ b" for x y a b
      using "5.IH" [OF that(1) that(5)] that "5.prems"(2,3) w by simp
  qed (simp_all add: closing_def)
  then show ?case using w by simp
next
  case (6 kvs)
  then have "kind_of w = 5" using same_kind [of "JObj kvs" w] by fastforce
  then obtain kws where w: "w = JObj kws" by (cases w) simp_all
  have "map sorted_member (sort_key fst kvs) = map sorted_member (sort_key fst kws) \<and> r = r'"
  proof (rule join_inj)
    show "comma_join (map member_text (sort_key fst kvs)) @ CHR ''}'' # r = comma_join (map member_text (sort_key fst kws)) @ CHR ''}'' # r'"
      using "6.prems"(1) w by simp
    show "\<exists>d ds. member_text x = d # ds \<and> \<not> closing d" if "x \<in> set (sort_key fst kvs) \<union> set (sort_key fst kws)" for x
      by (rule member_open)
    show "sorted_member x = sorted_member y \<and> a = b"
      if "x \<in> set (sort_key fst kvs)" "y \<in> set (sort_key fst kws)" "ends a" "ends b" "member_text x @ a = member_text y @ b" for x y a b
    proof (rule member_inj [OF that(5) _ that(3,4)])
      show "sorted_keys (snd x) = sorted_keys (snd y) \<and> p = q"
        if e: "stableJson (snd x) @ p = stableJson (snd y) @ q" "ends p" "ends q" for p q
        using "6.IH" [OF \<open>x \<in> _\<close> e(1)] e(2,3) "6.prems"(2,3) w \<open>x \<in> _\<close> \<open>y \<in> _\<close> by simp
    qed
  qed (simp_all add: closing_def)
  then show ?case using w by simp
qed

text \<open>The sorted value prints as the value itself.\<close>

lemma sort_members: "sort_key fst (map sorted_member (sort_key fst kvs)) = map sorted_member (sort_key fst kvs)"
  by (rule sort_key_id_if_sorted) (simp add: comp_def)

lemma stable_sorted: "stableJson (sorted_keys v) = stableJson v"
proof (induction v rule: stableJson.induct)
  case (5 vs)
  then show ?case by (simp add: comp_def cong: map_cong)
next
  case (6 kvs)
  have "stableJson (sorted_keys (JObj kvs)) = CHR ''{'' # comma_join (map member_text (map sorted_member (sort_key fst kvs))) @ ''}''"
    by (simp only: sorted_keys.simps stableJson.simps sort_members)
  also have "map member_text (map sorted_member (sort_key fst kvs)) = map member_text (sort_key fst kvs)"
    using 6 by simp
  finally show ?case by simp
qed simp_all

text \<open>
  C37.  The stable text identifies a value up to key order: two JSON values have the same text exactly
  when they are equal after the keys of every object are sorted.
\<close>

theorem stable_json_canonical:
  assumes "json_ok v" and "json_ok w"
  shows "stableJson v = stableJson w \<longleftrightarrow> sorted_keys v = sorted_keys w"
proof
  assume "stableJson v = stableJson w"
  then show "sorted_keys v = sorted_keys w"
    using stable_inj [of v "[]" w "[]"] assms by (simp add: ends_def)
next
  assume "sorted_keys v = sorted_keys w"
  then show "stableJson v = stableJson w" using stable_sorted [of v] stable_sorted [of w] by simp
qed

theorem stable_json_canonical_witness:
  "stableJson (JObj [(''b'', JNum ''1''), (''a'', JArr [JNull])]) = stableJson (JObj [(''a'', JArr [JNull]), (''b'', JNum ''1'')])"
  by (subst stable_json_canonical) (simp_all add: number_text_def number_char_def is_digit_def)

end
