(* ===== verification/WebhookSecurity.thy ===== *)
theory WebhookSecurity
  imports JsonText
begin

text \<open>
  Webhooks of payment providers (\<open>security/webhookSecurity.ts\<close>): signatures as hexadecimal texts, and the audit
  table of the notifications received.  SHA-512 is a parameter: it maps a text to its hexadecimal digest.
\<close>

section \<open>Signatures\<close>

definition hex_val :: "char \<Rightarrow> nat option" where
  "hex_val c =
     (let n = of_char c :: nat in
      if 48 \<le> n \<and> n \<le> 57 then Some (n - 48)
      else if 97 \<le> n \<and> n \<le> 102 then Some (n - 87)
      else if 65 \<le> n \<and> n \<le> 70 then Some (n - 55)
      else None)"

text \<open>\<open>Buffer.from(s, 'hex')\<close>: pairs of digits up to the first pair that is not one.\<close>

fun hex_decode :: "string \<Rightarrow> nat list" where
  "hex_decode (a # b # cs) =
     (case (hex_val a, hex_val b) of
        (Some x, Some y) \<Rightarrow> (16 * x + y) # hex_decode cs
      | _ \<Rightarrow> [])"
| "hex_decode _ = []"

definition strip_scheme :: "string \<Rightarrow> string" where
  "strip_scheme signature =
     (if starts_with ''sha256='' signature then drop (length ''sha256='') signature else signature)"

definition hex_text :: "string \<Rightarrow> bool" where
  "hex_text t \<longleftrightarrow> t \<noteq> [] \<and> list_all (\<lambda>c. hex_val c \<noteq> None) t"

definition timingSafeEqualHex :: "string \<Rightarrow> string \<Rightarrow> bool" where
  "timingSafeEqualHex expected provided \<longleftrightarrow> expected \<noteq> [] \<and> provided \<noteq> [] \<and> hex_text (strip_scheme expected) \<and> hex_text (strip_scheme provided)
     \<and> hex_decode (strip_scheme expected) = hex_decode (strip_scheme provided)"

text \<open>A field that is missing, or not a text, counts as empty.\<close>

definition verifyMidtransSignature ::
  "(string \<Rightarrow> string) \<Rightarrow> string option \<Rightarrow> string option \<Rightarrow> string option \<Rightarrow> string option \<Rightarrow> string \<Rightarrow> bool" where
  "verifyMidtransSignature sha512 order_id status_code gross_amount signature_key server_key =
     (let i = str_or order_id []; c = str_or status_code []; g = str_or gross_amount []; k = str_or signature_key [] in
      if server_key = [] \<or> i = [] \<or> c = [] \<or> g = [] \<or> k = [] then False
      else timingSafeEqualHex (sha512 (i @ c @ g @ server_key)) k)"

section \<open>The audit table\<close>

record webhook_audit =
  wha_id :: uuid
  wha_provider :: string
  wha_event :: "string option"
  wha_verification :: string
  wha_processing :: string
  wha_error :: "string option"

definition audit_is :: "string \<Rightarrow> string option \<Rightarrow> webhook_audit \<Rightarrow> bool" where
  "audit_is provider event a \<longleftrightarrow> wha_provider a = provider \<and> wha_event a = event \<and> wha_verification a = ''valid''"

text \<open>
  The partial unique index covers the valid rows with an event id.  The result tells whether the row is
  a duplicate; the text of an empty event id would not count as one.
\<close>

definition insert_audit ::
  "uuid \<Rightarrow> string \<Rightarrow> string option \<Rightarrow> string \<Rightarrow> string \<Rightarrow> string option \<Rightarrow> webhook_audit list \<Rightarrow> bool \<times> webhook_audit list" where
  "insert_audit new_id provider event verification processing err as =
     (if event \<noteq> None \<and> verification = ''valid'' \<and> list_ex (audit_is provider event) as then (str_or event [] \<noteq> [], as)
      else (False, as @ [\<lparr>wha_id = new_id, wha_provider = provider, wha_event = event,
        wha_verification = verification, wha_processing = processing, wha_error = err\<rparr>]))"

definition update_audit :: "uuid \<Rightarrow> string \<Rightarrow> string option \<Rightarrow> webhook_audit list \<Rightarrow> webhook_audit list" where
  "update_audit i processing err as =
     map (\<lambda>a. if wha_id a = i
          then a\<lparr>wha_processing := processing, wha_error := (case err of None \<Rightarrow> wha_error a | Some e \<Rightarrow> Some e)\<rparr>
          else a) as"

lemma update_audit_is [simp]: "list_ex (audit_is p e) (update_audit i pr er as) = list_ex (audit_is p e) as"
  unfolding update_audit_def by (induction as) (simp_all add: audit_is_def)

lemma insert_audit_valid:
  "insert_audit i p (Some e) ''valid'' pr er as = (False, as') \<Longrightarrow> e \<noteq> [] \<Longrightarrow> list_ex (audit_is p (Some e)) as'"
  by (auto simp: insert_audit_def str_or_def audit_is_def split: if_splits)

lemma insert_audit_again:
  "list_ex (audit_is p (Some e)) as \<Longrightarrow> e \<noteq> [] \<Longrightarrow> insert_audit i p (Some e) ''valid'' pr er as = (True, as)"
  by (simp add: insert_audit_def str_or_def)

end
