(* ===== verification/PayoutStore.thy ===== *)
theory PayoutStore
  imports PayoutLedger WebhookSecurity
begin

text \<open>
  The database state behind the courier payouts: the rows of the payout tables (columns that
  some modelled operation reads, with the write-only hashes, snapshots and free-form metadata
  left out), the SQL expressions the services share, the audit writer of
  \<open>utils/payoutObservability.ts\<close> and the reversal of \<open>services/payoutProviderDispatcher.ts\<close>.

  A table is the list of its rows in insertion order.  A handler runs inside a transaction that
  holds row locks, so one handler is one step on the store; a thrown error is \<open>Inl\<close> and the
  caller keeps the old store (ROLLBACK).  Rows refer to each other by id; ids are fresh
  UUIDs given as arguments.  The ledger is append-only (a trigger refuses updates and deletes).
\<close>

section \<open>Rows\<close>

datatype provider_status = Processing | Unknown | Paid | Failed

primrec provider_status_text :: "provider_status \<Rightarrow> string" where
  "provider_status_text Processing = ''processing''"
| "provider_status_text Unknown = ''unknown''"
| "provider_status_text Paid = ''paid''"
| "provider_status_text Failed = ''failed''"

datatype severity = Info | Warning | Critical

text \<open>\<open>system_configs.value\<close>: the JSON scalars a configuration row holds.\<close>

datatype config_value = CBool bool | CNum int | CStr string

text \<open>\<open>destination_snapshot\<close>: the account as it was when the request was made.\<close>

record destination =
  dst_bank_code :: string
  dst_account_name :: string
  dst_last4 :: string
  dst_vault_ref :: string

record payout_request =
  req_id :: uuid
  req_courier :: uuid
  req_account :: uuid
  req_amount :: int
  req_fee :: int
  req_status :: string
  req_key :: string
  req_destination :: destination
  req_balance_before :: int
  req_failure_reason :: "string option"
  req_provider_name :: "string option"
  req_provider_reference :: "string option"
  req_requested_at :: instant
  req_created_at :: instant
  req_updated_at :: instant
  req_reviewed_by :: "uuid option"
  req_reviewed_at :: "instant option"
  req_processed_by :: "uuid option"
  req_processed_at :: "instant option"
  req_paid_at :: "instant option"

record payout_account =
  acc_id :: uuid
  acc_courier :: uuid
  acc_status :: string
  acc_primary :: bool
  acc_bank_code :: string
  acc_name :: string
  acc_last4 :: string
  acc_vault_ref :: string
  acc_fingerprint :: "string option"
  acc_verified_by :: "uuid option"
  acc_verified_at :: "instant option"
  acc_created_at :: instant

record ledger_row =
  led_courier :: uuid
  led_order :: "uuid option"
  led_source :: string
  led_direction :: ledger_direction
  led_amount :: int
  led_settlement :: string
  led_type :: string
  led_request :: "uuid option"
  led_withdrawable :: bool

record dispatch_row =
  dis_request :: uuid
  dis_courier :: uuid
  dis_provider :: string
  dis_reference :: string
  dis_status :: provider_status
  dis_key :: string
  dis_failure_reason :: "string option"
  dis_attempts :: nat
  dis_dispatched_at :: instant
  dis_completed_at :: "instant option"
  dis_created_at :: instant
  dis_updated_at :: instant

record audit_row =
  aud_event :: string
  aud_severity :: severity
  aud_courier :: "uuid option"
  aud_request :: "uuid option"
  aud_old :: "string option"
  aud_new :: "string option"
  aud_device :: "string option"
  aud_alert_type :: "string option"
  aud_at :: instant

record risk_decision_row =
  dec_request :: uuid
  dec_courier :: uuid
  dec_decision :: string
  dec_level :: string
  dec_score :: int
  dec_reasons :: "string list"
  dec_device :: "string option"
  dec_ip :: "string option"
  dec_at :: instant

record dispute_row =
  dsp_id :: uuid
  dsp_order :: uuid
  dsp_status :: string

record courier_profile =
  prof_user :: uuid
  prof_rating :: rat
  prof_complaints :: int
  prof_complaint_ratio :: rat

record webhook_event =
  whk_provider :: string
  whk_event :: string
  whk_reference :: string
  whk_processed_at :: "instant option"

record payout_store =
  requests :: "payout_request list"
  accounts :: "payout_account list"
  ledger :: "ledger_row list"
  dispatches :: "dispatch_row list"
  decisions :: "risk_decision_row list"
  audits :: "audit_row list"
  disputes :: "dispute_row list"
  profiles :: "courier_profile list"
  configs :: "(string \<times> config_value) list"
  webhook_events :: "webhook_event list"
  webhook_audits :: "webhook_audit list"
  finance_log :: "(string \<times> string) list"

definition empty_store :: payout_store where
  "empty_store = \<lparr>requests = [], accounts = [], ledger = [], dispatches = [], decisions = [],
     audits = [], disputes = [], profiles = [], configs = [], webhook_events = [],
     webhook_audits = [], finance_log = []\<rparr>"

section \<open>Constraints and lookups\<close>

text \<open>The check constraint on \<open>courier_payout_requests.status\<close>.\<close>

definition request_statuses :: "string list" where
  "request_statuses =
     [''requested'', ''risk_screening'', ''approved_auto'', ''risk_hold'', ''manual_review'',
      ''under_review'', ''approved'', ''processing'', ''paid'', ''failed'', ''rejected'',
      ''blocked'', ''cancelled'']"

datatype db_error = CheckViolation string | UniqueViolation string | Thrown string

definition find_request :: "payout_store \<Rightarrow> uuid \<Rightarrow> payout_request option" where
  "find_request s i = find (\<lambda>r. req_id r = i) (requests s)"

definition find_account :: "payout_store \<Rightarrow> uuid \<Rightarrow> payout_account option" where
  "find_account s i = find (\<lambda>a. acc_id a = i) (accounts s)"

text \<open>\<open>UPDATE courier_payout_requests SET \<dots> WHERE id = $i\<close>, with its check constraint.\<close>

definition update_request ::
  "uuid \<Rightarrow> (payout_request \<Rightarrow> payout_request) \<Rightarrow> payout_store \<Rightarrow> db_error + payout_store" where
  "update_request i f s =
     (let rs = map (\<lambda>r. if req_id r = i then f r else r) (requests s) in
      if list_all (\<lambda>r. req_id r = i \<longrightarrow> req_status (f r) \<in> set request_statuses) (requests s)
      then Inr (s\<lparr>requests := rs\<rparr>)
      else Inl (CheckViolation ''courier_payout_requests_status_check''))"

definition req_net_amount :: "payout_request \<Rightarrow> int" where
  "req_net_amount r = req_amount r - req_fee r"

text \<open>\<open>date_trunc('day', NOW())\<close> for a session in UTC; times are milliseconds.\<close>

definition day_start :: "instant \<Rightarrow> instant" where
  "day_start now = now - now mod 86400000"

definition hour_ms :: int where "hour_ms = 3600000"
definition minute_ms :: int where "minute_ms = 60000"

section \<open>SQL expressions over the ledger\<close>

text \<open>The open-dispute test of the payout queries.\<close>

definition open_dispute :: "payout_store \<Rightarrow> uuid option \<Rightarrow> bool" where
  "open_dispute s order_id =
     (case order_id of None \<Rightarrow> False
      | Some i \<Rightarrow> list_ex (\<lambda>d. dsp_order d = i \<and> dsp_status d \<in> set [''open'', ''investigating'', ''pending'']) (disputes s))"

text \<open>The available balance of \<open>request_courier_payout\<close> (disputed credits excluded).\<close>

definition available_balance :: "payout_store \<Rightarrow> uuid \<Rightarrow> int" where
  "available_balance s c =
     sum_list (map (\<lambda>l. if led_courier l \<noteq> c then 0
        else if led_direction l = Credit \<and> led_settlement l = ''available''
                \<and> \<not> open_dispute s (led_order l) then led_amount l
        else if led_direction l = Debit \<and> led_settlement l \<in> set [''requested'', ''processing'', ''paid'']
          then - led_amount l
        else 0) (ledger s))"

text \<open>The available balance the risk engine reads (no dispute test).\<close>

definition ledger_balance :: "payout_store \<Rightarrow> uuid \<Rightarrow> int" where
  "ledger_balance s c =
     sum_list (map (\<lambda>l. if led_courier l \<noteq> c then 0
        else if led_direction l = Credit \<and> led_settlement l = ''available'' then led_amount l
        else if led_direction l = Debit \<and> led_settlement l \<in> set [''requested'', ''processing'', ''paid'']
          then - led_amount l
        else 0) (ledger s))"

section \<open>The HTTP request and the audit writer\<close>

datatype header = HStr string | HList "string list"

record http_request =
  x_forwarded_for :: "header option"
  x_device_id :: "header option"
  x_client_device_id :: "header option"
  remote_address :: "string option"
  user_id :: "uuid option"
  user_role :: "string option"

text \<open>\<open>a || b\<close> on header values: the empty string is falsy, an array is truthy.\<close>

definition header_or :: "header option \<Rightarrow> header option \<Rightarrow> header option" where
  "header_or a b = (case a of None \<Rightarrow> b | Some (HStr s) \<Rightarrow> if s = [] then b else a | Some (HList _) \<Rightarrow> a)"

definition requestDeviceId :: "http_request option \<Rightarrow> string option" where
  "requestDeviceId req =
     (case req of None \<Rightarrow> None
      | Some r \<Rightarrow>
         (case header_or (x_device_id r) (x_client_device_id r) of
            None \<Rightarrow> None
          | Some (HList xs) \<Rightarrow> (case xs of [] \<Rightarrow> None | x # _ \<Rightarrow> Some x)
          | Some (HStr s) \<Rightarrow> if s = [] then None else Some s))"

definition requestIp :: "http_request option \<Rightarrow> string option" where
  "requestIp req =
     (case req of None \<Rightarrow> None
      | Some r \<Rightarrow>
         (let raw = (case header_or (x_forwarded_for r) (map_option HStr (remote_address r)) of
                       None \<Rightarrow> None
                     | Some (HList xs) \<Rightarrow> (case xs of [] \<Rightarrow> None | x # _ \<Rightarrow> Some x)
                     | Some (HStr s) \<Rightarrow> Some s)
          in case raw of None \<Rightarrow> None
             | Some s \<Rightarrow> if s = [] then None
                         else Some (remove_first ''::ffff:'' (js_trim (split_head CHR '','' s)))))"

text \<open>
  \<open>writePayoutAuditEvent\<close>: one row of \<open>courier_payout_security_events\<close>, with the device id of the
  request.  (The insert is inside a try/catch and every event type used is in the table's check.)
\<close>

definition writePayoutAuditEvent ::
  "instant \<Rightarrow> http_request option \<Rightarrow> string \<Rightarrow> severity \<Rightarrow> uuid option \<Rightarrow> uuid option
   \<Rightarrow> string option \<Rightarrow> string option \<Rightarrow> string option \<Rightarrow> payout_store \<Rightarrow> payout_store" where
  "writePayoutAuditEvent now req event sev courier request_id old new alert s =
     s\<lparr>audits := audits s @
        [\<lparr>aud_event = event, aud_severity = sev, aud_courier = courier, aud_request = request_id,
          aud_old = old, aud_new = new, aud_device = requestDeviceId req, aud_alert_type = alert,
          aud_at = now\<rparr>]\<rparr>"

section \<open>The hold and the reversal of a payout\<close>

text \<open>The row \<open>request_courier_payout\<close> writes for a new request, and the key of its dispatch.\<close>

definition requested_row :: "uuid \<Rightarrow> int \<Rightarrow> uuid \<Rightarrow> ledger_row" where
  "requested_row c amount i =
     \<lparr>led_courier = c, led_order = None, led_source = ''payout'', led_direction = Debit,
      led_amount = amount, led_settlement = ''requested'', led_type = ''payout_requested'',
      led_request = Some i, led_withdrawable = True\<rparr>"

definition providerIdempotencyKey :: "uuid \<Rightarrow> string" where
  "providerIdempotencyKey i = ''courier-payout:'' @ i @ '':v1''"

definition has_reversal :: "payout_store \<Rightarrow> uuid \<Rightarrow> bool" where
  "has_reversal s i = list_ex (\<lambda>l. led_request l = Some i \<and> led_type l = ''payout_failed'') (ledger s)"

definition reversal_row :: "uuid \<Rightarrow> int \<Rightarrow> uuid \<Rightarrow> ledger_row" where
  "reversal_row courier amount i =
     \<lparr>led_courier = courier, led_order = None, led_source = ''payout'', led_direction = Credit,
      led_amount = amount, led_settlement = ''available'', led_type = ''payout_failed'',
      led_request = Some i, led_withdrawable = True\<rparr>"

text \<open>
  \<open>SELECT 1 \<dots> transaction_type = 'payout_failed'\<close> followed by the conditional insert, the block
  the risk engine, the dispatcher and both admin handlers share.
\<close>

definition ensure_reversal :: "uuid \<Rightarrow> int \<Rightarrow> uuid \<Rightarrow> payout_store \<Rightarrow> payout_store" where
  "ensure_reversal courier amount i s =
     (if has_reversal s i then s else s\<lparr>ledger := ledger s @ [reversal_row courier amount i]\<rparr>)"

section \<open>Lemmas\<close>

lemma update_request_ok:
  assumes "\<And>r. req_id r = i \<Longrightarrow> req_status (f r) \<in> set request_statuses"
  shows "update_request i f s = Inr (s\<lparr>requests := map (\<lambda>r. if req_id r = i then f r else r) (requests s)\<rparr>)"
  using assms by (auto simp: update_request_def list_all_iff)

lemma has_reversal_ensure [simp]: "has_reversal (ensure_reversal c a i s) i"
  by (auto simp: ensure_reversal_def has_reversal_def reversal_row_def)

lemma ensure_reversal_fields [simp]:
  "requests (ensure_reversal c a i s) = requests s"
  "accounts (ensure_reversal c a i s) = accounts s"
  "dispatches (ensure_reversal c a i s) = dispatches s"
  "decisions (ensure_reversal c a i s) = decisions s"
  "audits (ensure_reversal c a i s) = audits s"
  "configs (ensure_reversal c a i s) = configs s"
  "webhook_events (ensure_reversal c a i s) = webhook_events s"
  "webhook_audits (ensure_reversal c a i s) = webhook_audits s"
  by (simp_all add: ensure_reversal_def)

end
