(* ===== verification/PayoutAlerts.thy ===== *)
theory PayoutAlerts
  imports PayoutStore
begin

text \<open>
  The payout observability check (\<open>evaluatePayoutAlerts\<close> of \<open>utils/payoutObservability.ts\<close>), which
  the admin handlers, the webhook and the mobile handler run after their own work: six counters
  over the payout tables, each raising at most one audit event, with a 15-minute window per
  alert type.  It writes audit rows only.
\<close>

section \<open>The counters\<close>

record alert_env =
  failed_threshold :: int
  burst_threshold :: int
  provider_latency_minutes :: int
  pending_too_long_minutes :: int
  webhook_missing_minutes :: int

definition shouldEmitAlert :: "instant \<Rightarrow> payout_store \<Rightarrow> string \<Rightarrow> bool" where
  "shouldEmitAlert now s alert \<longleftrightarrow>
     \<not> list_ex (\<lambda>a. aud_event a = ''observability_alert'' \<and> aud_alert_type a = Some alert
                    \<and> aud_at a \<ge> now - 15 * minute_ms) (audits s)"

definition count_if :: "('a \<Rightarrow> bool) \<Rightarrow> 'a list \<Rightarrow> int" where
  "count_if P xs = int (length (filter P xs))"

definition failed_last_hour :: "instant \<Rightarrow> payout_store \<Rightarrow> int" where
  "failed_last_hour now s =
     count_if (\<lambda>r. req_status r \<in> set [''failed'', ''rejected''] \<and> req_updated_at r \<ge> now - hour_ms) (requests s)"

text \<open>\<open>GROUP BY courier_id HAVING COUNT(*) >= $1 ORDER BY count DESC LIMIT 5\<close>, the courier ids.\<close>

definition burst_couriers :: "int \<Rightarrow> instant \<Rightarrow> payout_store \<Rightarrow> uuid list" where
  "burst_couriers threshold now s =
     (let recent = filter (\<lambda>r. req_requested_at r \<ge> now - 10 * minute_ms) (requests s);
          cnt = (\<lambda>c. count_if (\<lambda>r. req_courier r = c) recent)
      in take 5 (sort_key (\<lambda>c. - cnt c)
           (filter (\<lambda>c. cnt c \<ge> threshold) (remdups (map req_courier recent)))))"

definition withdrawable_balance :: "payout_store \<Rightarrow> uuid \<Rightarrow> int" where
  "withdrawable_balance s c =
     sum_list (map (\<lambda>l. if led_courier l \<noteq> c then 0
        else if led_direction l = Credit \<and> led_settlement l = ''available'' \<and> led_withdrawable l then led_amount l
        else if led_direction l = Debit \<and> led_settlement l \<in> set [''requested'', ''processing'', ''paid'']
          then - led_amount l
        else 0) (ledger s))"

definition negative_couriers :: "payout_store \<Rightarrow> uuid list" where
  "negative_couriers s =
     take 5 (filter (\<lambda>c. withdrawable_balance s c < 0) (remdups (map led_courier (ledger s))))"

definition stale_dispatch :: "instant \<Rightarrow> int \<Rightarrow> dispatch_row \<Rightarrow> bool" where
  "stale_dispatch now minutes d \<longleftrightarrow>
     dis_status d = Processing \<and> dis_dispatched_at d < now - minutes * minute_ms"

definition pending_too_long_count :: "instant \<Rightarrow> int \<Rightarrow> payout_store \<Rightarrow> int" where
  "pending_too_long_count now minutes s =
     count_if (\<lambda>r. req_status r \<in> set [''requested'', ''risk_screening'', ''approved_auto'', ''approved'', ''processing'']
                   \<and> req_requested_at r < now - minutes * minute_ms) (requests s)"

definition has_webhook :: "payout_store \<Rightarrow> dispatch_row \<Rightarrow> bool" where
  "has_webhook s d \<longleftrightarrow>
     list_ex (\<lambda>e. whk_provider e = dis_provider d \<and> whk_reference e = dis_reference d) (webhook_events s)"

section \<open>Raising the alerts\<close>

text \<open>\<open>if (condition && await shouldEmitAlert(client, type)) await writePayoutAuditEvent(\<dots>)\<close>.\<close>

definition raise_alert ::
  "bool \<Rightarrow> string \<Rightarrow> string \<Rightarrow> severity \<Rightarrow> uuid option \<Rightarrow> instant \<Rightarrow> payout_store \<Rightarrow> payout_store" where
  "raise_alert cond event alert sev courier now s =
     (if cond \<and> shouldEmitAlert now s alert
      then writePayoutAuditEvent now None event sev courier None None None (Some alert) s else s)"

definition first_of :: "'a list \<Rightarrow> 'a option" where
  "first_of xs = (case xs of [] \<Rightarrow> None | x # _ \<Rightarrow> Some x)"

text \<open>The six alerts of the source, in order: condition, event type, alert type, severity, courier.\<close>

definition payout_alert_rules ::
  "alert_env \<Rightarrow> instant \<Rightarrow> payout_store \<Rightarrow> (bool \<times> string \<times> string \<times> severity \<times> uuid option) list" where
  "payout_alert_rules env now s =
     [(failed_last_hour now s \<ge> failed_threshold env,
       ''observability_alert'', ''failed_payout_spike'', Critical, None),
      (burst_couriers (burst_threshold env) now s \<noteq> [],
       ''observability_alert'', ''abnormal_request_burst'', Warning,
       first_of (burst_couriers (burst_threshold env) now s)),
      (negative_couriers s \<noteq> [],
       ''saldo_mismatch_detected'', ''saldo_mismatch'', Critical, first_of (negative_couriers s)),
      (count_if (stale_dispatch now (provider_latency_minutes env)) (dispatches s) > 0,
       ''observability_alert'', ''provider_latency_high'', Warning, None),
      (pending_too_long_count now (pending_too_long_minutes env) s > 0,
       ''observability_alert'', ''pending_too_long'', Warning, None),
      (count_if (\<lambda>d. stale_dispatch now (webhook_missing_minutes env) d \<and> \<not> has_webhook s d) (dispatches s) > 0,
       ''observability_alert'', ''webhook_missing'', Warning, None)]"

text \<open>The counters are read before the first alert is written; then the alerts are raised in turn.\<close>

definition evaluatePayoutAlerts :: "alert_env \<Rightarrow> instant \<Rightarrow> payout_store \<Rightarrow> payout_store" where
  "evaluatePayoutAlerts env now s =
     foldl (\<lambda>t (cond, event, alert, sev, courier). raise_alert cond event alert sev courier now t)
       s (payout_alert_rules env now s)"

section \<open>Lemmas: the check writes audit rows only\<close>

text \<open>Two stores that differ in their audit rows only.\<close>

definition same_but_audits :: "payout_store \<Rightarrow> payout_store \<Rightarrow> bool" where
  "same_but_audits s t \<longleftrightarrow> t = s\<lparr>audits := audits t\<rparr>"

lemma same_but_audits_refl [simp, intro]: "same_but_audits s s"
  by (simp add: same_but_audits_def)

lemma same_but_audits_trans: "same_but_audits s t \<Longrightarrow> same_but_audits t u \<Longrightarrow> same_but_audits s u"
  by (cases s; cases t; cases u) (auto simp: same_but_audits_def)

lemma same_but_audits_fields:
  assumes "same_but_audits s t"
  shows "requests t = requests s" "accounts t = accounts s" "ledger t = ledger s"
    "dispatches t = dispatches s" "decisions t = decisions s" "disputes t = disputes s"
    "profiles t = profiles s" "configs t = configs s" "webhook_events t = webhook_events s"
    "webhook_audits t = webhook_audits s" "finance_log t = finance_log s"
  using assms by (cases s; cases t; simp add: same_but_audits_def)+

lemma writePayoutAuditEvent_fields [simp]:
  "requests (writePayoutAuditEvent now req ev sv c r old new al s) = requests s"
  "accounts (writePayoutAuditEvent now req ev sv c r old new al s) = accounts s"
  "ledger (writePayoutAuditEvent now req ev sv c r old new al s) = ledger s"
  "dispatches (writePayoutAuditEvent now req ev sv c r old new al s) = dispatches s"
  "decisions (writePayoutAuditEvent now req ev sv c r old new al s) = decisions s"
  "disputes (writePayoutAuditEvent now req ev sv c r old new al s) = disputes s"
  "profiles (writePayoutAuditEvent now req ev sv c r old new al s) = profiles s"
  "configs (writePayoutAuditEvent now req ev sv c r old new al s) = configs s"
  "webhook_events (writePayoutAuditEvent now req ev sv c r old new al s) = webhook_events s"
  "webhook_audits (writePayoutAuditEvent now req ev sv c r old new al s) = webhook_audits s"
  "finance_log (writePayoutAuditEvent now req ev sv c r old new al s) = finance_log s"
  by (simp_all add: writePayoutAuditEvent_def)

lemma write_same_but_audits [intro]: "same_but_audits s (writePayoutAuditEvent now req ev sv c r old new al s)"
  by (simp add: same_but_audits_def writePayoutAuditEvent_def)

lemma raise_alert_same [intro]: "same_but_audits s (raise_alert cond ev al sv c now s)"
  by (auto simp: raise_alert_def)

lemma raise_all_same:
  "same_but_audits s (foldl (\<lambda>t (cond, event, alert, sev, courier).
     raise_alert cond event alert sev courier now t) s rules)"
  by (induction rules rule: rev_induct) (auto intro: same_but_audits_trans [OF _ raise_alert_same])

lemma evaluatePayoutAlerts_same: "same_but_audits s (evaluatePayoutAlerts env now s)"
  unfolding evaluatePayoutAlerts_def by (rule raise_all_same)

lemmas alert_fields [simp] = same_but_audits_fields [OF evaluatePayoutAlerts_same]

lemma payout_alert_rules_same: "same_but_audits s t \<Longrightarrow> payout_alert_rules env now t = payout_alert_rules env now s"
  by (simp add: payout_alert_rules_def same_but_audits_fields failed_last_hour_def burst_couriers_def
      negative_couriers_def withdrawable_balance_def pending_too_long_count_def has_webhook_def)

section \<open>The alert window\<close>

lemma raise_alert_audits: "set (audits s) \<subseteq> set (audits (raise_alert cond ev al sv c now s))"
  by (auto simp: raise_alert_def writePayoutAuditEvent_def)

lemma raise_all_audits:
  "set (audits s) \<subseteq> set (audits (foldl (\<lambda>t (cond, event, alert, sev, courier).
     raise_alert cond event alert sev courier now t) s rules))"
proof (induction rules arbitrary: s)
  case (Cons x xs)
  then show ?case using raise_alert_audits by (cases x) (fastforce intro: subset_trans)
qed simp

lemma shouldEmit_mono:
  "set (audits s) \<subseteq> set (audits t) \<Longrightarrow> shouldEmitAlert now t al \<Longrightarrow> shouldEmitAlert now s al"
  by (auto simp: shouldEmitAlert_def list_ex_iff)

lemma raise_alert_marks:
  "cond \<Longrightarrow> \<not> shouldEmitAlert now (raise_alert cond ''observability_alert'' al sv c now s) al"
  by (auto simp: raise_alert_def shouldEmitAlert_def writePayoutAuditEvent_def minute_ms_def list_ex_iff)

text \<open>After a run, every observability rule whose condition held is inside its window.\<close>

lemma raise_all_marks:
  "(True, ''observability_alert'', al, sv, c) \<in> set rules \<Longrightarrow>
   \<not> shouldEmitAlert now (foldl (\<lambda>t (cond, event, alert, sev, courier).
      raise_alert cond event alert sev courier now t) s rules) al"
proof (induction rules arbitrary: s)
  case (Cons x xs)
  show ?case
  proof (cases "x = (True, ''observability_alert'', al, sv, c)")
    case True
    have "\<not> shouldEmitAlert now (raise_alert True ''observability_alert'' al sv c now s) al"
      by (rule raise_alert_marks) simp
    with True shouldEmit_mono [OF raise_all_audits] show ?thesis by auto
  next
    case False
    with Cons show ?thesis by (cases x) auto
  qed
qed simp

text \<open>A run over rules that are all inside their window, or not observability alerts.\<close>

lemma raise_all_silent:
  assumes "\<And>cond ev al sv c. (cond, ev, al, sv, c) \<in> set rules \<Longrightarrow> cond \<Longrightarrow>
             ev \<noteq> ''observability_alert'' \<or> \<not> shouldEmitAlert now s al"
  shows "filter (\<lambda>a. aud_event a = ''observability_alert'') (audits (foldl
     (\<lambda>t (cond, event, alert, sev, courier). raise_alert cond event alert sev courier now t) s rules))
   = filter (\<lambda>a. aud_event a = ''observability_alert'') (audits s)"
  using assms
proof (induction rules arbitrary: s)
  case (Cons x xs)
  obtain cond ev al sv c where x: "x = (cond, ev, al, sv, c)" by (cases x)
  let ?t = "raise_alert cond ev al sv c now s"
  have "ev \<noteq> ''observability_alert'' \<or> \<not> cond \<or> \<not> shouldEmitAlert now s al"
    using Cons.prems [of cond ev al sv c] x by auto
  then have "filter (\<lambda>a. aud_event a = ''observability_alert'') (audits ?t)
      = filter (\<lambda>a. aud_event a = ''observability_alert'') (audits s)"
    by (auto simp: raise_alert_def writePayoutAuditEvent_def)
  moreover have "ev' \<noteq> ''observability_alert'' \<or> \<not> shouldEmitAlert now ?t al'"
    if "(cond', ev', al', sv', c') \<in> set xs" "cond'" for cond' ev' al' sv' c'
    using Cons.prems [of cond' ev' al' sv' c'] that shouldEmit_mono [OF raise_alert_audits] by auto
  ultimately show ?case using Cons.IH [of ?t] x by simp
qed simp

text \<open>
  The alert window.  Checking twice at one instant raises no second observability alert: the
  second run leaves those audit rows as they are.
\<close>

theorem alerts_raised_once:
  "filter (\<lambda>a. aud_event a = ''observability_alert'')
     (audits (evaluatePayoutAlerts env now (evaluatePayoutAlerts env now s)))
   = filter (\<lambda>a. aud_event a = ''observability_alert'') (audits (evaluatePayoutAlerts env now s))"
proof -
  let ?t = "evaluatePayoutAlerts env now s"
  have rules: "payout_alert_rules env now ?t = payout_alert_rules env now s"
    by (rule payout_alert_rules_same [OF evaluatePayoutAlerts_same])
  show ?thesis
    unfolding evaluatePayoutAlerts_def [of env now ?t] rules
  proof (rule raise_all_silent)
    fix cond ev al sv c
    assume "(cond, ev, al, sv, c) \<in> set (payout_alert_rules env now s)" and "cond"
    then show "ev \<noteq> ''observability_alert'' \<or> \<not> shouldEmitAlert now ?t al"
      using raise_all_marks [of al sv c "payout_alert_rules env now s" now s]
      by (auto simp: evaluatePayoutAlerts_def)
  qed
qed

section \<open>The balance alert and its window\<close>

definition saldo_rows :: "payout_store \<Rightarrow> int" where
  "saldo_rows s = count_if (\<lambda>a. aud_event a = ''saldo_mismatch_detected'') (audits s)"

lemma saldo_rows_raise:
  "saldo_rows (raise_alert cond ev al sv c now s) =
     saldo_rows s + (if cond \<and> shouldEmitAlert now s al \<and> ev = ''saldo_mismatch_detected'' then 1 else 0)"
  by (simp add: saldo_rows_def count_if_def raise_alert_def writePayoutAuditEvent_def)

lemma saldo_window_raise:
  "ev \<noteq> ''observability_alert'' \<or> al \<noteq> ''saldo_mismatch'' \<Longrightarrow>
   shouldEmitAlert now' (raise_alert cond ev al sv c now s) ''saldo_mismatch''
     = shouldEmitAlert now' s ''saldo_mismatch''"
  by (auto simp: shouldEmitAlert_def raise_alert_def writePayoutAuditEvent_def)

lemma saldo_window_run:
  "shouldEmitAlert now' (evaluatePayoutAlerts env now s) ''saldo_mismatch'' = shouldEmitAlert now' s ''saldo_mismatch''"
  by (simp add: evaluatePayoutAlerts_def payout_alert_rules_def saldo_window_raise)

lemma saldo_rows_run:
  assumes "shouldEmitAlert now s ''saldo_mismatch''"
  shows "saldo_rows (evaluatePayoutAlerts env now s) = saldo_rows s + (if negative_couriers s = [] then 0 else 1)"
  using assms
  by (simp add: evaluatePayoutAlerts_def payout_alert_rules_def saldo_rows_raise saldo_window_raise)

lemma negative_couriers_run: "negative_couriers (evaluatePayoutAlerts env now s) = negative_couriers s"
  by (simp add: negative_couriers_def withdrawable_balance_def)

text \<open>
  The negative-balance alert has no window.  Its audit event is written under the type
  \<open>saldo_mismatch_detected\<close>, while the window looks for \<open>observability_alert\<close> rows, so two checks
  in a row write it twice for as long as a negative balance exists.
\<close>

theorem saldo_alert_repeats:
  assumes "negative_couriers s \<noteq> []" and "shouldEmitAlert now s ''saldo_mismatch''"
  shows "saldo_rows (evaluatePayoutAlerts env now (evaluatePayoutAlerts env now s)) = saldo_rows s + 2"
  using assms saldo_window_run [of now env now s]
  by (simp add: saldo_rows_run negative_couriers_run)

definition overdrawn_store :: payout_store where
  "overdrawn_store = empty_store\<lparr>ledger :=
     [\<lparr>led_courier = ''c1'', led_order = None, led_source = ''payout'', led_direction = Debit,
       led_amount = 10, led_settlement = ''paid'', led_type = ''payout_requested'',
       led_request = Some ''p1'', led_withdrawable = True\<rparr>]\<rparr>"

definition default_alert_env :: alert_env where
  "default_alert_env = \<lparr>failed_threshold = 5, burst_threshold = 5, provider_latency_minutes = 30,
     pending_too_long_minutes = 60, webhook_missing_minutes = 20\<rparr>"

theorem saldo_alert_repeats_witness:
  "saldo_rows (evaluatePayoutAlerts default_alert_env 0
      (evaluatePayoutAlerts default_alert_env 0 overdrawn_store)) = saldo_rows overdrawn_store + 2"
  by (rule saldo_alert_repeats)
    (simp_all add: overdrawn_store_def empty_store_def negative_couriers_def withdrawable_balance_def
      shouldEmitAlert_def)

end
