(* ===== verification/PayoutEffects.thy ===== *)
theory PayoutEffects
  imports PayoutAlerts "HOL-Library.Sublist"
begin

text \<open>
  The abstract specification of the payout store.  \<open>effect\<close> lists the only changes an operation
  may make: open a request together with its hold in the ledger, change the status part of a
  request, credit its reversal once, add or update a provider dispatch, append an earnings row,
  and change the tables that hold no money.  \<open>payout_inv\<close> is the invariant of the money: one hold
  and at most one reversal per request, of the request's amount; \<open>payout_operation\<close> is the contract
  the handlers of the other theories are shown to meet.
\<close>

section \<open>The identity of a request\<close>

text \<open>The columns of a request that no update changes.\<close>

definition same_identity :: "payout_request \<Rightarrow> payout_request \<Rightarrow> bool" where
  "same_identity r r' \<longleftrightarrow>
     req_id r' = req_id r \<and> req_courier r' = req_courier r \<and> req_account r' = req_account r
     \<and> req_amount r' = req_amount r \<and> req_fee r' = req_fee r \<and> req_key r' = req_key r
     \<and> req_destination r' = req_destination r \<and> req_requested_at r' = req_requested_at r"

lemma same_identity_refl [simp, intro!]: "same_identity r r"
  by (simp add: same_identity_def)

lemma same_identity_trans: "same_identity a b \<Longrightarrow> same_identity b c \<Longrightarrow> same_identity a c"
  by (simp add: same_identity_def)

text \<open>The statuses that end a request without paying it.\<close>

definition refund_statuses :: "string list" where
  "refund_statuses = [''failed'', ''rejected'', ''blocked'', ''cancelled'']"

section \<open>Effects\<close>

inductive effect :: "payout_store \<Rightarrow> payout_store \<Rightarrow> bool" where
  other:
    "requests t = requests s \<Longrightarrow> ledger t = ledger s \<Longrightarrow> dispatches t = dispatches s \<Longrightarrow> effect s t"
| update:
    "(\<And>r. same_identity r (f r)) \<Longrightarrow>
     (\<And>r. req_status (f r) \<in> set refund_statuses \<Longrightarrow> req_status r \<in> set refund_statuses) \<Longrightarrow>
     update_request i f s = Inr t \<Longrightarrow> effect s t"
| refund:
    "(\<And>r. same_identity r (f r)) \<Longrightarrow> update_request i f s = Inr t \<Longrightarrow> find_request s i = Some r \<Longrightarrow>
     effect s (ensure_reversal (req_courier r) (req_amount r) i t)"
| open_request:
    "find_request s (req_id r) = None \<Longrightarrow> req_status r \<in> set request_statuses \<Longrightarrow>
     req_status r \<notin> set refund_statuses \<Longrightarrow> 0 < req_amount r \<Longrightarrow>
     \<not> list_ex (\<lambda>q. req_courier q = req_courier r \<and> req_key q = req_key r) (requests s) \<Longrightarrow>
     effect s (s\<lparr>requests := requests s @ [r],
                 ledger := ledger s @ [requested_row (req_courier r) (req_amount r) (req_id r)]\<rparr>)"
| earn:
    "led_request l = None \<Longrightarrow> effect s (s\<lparr>ledger := ledger s @ [l]\<rparr>)"
| dispatch_update:
    "(\<And>d. dis_key (g d) = dis_key d \<and> dis_request (g d) = dis_request d) \<Longrightarrow>
     effect s (s\<lparr>dispatches := map g (dispatches s)\<rparr>)"
| dispatch_add:
    "find_request s (dis_request d) \<noteq> None \<Longrightarrow> dis_key d = providerIdempotencyKey (dis_request d) \<Longrightarrow>
     \<not> list_ex (\<lambda>e. dis_key e = dis_key d) (dispatches s) \<Longrightarrow>
     effect s (s\<lparr>dispatches := dispatches s @ [d]\<rparr>)"

abbreviation effects :: "payout_store \<Rightarrow> payout_store \<Rightarrow> bool" where
  "effects \<equiv> effect\<^sup>*\<^sup>*"

lemmas effects_step = rtranclp.rtrancl_into_rtrancl
lemmas effects_trans = rtranclp_trans [where r = effect]

lemma effect_effects [intro]: "effect s t \<Longrightarrow> effects s t"
  by (rule r_into_rtranclp)

lemma effects_other:
  "effects s t \<Longrightarrow> requests u = requests t \<Longrightarrow> ledger u = ledger t \<Longrightarrow> dispatches u = dispatches t \<Longrightarrow> effects s u"
  by (erule rtranclp.rtrancl_into_rtrancl) (rule effect.other)

section \<open>Lookups under an effect\<close>

lemma find_request_Some:
  "find_request s i = Some r \<Longrightarrow> r \<in> set (requests s) \<and> req_id r = i"
  by (auto simp: find_request_def find_Some_iff)

lemma find_request_None: "find_request s i = None \<longleftrightarrow> i \<notin> req_id ` set (requests s)"
  by (auto simp: find_request_def find_None_iff)

lemma find_distinct:
  "distinct (map req_id rs) \<Longrightarrow> r \<in> set rs \<Longrightarrow> find (\<lambda>q. req_id q = req_id r) rs = Some r"
  by (induction rs) force+

lemma find_append_Some: "find P xs = Some x \<Longrightarrow> find P (xs @ ys) = Some x"
  by (induction xs) auto

lemma find_append_None: "find P xs = None \<Longrightarrow> find P (xs @ ys) = find P ys"
  by (induction xs) (auto split: if_splits)

lemma update_request_Inr:
  "update_request i f s = Inr t \<Longrightarrow>
   t = s\<lparr>requests := map (\<lambda>r. if req_id r = i then f r else r) (requests s)\<rparr>"
  by (simp add: update_request_def split: if_splits)

lemma update_request_statuses:
  "update_request i f s = Inr t \<Longrightarrow> r \<in> set (requests s) \<Longrightarrow> req_id r = i \<Longrightarrow>
   req_status (f r) \<in> set request_statuses"
  by (auto simp: update_request_def list_all_iff split: if_splits)

lemma find_request_update:
  assumes "update_request i f s = Inr t" and "\<And>r. same_identity r (f r)"
  shows "find_request t j = map_option (\<lambda>r. if req_id r = i then f r else r) (find_request s j)"
proof -
  have "req_id (if req_id r = i then f r else r) = req_id r" for r
    using assms(2) [of r] by (simp add: same_identity_def)
  then show ?thesis
    using update_request_Inr [OF assms(1)] by (simp add: find_request_def find_map_id)
qed

text \<open>A request is never lost, and keeps its identity.\<close>

lemma effect_find_request:
  assumes "effect s t" and "find_request s i = Some r"
  shows "\<exists>r'. find_request t i = Some r' \<and> same_identity r r'"
  using assms
proof (induction rule: effect.induct)
  case (update f j s t)
  then show ?case by (auto simp: find_request_update)
next
  case (refund f j s t q)
  then have "find_request t i = Some (if req_id r = j then f r else r)" by (simp add: find_request_update)
  then show ?case using refund(1) by (auto simp: find_request_def)
next
  case (open_request s q)
  then show ?case by (auto simp: find_request_def dest: find_append_Some)
qed (auto simp: find_request_def ensure_reversal_def)

lemma effects_find_request:
  "effects s t \<Longrightarrow> find_request s i = Some r \<Longrightarrow> \<exists>r'. find_request t i = Some r' \<and> same_identity r r'"
  by (induction rule: rtranclp_induct) (simp, blast dest: effect_find_request intro: same_identity_trans)

text \<open>The ledger only grows.\<close>

lemma effect_ledger_prefix: "effect s t \<Longrightarrow> prefix (ledger s) (ledger t)"
  by (induction rule: effect.induct)
    (auto simp: ensure_reversal_def dest: update_request_Inr)

lemma effects_ledger_prefix: "effects s t \<Longrightarrow> prefix (ledger s) (ledger t)"
  by (induction rule: rtranclp_induct) (auto dest: effect_ledger_prefix intro: prefix_order.trans)

section \<open>The invariant of the money\<close>

definition rows_of :: "payout_store \<Rightarrow> uuid \<Rightarrow> ledger_row list" where
  "rows_of s i = filter (\<lambda>l. led_request l = Some i) (ledger s)"

text \<open>The rows of a request: its hold, then at most one reversal.\<close>

definition money_ok :: "payout_store \<Rightarrow> payout_request \<Rightarrow> bool" where
  "money_ok s r \<longleftrightarrow>
     rows_of s (req_id r) \<in>
       {[requested_row (req_courier r) (req_amount r) (req_id r)],
        [requested_row (req_courier r) (req_amount r) (req_id r),
         reversal_row (req_courier r) (req_amount r) (req_id r)]}"

definition payout_inv :: "payout_store \<Rightarrow> bool" where
  "payout_inv s \<longleftrightarrow>
     distinct (map req_id (requests s))
     \<and> distinct (map (\<lambda>r. (req_courier r, req_key r)) (requests s))
     \<and> (\<forall>r \<in> set (requests s). req_status r \<in> set request_statuses \<and> 0 < req_amount r \<and> money_ok s r)
     \<and> (\<forall>r \<in> set (requests s). req_status r \<in> set refund_statuses \<longrightarrow> has_reversal s (req_id r))
     \<and> (\<forall>l \<in> set (ledger s). \<forall>i. led_request l = Some i \<longrightarrow> find_request s i \<noteq> None)
     \<and> distinct (map dis_key (dispatches s))
     \<and> (\<forall>d \<in> set (dispatches s). dis_key d = providerIdempotencyKey (dis_request d)
            \<and> find_request s (dis_request d) \<noteq> None)"

lemma payout_inv_empty [simp]: "payout_inv empty_store"
  by (simp add: payout_inv_def empty_store_def)

lemma has_reversal_rows:
  "has_reversal s i \<longleftrightarrow> list_ex (\<lambda>l. led_type l = ''payout_failed'') (rows_of s i)"
  by (auto simp: has_reversal_def rows_of_def list_ex_iff)

lemma money_ok_reversal:
  "money_ok s r \<Longrightarrow>
   rows_of s (req_id r) =
     requested_row (req_courier r) (req_amount r) (req_id r) #
       (if has_reversal s (req_id r) then [reversal_row (req_courier r) (req_amount r) (req_id r)] else [])"
  by (auto simp: money_ok_def has_reversal_rows requested_row_def reversal_row_def)

lemma money_ok_cong:
  "rows_of t (req_id r) = rows_of s (req_id r) \<Longrightarrow> same_identity r r' \<Longrightarrow> money_ok s r \<Longrightarrow> money_ok t r'"
  by (simp add: money_ok_def same_identity_def)

section \<open>Every effect keeps the invariant\<close>

lemma payout_invI [intro?]:
  assumes "distinct (map req_id (requests s))"
    and "distinct (map (\<lambda>r. (req_courier r, req_key r)) (requests s))"
    and "\<And>r. r \<in> set (requests s) \<Longrightarrow> req_status r \<in> set request_statuses \<and> 0 < req_amount r \<and> money_ok s r"
    and "\<And>r. r \<in> set (requests s) \<Longrightarrow> req_status r \<in> set refund_statuses \<Longrightarrow> has_reversal s (req_id r)"
    and "\<And>l i. l \<in> set (ledger s) \<Longrightarrow> led_request l = Some i \<Longrightarrow> find_request s i \<noteq> None"
    and "distinct (map dis_key (dispatches s))"
    and "\<And>d. d \<in> set (dispatches s) \<Longrightarrow> dis_key d = providerIdempotencyKey (dis_request d)
            \<and> find_request s (dis_request d) \<noteq> None"
  shows "payout_inv s"
  using assms unfolding payout_inv_def by blast

lemma payout_invD:
  assumes "payout_inv s"
  shows "distinct (map req_id (requests s))"
    and "distinct (map (\<lambda>r. (req_courier r, req_key r)) (requests s))"
    and "r \<in> set (requests s) \<Longrightarrow> req_status r \<in> set request_statuses"
    and "r \<in> set (requests s) \<Longrightarrow> 0 < req_amount r"
    and "r \<in> set (requests s) \<Longrightarrow> money_ok s r"
    and "l \<in> set (ledger s) \<Longrightarrow> led_request l = Some i \<Longrightarrow> find_request s i \<noteq> None"
    and "distinct (map dis_key (dispatches s))"
    and "d \<in> set (dispatches s) \<Longrightarrow> dis_key d = providerIdempotencyKey (dis_request d)"
    and "d \<in> set (dispatches s) \<Longrightarrow> find_request s (dis_request d) \<noteq> None"
    and "r \<in> set (requests s) \<Longrightarrow> req_status r \<in> set refund_statuses \<Longrightarrow> has_reversal s (req_id r)"
  using assms unfolding payout_inv_def by blast+

lemma find_request_inv: "payout_inv s \<Longrightarrow> r \<in> set (requests s) \<Longrightarrow> find_request s (req_id r) = Some r"
  by (simp add: find_request_def find_distinct payout_invD(1))

text \<open>The invariant reads three tables only.\<close>

lemma payout_inv_other:
  assumes "payout_inv s" and "requests t = requests s" "ledger t = ledger s" "dispatches t = dispatches s"
  shows "payout_inv t"
  using assms by (simp add: payout_inv_def money_ok_def rows_of_def find_request_def has_reversal_def)

lemma map_identity:
  assumes "\<And>r. same_identity r (f r)"
  shows "req_id \<circ> f = req_id"
    and "(\<lambda>r. (req_courier r, req_key r)) \<circ> f = (\<lambda>r. (req_courier r, req_key r))"
  using assms by (auto simp: same_identity_def)

text \<open>
  An update followed by an optional reversal of the same request, as one step: the first is
  enough when the update does not end the request.
\<close>

lemma update_rows:
  assumes u: "update_request i f s = Inr t"
  shows "rows_of t j = rows_of s j" and "has_reversal t j = has_reversal s j"
    and "ledger t = ledger s" and "dispatches t = dispatches s"
  using update_request_Inr [OF u] by (simp_all add: rows_of_def has_reversal_def)

lemma update_member:
  assumes u: "update_request i f s = Inr t" and "r' \<in> set (requests t)"
  obtains r where "r \<in> set (requests s)" and "r' = (if req_id r = i then f r else r)"
  using update_request_Inr [OF u] assms(2) by auto

lemma update_distinct:
  assumes inv: "payout_inv s" and id: "\<And>r. same_identity r (f r)" and u: "update_request i f s = Inr t"
  shows "distinct (map req_id (requests t))" and "distinct (map (\<lambda>r. (req_courier r, req_key r)) (requests t))"
proof -
  let ?g = "\<lambda>r. if req_id r = i then f r else r"
  have g: "same_identity r (?g r)" for r using id by simp
  have t: "requests t = map ?g (requests s)" using update_request_Inr [OF u] by simp
  show "distinct (map req_id (requests t))"
    using payout_invD(1) [OF inv] map_identity(1) [of ?g, OF g] by (simp add: t del: o_apply)
  show "distinct (map (\<lambda>r. (req_courier r, req_key r)) (requests t))"
    using payout_invD(2) [OF inv] map_identity(2) [of ?g, OF g] by (simp add: t del: o_apply)
qed

lemma update_request_ok_row:
  assumes inv: "payout_inv s" and id: "\<And>r. same_identity r (f r)" and u: "update_request i f s = Inr t"
    and r': "r' \<in> set (requests t)"
  shows "req_status r' \<in> set request_statuses \<and> 0 < req_amount r' \<and> money_ok t r'"
proof -
  obtain r where r: "r \<in> set (requests s)" and eq: "r' = (if req_id r = i then f r else r)"
    by (rule update_member [OF u r'])
  have g: "same_identity r r'" using id eq by simp
  have "req_status r' \<in> set request_statuses"
    using eq payout_invD(3) [OF inv r] update_request_statuses [OF u r] by (cases "req_id r = i") simp_all
  moreover have "0 < req_amount r'" using payout_invD(4) [OF inv r] g by (simp add: same_identity_def)
  moreover have "money_ok t r'" by (rule money_ok_cong [OF update_rows(1) [OF u] g payout_invD(5) [OF inv r]])
  ultimately show ?thesis by blast
qed

lemma update_links:
  assumes inv: "payout_inv s" and id: "\<And>r. same_identity r (f r)" and u: "update_request i f s = Inr t"
  shows "l \<in> set (ledger t) \<Longrightarrow> led_request l = Some j \<Longrightarrow> find_request t j \<noteq> None"
    and "distinct (map dis_key (dispatches t))"
    and "d \<in> set (dispatches t) \<Longrightarrow> dis_key d = providerIdempotencyKey (dis_request d)
           \<and> find_request t (dis_request d) \<noteq> None"
  using payout_invD(6) [OF inv, of l j] payout_invD(7) [OF inv] payout_invD(8,9) [OF inv, of d]
  by (simp_all add: find_request_update [OF u id] update_rows [OF u])

lemma update_inv:
  assumes inv: "payout_inv s" and id: "\<And>r. same_identity r (f r)"
    and keep: "\<And>r. req_status (f r) \<in> set refund_statuses \<Longrightarrow> req_status r \<in> set refund_statuses"
    and u: "update_request i f s = Inr t"
  shows "payout_inv t"
proof
  fix r' assume "r' \<in> set (requests t)" and st: "req_status r' \<in> set refund_statuses"
  then obtain r where r: "r \<in> set (requests s)" and eq: "r' = (if req_id r = i then f r else r)"
    by (rule_tac update_member [OF u])
  have "has_reversal s (req_id r)"
    using payout_invD(10) [OF inv r] st keep [of r] eq by (simp split: if_splits)
  moreover have "req_id r' = req_id r" using id [of r] eq by (simp add: same_identity_def)
  ultimately show "has_reversal t (req_id r')" by (simp add: update_rows [OF u])
qed (use update_distinct [OF inv id u] update_request_ok_row [OF inv id u] update_links [OF inv id u] in blast)+

lemma open_inv:
  assumes inv: "payout_inv s" and fresh: "find_request s (req_id r) = None"
    and st: "req_status r \<in> set request_statuses" "0 < req_amount r" "req_status r \<notin> set refund_statuses"
    and key: "\<not> list_ex (\<lambda>q. req_courier q = req_courier r \<and> req_key q = req_key r) (requests s)"
  defines "t \<equiv> s\<lparr>requests := requests s @ [r],
                  ledger := ledger s @ [requested_row (req_courier r) (req_amount r) (req_id r)]\<rparr>"
  shows "payout_inv t"
proof -
  have find: "find_request s i \<noteq> None \<Longrightarrow> find_request t i \<noteq> None" for i
    by (auto simp: find_request_def t_def dest: find_append_Some)
  have own: "find_request t (req_id r) = Some r"
    using fresh by (simp add: find_request_def t_def find_append_None)
  have none: "rows_of s (req_id r) = []"
    using payout_invD(6) [OF inv, of _ "req_id r"] fresh by (auto simp: rows_of_def filter_empty_conv)
  have rows: "rows_of t i = rows_of s i @ (if i = req_id r then
      [requested_row (req_courier r) (req_amount r) (req_id r)] else [])" for i
    by (auto simp: rows_of_def t_def requested_row_def)
  show ?thesis
  proof
    show "distinct (map req_id (requests t))"
      using payout_invD(1) [OF inv] fresh by (simp add: t_def find_request_None)
    show "distinct (map (\<lambda>r. (req_courier r, req_key r)) (requests t))"
      using payout_invD(2) [OF inv] key by (auto simp: t_def list_ex_iff)
    fix q assume "q \<in> set (requests t)"
    then consider "q = r" | "q \<in> set (requests s)" by (auto simp: t_def)
    then show "req_status q \<in> set request_statuses \<and> 0 < req_amount q \<and> money_ok t q"
    proof cases
      case 1
      then show ?thesis using st none by (simp add: money_ok_def rows)
    next
      case 2
      then have "req_id q \<noteq> req_id r" using fresh by (metis find_request_None image_eqI)
      then show ?thesis using payout_invD(3,4,5) [OF inv 2] by (simp add: money_ok_def rows)
    qed
  next
    fix q assume "q \<in> set (requests t)" "req_status q \<in> set refund_statuses"
    then show "has_reversal t (req_id q)"
      using payout_invD(10) [OF inv, of q] st(3) by (auto simp: t_def has_reversal_def)
  next
    fix l i assume "l \<in> set (ledger t)" "led_request l = Some i"
    then show "find_request t i \<noteq> None"
      using payout_invD(6) [OF inv, of l i] find own by (auto simp: t_def requested_row_def)
  next
    show "distinct (map dis_key (dispatches t))" using payout_invD(7) [OF inv] by (simp add: t_def)
  next
    fix d assume "d \<in> set (dispatches t)"
    then show "dis_key d = providerIdempotencyKey (dis_request d) \<and> find_request t (dis_request d) \<noteq> None"
      using payout_invD(8,9) [OF inv, of d] find by (simp add: t_def)
  qed
qed

lemma ensure_reversal_rows:
  "rows_of (ensure_reversal c a i s) j = rows_of s j @ (if j = i \<and> \<not> has_reversal s i then [reversal_row c a i] else [])"
  by (auto simp: rows_of_def ensure_reversal_def reversal_row_def)

lemma ensure_reversal_other: "has_reversal s j \<Longrightarrow> has_reversal (ensure_reversal c a i s) j"
  by (auto simp: ensure_reversal_def has_reversal_def)

lemma money_ok_reverse:
  assumes "money_ok s q" and "req_id q = i \<Longrightarrow> req_courier q = c \<and> req_amount q = a"
  shows "money_ok (ensure_reversal c a i s) q"
  using assms money_ok_reversal [OF assms(1)]
  by (cases "req_id q = i \<and> \<not> has_reversal s i") (auto simp: money_ok_def ensure_reversal_rows)

lemma refund_inv:
  assumes inv: "payout_inv s" and id: "\<And>r. same_identity r (f r)" and u: "update_request i f s = Inr t"
    and r: "find_request s i = Some r"
  shows "payout_inv (ensure_reversal (req_courier r) (req_amount r) i t)"
proof
  let ?t = "ensure_reversal (req_courier r) (req_amount r) i t"
  have find: "find_request ?t j = find_request t j" for j by (simp add: find_request_def)
  show "distinct (map req_id (requests ?t))" "distinct (map (\<lambda>r. (req_courier r, req_key r)) (requests ?t))"
    using update_distinct [OF inv id u] by simp_all
  show "distinct (map dis_key (dispatches ?t))" using update_links(2) [OF inv id u] by simp
  {
    fix q assume "q \<in> set (requests ?t)"
    then have q: "q \<in> set (requests t)" by simp
    obtain p where p: "p \<in> set (requests s)" and eq: "q = (if req_id p = i then f p else p)"
      by (rule update_member [OF u q])
    have same: "same_identity p q" using eq id by simp
    have own: "p = r" if "req_id q = i"
      using that same find_request_inv [OF inv p] r by (simp add: same_identity_def)
    have "money_ok ?t q"
      using update_request_ok_row [OF inv id u q] own same by (intro money_ok_reverse) (auto simp: same_identity_def)
    then show "req_status q \<in> set request_statuses \<and> 0 < req_amount q \<and> money_ok ?t q"
      using update_request_ok_row [OF inv id u q] by simp
    assume st: "req_status q \<in> set refund_statuses"
    show "has_reversal ?t (req_id q)"
    proof (cases "req_id q = i")
      case False
      then have "q = p" using eq same by (auto simp: same_identity_def)
      then have "has_reversal t (req_id q)" using payout_invD(10) [OF inv p] st by (simp add: update_rows [OF u])
      then show ?thesis by (rule ensure_reversal_other)
    qed simp
  }
  fix d assume "d \<in> set (dispatches ?t)"
  then show "dis_key d = providerIdempotencyKey (dis_request d) \<and> find_request ?t (dis_request d) \<noteq> None"
    using update_links(3) [OF inv id u, of d] by (simp add: find)
next
  let ?t = "ensure_reversal (req_courier r) (req_amount r) i t"
  fix l j assume l: "l \<in> set (ledger ?t)" "led_request l = Some j"
  have "find_request t i \<noteq> None" using r by (simp add: find_request_update [OF u id])
  then have "find_request t j \<noteq> None"
    using l update_links(1) [OF inv id u, of l j]
    by (auto simp: ensure_reversal_def reversal_row_def split: if_splits)
  then show "find_request ?t j \<noteq> None" by (simp add: find_request_def)
qed

lemma earn_inv:
  assumes inv: "payout_inv s" and l: "led_request l = None"
  shows "payout_inv (s\<lparr>ledger := ledger s @ [l]\<rparr>)"
  using inv l by (auto simp: payout_inv_def money_ok_def rows_of_def find_request_def has_reversal_def)

lemma dispatch_update_inv:
  assumes inv: "payout_inv s" and g: "\<And>d. dis_key (g d) = dis_key d \<and> dis_request (g d) = dis_request d"
  shows "payout_inv (s\<lparr>dispatches := map g (dispatches s)\<rparr>)"
proof -
  have "dis_key \<circ> g = dis_key" using g by auto
  then have "distinct (map dis_key (map g (dispatches s)))" using payout_invD(7) [OF inv] by simp
  then show ?thesis
    using inv g by (auto simp: payout_inv_def money_ok_def rows_of_def find_request_def has_reversal_def)
qed

lemma dispatch_add_inv:
  assumes inv: "payout_inv s" and "find_request s (dis_request d) \<noteq> None"
    and "dis_key d = providerIdempotencyKey (dis_request d)"
    and "\<not> list_ex (\<lambda>e. dis_key e = dis_key d) (dispatches s)"
  shows "payout_inv (s\<lparr>dispatches := dispatches s @ [d]\<rparr>)"
  using assms by (auto simp: payout_inv_def money_ok_def rows_of_def find_request_def has_reversal_def list_ex_iff)

lemma effect_inv: "effect s t \<Longrightarrow> payout_inv s \<Longrightarrow> payout_inv t"
proof (induction rule: effect.induct)
  case (other t s)
  then show ?case by (blast intro: payout_inv_other)
qed (blast intro: update_inv open_inv refund_inv earn_inv dispatch_update_inv dispatch_add_inv)+

lemma effects_inv: "effects s t \<Longrightarrow> payout_inv s \<Longrightarrow> payout_inv t"
  by (induction rule: rtranclp_induct) (auto intro: effect_inv)

section \<open>The contract of an operation\<close>

definition signed_row :: "ledger_row \<Rightarrow> int" where
  "signed_row l = (if led_direction l = Credit then led_amount l else - led_amount l)"

text \<open>What the ledger has taken from the courier for a request: the hold less the reversal.\<close>

definition net_of_request :: "payout_store \<Rightarrow> uuid \<Rightarrow> int" where
  "net_of_request s i = sum_list (map signed_row (rows_of s i))"

lemma net_of_request:
  assumes "payout_inv s" and "r \<in> set (requests s)"
  shows "net_of_request s (req_id r) = (if has_reversal s (req_id r) then 0 else - req_amount r)"
  using money_ok_reversal [OF payout_invD(5) [OF assms]]
  by (simp add: net_of_request_def signed_row_def requested_row_def reversal_row_def)

lemma has_reversal_prefix: "prefix (ledger s) (ledger t) \<Longrightarrow> has_reversal s i \<Longrightarrow> has_reversal t i"
  by (auto simp: has_reversal_def prefix_def)

locale payout_operation =
  fixes op :: "payout_store \<Rightarrow> payout_store"
    and ready :: "payout_store \<Rightarrow> bool"
  assumes refines: "payout_inv s \<Longrightarrow> ready s \<Longrightarrow> effects s (op s)"
begin

lemma keeps_inv: "payout_inv s \<Longrightarrow> ready s \<Longrightarrow> payout_inv (op s)"
  by (rule effects_inv [OF refines])

lemma appends_only: "payout_inv s \<Longrightarrow> ready s \<Longrightarrow> prefix (ledger s) (ledger (op s))"
  by (rule effects_ledger_prefix [OF refines])

lemma keeps_requests:
  "payout_inv s \<Longrightarrow> ready s \<Longrightarrow> find_request s i = Some r
   \<Longrightarrow> \<exists>r'. find_request (op s) i = Some r' \<and> same_identity r r'"
  by (rule effects_find_request [OF refines])

lemma refund_stays: "payout_inv s \<Longrightarrow> ready s \<Longrightarrow> has_reversal s i \<Longrightarrow> has_reversal (op s) i"
  by (rule has_reversal_prefix [OF appends_only])

text \<open>An operation takes nothing more for a request that exists: it leaves its net or refunds it.\<close>

lemma net_after:
  assumes "payout_inv s" and "ready s" and "find_request s i = Some r"
  shows "net_of_request (op s) i \<in> {net_of_request s i, 0}"
proof -
  obtain r' where r': "find_request (op s) i = Some r'" "same_identity r r'"
    using keeps_requests [OF assms] by blast
  have "net_of_request (op s) (req_id r') = (if has_reversal (op s) (req_id r') then 0 else - req_amount r')"
    using find_request_Some [OF r'(1)] by (intro net_of_request keeps_inv assms(1,2)) simp
  moreover have "net_of_request s (req_id r) = (if has_reversal s (req_id r) then 0 else - req_amount r)"
    using find_request_Some [OF assms(3)] by (intro net_of_request assms(1)) simp
  moreover have "has_reversal s i \<longrightarrow> has_reversal (op s) i" using refund_stays assms(1,2) by blast
  ultimately show ?thesis
    using find_request_Some [OF r'(1)] find_request_Some [OF assms(3)] r'(2) by (auto simp: same_identity_def)
qed

end

text \<open>The pieces the handlers are made of.\<close>

lemma effects_update:
  assumes "update_request i f t = Inr u" and "effects s t" and "\<And>r. same_identity r (f r)"
    and "\<And>r. req_status (f r) \<in> set refund_statuses \<Longrightarrow> req_status r \<in> set refund_statuses"
  shows "effects s u"
  using assms by (blast intro: effects_step effect.update)

lemma effects_audit: "effects s t \<Longrightarrow> effects s (writePayoutAuditEvent now req ev sv c r old new al t)"
  by (erule effects_other) simp_all

lemma effects_alerts: "effects s t \<Longrightarrow> effects s (evaluatePayoutAlerts env now t)"
  by (erule effects_other) simp_all

text \<open>An update together with the reversal, of a request that existed when the step began.\<close>

lemma reverse_after_update:
  assumes "update_request i f t = Inr u" and "effects s t" and "\<And>r. same_identity r (f r)"
    and "find_request s i = Some r"
  shows "effects s (ensure_reversal (req_courier r) (req_amount r) i u)"
proof -
  obtain r' where r': "find_request t i = Some r'" "same_identity r r'"
    using effects_find_request [OF assms(2,4)] by blast
  have "effect t (ensure_reversal (req_courier r') (req_amount r') i u)"
    by (rule effect.refund [OF assms(3,1) r'(1)])
  then show ?thesis using effects_step [OF assms(2)] r'(2) by (simp add: same_identity_def)
qed

end
