(* ===== verification/PayoutRisk.thy ===== *)
theory PayoutRisk
  imports PayoutEffects
begin

text \<open>
  The payout risk engine (\<open>services/payoutRiskEngine.ts\<close>): the configuration readers, the
  signals its queries compute from the store, the rules in the order of the source, the score,
  the decision, and the writes that apply the decision to the request and the ledger.
\<close>

section \<open>Configuration readers\<close>

text \<open>\<open>value #>> '{}'\<close>: the text of a JSON scalar.\<close>

fun config_text :: "config_value \<Rightarrow> string" where
  "config_text (CBool b) = (if b then ''true'' else ''false'')"
| "config_text (CNum i) = show_int i"
| "config_text (CStr s) = s"

definition numberConfig :: "payout_store \<Rightarrow> string \<Rightarrow> rat \<Rightarrow> rat" where
  "numberConfig s key fallback =
     (case map_of (configs s) key of
        None \<Rightarrow> fallback
      | Some v \<Rightarrow> (case finite_value (js_number (config_text v)) of Some x \<Rightarrow> x | None \<Rightarrow> fallback))"

definition booleanConfig :: "payout_store \<Rightarrow> string \<Rightarrow> bool \<Rightarrow> bool" where
  "booleanConfig s key fallback =
     (let value = toLowerCase (case map_of (configs s) key of None \<Rightarrow> [] | Some v \<Rightarrow> config_text v) in
      if value \<in> set [''true'', ''1'', ''yes'', ''enabled''] then True
      else if value \<in> set [''false'', ''0'', ''no'', ''disabled''] then False
      else fallback)"

section \<open>Decisions\<close>

datatype risk_decision = AutoApproved | ManualReview | Blocked
datatype risk_level = Low | Medium | High | CriticalLevel

primrec risk_decision_text :: "risk_decision \<Rightarrow> string" where
  "risk_decision_text AutoApproved = ''auto_approved''"
| "risk_decision_text ManualReview = ''manual_review''"
| "risk_decision_text Blocked = ''blocked''"

primrec risk_level_text :: "risk_level \<Rightarrow> string" where
  "risk_level_text Low = ''low''"
| "risk_level_text Medium = ''medium''"
| "risk_level_text High = ''high''"
| "risk_level_text CriticalLevel = ''critical''"

record rule_hit =
  hit_code :: string
  hit_severity :: severity
  hit_score :: int
  hit_message :: string

definition riskLevelForScore :: "int \<Rightarrow> bool \<Rightarrow> risk_level" where
  "riskLevelForScore score blocked =
     (if blocked \<or> score \<ge> 85 then CriticalLevel
      else if score \<ge> 60 then High
      else if score \<ge> 25 then Medium
      else Low)"

definition finalStatusForDecision :: "risk_decision \<Rightarrow> int \<Rightarrow> string" where
  "finalStatusForDecision decision score =
     (if decision = AutoApproved then ''approved_auto''
      else if decision = Blocked then ''blocked''
      else if score \<ge> 60 then ''risk_hold'' else ''manual_review'')"

section \<open>The signals the queries compute\<close>

record risk_signals =
  sig_auto_enabled :: bool
  sig_kill_switch :: bool
  sig_max_auto_amount :: rat
  sig_cooldown_hours :: rat
  sig_hourly_limit :: rat
  sig_bank_hourly_limit :: rat
  sig_device_hourly_limit :: rat
  sig_ip_hourly_limit :: rat
  sig_bank_daily_limit :: rat
  sig_account_status :: string
  sig_verified_at :: instant
  sig_available_balance :: int
  sig_balance_before :: int
  sig_amount :: int
  sig_open_disputes :: int
  sig_hourly :: int
  sig_bank_hourly :: int
  sig_bank_daily :: int
  sig_device :: "string option"
  sig_ip :: "string option"
  sig_device_hourly :: int
  sig_ip_hourly :: int
  sig_device_seen :: int
  sig_account_reuse :: int
  sig_rating :: rat
  sig_complaints :: int
  sig_complaint_ratio :: rat

text \<open>Truthiness of an optional string.\<close>

definition present :: "string option \<Rightarrow> bool" where
  "present v \<longleftrightarrow> v \<noteq> None \<and> v \<noteq> Some []"

text \<open>Whether a request is paid out to an account with the given (non-null) fingerprint.\<close>

definition on_fingerprint :: "payout_store \<Rightarrow> string option \<Rightarrow> payout_request \<Rightarrow> bool" where
  "on_fingerprint s fp r \<longleftrightarrow>
     fp \<noteq> None \<and> (case find_account s (req_account r) of None \<Rightarrow> False | Some a \<Rightarrow> acc_fingerprint a = fp)"

definition disputed_ids :: "payout_store \<Rightarrow> uuid \<Rightarrow> uuid list" where
  "disputed_ids s c =
     remdups (map dsp_id (filter (\<lambda>d. dsp_status d \<in> set [''open'', ''investigating'', ''pending'']
        \<and> list_ex (\<lambda>l. led_courier l = c \<and> led_direction l = Credit \<and> led_settlement l = ''available''
                        \<and> led_order l = Some (dsp_order d)) (ledger s)) (disputes s)))"

definition risk_signals_of ::
  "instant \<Rightarrow> http_request option \<Rightarrow> payout_store \<Rightarrow> payout_request \<Rightarrow> payout_account \<Rightarrow> risk_signals" where
  "risk_signals_of now req s r a =
     (let c = req_courier r; dev = requestDeviceId req; ip = requestIp req; fp = acc_fingerprint a;
          prof = find (\<lambda>p. prof_user p = c) (profiles s) in
      \<lparr>sig_auto_enabled = booleanConfig s ''payout_auto_approval_enabled'' True,
       sig_kill_switch = booleanConfig s ''payout_emergency_kill_switch_enabled'' False,
       sig_max_auto_amount = numberConfig s ''payout_max_auto_amount_idr'' 500000,
       sig_cooldown_hours = numberConfig s ''payout_account_cooldown_hours'' 24,
       sig_hourly_limit = numberConfig s ''payout_hourly_request_limit'' 3,
       sig_bank_hourly_limit = numberConfig s ''payout_bank_hourly_request_limit'' 5,
       sig_device_hourly_limit = numberConfig s ''payout_device_hourly_request_limit'' 4,
       sig_ip_hourly_limit = numberConfig s ''payout_ip_hourly_request_limit'' 8,
       sig_bank_daily_limit = numberConfig s ''payout_bank_daily_auto_limit_idr'' 1500000,
       sig_account_status = acc_status a,
       sig_verified_at = (case acc_verified_at a of Some t \<Rightarrow> t | None \<Rightarrow> acc_created_at a),
       sig_available_balance = ledger_balance s c,
       sig_balance_before = req_balance_before r,
       sig_amount = req_amount r,
       sig_open_disputes = int (length (disputed_ids s c)),
       sig_hourly = count_if (\<lambda>q. req_courier q = c \<and> req_requested_at q \<ge> now - hour_ms) (requests s),
       sig_bank_hourly = count_if (\<lambda>q. on_fingerprint s fp q \<and> req_requested_at q \<ge> now - hour_ms) (requests s),
       sig_bank_daily = sum_list (map req_amount (filter (\<lambda>q. on_fingerprint s fp q
           \<and> req_requested_at q \<ge> day_start now
           \<and> req_status q \<notin> set [''failed'', ''rejected'', ''blocked'', ''cancelled'']) (requests s))),
       sig_device = dev,
       sig_ip = ip,
       sig_device_hourly = (if present dev
           then count_if (\<lambda>d. dec_device d = dev \<and> dec_at d \<ge> now - hour_ms) (decisions s) else 0),
       sig_ip_hourly = (if present ip
           then count_if (\<lambda>d. dec_ip d = ip \<and> dec_at d \<ge> now - hour_ms) (decisions s) else 0),
       sig_device_seen = (if present dev
           then count_if (\<lambda>e. aud_courier e = Some c \<and> aud_device e = dev \<and> aud_at e < now - hour_ms) (audits s) else 0),
       sig_account_reuse = (if fp = None then 0
           else int (length (remdups (map acc_courier (filter (\<lambda>b. acc_fingerprint b = fp) (accounts s)))))),
       sig_rating = (case prof of Some p \<Rightarrow> prof_rating p | None \<Rightarrow> 5),
       sig_complaints = (case prof of Some p \<Rightarrow> prof_complaints p | None \<Rightarrow> 0),
       sig_complaint_ratio = (case prof of Some p \<Rightarrow> prof_complaint_ratio p | None \<Rightarrow> 0)\<rparr>)"

section \<open>The rules\<close>

abbreviation mk_hit :: "string \<Rightarrow> severity \<Rightarrow> int \<Rightarrow> string \<Rightarrow> rule_hit" where
  "mk_hit c sv sc m \<equiv> \<lparr>hit_code = c, hit_severity = sv, hit_score = sc, hit_message = m\<rparr>"

text \<open>The hits of the rules, in the order of the source.\<close>

definition AUTO_PAYOUT_DISABLED :: rule_hit where
  "AUTO_PAYOUT_DISABLED = mk_hit ''AUTO_PAYOUT_DISABLED'' Warning 25
     ''Auto payout sedang dinonaktifkan oleh konfigurasi operasional.''"

definition EMERGENCY_KILL_SWITCH :: rule_hit where
  "EMERGENCY_KILL_SWITCH = mk_hit ''EMERGENCY_KILL_SWITCH'' Warning 60
     ''Emergency kill switch aktif. Pengajuan masuk review manual.''"

definition ACCOUNT_NOT_VERIFIED :: rule_hit where
  "ACCOUNT_NOT_VERIFIED = mk_hit ''ACCOUNT_NOT_VERIFIED'' Critical 100
     ''Rekening pencairan belum terverifikasi.''"

definition ACCOUNT_COOLDOWN :: rule_hit where
  "ACCOUNT_COOLDOWN = mk_hit ''ACCOUNT_COOLDOWN'' Warning 35
     ''Rekening baru diverifikasi atau berubah dalam periode cooldown.''"

definition NEGATIVE_BALANCE :: rule_hit where
  "NEGATIVE_BALANCE = mk_hit ''NEGATIVE_BALANCE'' Critical 100
     ''Saldo ledger terdeteksi negatif.''"

definition BALANCE_MISMATCH :: rule_hit where
  "BALANCE_MISMATCH = mk_hit ''BALANCE_MISMATCH'' Critical 100
     ''Saldo tersedia tidak cukup atau tidak cocok dengan snapshot request.''"

definition OPEN_DISPUTE :: rule_hit where
  "OPEN_DISPUTE = mk_hit ''OPEN_DISPUTE'' Warning 35
     ''Ada dispute aktif pada sumber saldo kurir.''"

definition AMOUNT_ABOVE_AUTO_LIMIT :: rule_hit where
  "AMOUNT_ABOVE_AUTO_LIMIT = mk_hit ''AMOUNT_ABOVE_AUTO_LIMIT'' Warning 30
     ''Nominal pencairan melebihi limit auto approval.''"

definition REQUEST_VELOCITY_BLOCK :: rule_hit where
  "REQUEST_VELOCITY_BLOCK = mk_hit ''REQUEST_VELOCITY_BLOCK'' Critical 100
     ''Frekuensi pengajuan pencairan abnormal.''"

definition REQUEST_VELOCITY_REVIEW :: rule_hit where
  "REQUEST_VELOCITY_REVIEW = mk_hit ''REQUEST_VELOCITY_REVIEW'' Warning 30
     ''Frekuensi pengajuan pencairan melewati batas normal.''"

definition BANK_VELOCITY_BLOCK :: rule_hit where
  "BANK_VELOCITY_BLOCK = mk_hit ''BANK_VELOCITY_BLOCK'' Critical 100
     ''Frekuensi pencairan pada rekening ini abnormal.''"

definition BANK_VELOCITY_REVIEW :: rule_hit where
  "BANK_VELOCITY_REVIEW = mk_hit ''BANK_VELOCITY_REVIEW'' Warning 35
     ''Frekuensi pencairan pada rekening ini melewati batas normal.''"

definition BANK_DAILY_AUTO_LIMIT :: rule_hit where
  "BANK_DAILY_AUTO_LIMIT = mk_hit ''BANK_DAILY_AUTO_LIMIT'' Warning 40
     ''Total pencairan harian rekening melewati limit auto payout.''"

definition DEVICE_VELOCITY_BLOCK :: rule_hit where
  "DEVICE_VELOCITY_BLOCK = mk_hit ''DEVICE_VELOCITY_BLOCK'' Critical 100
     ''Frekuensi pencairan dari perangkat ini abnormal.''"

definition DEVICE_VELOCITY_REVIEW :: rule_hit where
  "DEVICE_VELOCITY_REVIEW = mk_hit ''DEVICE_VELOCITY_REVIEW'' Warning 35
     ''Frekuensi pencairan dari perangkat ini melewati batas normal.''"

definition IP_VELOCITY_BLOCK :: rule_hit where
  "IP_VELOCITY_BLOCK = mk_hit ''IP_VELOCITY_BLOCK'' Critical 100
     ''Frekuensi pencairan dari jaringan ini abnormal.''"

definition IP_VELOCITY_REVIEW :: rule_hit where
  "IP_VELOCITY_REVIEW = mk_hit ''IP_VELOCITY_REVIEW'' Warning 35
     ''Frekuensi pencairan dari jaringan ini melewati batas normal.''"

definition MISSING_DEVICE_ID :: rule_hit where
  "MISSING_DEVICE_ID = mk_hit ''MISSING_DEVICE_ID'' Warning 20
     ''Device ID tidak tersedia untuk verifikasi perangkat.''"

definition NEW_DEVICE :: rule_hit where
  "NEW_DEVICE = mk_hit ''NEW_DEVICE'' Warning 20
     ''Perangkat belum memiliki histori payout yang cukup.''"

definition SHARED_BANK_ACCOUNT :: rule_hit where
  "SHARED_BANK_ACCOUNT = mk_hit ''SHARED_BANK_ACCOUNT'' Warning 40
     ''Rekening terdeteksi digunakan oleh lebih dari satu kurir.''"

definition LOW_COURIER_TRUST :: rule_hit where
  "LOW_COURIER_TRUST = mk_hit ''LOW_COURIER_TRUST'' Warning 30
     ''Trust score kurir membutuhkan review operasional.''"

lemmas rule_hit_defs =
  AUTO_PAYOUT_DISABLED_def
  EMERGENCY_KILL_SWITCH_def
  ACCOUNT_NOT_VERIFIED_def
  ACCOUNT_COOLDOWN_def
  NEGATIVE_BALANCE_def
  BALANCE_MISMATCH_def
  OPEN_DISPUTE_def
  AMOUNT_ABOVE_AUTO_LIMIT_def
  REQUEST_VELOCITY_BLOCK_def
  REQUEST_VELOCITY_REVIEW_def
  BANK_VELOCITY_BLOCK_def
  BANK_VELOCITY_REVIEW_def
  BANK_DAILY_AUTO_LIMIT_def
  DEVICE_VELOCITY_BLOCK_def
  DEVICE_VELOCITY_REVIEW_def
  IP_VELOCITY_BLOCK_def
  IP_VELOCITY_REVIEW_def
  MISSING_DEVICE_ID_def
  NEW_DEVICE_def
  SHARED_BANK_ACCOUNT_def
  LOW_COURIER_TRUST_def

lemma rule_hit_scores [simp]:
  "hit_score AUTO_PAYOUT_DISABLED = 25" "hit_severity AUTO_PAYOUT_DISABLED = Warning"
  "hit_score EMERGENCY_KILL_SWITCH = 60" "hit_severity EMERGENCY_KILL_SWITCH = Warning"
  "hit_score ACCOUNT_NOT_VERIFIED = 100" "hit_severity ACCOUNT_NOT_VERIFIED = Critical"
  "hit_score ACCOUNT_COOLDOWN = 35" "hit_severity ACCOUNT_COOLDOWN = Warning"
  "hit_score NEGATIVE_BALANCE = 100" "hit_severity NEGATIVE_BALANCE = Critical"
  "hit_score BALANCE_MISMATCH = 100" "hit_severity BALANCE_MISMATCH = Critical"
  "hit_score OPEN_DISPUTE = 35" "hit_severity OPEN_DISPUTE = Warning"
  "hit_score AMOUNT_ABOVE_AUTO_LIMIT = 30" "hit_severity AMOUNT_ABOVE_AUTO_LIMIT = Warning"
  "hit_score REQUEST_VELOCITY_BLOCK = 100" "hit_severity REQUEST_VELOCITY_BLOCK = Critical"
  "hit_score REQUEST_VELOCITY_REVIEW = 30" "hit_severity REQUEST_VELOCITY_REVIEW = Warning"
  "hit_score BANK_VELOCITY_BLOCK = 100" "hit_severity BANK_VELOCITY_BLOCK = Critical"
  "hit_score BANK_VELOCITY_REVIEW = 35" "hit_severity BANK_VELOCITY_REVIEW = Warning"
  "hit_score BANK_DAILY_AUTO_LIMIT = 40" "hit_severity BANK_DAILY_AUTO_LIMIT = Warning"
  "hit_score DEVICE_VELOCITY_BLOCK = 100" "hit_severity DEVICE_VELOCITY_BLOCK = Critical"
  "hit_score DEVICE_VELOCITY_REVIEW = 35" "hit_severity DEVICE_VELOCITY_REVIEW = Warning"
  "hit_score IP_VELOCITY_BLOCK = 100" "hit_severity IP_VELOCITY_BLOCK = Critical"
  "hit_score IP_VELOCITY_REVIEW = 35" "hit_severity IP_VELOCITY_REVIEW = Warning"
  "hit_score MISSING_DEVICE_ID = 20" "hit_severity MISSING_DEVICE_ID = Warning"
  "hit_score NEW_DEVICE = 20" "hit_severity NEW_DEVICE = Warning"
  "hit_score SHARED_BANK_ACCOUNT = 40" "hit_severity SHARED_BANK_ACCOUNT = Warning"
  "hit_score LOW_COURIER_TRUST = 30" "hit_severity LOW_COURIER_TRUST = Warning"
  by (simp_all add: rule_hit_defs)

definition fires :: "bool \<Rightarrow> 'a \<Rightarrow> 'a list" where
  "fires b x = (if b then [x] else [])"

text \<open>\<open>if (count > limit * 2) hit(block) else if (count > limit) hit(review)\<close>.\<close>

definition velocity_rule :: "bool \<Rightarrow> int \<Rightarrow> rat \<Rightarrow> rule_hit \<Rightarrow> rule_hit \<Rightarrow> rule_hit list" where
  "velocity_rule known n limit block review =
     (if known \<and> of_int n > limit * 2 then [block]
      else if known \<and> of_int n > limit then [review] else [])"

text \<open>The rules of lines 222 to 256: switches, account, balance, disputes, amount.\<close>

definition account_rules :: "instant \<Rightarrow> risk_signals \<Rightarrow> rule_hit list" where
  "account_rules now g =
     fires (\<not> sig_auto_enabled g)
       AUTO_PAYOUT_DISABLED
   @ fires (sig_kill_switch g)
       EMERGENCY_KILL_SWITCH
   @ fires (sig_account_status g \<noteq> ''verified'')
       ACCOUNT_NOT_VERIFIED
   @ fires (of_int (now - sig_verified_at g) < sig_cooldown_hours g * 60 * 60 * 1000)
       ACCOUNT_COOLDOWN
   @ fires (sig_available_balance g < 0)
       NEGATIVE_BALANCE
   @ fires (sig_balance_before g < sig_amount g)
       BALANCE_MISMATCH
   @ fires (sig_open_disputes g > 0)
       OPEN_DISPUTE
   @ fires (of_int (sig_amount g) > sig_max_auto_amount g)
       AMOUNT_ABOVE_AUTO_LIMIT"

text \<open>The velocity and trust rules of lines 258 to 303.\<close>

definition velocity_rules :: "risk_signals \<Rightarrow> rule_hit list" where
  "velocity_rules g =
     velocity_rule True (sig_hourly g) (sig_hourly_limit g)
       REQUEST_VELOCITY_BLOCK
       REQUEST_VELOCITY_REVIEW
   @ velocity_rule True (sig_bank_hourly g) (sig_bank_hourly_limit g)
       BANK_VELOCITY_BLOCK
       BANK_VELOCITY_REVIEW
   @ fires (of_int (sig_bank_daily g) > sig_bank_daily_limit g)
       BANK_DAILY_AUTO_LIMIT
   @ velocity_rule (present (sig_device g)) (sig_device_hourly g) (sig_device_hourly_limit g)
       DEVICE_VELOCITY_BLOCK
       DEVICE_VELOCITY_REVIEW
   @ velocity_rule (present (sig_ip g)) (sig_ip_hourly g) (sig_ip_hourly_limit g)
       IP_VELOCITY_BLOCK
       IP_VELOCITY_REVIEW
   @ (if \<not> present (sig_device g) then
        [MISSING_DEVICE_ID]
      else fires (sig_device_seen g = 0)
        NEW_DEVICE)
   @ fires (sig_account_reuse g > 1)
       SHARED_BANK_ACCOUNT
   @ fires (sig_complaint_ratio g \<ge> 10 \<or> sig_complaints g \<ge> 5 \<or> sig_rating g < 4)
       LOW_COURIER_TRUST"

definition risk_hits :: "instant \<Rightarrow> risk_signals \<Rightarrow> rule_hit list" where
  "risk_hits now g = account_rules now g @ velocity_rules g"

definition risk_score :: "rule_hit list \<Rightarrow> int" where
  "risk_score hits = min 100 (sum_list (map hit_score hits))"

definition risk_blocked :: "rule_hit list \<Rightarrow> bool" where
  "risk_blocked hits \<longleftrightarrow> list_ex (\<lambda>h. hit_severity h = Critical) hits"

definition risk_decide :: "rule_hit list \<Rightarrow> risk_decision" where
  "risk_decide hits =
     (if risk_blocked hits then Blocked else if risk_score hits = 0 then AutoApproved else ManualReview)"

section \<open>Applying the decision\<close>

definition actor_or :: "http_request option \<Rightarrow> uuid \<Rightarrow> uuid" where
  "actor_or req d = (case req of None \<Rightarrow> d | Some r \<Rightarrow> (case user_id r of Some u \<Rightarrow> u | None \<Rightarrow> d))"

definition decision_severity :: "risk_decision \<Rightarrow> severity" where
  "decision_severity d = (case d of Blocked \<Rightarrow> Critical | ManualReview \<Rightarrow> Warning | AutoApproved \<Rightarrow> Info)"

text \<open>The update of the payout request (lines 376 to 391).\<close>

definition apply_decision :: "instant \<Rightarrow> string \<Rightarrow> string list \<Rightarrow> payout_request \<Rightarrow> payout_request" where
  "apply_decision now final reasons r =
     r\<lparr>req_status := final,
       req_failure_reason :=
         (if final = ''blocked''
          then Some (case reasons of [] \<Rightarrow> ''Pencairan diblokir oleh risk engine.'' | x # _ \<Rightarrow> x)
          else req_failure_reason r),
       req_reviewed_at :=
         (if final \<in> set [''approved_auto'', ''manual_review'', ''risk_hold'', ''blocked'']
          then Some now else req_reviewed_at r),
       req_updated_at := now\<rparr>"

definition evaluateCourierPayoutRisk ::
  "instant \<Rightarrow> http_request option \<Rightarrow> uuid \<Rightarrow> payout_store \<Rightarrow> db_error + (risk_decision \<times> payout_store)" where
  "evaluateCourierPayoutRisk now req i s =
     (case find_request s i of
        None \<Rightarrow> Inl (Thrown ''Payout request not found for risk evaluation'')
      | Some r \<Rightarrow>
        (case find_account s (req_account r) of
           None \<Rightarrow> Inl (Thrown ''Payout request not found for risk evaluation'')
         | Some a \<Rightarrow>
           (let g = risk_signals_of now req s r a;
                hits = risk_hits now g;
                score = risk_score hits;
                decision = risk_decide hits;
                final = finalStatusForDecision decision score;
                reasons = map hit_message hits;
                row = \<lparr>dec_request = req_id r, dec_courier = req_courier r,
                       dec_decision = risk_decision_text decision,
                       dec_level = risk_level_text (riskLevelForScore score (risk_blocked hits)),
                       dec_score = score, dec_reasons = reasons, dec_device = sig_device g,
                       dec_ip = (if present (sig_ip g) then sig_ip g else None), dec_at = now\<rparr>;
                s1 = s\<lparr>decisions := decisions s @ [row]\<rparr>
            in case update_request i (apply_decision now final reasons) s1 of
                 Inl e \<Rightarrow> Inl e
               | Inr s2 \<Rightarrow>
                 (let s3 = (if final = ''blocked''
                            then ensure_reversal (req_courier r) (req_amount r) i s2 else s2)
                  in Inr (decision,
                       writePayoutAuditEvent now req ''risk_decision_created'' (decision_severity decision)
                         (Some (req_courier r)) (Some i) (Some (req_status r)) (Some final) None s3)))))"

section \<open>Lemmas\<close>

lemma set_fires [simp]: "h \<in> set (fires b x) \<longleftrightarrow> b \<and> h = x"
  by (cases b) (simp_all add: fires_def)

lemma fires_Nil [simp]: "fires b x = [] \<longleftrightarrow> \<not> b"
  by (simp add: fires_def)

lemma set_velocity_rule:
  "h \<in> set (velocity_rule k n l b r) \<Longrightarrow> h = b \<or> h = r"
  by (auto simp: velocity_rule_def split: if_splits)

lemma velocity_rule_Nil:
  "velocity_rule k n l b r = [] \<longleftrightarrow> \<not> (k \<and> of_int n > l * 2) \<and> \<not> (k \<and> of_int n > l)"
  by (simp add: velocity_rule_def)

lemma account_rules_score: "h \<in> set (account_rules now g) \<Longrightarrow> 20 \<le> hit_score h \<and> hit_score h \<le> 100"
  unfolding account_rules_def set_append Un_iff set_fires by (elim disjE conjE; hypsubst; simp)

lemma velocity_rules_score: "h \<in> set (velocity_rules g) \<Longrightarrow> 20 \<le> hit_score h \<and> hit_score h \<le> 100"
  unfolding velocity_rules_def by (auto dest!: set_velocity_rule split: if_splits)

lemma risk_hits_score: "h \<in> set (risk_hits now g) \<Longrightarrow> 20 \<le> hit_score h \<and> hit_score h \<le> 100"
  by (auto simp: risk_hits_def dest: account_rules_score velocity_rules_score)

lemma sum_scores_ge:
  "(\<And>h. h \<in> set hs \<Longrightarrow> 0 \<le> hit_score h) \<Longrightarrow> x \<in> set hs \<Longrightarrow> hit_score x \<le> sum_list (map hit_score hs)"
  by (metis (no_types, lifting) image_eqI imageE list.set_map member_le_sum_list)

lemma risk_score_member: "h \<in> set (risk_hits now g) \<Longrightarrow> hit_score h \<le> risk_score (risk_hits now g)"
proof -
  assume h: "h \<in> set (risk_hits now g)"
  have "hit_score h \<le> sum_list (map hit_score (risk_hits now g))"
    by (rule sum_scores_ge [OF _ h]) (use risk_hits_score in force)
  moreover have "hit_score h \<le> 100" using risk_hits_score [OF h] by simp
  ultimately show ?thesis by (simp add: risk_score_def)
qed

lemma risk_score_range: "0 \<le> risk_score (risk_hits now g) \<and> risk_score (risk_hits now g) \<le> 100"
proof -
  have "0 \<le> sum_list (map hit_score (risk_hits now g))"
    by (rule sum_list_nonneg) (use risk_hits_score in force)
  then show ?thesis by (simp add: risk_score_def)
qed

lemma risk_score_0_iff: "risk_score (risk_hits now g) = 0 \<longleftrightarrow> risk_hits now g = []"
proof
  assume z: "risk_score (risk_hits now g) = 0"
  show "risk_hits now g = []"
  proof (rule ccontr)
    assume "risk_hits now g \<noteq> []"
    then obtain h where h: "h \<in> set (risk_hits now g)" by (cases "risk_hits now g") auto
    then show False using risk_score_member [OF h] risk_hits_score [OF h] z by simp
  qed
qed (simp add: risk_score_def)

lemma risk_decide_auto_iff: "risk_decide (risk_hits now g) = AutoApproved \<longleftrightarrow> risk_hits now g = []"
  by (auto simp: risk_decide_def risk_score_0_iff risk_blocked_def)

lemma final_status_valid: "finalStatusForDecision d n \<in> set request_statuses"
  by (cases d) (simp_all add: finalStatusForDecision_def request_statuses_def)

section \<open>Properties of the risk engine\<close>


definition clean_signals :: risk_signals where
  "clean_signals =
     \<lparr>sig_auto_enabled = True, sig_kill_switch = False, sig_max_auto_amount = 500000,
      sig_cooldown_hours = 24, sig_hourly_limit = 3, sig_bank_hourly_limit = 5,
      sig_device_hourly_limit = 4, sig_ip_hourly_limit = 8, sig_bank_daily_limit = 1500000,
      sig_account_status = ''verified'', sig_verified_at = 0, sig_available_balance = 0,
      sig_balance_before = 100000, sig_amount = 100000, sig_open_disputes = 0, sig_hourly = 1,
      sig_bank_hourly = 1, sig_bank_daily = 100000, sig_device = Some ''dev-1'', sig_ip = None,
      sig_device_hourly = 0, sig_ip_hourly = 0, sig_device_seen = 3, sig_account_reuse = 1,
      sig_rating = 5, sig_complaints = 0, sig_complaint_ratio = 0\<rparr>"

lemma clean_signals_hits: "risk_hits 90000000 clean_signals = []"
  by (simp add: risk_hits_def account_rules_def velocity_rules_def clean_signals_def
      velocity_rule_def present_def fires_def)


text \<open>
  The kill switch: while it is on, no payout is approved automatically; the request is held
  (\<open>risk_hold\<close>) or blocked, whatever the other signals are.
\<close>

theorem kill_switch_holds_payout:
  assumes "sig_kill_switch g"
  shows "finalStatusForDecision (risk_decide (risk_hits now g)) (risk_score (risk_hits now g))
           \<in> {''risk_hold'', ''blocked''}"
proof -
  let ?h = EMERGENCY_KILL_SWITCH
  have h: "?h \<in> set (risk_hits now g)"
    using assms by (simp add: risk_hits_def account_rules_def)
  have "60 \<le> risk_score (risk_hits now g)" using risk_score_member [OF h] by simp
  then show ?thesis
    by (auto simp: risk_decide_def finalStatusForDecision_def)
qed

theorem kill_switch_holds_payout_witness:
  "finalStatusForDecision
     (risk_decide (risk_hits 90000000 (clean_signals\<lparr>sig_kill_switch := True\<rparr>)))
     (risk_score (risk_hits 90000000 (clean_signals\<lparr>sig_kill_switch := True\<rparr>))) \<in> {''risk_hold'', ''blocked''}"
  by (rule kill_switch_holds_payout) simp

section \<open>The risk engine as an operation on the store\<close>

lemma apply_decision_status [simp]: "req_status (apply_decision now final rs r) = final"
  by (simp add: apply_decision_def)

lemma apply_decision_identity [simp]: "same_identity r (apply_decision now final rs r)"
  by (simp add: apply_decision_def same_identity_def)

lemma final_not_refund:
  "finalStatusForDecision d n \<noteq> ''blocked'' \<Longrightarrow>
   req_status (apply_decision now (finalStatusForDecision d n) rs r) \<in> set refund_statuses \<Longrightarrow>
   req_status q \<in> set refund_statuses"
  by (simp add: refund_statuses_def finalStatusForDecision_def split: if_splits)

lemma evaluate_risk_effects:
  assumes e: "evaluateCourierPayoutRisk now req i t = Inr (d, u)" and t: "effects s t"
  shows "effects s u"
proof -
  obtain r a where r: "find_request t i = Some r" and a: "find_account t (req_account r) = Some a"
    using e by (auto simp: evaluateCourierPayoutRisk_def split: option.splits)
  let ?hits = "risk_hits now (risk_signals_of now req t r a)"
  let ?final = "finalStatusForDecision (risk_decide ?hits) (risk_score ?hits)"
  obtain row s2 where
    s2: "update_request i (apply_decision now ?final (map hit_message ?hits))
           (t\<lparr>decisions := decisions t @ [row]\<rparr>) = Inr s2"
    and u: "u = writePayoutAuditEvent now req ''risk_decision_created'' (decision_severity (risk_decide ?hits))
              (Some (req_courier r)) (Some i) (Some (req_status r)) (Some ?final) None
              (if ?final = ''blocked'' then ensure_reversal (req_courier r) (req_amount r) i s2 else s2)"
    using e by (auto simp: evaluateCourierPayoutRisk_def r a Let_def split: sum.splits)
  have "effects t (t\<lparr>decisions := decisions t @ [row]\<rparr>)" by (rule effects_other [OF rtranclp.rtrancl_refl]) simp_all
  then have "effects t (if ?final = ''blocked'' then ensure_reversal (req_courier r) (req_amount r) i s2 else s2)"
    using effects_update [OF s2 _ _ final_not_refund] reverse_after_update [OF s2 _ _ r] by simp
  then have "effects t u" unfolding u by (rule effects_audit)
  with t show ?thesis by (rule effects_trans)
qed

text \<open>The outcome for a request and an account that exist.\<close>

lemma evaluate_risk_run:
  assumes r: "find_request s i = Some r" and a: "find_account s (req_account r) \<noteq> None"
  obtains d t r' where "evaluateCourierPayoutRisk now req i s = Inr (d, t)" and "find_request t i = Some r'"
    and "same_identity r r'" and "req_status r' \<in> {''approved_auto'', ''manual_review'', ''risk_hold'', ''blocked''}"
proof -
  obtain a where a: "find_account s (req_account r) = Some a" using a by auto
  let ?hits = "risk_hits now (risk_signals_of now req s r a)"
  let ?final = "finalStatusForDecision (risk_decide ?hits) (risk_score ?hits)"
  let ?f = "apply_decision now ?final (map hit_message ?hits)"
  have f: "?final \<in> {''approved_auto'', ''manual_review'', ''risk_hold'', ''blocked''}"
    by (simp add: finalStatusForDecision_def)
  have u: "update_request i ?f u
      = Inr (u\<lparr>requests := map (\<lambda>r. if req_id r = i then ?f r else r) (requests u)\<rparr>)" for u i
    by (rule update_request_ok) (simp add: final_status_valid)
  obtain d t where ev: "evaluateCourierPayoutRisk now req i s = Inr (d, t)"
    and t: "requests t = map (\<lambda>q. if req_id q = i then ?f q else q) (requests s)"
    using r a by (simp add: evaluateCourierPayoutRisk_def Let_def u)
  have "req_id (if req_id q = i then ?f q else q) = req_id q" for q
    using apply_decision_identity [of q now ?final "map hit_message ?hits"] by (simp add: same_identity_def)
  then have "find_request t i = Some (?f r)"
    using r find_request_Some [OF r] by (simp add: find_request_def t find_map_id)
  then show ?thesis using ev f by (intro that [of d t "?f r"]) simp_all
qed

definition risk_store :: "instant \<Rightarrow> http_request option \<Rightarrow> uuid \<Rightarrow> payout_store \<Rightarrow> payout_store" where
  "risk_store now req i s = (case evaluateCourierPayoutRisk now req i s of Inl _ \<Rightarrow> s | Inr (_, t) \<Rightarrow> t)"

interpretation risk: payout_operation "risk_store now req i" "\<lambda>_. True"
  by unfold_locales (auto simp: risk_store_def evaluate_risk_effects split: sum.split)

end
