(* ===== verification/PayoutRequest.thy ===== *)
theory PayoutRequest
  imports PayoutRisk
begin

text \<open>
  Creating a payout request: the database function \<open>request_courier_payout\<close> (as last redefined by
  the risk-engine migration), which holds the amount in the ledger, and the mobile handler
  \<open>createMobileCourierPayoutRequest\<close> (\<open>controllers/courier/courierEarnings.controller.ts\<close>), which
  checks the input and the PIN, runs the function and the risk engine in one transaction, and
  maps errors to responses.
\<close>

section \<open>The database function\<close>

definition int32_max :: int where "int32_max = 2147483647"

text \<open>\<open>text::int\<close>: an optional sign and digits, within 32 bits.\<close>

definition text_to_int :: "string \<Rightarrow> int option" where
  "text_to_int s =
     (let t = js_trim s;
          neg = (case t of [] \<Rightarrow> False | c # _ \<Rightarrow> c = CHR ''-'');
          ds = (case t of [] \<Rightarrow> [] | c # cs \<Rightarrow> if c = CHR ''-'' \<or> c = CHR ''+'' then cs else t);
          v = (if neg then - int (digits_nat ds) else int (digits_nat ds))
      in if ds = [] \<or> \<not> list_all is_digit ds \<or> v > int32_max \<or> v < - int32_max - 1 then None else Some v)"

definition get_system_config_int :: "payout_store \<Rightarrow> string \<Rightarrow> int \<Rightarrow> int" where
  "get_system_config_int s key dflt =
     (case map_of (configs s) key of
        None \<Rightarrow> dflt
      | Some v \<Rightarrow> (case text_to_int (config_text v) of Some i \<Rightarrow> i | None \<Rightarrow> dflt))"

text \<open>The balance reported when the idempotency key was seen before.\<close>

definition replay_balance :: "payout_store \<Rightarrow> uuid \<Rightarrow> int" where
  "replay_balance s c =
     sum_list (map (\<lambda>l. if led_direction l = Credit then led_amount l else - led_amount l)
       (filter (\<lambda>l. led_courier l = c
          \<and> led_settlement l \<in> set [''available'', ''requested'', ''processing'', ''paid'']) (ledger s)))"

text \<open>\<open>ORDER BY verified_at DESC NULLS LAST, created_at DESC LIMIT 1\<close>.\<close>

definition primary_account :: "payout_store \<Rightarrow> uuid \<Rightarrow> payout_account option" where
  "primary_account s c =
     first_of (sort_key (\<lambda>a. case acc_verified_at a of None \<Rightarrow> (1::int) | Some _ \<Rightarrow> 0)
       (sort_key (\<lambda>a. case acc_verified_at a of None \<Rightarrow> 0 | Some t \<Rightarrow> - t)
         (sort_key (\<lambda>a. - acc_created_at a)
           (filter (\<lambda>a. acc_courier a = c \<and> acc_primary a \<and> acc_status a = ''verified'') (accounts s)))))"

definition pending_count :: "payout_store \<Rightarrow> uuid \<Rightarrow> int" where
  "pending_count s c =
     count_if (\<lambda>r. req_courier r = c \<and> req_status r \<in> set activePayoutStatuses) (requests s)"

definition requested_today :: "instant \<Rightarrow> payout_store \<Rightarrow> uuid \<Rightarrow> int" where
  "requested_today now s c =
     sum_list (map req_amount (filter (\<lambda>r. req_courier r = c \<and> req_requested_at r \<ge> day_start now
        \<and> req_status r \<notin> set [''failed'', ''rejected'', ''blocked'', ''cancelled'']) (requests s)))"

definition new_request ::
  "instant \<Rightarrow> uuid \<Rightarrow> uuid \<Rightarrow> payout_account \<Rightarrow> int \<Rightarrow> string \<Rightarrow> int \<Rightarrow> payout_request" where
  "new_request now new_id c account amount key balance =
     \<lparr>req_id = new_id, req_courier = c, req_account = acc_id account, req_amount = amount, req_fee = 0,
      req_status = ''risk_screening'', req_key = js_trim key,
      req_destination = \<lparr>dst_bank_code = acc_bank_code account, dst_account_name = acc_name account,
        dst_last4 = acc_last4 account, dst_vault_ref = acc_vault_ref account\<rparr>,
      req_balance_before = balance,
      req_failure_reason = None, req_provider_name = None, req_provider_reference = None,
      req_requested_at = now, req_created_at = now, req_updated_at = now,
      req_reviewed_by = None, req_reviewed_at = None, req_processed_by = None,
      req_processed_at = None, req_paid_at = None\<rparr>"

definition request_courier_payout ::
  "instant \<Rightarrow> uuid \<Rightarrow> uuid \<Rightarrow> int \<Rightarrow> string \<Rightarrow> payout_store
   \<Rightarrow> db_error + ((uuid \<times> string \<times> int) \<times> payout_store)" where
  "request_courier_payout now new_id c amount key s =
     (let v_min = get_system_config_int s ''payout_min_amount_idr'' 25000;
          v_daily = get_system_config_int s ''payout_daily_limit_idr'' 1000000;
          v_pending = get_system_config_int s ''payout_max_pending_requests'' 2 in
      if amount > int32_max then Inl (Thrown ''value is out of range for type integer'')
      else if amount \<le> 0 then Inl (Thrown ''Payout amount must be greater than zero'')
      else if amount < v_min then Inl (Thrown ''Payout amount is below the minimum policy'')
      else if length (js_trim key) < 12 then Inl (Thrown ''Idempotency key is required for payout request'')
      else case find (\<lambda>r. req_courier r = c \<and> req_key r = key) (requests s) of
        Some r \<Rightarrow> Inr ((req_id r, req_status r, replay_balance s c), s)
      | None \<Rightarrow>
         (case primary_account s c of
            None \<Rightarrow> Inl (Thrown ''Verified payout account is required before requesting payout'')
          | Some a \<Rightarrow>
             (let v_avail = available_balance s c in
              if pending_count s c \<ge> v_pending then Inl (Thrown ''Too many active payout requests'')
              else if requested_today now s c + amount > v_daily then Inl (Thrown ''Daily payout limit exceeded'')
              else if v_avail < amount then Inl (Thrown ''Insufficient available payout balance'')
              else if list_ex (\<lambda>r. req_courier r = c \<and> req_key r = js_trim key) (requests s)
                then Inl (UniqueViolation ''idx_courier_payout_requests_idempotency'')
              else Inr ((new_id, ''risk_screening'', v_avail - amount),
                     s\<lparr>requests := requests s @ [new_request now new_id c a amount key v_avail],
                       ledger := ledger s @ [requested_row c amount new_id]\<rparr>))))"

section \<open>The mobile handler\<close>

datatype http_result = HttpError nat string | HttpOk nat

record courier_user =
  cu_status :: string
  cu_pin_hash :: "string option"

record pin_env =
  placeholder_hash :: string
  development_pin :: string

text \<open>\<open>isValidCourierPassword\<close>; \<open>bcrypt.compareSync\<close> is a parameter.\<close>

definition isValidCourierPassword ::
  "(string \<Rightarrow> string \<Rightarrow> bool) \<Rightarrow> pin_env \<Rightarrow> string \<Rightarrow> string option \<Rightarrow> bool" where
  "isValidCourierPassword bcrypt env password pin_hash =
     (case pin_hash of
        None \<Rightarrow> False
      | Some h \<Rightarrow>
         if h = [] then False
         else if h = placeholder_hash env then password = development_pin env
         else if starts_with ''$2a$'' h \<or> starts_with ''$2b$'' h \<or> starts_with ''$2y$'' h then bcrypt password h
         else password = h)"

text \<open>\<open>logPayoutSecurityEvent\<close>: an audit event of the courier who sent the request.\<close>

definition logPayoutSecurityEvent ::
  "instant \<Rightarrow> http_request \<Rightarrow> string \<Rightarrow> severity \<Rightarrow> uuid option \<Rightarrow> payout_store \<Rightarrow> payout_store" where
  "logPayoutSecurityEvent now req event sev request_id s =
     (case user_id req of
        None \<Rightarrow> s
      | Some u \<Rightarrow> writePayoutAuditEvent now (Some req) event sev (Some u) request_id None None None s)"

fun error_message :: "db_error \<Rightarrow> string" where
  "error_message (CheckViolation c) = ''violates check constraint '' @ c"
| "error_message (UniqueViolation c) = ''duplicate key value violates unique constraint '' @ c"
| "error_message (Thrown m) = m"

text \<open>The case-insensitive test of line 679.\<close>

definition knownPolicyError :: "string \<Rightarrow> bool" where
  "knownPolicyError message =
     list_ex (\<lambda>w. str_includes (toLowerCase w) (toLowerCase message))
       [''minimum'', ''Verified payout account'', ''cooldown'', ''Too many'', ''Daily payout'',
        ''Insufficient'', ''Idempotency'']"

record payout_body =
  body_amount :: jsnum
  body_pin :: string
  body_key :: string

text \<open>The transaction of the handler: the database function, then the risk engine on its request.\<close>

definition payout_request_transaction ::
  "instant \<Rightarrow> uuid \<Rightarrow> http_request \<Rightarrow> uuid \<Rightarrow> int \<Rightarrow> string \<Rightarrow> payout_store \<Rightarrow> db_error + (uuid \<times> payout_store)" where
  "payout_request_transaction now new_id req c amount key s =
     (case request_courier_payout now new_id c amount key s of
        Inl e \<Rightarrow> Inl e
      | Inr ((i, st, bal), s1) \<Rightarrow>
          (case evaluateCourierPayoutRisk now (Some req) i s1 of
             Inl e \<Rightarrow> Inl e
           | Inr (d, s2) \<Rightarrow> Inr (i, s2)))"

definition createMobileCourierPayoutRequest ::
  "(string \<Rightarrow> string \<Rightarrow> bool) \<Rightarrow> pin_env \<Rightarrow> alert_env \<Rightarrow> instant \<Rightarrow> uuid \<Rightarrow> http_request
   \<Rightarrow> string option \<Rightarrow> courier_user option \<Rightarrow> payout_body \<Rightarrow> payout_store \<Rightarrow> http_result \<times> payout_store" where
  "createMobileCourierPayoutRequest bcrypt penv aenv now new_id req currency courier body s =
     (case user_id req of
        None \<Rightarrow> (HttpError 401 ''ERR_UNAUTHORIZED'', s)
      | Some c \<Rightarrow>
        (case body_amount body of
           Fin x \<Rightarrow>
            (let key = js_trim (body_key body) in
             if x \<noteq> of_int \<lfloor>x\<rfloor> \<or> x \<le> 0 then (HttpError 400 ''ERR_INVALID_AMOUNT'', s)
             else if body_pin body = [] then (HttpError 400 ''ERR_STEP_UP_REQUIRED'', s)
             else if length key < 12 then (HttpError 400 ''ERR_IDEMPOTENCY_REQUIRED'', s)
             else if currency \<noteq> None \<and> currency \<noteq> Some ''IDR''
               then (HttpError 422 ''ERR_PAYOUT_CURRENCY_NOT_SUPPORTED'', s)
             else if \<not> (case courier of None \<Rightarrow> False
                        | Some u \<Rightarrow> cu_status u = ''active''
                            \<and> isValidCourierPassword bcrypt penv (body_pin body) (cu_pin_hash u))
               then (HttpError 403 ''ERR_STEP_UP_FAILED'',
                     logPayoutSecurityEvent now req ''step_up_failed'' Warning None s)
             else
               (case payout_request_transaction now new_id req c \<lfloor>x\<rfloor> key s of
                     Inl e \<Rightarrow>
                       (HttpError (if knownPolicyError (error_message e) then 422 else 500)
                          (if knownPolicyError (error_message e) then ''ERR_PAYOUT_POLICY_BLOCKED'' else ''ERR_INTERNAL_SERVER''),
                        evaluatePayoutAlerts aenv now
                          (logPayoutSecurityEvent now req ''request_blocked'' Warning None s))
                   | Inr (i, s2) \<Rightarrow>
                       (HttpOk 201,
                        evaluatePayoutAlerts aenv now
                          (logPayoutSecurityEvent now req ''request_created'' Info (Some i) s2))))
         | _ \<Rightarrow> (HttpError 400 ''ERR_INVALID_AMOUNT'', s)))"

section \<open>The handler as an operation on the store\<close>

lemma request_courier_payout_cases:
  assumes "request_courier_payout now new_id c amount key s = Inr ((i, st, bal), t)"
  obtains (replay) r where "find (\<lambda>r. req_courier r = c \<and> req_key r = key) (requests s) = Some r"
      "i = req_id r" "st = req_status r" "t = s"
  | (opened) a where "find (\<lambda>r. req_courier r = c \<and> req_key r = key) (requests s) = None"
      "i = new_id" "st = ''risk_screening''" "bal = available_balance s c - amount"
      "primary_account s c = Some a" "amount \<le> available_balance s c"
      "pending_count s c < get_system_config_int s ''payout_max_pending_requests'' 2"
      "requested_today now s c + amount \<le> get_system_config_int s ''payout_daily_limit_idr'' 1000000"
      "get_system_config_int s ''payout_min_amount_idr'' 25000 \<le> amount" "0 < amount"
      "12 \<le> length (js_trim key)"
      "\<not> list_ex (\<lambda>r. req_courier r = c \<and> req_key r = js_trim key) (requests s)"
      "t = s\<lparr>requests := requests s @ [new_request now new_id c a amount key (available_balance s c)],
             ledger := ledger s @ [requested_row c amount new_id]\<rparr>"
proof (cases "find (\<lambda>r. req_courier r = c \<and> req_key r = key) (requests s)")
  case (Some r)
  then show ?thesis
    using assms by (intro replay [of r]) (simp_all add: request_courier_payout_def Let_def split: if_splits)
next
  case None
  then obtain a where "primary_account s c = Some a"
    using assms by (auto simp: request_courier_payout_def Let_def split: if_splits option.splits)
  with None show ?thesis
    using assms by (intro opened [of a]) (auto simp add: request_courier_payout_def Let_def split: if_splits)
qed

lemma new_request_fields [simp]:
  "req_id (new_request now i c a amount key b) = i"
  "req_courier (new_request now i c a amount key b) = c"
  "req_amount (new_request now i c a amount key b) = amount"
  "req_status (new_request now i c a amount key b) = ''risk_screening''"
  "req_key (new_request now i c a amount key b) = js_trim key"
  "req_account (new_request now i c a amount key b) = acc_id a"
  "req_fee (new_request now i c a amount key b) = 0"
  by (simp_all add: new_request_def)

lemma request_courier_payout_effects:
  assumes r: "request_courier_payout now new_id c amount key s = Inr ((i, st, bal), t)"
    and fresh: "find_request s new_id = None"
  shows "effects s t"
  using r
proof (cases rule: request_courier_payout_cases)
  case (opened a)
  let ?r = "new_request now new_id c a amount key (available_balance s c)"
  have "effect s (s\<lparr>requests := requests s @ [?r],
          ledger := ledger s @ [requested_row (req_courier ?r) (req_amount ?r) (req_id ?r)]\<rparr>)"
    by (rule effect.open_request) (use fresh opened in \<open>simp_all add: request_statuses_def refund_statuses_def\<close>)
  then show ?thesis using opened by (simp add: effect_effects)
qed simp

lemma transaction_effects:
  assumes "payout_request_transaction now new_id req c amount key s = Inr (i, t)"
    and "find_request s new_id = None"
  shows "effects s t"
proof -
  obtain st bal s1 d where "request_courier_payout now new_id c amount key s = Inr ((i, st, bal), s1)"
    and "evaluateCourierPayoutRisk now (Some req) i s1 = Inr (d, t)"
    using assms(1) by (auto simp: payout_request_transaction_def split: sum.splits)
  with assms(2) show ?thesis
    by (blast intro: evaluate_risk_effects request_courier_payout_effects)
qed

lemma logPayoutSecurityEvent_fields [simp]:
  "requests (logPayoutSecurityEvent now req ev sv i s) = requests s"
  "ledger (logPayoutSecurityEvent now req ev sv i s) = ledger s"
  "dispatches (logPayoutSecurityEvent now req ev sv i s) = dispatches s"
  "accounts (logPayoutSecurityEvent now req ev sv i s) = accounts s"
  "decisions (logPayoutSecurityEvent now req ev sv i s) = decisions s"
  by (simp_all add: logPayoutSecurityEvent_def split: option.splits)

lemma effects_log: "effects s t \<Longrightarrow> effects s (logPayoutSecurityEvent now req ev sv i t)"
  by (erule effects_other) simp_all

lemma create_request_effects:
  assumes "find_request s new_id = None"
  shows "effects s (snd (createMobileCourierPayoutRequest bcrypt penv aenv now new_id req currency courier body s))"
  using transaction_effects [OF _ assms]
  by (auto simp: createMobileCourierPayoutRequest_def Let_def effects_alerts effects_log
      split: option.split jsnum.split sum.split)

interpretation create_request: payout_operation
  "\<lambda>s. snd (createMobileCourierPayoutRequest bcrypt penv aenv now new_id req currency courier body s)"
  "\<lambda>s. find_request s new_id = None"
  for bcrypt penv aenv now new_id req currency courier body
  by unfold_locales (rule create_request_effects)

section \<open>Properties of a request\<close>

lemma open_dispute_cong: "disputes t = disputes s \<Longrightarrow> open_dispute t = open_dispute s"
  by (rule ext) (auto simp add: open_dispute_def split: option.split)

lemma available_balance_hold:
  "available_balance (s\<lparr>requests := rs, ledger := ledger s @ [requested_row c amount i]\<rparr>) c
     = available_balance s c - amount"
proof -
  let ?t = "s\<lparr>requests := rs, ledger := ledger s @ [requested_row c amount i]\<rparr>"
  have od: "open_dispute ?t = open_dispute s" by (rule open_dispute_cong) simp
  show ?thesis unfolding available_balance_def od by (simp add: requested_row_def)
qed

text \<open>
  C13.  The payout policy.  When the database function opens a request, the amount is positive and at
  least the configured minimum, the courier has fewer than the allowed active requests, the day's
  total stays within the daily limit, a verified primary account exists, and the available balance
  covered the amount; the balance afterwards is lower by exactly the amount and not negative.
\<close>

theorem request_respects_policy:
  assumes "request_courier_payout now new_id c amount key s = Inr ((i, st, bal), t)" and "t \<noteq> s"
  shows "0 < amount \<and> get_system_config_int s ''payout_min_amount_idr'' 25000 \<le> amount
     \<and> pending_count s c < get_system_config_int s ''payout_max_pending_requests'' 2
     \<and> requested_today now s c + amount \<le> get_system_config_int s ''payout_daily_limit_idr'' 1000000
     \<and> primary_account s c \<noteq> None
     \<and> bal = available_balance t c \<and> available_balance t c = available_balance s c - amount
     \<and> 0 \<le> available_balance t c"
  using assms(1)
proof (cases rule: request_courier_payout_cases)
  case (replay r)
  with assms(2) show ?thesis by simp
next
  case (opened a)
  then show ?thesis by (simp add: available_balance_hold)
qed

definition demo_account :: payout_account where
  "demo_account =
     \<lparr>acc_id = ''a1'', acc_courier = ''c1'', acc_status = ''verified'', acc_primary = True,
      acc_bank_code = ''BCA'', acc_name = ''Budi'', acc_last4 = ''1234'', acc_vault_ref = ''v1'',
      acc_fingerprint = None, acc_verified_by = None, acc_verified_at = Some 0, acc_created_at = 0\<rparr>"

definition demo_earning :: ledger_row where
  "demo_earning =
     \<lparr>led_courier = ''c1'', led_order = None, led_source = ''delivery'', led_direction = Credit,
      led_amount = 80000, led_settlement = ''available'', led_type = ''delivery_earning'',
      led_request = None, led_withdrawable = True\<rparr>"

definition demo_store :: payout_store where
  "demo_store = empty_store\<lparr>accounts := [demo_account], ledger := [demo_earning]\<rparr>"

definition demo_key :: string where "demo_key = ''key-00000001''"

lemma demo_key_facts [simp]: "js_trim demo_key = demo_key" "length demo_key = 12"
  by (simp_all add: demo_key_def) code_simp

lemmas demo_defs = demo_store_def demo_account_def demo_earning_def empty_store_def

lemma demo_request:
  "request_courier_payout 0 ''p1'' ''c1'' 50000 demo_key demo_store =
     Inr ((''p1'', ''risk_screening'', 30000),
       demo_store\<lparr>requests := [new_request 0 ''p1'' ''c1'' demo_account 50000 demo_key 80000],
         ledger := [demo_earning, requested_row ''c1'' 50000 ''p1'']\<rparr>)"
  by (simp add: request_courier_payout_def get_system_config_int_def int32_max_def demo_defs
      primary_account_def first_of_def pending_count_def count_if_def requested_today_def
      available_balance_def open_dispute_def)

theorem request_respects_policy_witness:
  "(0::int) < 50000 \<and> available_balance (demo_store\<lparr>requests := [new_request 0 ''p1'' ''c1'' demo_account 50000 demo_key 80000],
         ledger := [demo_earning, requested_row ''c1'' 50000 ''p1'']\<rparr>) ''c1'' = available_balance demo_store ''c1'' - 50000"
  using request_respects_policy [OF demo_request] by (simp add: demo_defs)

text \<open>
  Idempotency.  Repeating a request that was opened, with the same (trimmed) key, returns the
  first request, holds nothing more and leaves the store as it is, whatever the id, the time and
  the amount of the second call are, as long as that amount passes the input checks.
\<close>

theorem request_replay_idempotent:
  assumes "request_courier_payout now new_id c amount key s = Inr ((i, st, bal), t)"
    and "t \<noteq> s" and "js_trim key = key"
    and "get_system_config_int s ''payout_min_amount_idr'' 25000 \<le> amount'" "0 < amount'" "amount' \<le> int32_max"
  shows "request_courier_payout now' new_id' c amount' key t = Inr ((i, ''risk_screening'', replay_balance t c), t)"
  using assms(1)
proof (cases rule: request_courier_payout_cases)
  case (replay r)
  with assms(2) show ?thesis by simp
next
  case (opened a)
  have "find (\<lambda>r. req_courier r = c \<and> req_key r = key) (requests t)
      = Some (new_request now new_id c a amount key (available_balance s c))"
    using opened assms(3) by (simp add: find_append_None)
  moreover have "get_system_config_int t ''payout_min_amount_idr'' 25000 \<le> amount'"
    using opened assms(4) by (simp add: get_system_config_int_def)
  ultimately show ?thesis
    using opened assms(5,6) by (simp add: request_courier_payout_def Let_def)
qed

theorem request_replay_idempotent_witness:
  "\<exists>t bal. request_courier_payout 0 ''p1'' ''c1'' 50000 demo_key demo_store = Inr ((''p1'', ''risk_screening'', bal), t)
     \<and> request_courier_payout 9 ''p2'' ''c1'' 60000 demo_key t = Inr ((''p1'', ''risk_screening'', replay_balance t ''c1''), t)"
proof -
  have "request_courier_payout 9 ''p2'' ''c1'' 60000 demo_key
      (demo_store\<lparr>requests := [new_request 0 ''p1'' ''c1'' demo_account 50000 demo_key 80000],
         ledger := [demo_earning, requested_row ''c1'' 50000 ''p1'']\<rparr>)
    = Inr ((''p1'', ''risk_screening'', replay_balance (demo_store\<lparr>requests := [new_request 0 ''p1'' ''c1'' demo_account 50000 demo_key 80000],
         ledger := [demo_earning, requested_row ''c1'' 50000 ''p1'']\<rparr>) ''c1''),
        demo_store\<lparr>requests := [new_request 0 ''p1'' ''c1'' demo_account 50000 demo_key 80000],
         ledger := [demo_earning, requested_row ''c1'' 50000 ''p1'']\<rparr>)"
    by (rule request_replay_idempotent [OF demo_request])
      (simp_all add: demo_defs get_system_config_int_def int32_max_def)
  with demo_request show ?thesis by blast
qed


definition plain_request :: http_request where
  "plain_request = \<lparr>x_forwarded_for = None, x_device_id = None, x_client_device_id = None,
     remote_address = None, user_id = Some ''c1'', user_role = Some ''courier''\<rparr>"

definition plain_body :: payout_body where
  "plain_body = \<lparr>body_amount = Fin 50000, body_pin = [], body_key = demo_key\<rparr>"


text \<open>
  A replay is judged again.  When the key belongs to an existing request, the transaction still
  runs the risk engine on it, so its status becomes one of the risk engine's four, whatever it
  was before: a request that was already approved by hand, sent to the provider or paid goes back.
\<close>

theorem replay_resets_status:
  assumes "find (\<lambda>r. req_courier r = c \<and> req_key r = key) (requests s) = Some r"
    and "find_request s (req_id r) = Some r" and "find_account s (req_account r) \<noteq> None"
    and "get_system_config_int s ''payout_min_amount_idr'' 25000 \<le> amount" "0 < amount" "amount \<le> int32_max"
    and "12 \<le> length (js_trim key)"
  shows "\<exists>t r'. payout_request_transaction now new_id req c amount key s = Inr (req_id r, t)
     \<and> find_request t (req_id r) = Some r' \<and> same_identity r r'
     \<and> req_status r' \<in> {''approved_auto'', ''manual_review'', ''risk_hold'', ''blocked''}"
proof -
  obtain d t r' where ev: "evaluateCourierPayoutRisk now (Some req) (req_id r) s = Inr (d, t)"
    and r': "find_request t (req_id r) = Some r'" "same_identity r r'"
      "req_status r' \<in> {''approved_auto'', ''manual_review'', ''risk_hold'', ''blocked''}"
    by (rule evaluate_risk_run [OF assms(2,3)])
  have "request_courier_payout now new_id c amount key s = Inr ((req_id r, req_status r, replay_balance s c), s)"
    using assms by (simp add: request_courier_payout_def Let_def)
  then show ?thesis using r' by (simp add: payout_request_transaction_def ev)
qed

definition paid_request :: payout_request where
  "paid_request = (new_request 0 ''p1'' ''c1'' demo_account 50000 demo_key 80000)\<lparr>req_status := ''paid''\<rparr>"

theorem replay_resets_status_witness:
  "\<exists>t r'. payout_request_transaction 5 ''p2'' plain_request ''c1'' 50000 demo_key (demo_store\<lparr>requests := [paid_request]\<rparr>)
        = Inr (req_id paid_request, t)
     \<and> find_request t (req_id paid_request) = Some r' \<and> same_identity paid_request r'
     \<and> req_status r' \<in> {''approved_auto'', ''manual_review'', ''risk_hold'', ''blocked''}"
  by (rule replay_resets_status)
    (simp_all add: paid_request_def demo_defs find_request_def find_account_def get_system_config_int_def
      int32_max_def)

end
