(* ===== verification/PayoutReview.thy ===== *)
theory PayoutReview
  imports PayoutRequest
begin

text \<open>
  The admin handlers that move a payout by hand (\<open>controllers/finance.controller.ts\<close>): the account
  status, the request status with its transition table, and the review actions.  Each handler is
  one transaction: an early return leaves the store as it was.
\<close>

section \<open>Audit helpers\<close>

definition writeFinanceAudit :: "string \<Rightarrow> string \<Rightarrow> payout_store \<Rightarrow> payout_store" where
  "writeFinanceAudit key reason s = s\<lparr>finance_log := finance_log s @ [(key, reason)]\<rparr>"

definition writeCourierPayoutFinanceAudit ::
  "instant \<Rightarrow> http_request \<Rightarrow> string \<Rightarrow> uuid \<Rightarrow> uuid option \<Rightarrow> string \<Rightarrow> string \<Rightarrow> payout_store \<Rightarrow> payout_store" where
  "writeCourierPayoutFinanceAudit now req event courier request_id old new s =
     writePayoutAuditEvent now (Some req) event
       (if new = ''failed'' \<or> new = ''suspended'' then Warning else Info)
       (Some courier) request_id (Some old) (Some new) None s"

section \<open>The account status\<close>

definition updateCourierPayoutAccountStatus ::
  "instant \<Rightarrow> http_request \<Rightarrow> uuid \<Rightarrow> uuid \<Rightarrow> string \<Rightarrow> string option \<Rightarrow> payout_store
   \<Rightarrow> http_result \<times> payout_store" where
  "updateCourierPayoutAccountStatus now req actor i status reason s =
     (if status \<notin> set [''verified'', ''rejected'', ''suspended'', ''pending_review'']
      then (HttpError 400 ''Invalid payout account status'', s)
      else case find_account s i of
        None \<Rightarrow> (HttpError 404 ''Payout account not found'', s)
      | Some a \<Rightarrow>
         (let upd = (\<lambda>b. b\<lparr>acc_status := status,
                         acc_verified_by := (if status = ''verified'' then Some actor else acc_verified_by b),
                         acc_verified_at := (if status = ''verified'' then Some now else acc_verified_at b)\<rparr>);
              s1 = s\<lparr>accounts := map (\<lambda>b. if acc_id b = i then upd b else b) (accounts s)\<rparr>;
              s2 = writeFinanceAudit (''courier_payout_account:'' @ i)
                     (str_or reason (''Updated payout account status to '' @ status)) s1
          in (HttpOk 200,
              writeCourierPayoutFinanceAudit now req ''account_status_changed'' (acc_courier a) None
                (acc_status a) status s2)))"

section \<open>The request status\<close>

definition settable_statuses :: "string list" where
  "settable_statuses =
     [''risk_hold'', ''manual_review'', ''under_review'', ''approved'', ''processing'', ''paid'',
      ''failed'', ''rejected'', ''blocked'', ''cancelled'']"

definition allowedTransitions :: "string \<Rightarrow> string list option" where
  "allowedTransitions = map_of
     [(''requested'', [''under_review'', ''approved'', ''processing'', ''paid'', ''failed'', ''rejected'', ''cancelled'']),
      (''risk_screening'', [''risk_hold'', ''manual_review'', ''approved'', ''processing'', ''paid'', ''failed'', ''rejected'', ''blocked'', ''cancelled'']),
      (''approved_auto'', [''processing'', ''paid'', ''failed'', ''cancelled'']),
      (''risk_hold'', [''manual_review'', ''under_review'', ''approved'', ''failed'', ''rejected'', ''blocked'', ''cancelled'']),
      (''manual_review'', [''under_review'', ''approved'', ''failed'', ''rejected'', ''blocked'', ''cancelled'']),
      (''under_review'', [''approved'', ''processing'', ''paid'', ''failed'', ''rejected'', ''blocked'', ''cancelled'']),
      (''approved'', [''processing'', ''paid'', ''failed'', ''cancelled'']),
      (''processing'', [''paid'', ''failed'']),
      (''paid'', [''paid'']),
      (''failed'', [''failed'']),
      (''rejected'', [''rejected'']),
      (''blocked'', [''blocked'']),
      (''cancelled'', [''cancelled''])]"

definition transition_allowed :: "string \<Rightarrow> string \<Rightarrow> bool" where
  "transition_allowed from_status to_status =
     (case allowedTransitions from_status of None \<Rightarrow> False | Some ts \<Rightarrow> to_status \<in> set ts)"

text \<open>The \<open>UPDATE\<close> of lines 464 to 484.\<close>

definition set_request_status ::
  "instant \<Rightarrow> uuid \<Rightarrow> string \<Rightarrow> string option \<Rightarrow> payout_request \<Rightarrow> payout_request" where
  "set_request_status now actor status reason r =
     (let reviewing = status \<in> set [''risk_hold'', ''manual_review'', ''under_review'', ''approved'', ''rejected'', ''blocked''];
          moving = status \<in> set [''processing'', ''paid'', ''failed'']
      in r\<lparr>req_status := status,
           req_reviewed_by := (if reviewing then Some actor else req_reviewed_by r),
           req_reviewed_at := (if reviewing then Some now else req_reviewed_at r),
           req_processed_by := (if moving then Some actor else req_processed_by r),
           req_processed_at := (if moving then Some now else req_processed_at r),
           req_paid_at := (if status = ''paid'' then Some now else req_paid_at r),
           req_failure_reason :=
             (if status \<in> set [''failed'', ''rejected'', ''blocked'', ''cancelled'']
              then (if str_or reason [] = [] then None else reason) else req_failure_reason r),
           req_updated_at := now\<rparr>)"

text \<open>The writes of an accepted change (lines 464 to 548).\<close>

definition commit_status ::
  "alert_env \<Rightarrow> instant \<Rightarrow> http_request \<Rightarrow> uuid \<Rightarrow> uuid \<Rightarrow> string \<Rightarrow> string option \<Rightarrow> payout_request \<Rightarrow> payout_store
   \<Rightarrow> http_result \<times> payout_store" where
  "commit_status aenv now req actor i status reason r s =
     (case update_request i (set_request_status now actor status reason) s of
        Inl e \<Rightarrow> (HttpError 500 (error_message e), s)
      | Inr s1 \<Rightarrow>
         (let s2 = (if status \<in> set [''failed'', ''rejected'', ''blocked'', ''cancelled'']
                    then ensure_reversal (req_courier r) (req_amount r) i s1 else s1);
              s3 = writeFinanceAudit (''courier_payout_request:'' @ i)
                     (str_or reason (''Updated courier payout request to '' @ status)) s2;
              s4 = writeCourierPayoutFinanceAudit now req ''request_status_changed''
                     (req_courier r) (Some i) (req_status r) status s3
          in (HttpOk 200, evaluatePayoutAlerts aenv now s4)))"

definition updateCourierPayoutRequestStatus ::
  "alert_env \<Rightarrow> instant \<Rightarrow> http_request \<Rightarrow> uuid \<Rightarrow> uuid \<Rightarrow> string \<Rightarrow> string option \<Rightarrow> payout_store
   \<Rightarrow> http_result \<times> payout_store" where
  "updateCourierPayoutRequestStatus aenv now req actor i status reason s =
     (if status \<notin> set settable_statuses then (HttpError 400 ''Invalid payout request status'', s)
      else case find_request s i of
        None \<Rightarrow> (HttpError 404 ''Payout request not found'', s)
      | Some r \<Rightarrow>
         if req_status r \<in> set terminalPayoutStatuses \<and> req_status r \<noteq> status
           then (HttpError 409 ''Terminal payout request cannot be changed'', s)
         else if \<not> transition_allowed (req_status r) status
           then (HttpError 409 (''Invalid payout transition '' @ req_status r @ '' -> '' @ status), s)
         else commit_status aenv now req actor i status reason r s)"

section \<open>The review actions\<close>

datatype review_action = Approve | Reject | RequestMoreVerification | SuspendPayoutAccount

fun parse_review_action :: "string \<Rightarrow> review_action option" where
  "parse_review_action a =
     (if a = ''approve'' then Some Approve
      else if a = ''reject'' then Some Reject
      else if a = ''request_more_verification'' then Some RequestMoreVerification
      else if a = ''suspend_payout_account'' then Some SuspendPayoutAccount
      else None)"

primrec actionStatus :: "review_action \<Rightarrow> string" where
  "actionStatus Approve = ''approved''"
| "actionStatus Reject = ''rejected''"
| "actionStatus RequestMoreVerification = ''under_review''"
| "actionStatus SuspendPayoutAccount = ''risk_hold''"

definition review_request :: "instant \<Rightarrow> uuid \<Rightarrow> string \<Rightarrow> string \<Rightarrow> payout_request \<Rightarrow> payout_request" where
  "review_request now actor next_status reason r =
     r\<lparr>req_status := next_status,
       req_reviewed_by := Some actor,
       req_reviewed_at := Some now,
       req_failure_reason :=
         (if next_status \<in> set [''rejected'', ''blocked''] then Some reason else req_failure_reason r),
       req_updated_at := now\<rparr>"

definition suspend_account :: "uuid \<Rightarrow> payout_store \<Rightarrow> payout_store" where
  "suspend_account a s =
     s\<lparr>accounts := map (\<lambda>b. if acc_id b = a then b\<lparr>acc_status := ''suspended''\<rparr> else b) (accounts s)\<rparr>"

text \<open>The writes of an accepted action (lines 832 to 953).\<close>

definition commit_review ::
  "alert_env \<Rightarrow> instant \<Rightarrow> http_request \<Rightarrow> uuid \<Rightarrow> uuid \<Rightarrow> review_action \<Rightarrow> string \<Rightarrow> payout_request \<Rightarrow> payout_store
   \<Rightarrow> http_result \<times> payout_store" where
  "commit_review aenv now req actor i action reason r s =
     (let account = find_account s (req_account r);
          suspending = (action = SuspendPayoutAccount \<and> account \<noteq> None);
          s1 = (if suspending then suspend_account (req_account r) s else s);
          next_status = actionStatus action
      in case update_request i (review_request now actor next_status reason) s1 of
           Inl e \<Rightarrow> (HttpError 500 (error_message e), s)
         | Inr s2 \<Rightarrow>
            (let s3 = (if action = Reject \<or> action = SuspendPayoutAccount
                       then ensure_reversal (req_courier r) (req_amount r) i s2 else s2);
                 s4 = writeFinanceAudit (''courier_payout_review:'' @ i) reason s3;
                 s5 = writeCourierPayoutFinanceAudit now req ''payout_review_action''
                        (req_courier r) (Some i) (req_status r) next_status s4;
                 s6 = (if suspending
                       then writeCourierPayoutFinanceAudit now req ''account_status_changed''
                              (req_courier r) (Some i)
                              (case account of Some a \<Rightarrow> acc_status a | None \<Rightarrow> ''unknown'')
                              ''suspended'' s5
                       else s5)
             in (HttpOk 200, evaluatePayoutAlerts aenv now s6)))"

definition reviewCourierPayoutRequestAction ::
  "alert_env \<Rightarrow> instant \<Rightarrow> http_request \<Rightarrow> uuid \<Rightarrow> uuid \<Rightarrow> string \<Rightarrow> string option \<Rightarrow> payout_store
   \<Rightarrow> http_result \<times> payout_store" where
  "reviewCourierPayoutRequestAction aenv now req actor i action_text reason_opt s =
     (case parse_review_action action_text of
        None \<Rightarrow> (HttpError 400 ''Invalid payout review action'', s)
      | Some action \<Rightarrow>
        (let reason = str_or reason_opt [] in
         if reason = [] \<or> length (js_trim reason) < 8 then (HttpError 400 ''Review reason is required'', s)
         else case find_request s i of
           None \<Rightarrow> (HttpError 404 ''Payout request not found'', s)
         | Some r \<Rightarrow>
           if req_status r \<in> set [''paid'', ''failed'', ''rejected'', ''cancelled'']
             then (HttpError 409 ''Terminal payout request cannot be reviewed'', s)
           else if action = Approve \<and> req_status r = ''blocked''
             then (HttpError 409 ''Blocked payout requires a new request after verification'', s)
           else commit_review aenv now req actor i action reason r s))"

section \<open>The handlers as operations on the store\<close>

lemma finance_audit_fields [simp]:
  "requests (writeFinanceAudit k m s) = requests s"
  "ledger (writeFinanceAudit k m s) = ledger s"
  "dispatches (writeFinanceAudit k m s) = dispatches s"
  "accounts (writeFinanceAudit k m s) = accounts s"
  "requests (writeCourierPayoutFinanceAudit now req ev c i old new s) = requests s"
  "ledger (writeCourierPayoutFinanceAudit now req ev c i old new s) = ledger s"
  "dispatches (writeCourierPayoutFinanceAudit now req ev c i old new s) = dispatches s"
  "accounts (writeCourierPayoutFinanceAudit now req ev c i old new s) = accounts s"
  by (simp_all add: writeFinanceAudit_def writeCourierPayoutFinanceAudit_def)

lemma suspend_account_fields [simp]:
  "requests (suspend_account a s) = requests s"
  "ledger (suspend_account a s) = ledger s"
  "dispatches (suspend_account a s) = dispatches s"
  by (simp_all add: suspend_account_def)

lemma finance_audit_reads [simp]:
  "find_request (evaluatePayoutAlerts env now s) i = find_request s i"
  "find_request (writeFinanceAudit k m s) i = find_request s i"
  "find_request (writeCourierPayoutFinanceAudit now req ev c j old new s) i = find_request s i"
  "find_request (ensure_reversal c n k2 s) i = find_request s i"
  "find_request (suspend_account a s) i = find_request s i"
  "has_reversal (evaluatePayoutAlerts env now s) i = has_reversal s i"
  "has_reversal (writeFinanceAudit k m s) i = has_reversal s i"
  "has_reversal (writeCourierPayoutFinanceAudit now req ev c j old new s) i = has_reversal s i"
  "has_reversal (suspend_account a s) i = has_reversal s i"
  by (simp_all add: find_request_def has_reversal_def)

lemma review_identities [simp]:
  "same_identity r (set_request_status now actor st reason r)"
  "same_identity r (review_request now actor st m r)"
  "req_status (set_request_status now actor st reason r) = st"
  "req_status (review_request now actor st m r) = st"
  by (simp_all add: set_request_status_def review_request_def same_identity_def Let_def)

lemma settable_valid: "st \<in> set settable_statuses \<Longrightarrow> st \<in> set request_statuses"
  by (auto simp: settable_statuses_def request_statuses_def)

lemma settable_members:
  "''risk_hold'' \<in> set settable_statuses" "''approved'' \<in> set settable_statuses"
  "''paid'' \<in> set settable_statuses" "''failed'' \<in> set settable_statuses"
  "''cancelled'' \<in> set settable_statuses"
  by (simp_all add: settable_statuses_def)

lemma actionStatus_valid: "actionStatus a \<in> set request_statuses"
  by (cases a) (simp_all add: request_statuses_def)

text \<open>An update of a request that exists, to a valid status.\<close>

lemma update_found:
  assumes "find_request s i = Some r" and "\<And>q. same_identity q (f q)"
    and "\<And>q. req_status (f q) \<in> set request_statuses"
  obtains t where "update_request i f s = Inr t" and "find_request t i = Some (f r)"
    and "ledger t = ledger s" and "accounts t = accounts s" and "dispatches t = dispatches s"
proof -
  let ?t = "s\<lparr>requests := map (\<lambda>r. if req_id r = i then f r else r) (requests s)\<rparr>"
  have u: "update_request i f s = Inr ?t" by (rule update_request_ok) (rule assms(3))
  show ?thesis
  proof (rule that [OF u])
    show "find_request ?t i = Some (f r)"
      using find_request_update [OF u assms(2)] assms(1) find_request_Some [OF assms(1)] by simp
  qed simp_all
qed

lemma effects_accounts: "effects s t \<Longrightarrow> effects s (suspend_account a t)"
  by (erule effects_other) simp_all

lemma effects_finance:
  "effects s t \<Longrightarrow> effects s (writeFinanceAudit k m t)"
  "effects s t \<Longrightarrow> effects s (writeCourierPayoutFinanceAudit now req ev c i old new t)"
  by (erule effects_other; simp)+

lemmas effects_intros = effects_finance effects_alerts effects_audit effects_accounts

lemma account_status_effects:
  "effects s (snd (updateCourierPayoutAccountStatus now req actor i status reason s))"
proof -
  have "requests (snd (updateCourierPayoutAccountStatus now req actor i status reason s)) = requests s"
    and "ledger (snd (updateCourierPayoutAccountStatus now req actor i status reason s)) = ledger s"
    and "dispatches (snd (updateCourierPayoutAccountStatus now req actor i status reason s)) = dispatches s"
    by (simp_all add: updateCourierPayoutAccountStatus_def Let_def split: option.split)
  then show ?thesis by (intro effect_effects effect.other)
qed

lemma commit_status_effects:
  assumes r: "find_request s i = Some r"
  shows "effects s (snd (commit_status aenv now req actor i status reason r s))"
proof (cases "update_request i (set_request_status now actor status reason) s")
  case (Inr s1)
  have "effects s s1" if "status \<notin> set refund_statuses"
    by (rule effects_update [OF Inr]) (use that in simp_all)
  moreover have "effects s (ensure_reversal (req_courier r) (req_amount r) i s1)"
    by (rule reverse_after_update [OF Inr _ _ r]) simp_all
  ultimately have "effects s (if status \<in> set [''failed'', ''rejected'', ''blocked'', ''cancelled'']
      then ensure_reversal (req_courier r) (req_amount r) i s1 else s1)"
    unfolding refund_statuses_def by simp
  then show ?thesis unfolding commit_status_def Let_def Inr
    by (auto intro!: effects_intros)
qed (simp add: commit_status_def)

lemma request_status_effects:
  "effects s (snd (updateCourierPayoutRequestStatus aenv now req actor i status reason s))"
  by (simp add: updateCourierPayoutRequestStatus_def commit_status_effects split: option.split)

lemma commit_review_effects:
  assumes r: "find_request s i = Some r"
  shows "effects s (snd (commit_review aenv now req actor i act reason r s))"
proof -
  let ?s1 = "if act = SuspendPayoutAccount \<and> find_account s (req_account r) \<noteq> None
             then suspend_account (req_account r) s else s"
  let ?f = "review_request now actor (actionStatus act) reason"
  have s1: "effects s ?s1" using effects_accounts [of s s] by simp
  show ?thesis
  proof (cases "update_request i ?f ?s1")
    case (Inr s2)
    have "effects s s2" if "act \<noteq> Reject"
      by (rule effects_update [OF Inr s1]) (use that in \<open>cases act; simp add: refund_statuses_def\<close>)+
    moreover have "effects s (ensure_reversal (req_courier r) (req_amount r) i s2)"
      by (rule reverse_after_update [OF Inr s1 _ r]) simp
    ultimately have "effects s (if act = Reject \<or> act = SuspendPayoutAccount
        then ensure_reversal (req_courier r) (req_amount r) i s2 else s2)" by simp
    then show ?thesis unfolding commit_review_def Let_def Inr
      by (auto intro!: effects_intros simp del: actionStatus.simps)
  qed (simp add: commit_review_def Let_def)
qed

lemma review_action_effects:
  "effects s (snd (reviewCourierPayoutRequestAction aenv now req actor i action reason s))"
  by (simp add: reviewCourierPayoutRequestAction_def Let_def commit_review_effects
      split: option.split)

interpretation account_status: payout_operation
  "\<lambda>s. snd (updateCourierPayoutAccountStatus now req actor i status reason s)" "\<lambda>_. True"
  for now req actor i status reason
  by unfold_locales (rule account_status_effects)

interpretation request_status: payout_operation
  "\<lambda>s. snd (updateCourierPayoutRequestStatus aenv now req actor i status reason s)" "\<lambda>_. True"
  for aenv now req actor i status reason
  by unfold_locales (rule request_status_effects)

interpretation review: payout_operation
  "\<lambda>s. snd (reviewCourierPayoutRequestAction aenv now req actor i action reason s)" "\<lambda>_. True"
  for aenv now req actor i action reason
  by unfold_locales (rule review_action_effects)

section \<open>Properties of the admin handlers\<close>

lemma commit_status_run:
  assumes r: "find_request s i = Some r" and st: "status \<in> set settable_statuses"
  obtains t r' where "commit_status aenv now req actor i status reason r s = (HttpOk 200, t)"
    and "find_request t i = Some r'" and "same_identity r r'" and "req_status r' = status"
    and "ledger t = (if status \<in> set refund_statuses \<and> \<not> has_reversal s i
                     then ledger s @ [reversal_row (req_courier r) (req_amount r) i] else ledger s)"
proof -
  let ?f = "set_request_status now actor status reason"
  let ?t = "snd (commit_status aenv now req actor i status reason r s)"
  obtain s1 where s1: "update_request i ?f s = Inr s1" and f: "find_request s1 i = Some (?f r)"
    and l: "ledger s1 = ledger s"
    by (rule update_found [OF r, of ?f]) (simp_all add: settable_valid [OF st])
  have h: "has_reversal s1 i = has_reversal s i" by (simp add: has_reversal_def l)
  have "ledger (if status \<in> set refund_statuses then ensure_reversal (req_courier r) (req_amount r) i s1 else s1)
      = (if status \<in> set refund_statuses \<and> \<not> has_reversal s i
         then ledger s @ [reversal_row (req_courier r) (req_amount r) i] else ledger s)"
    using h by (simp add: ensure_reversal_def l)
  then have "ledger ?t = (if status \<in> set refund_statuses \<and> \<not> has_reversal s i
         then ledger s @ [reversal_row (req_courier r) (req_amount r) i] else ledger s)"
    unfolding commit_status_def Let_def s1 refund_statuses_def by simp
  moreover have "commit_status aenv now req actor i status reason r s = (HttpOk 200, ?t)"
    unfolding commit_status_def Let_def s1 by simp
  moreover have "find_request ?t i = Some (?f r)"
    unfolding commit_status_def Let_def s1 using f by (simp add: find_request_def)
  ultimately show ?thesis by (intro that [of ?t "?f r"]) simp_all
qed

lemma request_status_accepted:
  assumes "status \<in> set settable_statuses" and "find_request s i = Some r"
    and "\<not> (req_status r \<in> set terminalPayoutStatuses \<and> req_status r \<noteq> status)"
    and "transition_allowed (req_status r) status"
  shows "updateCourierPayoutRequestStatus aenv now req actor i status reason s
       = commit_status aenv now req actor i status reason r s"
  using assms by (auto simp: updateCourierPayoutRequestStatus_def)

text \<open>
  C21.  The request status handler follows its table.  When it succeeds, the request moved along an
  allowed transition to the asked status and kept its identity; the hold is refunded exactly when
  the new status is a failing one and the request had no reversal, and nothing else enters the ledger.
\<close>

theorem status_update_outcome:
  assumes "updateCourierPayoutRequestStatus aenv now req actor i status reason s = (HttpOk code, t)"
  shows "\<exists>r r'. find_request s i = Some r \<and> transition_allowed (req_status r) status
     \<and> find_request t i = Some r' \<and> same_identity r r' \<and> req_status r' = status
     \<and> ledger t = (if status \<in> set refund_statuses \<and> \<not> has_reversal s i
                   then ledger s @ [reversal_row (req_courier r) (req_amount r) i] else ledger s)"
proof -
  obtain r where r: "status \<in> set settable_statuses" "find_request s i = Some r"
      "transition_allowed (req_status r) status"
    and c: "commit_status aenv now req actor i status reason r s = (HttpOk code, t)"
    using assms by (auto simp: updateCourierPayoutRequestStatus_def split: if_splits option.splits)
  show ?thesis
    by (rule commit_status_run [OF r(2,1), of aenv now req actor reason]) (use r c in auto)
qed

definition review_store :: "string \<Rightarrow> payout_store" where
  "review_store st = demo_store\<lparr>requests := [paid_request\<lparr>req_status := st\<rparr>],
     ledger := [demo_earning, requested_row ''c1'' 50000 ''p1'']\<rparr>"

lemma review_store_request [simp]:
  "find_request (review_store st) ''p1'' = Some (paid_request\<lparr>req_status := st\<rparr>)"
  "req_status (paid_request\<lparr>req_status := st\<rparr>) = st"
  "req_courier (paid_request\<lparr>req_status := st\<rparr>) = ''c1''"
  "req_amount (paid_request\<lparr>req_status := st\<rparr>) = 50000"
  "ledger (review_store st) = [demo_earning, requested_row ''c1'' 50000 ''p1'']"
  "\<not> has_reversal (review_store st) ''p1''"
  by (simp_all add: review_store_def find_request_def paid_request_def has_reversal_def requested_row_def
      demo_earning_def)

theorem status_update_outcome_witness:
  "\<exists>t. updateCourierPayoutRequestStatus default_alert_env 0 plain_request ''adm'' ''p1'' ''cancelled'' None (review_store ''approved'')
        = (HttpOk 200, t)
     \<and> ledger t = [demo_earning, requested_row ''c1'' 50000 ''p1'', reversal_row ''c1'' 50000 ''p1'']"
proof -
  have "updateCourierPayoutRequestStatus default_alert_env 0 plain_request ''adm'' ''p1'' ''cancelled'' None (review_store ''approved'')
      = commit_status default_alert_env 0 plain_request ''adm'' ''p1'' ''cancelled'' None
          (paid_request\<lparr>req_status := ''approved''\<rparr>) (review_store ''approved'')"
    by (rule request_status_accepted)
      (simp_all add: settable_statuses_def transition_allowed_def allowedTransitions_def terminalPayoutStatuses_def
        del: payout_request.simps)
  then obtain t where t: "updateCourierPayoutRequestStatus default_alert_env 0 plain_request ''adm'' ''p1'' ''cancelled'' None
      (review_store ''approved'') = (HttpOk 200, t)"
    using commit_status_run [OF review_store_request(1) [of "''approved''"], of "''cancelled''"]
    by (metis settable_members(5))
  from status_update_outcome [OF t] t show ?thesis
    by (auto simp: refund_statuses_def)
qed

text \<open>
  A terminal status is final for this handler: whatever status is asked for, a request that is
  paid, failed, rejected, blocked or cancelled keeps its status.
\<close>

theorem terminal_status_is_final:
  assumes "find_request s i = Some r" and "req_status r \<in> set terminalPayoutStatuses"
  shows "\<exists>r'. find_request (snd (updateCourierPayoutRequestStatus aenv now req actor i status reason s)) i = Some r'
     \<and> req_status r' = req_status r"
proof (cases "status \<in> set settable_statuses \<and> req_status r = status \<and> transition_allowed (req_status r) status")
  case True
  then have st: "status \<in> set settable_statuses" and eq: "req_status r = status" by auto
  have "updateCourierPayoutRequestStatus aenv now req actor i status reason s
      = commit_status aenv now req actor i status reason r s"
    by (rule request_status_accepted [OF st assms(1)]) (use True in auto)
  then show ?thesis
    using commit_status_run [OF assms(1) st, of aenv now req actor reason] eq by (metis snd_conv)
qed (use assms in \<open>auto simp: updateCourierPayoutRequestStatus_def\<close>)

theorem terminal_status_is_final_witness:
  "\<exists>r'. find_request (snd (updateCourierPayoutRequestStatus default_alert_env 0 plain_request ''adm'' ''p1'' ''failed'' None
        (review_store ''paid''))) ''p1'' = Some r' \<and> req_status r' = ''paid''"
  using terminal_status_is_final [of "review_store ''paid''" "''p1''" "paid_request\<lparr>req_status := ''paid''\<rparr>"
      default_alert_env 0 plain_request "''adm''" "''failed''" None]
  by (simp add: terminalPayoutStatuses_def)

lemma commit_review_run:
  assumes r: "find_request s i = Some r"
  obtains t r' where "commit_review aenv now req actor i act reason r s = (HttpOk 200, t)"
    and "find_request t i = Some r'" and "same_identity r r'" and "req_status r' = actionStatus act"
    and "ledger t = (if act \<in> {Reject, SuspendPayoutAccount} \<and> \<not> has_reversal s i
                     then ledger s @ [reversal_row (req_courier r) (req_amount r) i] else ledger s)"
    and "dispatches t = dispatches s"
proof -
  let ?s1 = "if act = SuspendPayoutAccount \<and> find_account s (req_account r) \<noteq> None
             then suspend_account (req_account r) s else s"
  have r1: "find_request ?s1 i = Some r" using r by simp
  obtain s2 where s2: "update_request i (review_request now actor (actionStatus act) reason) ?s1 = Inr s2"
    and f: "find_request s2 i = Some (review_request now actor (actionStatus act) reason r)"
    and l: "ledger s2 = ledger ?s1" "dispatches s2 = dispatches ?s1"
    by (rule update_found [OF r1, of "review_request now actor (actionStatus act) reason"])
       (simp_all add: actionStatus_valid del: if_split)
  have h: "has_reversal s2 i = has_reversal s i" using l by (simp add: has_reversal_def)
  have ledger: "ledger (if act = Reject \<or> act = SuspendPayoutAccount
       then ensure_reversal (req_courier r) (req_amount r) i s2 else s2)
     = (if act \<in> {Reject, SuspendPayoutAccount} \<and> \<not> has_reversal s i
        then ledger s @ [reversal_row (req_courier r) (req_amount r) i] else ledger s)"
    using h l by (simp add: ensure_reversal_def)
  let ?t = "snd (commit_review aenv now req actor i act reason r s)"
  have t: "commit_review aenv now req actor i act reason r s = (HttpOk 200, ?t)"
    unfolding commit_review_def Let_def s2 by simp
  have tf: "requests ?t = requests s2" "dispatches ?t = dispatches s2"
      "ledger ?t = ledger (if act = Reject \<or> act = SuspendPayoutAccount
         then ensure_reversal (req_courier r) (req_amount r) i s2 else s2)"
    unfolding commit_review_def Let_def s2 by simp_all
  show ?thesis
  proof (rule that [OF t])
    show "find_request ?t i = Some (review_request now actor (actionStatus act) reason r)"
      using f by (simp add: find_request_def tf)
  qed (use tf l ledger in simp_all)
qed

text \<open>
  The review actions.  A successful review sets the status of its action on a request that was
  not paid, failed, rejected or cancelled, refunds the hold exactly for \<open>reject\<close> and
  \<open>suspend_payout_account\<close> (at most once), and leaves the provider dispatches alone.
\<close>

theorem review_outcome:
  assumes "reviewCourierPayoutRequestAction aenv now req actor i action reason s = (HttpOk code, t)"
  shows "\<exists>act r r'. parse_review_action action = Some act \<and> find_request s i = Some r
     \<and> req_status r \<notin> {''paid'', ''failed'', ''rejected'', ''cancelled''}
     \<and> (act = Approve \<longrightarrow> req_status r \<noteq> ''blocked'')
     \<and> find_request t i = Some r' \<and> same_identity r r' \<and> req_status r' = actionStatus act
     \<and> ledger t = (if act \<in> {Reject, SuspendPayoutAccount} \<and> \<not> has_reversal s i
                   then ledger s @ [reversal_row (req_courier r) (req_amount r) i] else ledger s)
     \<and> dispatches t = dispatches s"
proof -
  obtain act r where r: "parse_review_action action = Some act" "find_request s i = Some r"
      "req_status r \<notin> {''paid'', ''failed'', ''rejected'', ''cancelled''}"
      "act = Approve \<longrightarrow> req_status r \<noteq> ''blocked''"
    and c: "commit_review aenv now req actor i act (str_or reason []) r s = (HttpOk code, t)"
    using assms
    by (auto simp: reviewCourierPayoutRequestAction_def Let_def simp del: parse_review_action.simps
        split: if_splits option.splits)
  show ?thesis
    by (rule commit_review_run [OF r(2), of aenv now req actor act "str_or reason []"]) (use r c in auto)
qed

text \<open>A review that is accepted: the conditions the handler checks.\<close>

lemma review_accepted:
  assumes "parse_review_action action = Some act" and "8 \<le> length (js_trim m)"
    and "find_request s i = Some r" and "req_status r \<notin> {''paid'', ''failed'', ''rejected'', ''cancelled''}"
    and "act = Approve \<longrightarrow> req_status r \<noteq> ''blocked''"
  shows "reviewCourierPayoutRequestAction aenv now req actor i action (Some m) s
       = commit_review aenv now req actor i act m r s"
proof -
  have "m \<noteq> []" using assms(2) by auto
  with assms show ?thesis
    by (auto simp: reviewCourierPayoutRequestAction_def str_or_def simp del: parse_review_action.simps)
qed

definition review_note :: string where "review_note = ''documents checked''"

lemma review_note_length [simp]: "8 \<le> length (js_trim review_note)"
  unfolding review_note_def by code_simp

theorem review_outcome_witness:
  "\<exists>t r'. reviewCourierPayoutRequestAction default_alert_env 0 plain_request ''adm'' ''p1'' ''reject'' (Some review_note)
          (review_store ''manual_review'') = (HttpOk 200, t)
     \<and> find_request t ''p1'' = Some r' \<and> req_status r' = ''rejected''"
proof -
  have "reviewCourierPayoutRequestAction default_alert_env 0 plain_request ''adm'' ''p1'' ''reject'' (Some review_note)
          (review_store ''manual_review'')
      = commit_review default_alert_env 0 plain_request ''adm'' ''p1'' Reject review_note
          (paid_request\<lparr>req_status := ''manual_review''\<rparr>) (review_store ''manual_review'')"
    by (rule review_accepted) simp_all
  then obtain t where t: "reviewCourierPayoutRequestAction default_alert_env 0 plain_request ''adm'' ''p1'' ''reject''
      (Some review_note) (review_store ''manual_review'') = (HttpOk 200, t)"
    using commit_review_run [OF review_store_request(1) [of "''manual_review''"]] by metis
  from review_outcome [OF t] t show ?thesis by auto
qed

text \<open>
  A payout can be refunded and paid.  \<open>suspend_payout_account\<close> credits the reversal but leaves the
  request in \<open>risk_hold\<close>, which is not terminal: the status handler then approves it and marks it
  paid, so the courier has both the refund in the ledger and the payout.
\<close>

theorem suspended_payout_refunded_and_paid:
  fixes aenv now req actor
  assumes "find_request s i = Some r" and "req_status r = ''manual_review''" and "8 \<le> length (js_trim m)"
  defines "t \<equiv> snd (reviewCourierPayoutRequestAction aenv now req actor i ''suspend_payout_account'' (Some m) s)"
  defines "u \<equiv> snd (updateCourierPayoutRequestStatus aenv now req actor i ''approved'' None t)"
  shows "\<exists>v r'. updateCourierPayoutRequestStatus aenv now req actor i ''paid'' None u = (HttpOk 200, v)
     \<and> find_request v i = Some r' \<and> req_status r' = ''paid'' \<and> has_reversal v i"
proof -
  have "reviewCourierPayoutRequestAction aenv now req actor i ''suspend_payout_account'' (Some m) s
      = commit_review aenv now req actor i SuspendPayoutAccount m r s"
    by (rule review_accepted) (use assms in simp_all)
  then obtain r1 where t: "find_request t i = Some r1" "req_status r1 = ''risk_hold''"
      "ledger t = (if \<not> has_reversal s i then ledger s @ [reversal_row (req_courier r) (req_amount r) i] else ledger s)"
    using commit_review_run [OF assms(1), of aenv now req actor SuspendPayoutAccount m] unfolding t_def by (metis actionStatus.simps(4) insertCI snd_conv)
  have rt: "has_reversal t i"
    by (cases "has_reversal s i") (simp_all add: has_reversal_def t(3) reversal_row_def)
  note tables = settable_statuses_def transition_allowed_def allowedTransitions_def terminalPayoutStatuses_def
  have "updateCourierPayoutRequestStatus aenv now req actor i ''approved'' None t
      = commit_status aenv now req actor i ''approved'' None r1 t"
    by (rule request_status_accepted) (use t in \<open>simp_all add: tables\<close>)
  then obtain r2 where u: "find_request u i = Some r2" "req_status r2 = ''approved''" "ledger u = ledger t"
    by (rule_tac commit_status_run [OF t(1), of "''approved''" aenv now req actor None])
      (simp_all add: u_def tables refund_statuses_def)
  have "updateCourierPayoutRequestStatus aenv now req actor i ''paid'' None u
      = commit_status aenv now req actor i ''paid'' None r2 u"
    by (rule request_status_accepted) (use u in \<open>simp_all add: tables\<close>)
  then obtain v r3 where v: "updateCourierPayoutRequestStatus aenv now req actor i ''paid'' None u = (HttpOk 200, v)"
      "find_request v i = Some r3" "req_status r3 = ''paid''" "ledger v = ledger u"
    by (rule_tac commit_status_run [OF u(1), of "''paid''" aenv now req actor None])
      (simp_all add: tables refund_statuses_def)
  show ?thesis using v u(3) rt by (auto simp: has_reversal_def)
qed

theorem suspended_payout_refunded_and_paid_witness:
  "\<exists>v r'. updateCourierPayoutRequestStatus default_alert_env 0 plain_request ''adm'' ''p1'' ''paid'' None
        (snd (updateCourierPayoutRequestStatus default_alert_env 0 plain_request ''adm'' ''p1'' ''approved'' None
          (snd (reviewCourierPayoutRequestAction default_alert_env 0 plain_request ''adm'' ''p1'' ''suspend_payout_account''
             (Some review_note) (review_store ''manual_review''))))) = (HttpOk 200, v)
     \<and> find_request v ''p1'' = Some r' \<and> req_status r' = ''paid'' \<and> has_reversal v ''p1''"
  by (rule suspended_payout_refunded_and_paid [OF review_store_request(1,2)]) simp

end
