(* ===== verification/PayoutDispatch.thy ===== *)
theory PayoutDispatch
  imports PayoutReview
begin

text \<open>
  The provider side of the payouts (\<open>services/payoutProviderDispatcher.ts\<close>): configuration,
  provider statuses, the vault and provider calls, the callback that resolves a dispatch, the
  batch dispatcher and the poll of ambiguous dispatches.

  The payment gateway, the account vault and SHA-256 are outside the repository: they are the
  parameters of \<open>provider_env\<close>.  A transaction that throws is \<open>Inl\<close>, and the store of the caller
  is the one from before BEGIN; a batch that is refused before BEGIN is an \<open>Inr\<close> with the store
  unchanged.  Locked rows (\<open>FOR UPDATE SKIP LOCKED\<close>) make a batch one step.
\<close>

section \<open>Configuration\<close>

text \<open>
  \<open>configString\<close>: the driver hands over a JSONB column as a JavaScript value, so the test
  \<open>!result.rows[0]?.value\<close> also takes the fallback for \<open>false\<close>, \<open>0\<close> and the empty string.  The
  other scalars go through \<open>String\<close>, \<open>JSON.parse\<close> and \<open>String\<close>: booleans and integers come back
  as their text; of the string values, a quoted text loses its quotes and every other text is
  itself (number texts are kept as written, since the readers only take their value).
\<close>

definition config_falsy :: "config_value \<Rightarrow> bool" where
  "config_falsy v = (case v of CBool b \<Rightarrow> \<not> b | CNum i \<Rightarrow> i = 0 | CStr t \<Rightarrow> t = [])"

definition json_unquote :: "string \<Rightarrow> string" where
  "json_unquote s =
     (let t = js_trim s in
      if length t \<ge> 2 \<and> hd t = CHR 0x22 \<and> last t = CHR 0x22
         \<and> \<not> list_ex (\<lambda>c. c = CHR 0x22 \<or> c = CHR 0x5C) (butlast (tl t))
      then butlast (tl t) else s)"

definition configString :: "payout_store \<Rightarrow> string \<Rightarrow> string \<Rightarrow> string" where
  "configString s key fallback =
     (case map_of (configs s) key of
        None \<Rightarrow> fallback
      | Some v \<Rightarrow>
         if config_falsy v then fallback
         else (case v of CStr t \<Rightarrow> json_unquote t | _ \<Rightarrow> config_text v))"

definition configInt :: "payout_store \<Rightarrow> string \<Rightarrow> int \<Rightarrow> int" where
  "configInt s key fallback =
     (case finite_value (js_number (configString s key (show_int fallback))) of
        Some x \<Rightarrow> js_trunc x | None \<Rightarrow> fallback)"

definition configBool :: "payout_store \<Rightarrow> string \<Rightarrow> bool \<Rightarrow> bool" where
  "configBool s key fallback =
     (let raw = toLowerCase (configString s key (if fallback then ''true'' else ''false'')) in
      if raw \<in> set [''true'', ''1'', ''yes'', ''enabled''] then True
      else if raw \<in> set [''false'', ''0'', ''no'', ''disabled''] then False
      else fallback)"

section \<open>The provider and the vault\<close>

record provider_payload =
  pay_request :: uuid
  pay_amount :: int
  pay_bank :: string
  pay_name :: string
  pay_last4 :: string
  pay_vault_ref :: string

text \<open>
  An HTTP response: the status code and the text of the fields the code reads (a missing or
  unreadable body has none), or a thrown network error.
\<close>

datatype fetch_result = NetworkError string | Response nat "(string \<times> string) list"

record provider_env =
  env_vault_url :: string
  env_provider_default :: string
  vault_fetch :: "string \<Rightarrow> fetch_result"
  gateway_disburse :: "string \<Rightarrow> provider_payload \<Rightarrow> string \<Rightarrow> fetch_result"
  gateway_query :: "string \<Rightarrow> fetch_result"
  sha256 :: "string \<Rightarrow> string"

definition response_ok :: "nat \<Rightarrow> bool" where
  "response_ok code \<longleftrightarrow> 200 \<le> code \<and> code \<le> 299"

definition body_field :: "(string \<times> string) list \<Rightarrow> string \<Rightarrow> string option" where
  "body_field body name = map_of body name"

definition normalizeProviderStatus :: "string option \<Rightarrow> provider_status" where
  "normalizeProviderStatus status =
     (let n = toLowerCase (js_trim (str_or status [])) in
      if n \<in> set [''completed'', ''complete'', ''paid'', ''success'', ''succeeded''] then Paid
      else if n \<in> set [''failed'', ''failure'', ''rejected'', ''cancelled'', ''canceled''] then Failed
      else if n \<in> set [''pending'', ''processing'', ''queued'', ''submitted''] then Processing
      else Unknown)"

text \<open>\<open>/^\\d{6,32}$/\<close>\<close>

definition valid_account_number :: "string \<Rightarrow> bool" where
  "valid_account_number n \<longleftrightarrow> list_all is_digit n \<and> 6 \<le> length n \<and> length n \<le> 32"

definition resolvePayoutAccountNumber :: "provider_env \<Rightarrow> string \<Rightarrow> string + string" where
  "resolvePayoutAccountNumber env vault_ref =
     (if env_vault_url env = [] \<or> vault_ref = [] then Inl ''payout account vault is not configured''
      else case vault_fetch env vault_ref of
        NetworkError m \<Rightarrow> Inl m
      | Response code body \<Rightarrow>
          if \<not> response_ok code then Inl (''payout account vault rejected request ('' @ show_nat code @ '')'')
          else (let raw = str_or (body_field body ''account_number'')
                            (str_or (body_field body ''accountNumber'') (str_or (body_field body ''value'') []));
                    digits = filter is_digit raw
                in if valid_account_number digits then Inr digits
                   else Inl ''payout account vault returned an invalid account number''))"

text \<open>The snapshot of the request wins over the current row of the account.\<close>

definition or_else :: "string \<Rightarrow> string \<Rightarrow> string" where
  "or_else a b = (if a = [] then b else a)"

definition buildPayoutProviderPayload :: "payout_request \<Rightarrow> payout_account \<Rightarrow> provider_payload" where
  "buildPayoutProviderPayload r a =
     (let d = req_destination r in
      \<lparr>pay_request = req_id r, pay_amount = req_net_amount r,
       pay_bank = or_else (dst_bank_code d) (acc_bank_code a),
       pay_name = or_else (dst_account_name d) (acc_name a),
       pay_last4 = or_else (dst_last4 d) (acc_last4 a),
       pay_vault_ref = or_else (dst_vault_ref d) (acc_vault_ref a)\<rparr>)"

definition providerReferenceFromKey :: "provider_env \<Rightarrow> string \<Rightarrow> string" where
  "providerReferenceFromKey env key = ''STUB-'' @ toUpperCase (take 18 (sha256 env key))"

record dispatch_result =
  res_provider :: string
  res_reference :: string
  res_status :: provider_status
  res_failure :: "string option"

definition dispatchToProvider ::
  "provider_env \<Rightarrow> string \<Rightarrow> provider_payload \<Rightarrow> string \<Rightarrow> string \<Rightarrow> string + dispatch_result" where
  "dispatchToProvider env provider payload key account =
     (if provider = ''xendit'' then
        (if \<not> valid_account_number account
         then Inl ''verified payout account number is unavailable for provider dispatch''
         else case gateway_disburse env key payload account of
           NetworkError m \<Rightarrow> Inl m
         | Response code body \<Rightarrow>
            if \<not> response_ok code
            then Inl (''payout provider gateway rejected request ('' @ show_nat code @ '')'')
            else Inr \<lparr>res_provider = provider,
                      res_reference = str_or (body_field body ''reference_id'') (str_or (body_field body ''id'') key),
                      res_status = normalizeProviderStatus (body_field body ''status''),
                      res_failure = None\<rparr>)
      else if provider \<noteq> ''stub'' then Inl (''Unsupported payout provider: '' @ provider)
      else Inr \<lparr>res_provider = provider, res_reference = providerReferenceFromKey env key,
                res_status = Processing, res_failure = None\<rparr>)"

definition queryProviderStatus :: "provider_env \<Rightarrow> string \<Rightarrow> string \<Rightarrow> string + provider_status" where
  "queryProviderStatus env provider reference =
     (if provider = ''xendit'' then
        (case gateway_query env reference of
           NetworkError m \<Rightarrow> Inl m
         | Response code body \<Rightarrow>
            if \<not> response_ok code
            then Inl (''payout provider status query failed ('' @ show_nat code @ '')'')
            else Inr (normalizeProviderStatus (body_field body ''status'')))
      else if provider \<noteq> ''stub'' then Inl (''Unsupported payout provider: '' @ provider)
      else Inr Processing)"

section \<open>Failure with reversal, and the provider callback\<close>

definition coalesce :: "'a option \<Rightarrow> 'a \<Rightarrow> 'a option" where
  "coalesce v d = (case v of None \<Rightarrow> Some d | Some _ \<Rightarrow> v)"

definition markPayoutFailedWithReversal ::
  "instant \<Rightarrow> uuid \<Rightarrow> uuid \<Rightarrow> int \<Rightarrow> string \<Rightarrow> payout_store \<Rightarrow> db_error + payout_store" where
  "markPayoutFailedWithReversal now i courier amount reason s =
     (case update_request i (\<lambda>r. r\<lparr>req_status := ''failed'', req_failure_reason := Some reason,
              req_processed_at := coalesce (req_processed_at r) now, req_updated_at := now\<rparr>) s of
        Inl e \<Rightarrow> Inl e
      | Inr s1 \<Rightarrow> Inr (ensure_reversal courier amount i s1))"

text \<open>\<open>ORDER BY d.created_at DESC LIMIT 1\<close> over the dispatches of a provider reference.\<close>

definition find_dispatch :: "payout_store \<Rightarrow> string \<Rightarrow> string \<Rightarrow> dispatch_row option" where
  "find_dispatch s provider reference =
     first_of (sort_key (\<lambda>d. - dis_created_at d)
       (filter (\<lambda>d. dis_provider d = provider \<and> dis_reference d = reference
                    \<and> find_request s (dis_request d) \<noteq> None) (dispatches s)))"

definition resolve_dispatch ::
  "instant \<Rightarrow> provider_status \<Rightarrow> string option \<Rightarrow> dispatch_row \<Rightarrow> dispatch_row" where
  "resolve_dispatch now status reason d =
     d\<lparr>dis_status := status,
       dis_failure_reason :=
         (if status = Failed then (if str_or reason [] = [] then None else reason) else dis_failure_reason d),
       dis_completed_at := (if status \<in> {Paid, Failed} then Some now else dis_completed_at d),
       dis_updated_at := now\<rparr>"

definition paid_by_provider :: "instant \<Rightarrow> payout_request \<Rightarrow> payout_request" where
  "paid_by_provider now q =
     q\<lparr>req_status := ''paid'', req_paid_at := Some now,
       req_processed_at := coalesce (req_processed_at q) now, req_updated_at := now\<rparr>"

definition processing_by_provider :: "instant \<Rightarrow> payout_request \<Rightarrow> payout_request" where
  "processing_by_provider now q =
     q\<lparr>req_status := ''processing'', req_processed_at := coalesce (req_processed_at q) now, req_updated_at := now\<rparr>"

text \<open>The branch on the provider status (lines 349 to 377).\<close>

definition settle_request ::
  "instant \<Rightarrow> provider_status \<Rightarrow> string option \<Rightarrow> payout_request \<Rightarrow> uuid \<Rightarrow> payout_store \<Rightarrow> db_error + payout_store" where
  "settle_request now status reason r i s =
     (case status of
        Paid \<Rightarrow> update_request i (paid_by_provider now) s
      | Failed \<Rightarrow> markPayoutFailedWithReversal now i (req_courier r) (req_amount r)
                    (str_or reason ''Pencairan gagal diproses provider.'') s
      | _ \<Rightarrow> update_request i (processing_by_provider now) s)"

definition applyProviderCallback ::
  "instant \<Rightarrow> http_request option \<Rightarrow> string \<Rightarrow> string \<Rightarrow> provider_status \<Rightarrow> string option \<Rightarrow> payout_store
   \<Rightarrow> db_error + (uuid \<times> payout_store)" where
  "applyProviderCallback now req provider reference status reason s =
     (case find_dispatch s provider reference of
        None \<Rightarrow> Inl (Thrown ''Payout dispatch reference not found'')
      | Some d \<Rightarrow>
        (case find_request s (dis_request d) of
           None \<Rightarrow> Inl (Thrown ''Payout dispatch reference not found'')
         | Some r \<Rightarrow>
           (case settle_request now status reason r (dis_request d)
                   (s\<lparr>dispatches := map (\<lambda>e. if dis_key e = dis_key d
                        then resolve_dispatch now status reason e else e) (dispatches s)\<rparr>) of
              Inl e \<Rightarrow> Inl e
            | Inr s2 \<Rightarrow>
                Inr (dis_request d, writePayoutAuditEvent now req ''payout_provider_callback''
                       (if status = Failed then Warning else Info) (Some (req_courier r)) (Some (dis_request d))
                       (Some (req_status r)) (Some (provider_status_text status)) None s2))))"

section \<open>The batch dispatcher\<close>

definition active_status :: "provider_status \<Rightarrow> bool" where
  "active_status st \<longleftrightarrow> st \<noteq> Failed"

text \<open>
  \<open>INSERT \<dots> ON CONFLICT (idempotency_key) DO UPDATE\<close>: a row with this key only counts another
  attempt; otherwise the row is added, unless the partial unique index on active dispatches of
  the request refuses it.
\<close>

definition upsert_dispatch ::
  "instant \<Rightarrow> payout_request \<Rightarrow> dispatch_result \<Rightarrow> string \<Rightarrow> payout_store \<Rightarrow> db_error + payout_store" where
  "upsert_dispatch now r res key s =
     (if list_ex (\<lambda>d. dis_key d = key) (dispatches s) then
        Inr (s\<lparr>dispatches := map (\<lambda>d. if dis_key d = key
               then d\<lparr>dis_attempts := dis_attempts d + 1, dis_updated_at := now\<rparr> else d) (dispatches s)\<rparr>)
      else if active_status (res_status res)
              \<and> list_ex (\<lambda>d. dis_request d = req_id r \<and> active_status (dis_status d)) (dispatches s)
        then Inl (UniqueViolation ''idx_courier_payout_dispatches_request_active'')
      else Inr (s\<lparr>dispatches := dispatches s @
             [\<lparr>dis_request = req_id r, dis_courier = req_courier r, dis_provider = res_provider res,
               dis_reference = res_reference res, dis_status = res_status res, dis_key = key,
               dis_failure_reason = res_failure res, dis_attempts = 1, dis_dispatched_at = now,
               dis_completed_at = None, dis_created_at = now, dis_updated_at = now\<rparr>]\<rparr>))"

text \<open>The amount dispatched through a provider since the start of the day (lines 411 to 420).\<close>

definition provider_usage :: "instant \<Rightarrow> string \<Rightarrow> payout_store \<Rightarrow> int" where
  "provider_usage now provider s =
     sum_list (map (\<lambda>d. case find_request s (dis_request d) of None \<Rightarrow> 0 | Some r \<Rightarrow> req_net_amount r)
       (filter (\<lambda>d. dis_provider d = provider \<and> dis_created_at d \<ge> day_start now
                    \<and> dis_status d \<in> {Processing, Paid}) (dispatches s)))"

definition dispatch_candidate :: "payout_store \<Rightarrow> payout_request \<Rightarrow> bool" where
  "dispatch_candidate s r \<longleftrightarrow>
     req_status r \<in> set [''approved_auto'', ''approved'']
     \<and> (case find_account s (req_account r) of None \<Rightarrow> False | Some a \<Rightarrow> acc_status a = ''verified'')
     \<and> \<not> list_ex (\<lambda>d. dis_request d = req_id r \<and> dis_status d \<in> {Processing, Paid}) (dispatches s)"

text \<open>\<open>ORDER BY COALESCE(reviewed_at, requested_at), created_at LIMIT batchSize\<close>.\<close>

definition dispatch_candidates :: "payout_store \<Rightarrow> int \<Rightarrow> payout_request list" where
  "dispatch_candidates s batch =
     take (nat batch)
       (sort_key (\<lambda>r. case req_reviewed_at r of Some t \<Rightarrow> t | None \<Rightarrow> req_requested_at r)
         (sort_key req_created_at (filter (dispatch_candidate s) (requests s))))"

record dispatch_run =
  run_store :: payout_store
  run_today :: int
  run_results :: "(uuid \<times> provider_status \<times> string) list"
  run_skipped :: "(uuid option \<times> string) list"

definition skip_payout ::
  "instant \<Rightarrow> http_request option \<Rightarrow> payout_request \<Rightarrow> string \<Rightarrow> dispatch_run \<Rightarrow> dispatch_run" where
  "skip_payout now req r reason run =
     run\<lparr>run_skipped := run_skipped run @ [(Some (req_id r), reason)],
         run_store := writePayoutAuditEvent now req ''payout_dispatch_created'' Warning (Some (req_courier r))
           (Some (req_id r)) (Some (req_status r)) (Some (req_status r)) None (run_store run)\<rparr>"

definition mark_dispatched :: "instant \<Rightarrow> dispatch_result \<Rightarrow> payout_request \<Rightarrow> payout_request" where
  "mark_dispatched now res q =
     q\<lparr>req_provider_name := Some (res_provider res), req_provider_reference := Some (res_reference res),
       req_processed_at := coalesce (req_processed_at q) now, req_updated_at := now\<rparr>"

definition set_provider_status :: "instant \<Rightarrow> provider_status \<Rightarrow> payout_request \<Rightarrow> payout_request" where
  "set_provider_status now st q =
     q\<lparr>req_status := provider_status_text st,
       req_paid_at := (if st = Paid then Some now else req_paid_at q), req_updated_at := now\<rparr>"

definition settle_dispatch ::
  "instant \<Rightarrow> payout_request \<Rightarrow> dispatch_result \<Rightarrow> payout_store \<Rightarrow> db_error + payout_store" where
  "settle_dispatch now r res s =
     (if res_status res = Failed
      then markPayoutFailedWithReversal now (req_id r) (req_courier r) (req_amount r)
             (str_or (res_failure res) ''Pencairan gagal diproses provider.'') s
      else update_request (req_id r) (set_provider_status now (res_status res)) s)"

text \<open>The writes after a provider answered (lines 506 to 603).\<close>

definition record_dispatch ::
  "instant \<Rightarrow> http_request option \<Rightarrow> payout_request \<Rightarrow> dispatch_result \<Rightarrow> string \<Rightarrow> dispatch_run
   \<Rightarrow> db_error + dispatch_run" where
  "record_dispatch now req r res key run =
     (case upsert_dispatch now r res key (run_store run) of
        Inl e \<Rightarrow> Inl e
      | Inr s1 \<Rightarrow>
        (case update_request (req_id r) (mark_dispatched now res) s1 of
           Inl e \<Rightarrow> Inl e
         | Inr s2 \<Rightarrow>
           (case settle_dispatch now r res s2 of
              Inl e \<Rightarrow> Inl e
            | Inr s3 \<Rightarrow>
                Inr (run\<lparr>run_store := writePayoutAuditEvent now req ''payout_dispatch_created''
                          (if res_status res = Failed then Warning else Info) (Some (req_courier r))
                          (Some (req_id r)) (Some (req_status r))
                          (Some (provider_status_text (res_status res))) None s3,
                        run_results := run_results run @ [(req_id r, res_status res, res_reference res)],
                        run_today := run_today run + req_net_amount r\<rparr>))))"

text \<open>The body of the loop for one candidate.\<close>

definition dispatch_one ::
  "provider_env \<Rightarrow> instant \<Rightarrow> http_request option \<Rightarrow> string \<Rightarrow> int \<Rightarrow> payout_request \<Rightarrow> dispatch_run
   \<Rightarrow> db_error + dispatch_run" where
  "dispatch_one env now req provider limit r run =
     (if run_today run + req_net_amount r > limit
      then Inr (skip_payout now req r ''provider_daily_limit_exceeded'' run)
      else case find_account (run_store run) (req_account r) of
        None \<Rightarrow> Inl (Thrown ''payout account missing'')
      | Some a \<Rightarrow>
        (let payload = buildPayoutProviderPayload r a;
             key = providerIdempotencyKey (req_id r);
             account = (if provider = ''xendit'' then resolvePayoutAccountNumber env (pay_vault_ref payload)
                        else Inr [])
         in case account of
              Inl m \<Rightarrow> Inr (skip_payout now req r
                 (if str_includes ''not configured'' m then ''payout_account_vault_unconfigured''
                  else ''provider_account_unavailable'') run)
            | Inr number \<Rightarrow>
               (case dispatchToProvider env provider payload key number of
                  Inl m \<Rightarrow> Inl (Thrown m)
                | Inr res \<Rightarrow> record_dispatch now req r res key run)))"

fun dispatch_all ::
  "provider_env \<Rightarrow> instant \<Rightarrow> http_request option \<Rightarrow> string \<Rightarrow> int \<Rightarrow> payout_request list \<Rightarrow> dispatch_run
   \<Rightarrow> db_error + dispatch_run" where
  "dispatch_all env now req provider limit [] run = Inr run"
| "dispatch_all env now req provider limit (r # rs) run =
     (case dispatch_one env now req provider limit r run of
        Inl e \<Rightarrow> Inl e
      | Inr run' \<Rightarrow> dispatch_all env now req provider limit rs run')"

definition start_run :: "instant \<Rightarrow> string \<Rightarrow> payout_store \<Rightarrow> dispatch_run" where
  "start_run now provider s =
     \<lparr>run_store = s, run_today = provider_usage now provider s, run_results = [], run_skipped = []\<rparr>"

definition dispatchApprovedPayouts ::
  "provider_env \<Rightarrow> instant \<Rightarrow> http_request option \<Rightarrow> payout_store \<Rightarrow> db_error + dispatch_run" where
  "dispatchApprovedPayouts env now req s =
     (let enabled = configBool s ''payout_dispatcher_enabled'' True;
          kill = configBool s ''payout_emergency_kill_switch_enabled'' False;
          batch = configInt s ''payout_dispatcher_batch_size'' 25;
          limit = configInt s ''payout_provider_daily_limit_idr'' 50000000;
          provider = configString s ''payout_provider_name'' (env_provider_default env);
          idle = \<lparr>run_store = s, run_today = 0, run_results = [], run_skipped = []\<rparr>
      in if \<not> enabled then Inr (idle\<lparr>run_skipped := [(None, ''dispatcher_disabled'')]\<rparr>)
         else if kill then Inr (idle\<lparr>run_skipped := [(None, ''emergency_kill_switch_enabled'')]\<rparr>)
         else if batch < 0 then Inl (Thrown ''LIMIT must not be negative'')
         else dispatch_all env now req provider limit (dispatch_candidates s batch) (start_run now provider s))"

section \<open>Polling ambiguous dispatches\<close>

definition unknown_dispatches :: "payout_store \<Rightarrow> int \<Rightarrow> dispatch_row list" where
  "unknown_dispatches s batch =
     take (nat batch) (sort_key dis_updated_at (filter (\<lambda>d. dis_status d = Unknown) (dispatches s)))"

text \<open>One candidate: an error is caught and listed as skipped (the store keeps its value).\<close>

definition poll_one ::
  "provider_env \<Rightarrow> instant \<Rightarrow> http_request option \<Rightarrow> dispatch_row \<Rightarrow> dispatch_run \<Rightarrow> dispatch_run" where
  "poll_one env now req d run =
     (case queryProviderStatus env (dis_provider d) (dis_reference d) of
        Inl m \<Rightarrow> run\<lparr>run_skipped := run_skipped run @ [(Some (dis_request d), m)]\<rparr>
      | Inr st \<Rightarrow>
         (case applyProviderCallback now req (dis_provider d) (dis_reference d) st None (run_store run) of
            Inl e \<Rightarrow> run\<lparr>run_skipped := run_skipped run @ [(Some (dis_request d), error_message e)]\<rparr>
          | Inr (i, s') \<Rightarrow>
              run\<lparr>run_store := s', run_results := run_results run @ [(i, st, dis_reference d)]\<rparr>))"

definition pollUnknownPayouts ::
  "provider_env \<Rightarrow> instant \<Rightarrow> http_request option \<Rightarrow> payout_store \<Rightarrow> db_error + dispatch_run" where
  "pollUnknownPayouts env now req s =
     (let batch = configInt s ''payout_provider_poll_batch_size'' 25 in
      if batch < 0 then Inl (Thrown ''LIMIT must not be negative'')
      else Inr (foldl (\<lambda>run d. poll_one env now req d run)
             \<lparr>run_store = s, run_today = 0, run_results = [], run_skipped = []\<rparr>
             (unknown_dispatches s batch)))"

section \<open>The provider operations on the store\<close>

lemma mark_failed_effects:
  assumes "markPayoutFailedWithReversal now i c a reason t = Inr u" and t: "effects s t"
    and r: "find_request s i = Some r" and "c = req_courier r" and "a = req_amount r"
  shows "effects s u"
proof -
  obtain t1 where t1: "update_request i (\<lambda>r. r\<lparr>req_status := ''failed'', req_failure_reason := Some reason,
              req_processed_at := coalesce (req_processed_at r) now, req_updated_at := now\<rparr>) t = Inr t1"
    and u: "u = ensure_reversal c a i t1"
    using assms(1) by (auto simp: markPayoutFailedWithReversal_def split: sum.splits)
  show ?thesis unfolding u assms(4,5)
    by (rule reverse_after_update [OF t1 t _ r]) (simp add: same_identity_def)
qed

text \<open>A request found now is the request it was when the step began, but for its status part.\<close>

lemma find_request_back:
  assumes "payout_inv s" and "effects s t" and "find_request s i = Some r0" and "find_request t i = Some r"
  shows "same_identity r0 r"
  using effects_find_request [OF assms(2,3)] assms(4) by simp

lemma dispatch_map_effects:
  assumes "effects s t" and "\<And>d. dis_key (g d) = dis_key d \<and> dis_request (g d) = dis_request d"
  shows "effects s (t\<lparr>dispatches := map g (dispatches t)\<rparr>)"
  by (rule effects_step [OF assms(1) effect.dispatch_update]) (rule assms(2))

lemma resolve_dispatch_key [simp]:
  "dis_key (resolve_dispatch now st reason d) = dis_key d"
  "dis_request (resolve_dispatch now st reason d) = dis_request d"
  by (simp_all add: resolve_dispatch_def)

lemma provider_updates [simp]:
  "same_identity q (paid_by_provider now q)" "req_status (paid_by_provider now q) = ''paid''"
  "same_identity q (processing_by_provider now q)" "req_status (processing_by_provider now q) = ''processing''"
  by (simp_all add: paid_by_provider_def processing_by_provider_def same_identity_def)

lemma settle_request_effects:
  assumes e: "settle_request now st reason r i t = Inr u" and t: "effects s t" and r: "find_request s i = Some r"
  shows "effects s u"
proof (cases "st = Failed")
  case True
  with e have "markPayoutFailedWithReversal now i (req_courier r) (req_amount r)
      (str_or reason ''Pencairan gagal diproses provider.'') t = Inr u" by (simp add: settle_request_def)
  then show ?thesis by (rule mark_failed_effects [OF _ t r]) simp_all
next
  case False
  with e obtain f where f: "update_request i f t = Inr u" and id: "\<And>q. same_identity q (f q)"
    and st: "\<And>q. req_status (f q) \<notin> set refund_statuses"
    by (cases st) (force simp: settle_request_def refund_statuses_def)+
  show ?thesis by (rule effects_update [OF f t id]) (use st in blast)
qed

lemma callback_effects:
  assumes "applyProviderCallback now req provider reference st reason s = Inr (i, u)"
  shows "effects s u"
proof -
  obtain d where d: "find_dispatch s provider reference = Some d"
    using assms by (auto simp: applyProviderCallback_def split: option.splits)
  obtain r where r: "find_request s (dis_request d) = Some r"
    using assms d by (auto simp: applyProviderCallback_def split: option.splits)
  let ?s1 = "s\<lparr>dispatches := map (\<lambda>e. if dis_key e = dis_key d
                 then resolve_dispatch now st reason e else e) (dispatches s)\<rparr>"
  show ?thesis
  proof (cases "settle_request now st reason r (dis_request d) ?s1")
    case (Inr s2)
    have u: "u = writePayoutAuditEvent now req ''payout_provider_callback''
              (if st = Failed then Warning else Info) (Some (req_courier r)) (Some (dis_request d))
              (Some (req_status r)) (Some (provider_status_text st)) None s2"
      using assms by (auto simp add: applyProviderCallback_def d r Inr)
    show ?thesis unfolding u
      by (intro effects_audit settle_request_effects [OF Inr _ r] dispatch_map_effects) simp_all
  qed (use assms in \<open>simp add: applyProviderCallback_def d r\<close>)
qed

section \<open>The batch as an operation on the store\<close>

lemma upsert_effects:
  assumes e: "upsert_dispatch now r res key t = Inr u" and t: "effects s t"
    and r: "find_request s (req_id r) = Some r" and k: "key = providerIdempotencyKey (req_id r)"
  shows "effects s u"
proof (cases "list_ex (\<lambda>d. dis_key d = key) (dispatches t)")
  case True
  have "effects s (t\<lparr>dispatches := map (\<lambda>d. if dis_key d = key
      then d\<lparr>dis_attempts := dis_attempts d + 1, dis_updated_at := now\<rparr> else d) (dispatches t)\<rparr>)"
    by (rule dispatch_map_effects [OF t]) simp
  with True e show ?thesis by (simp add: upsert_dispatch_def)
next
  case False
  obtain r' where r': "find_request t (req_id r) = Some r'" using effects_find_request [OF t r] by blast
  show ?thesis
  proof (rule effects_step [OF t])
    show "effect t u"
      using e False r' k
      by (auto simp: upsert_dispatch_def list_ex_iff split: if_splits intro!: effect.dispatch_add)
  qed
qed

lemma dispatch_updates [simp]:
  "same_identity q (mark_dispatched now res q)"
  "same_identity q (set_provider_status now st q)"
  "req_status (mark_dispatched now res q) = req_status q"
  "req_status (set_provider_status now st q) = provider_status_text st"
  by (simp_all add: mark_dispatched_def set_provider_status_def same_identity_def)

lemma settle_dispatch_effects:
  assumes e: "settle_dispatch now r res t = Inr u" and t: "effects s t" and r: "find_request s (req_id r) = Some r"
  shows "effects s u"
proof (cases "res_status res = Failed")
  case True
  with e show ?thesis by (auto simp: settle_dispatch_def intro: mark_failed_effects [OF _ t r])
next
  case False
  then have u: "update_request (req_id r) (set_provider_status now (res_status res)) t = Inr u"
    using e by (simp add: settle_dispatch_def)
  have "provider_status_text (res_status res) \<notin> set refund_statuses"
    using False by (cases "res_status res") (simp_all add: refund_statuses_def)
  then show ?thesis by (intro effects_update [OF u t]) simp_all
qed

lemma record_dispatch_effects:
  assumes e: "record_dispatch now req r res (providerIdempotencyKey (req_id r)) run = Inr run'"
    and t: "effects s (run_store run)" and r: "find_request s (req_id r) = Some r"
  shows "effects s (run_store run')"
proof -
  obtain s1 where s1: "upsert_dispatch now r res (providerIdempotencyKey (req_id r)) (run_store run) = Inr s1"
    using e by (auto simp: record_dispatch_def split: sum.splits)
  obtain s2 where s2: "update_request (req_id r) (mark_dispatched now res) s1 = Inr s2"
    using e s1 by (auto simp: record_dispatch_def split: sum.splits)
  obtain s3 where s3: "settle_dispatch now r res s2 = Inr s3"
    using e s1 s2 by (auto simp: record_dispatch_def split: sum.splits)
  have "effects s s1" by (rule upsert_effects [OF s1 t r]) simp
  then have "effects s s2" by (intro effects_update [OF s2]) simp_all
  then have "effects s s3" by (intro settle_dispatch_effects [OF s3 _ r])
  then show ?thesis using e s1 s2 s3 by (auto simp: record_dispatch_def intro: effects_audit)
qed

lemma dispatch_one_effects:
  assumes e: "dispatch_one env now req provider limit r run = Inr run'"
    and t: "effects s (run_store run)" and r: "find_request s (req_id r) = Some r"
  shows "effects s (run_store run')"
  using e record_dispatch_effects [OF _ t r] t
  by (auto simp: dispatch_one_def skip_payout_def Let_def effects_audit
      split: if_splits option.splits sum.splits)

lemma dispatch_all_effects:
  assumes "dispatch_all env now req provider limit rs run = Inr run'"
    and "effects s (run_store run)" and "\<And>r. r \<in> set rs \<Longrightarrow> find_request s (req_id r) = Some r"
  shows "effects s (run_store run')"
  using assms
proof (induction rs arbitrary: run)
  case (Cons r rs)
  then obtain run1 where run1: "dispatch_one env now req provider limit r run = Inr run1"
    by (auto split: sum.splits)
  have "effects s (run_store run1)" by (rule dispatch_one_effects [OF run1 Cons.prems(2)]) (use Cons.prems(3) in simp)
  with Cons run1 show ?case by simp
qed simp

lemma dispatch_candidates_set: "r \<in> set (dispatch_candidates s batch) \<Longrightarrow> r \<in> set (requests s) \<and> dispatch_candidate s r"
  by (auto simp: dispatch_candidates_def dest: in_set_takeD)

text \<open>The store after a batch; an error rolls it back.\<close>

definition dispatch_store :: "provider_env \<Rightarrow> instant \<Rightarrow> http_request option \<Rightarrow> payout_store \<Rightarrow> payout_store" where
  "dispatch_store env now req s =
     (case dispatchApprovedPayouts env now req s of Inl _ \<Rightarrow> s | Inr run \<Rightarrow> run_store run)"

lemma dispatch_effects:
  assumes inv: "payout_inv s" and e: "dispatchApprovedPayouts env now req s = Inr run"
  shows "effects s (run_store run)"
proof (cases "run_store run = s")
  case False
  then obtain provider limit batch where
    "dispatch_all env now req provider limit (dispatch_candidates s batch) (start_run now provider s) = Inr run"
    using e by (auto simp: dispatchApprovedPayouts_def Let_def split: if_splits)
  then show ?thesis
    by (rule dispatch_all_effects)
      (auto simp: start_run_def dest!: dispatch_candidates_set intro: find_request_inv [OF inv])
qed simp

interpretation dispatch: payout_operation "dispatch_store env now req" "\<lambda>_. True"
  for env now req
  by unfold_locales (auto simp: dispatch_store_def dispatch_effects split: sum.split)

definition callback_store ::
  "instant \<Rightarrow> http_request option \<Rightarrow> string \<Rightarrow> string \<Rightarrow> provider_status \<Rightarrow> string option \<Rightarrow> payout_store \<Rightarrow> payout_store" where
  "callback_store now req provider reference st reason s =
     (case applyProviderCallback now req provider reference st reason s of Inl _ \<Rightarrow> s | Inr (_, t) \<Rightarrow> t)"

interpretation callback: payout_operation "callback_store now req provider reference st reason" "\<lambda>_. True"
  for now req provider reference st reason
  by unfold_locales (auto simp: callback_store_def callback_effects split: sum.split)

lemma poll_effects:
  assumes "effects s (run_store run)"
  shows "effects s (run_store (foldl (\<lambda>run d. poll_one env now req d run) run ds))"
  using assms
proof (induction ds arbitrary: run)
  case (Cons d ds)
  have "effects s (run_store (poll_one env now req d run))"
    using Cons.prems callback_effects effects_trans
    by (fastforce simp: poll_one_def split: sum.splits)
  then show ?case by (simp add: Cons.IH)
qed simp

definition poll_store :: "provider_env \<Rightarrow> instant \<Rightarrow> http_request option \<Rightarrow> payout_store \<Rightarrow> payout_store" where
  "poll_store env now req s = (case pollUnknownPayouts env now req s of Inl _ \<Rightarrow> s | Inr run \<Rightarrow> run_store run)"

interpretation poll: payout_operation "poll_store env now req" "\<lambda>_. True"
  for env now req
  by unfold_locales (auto simp: poll_store_def pollUnknownPayouts_def Let_def poll_effects split: if_split)

section \<open>Properties of the dispatcher\<close>

lemma dispatch_one_results:
  assumes "dispatch_one env now req provider limit r run = Inr run'"
  shows "(run_results run' = run_results run \<and> run_today run' = run_today run)
    \<or> (\<exists>st ref. run_results run' = run_results run @ [(req_id r, st, ref)]
        \<and> run_today run' = run_today run + req_net_amount r \<and> run_today run' \<le> limit)"
  using assms
  by (auto simp: dispatch_one_def record_dispatch_def skip_payout_def Let_def
      split: if_splits option.splits sum.splits)

lemma dispatch_all_results:
  assumes "dispatch_all env now req provider limit rs run = Inr run'"
  shows "\<exists>new. run_results run' = run_results run @ new \<and> length new \<le> length rs
     \<and> (\<forall>x \<in> set new. fst x \<in> req_id ` set rs)
     \<and> (new = [] \<and> run_today run' = run_today run \<or> run_today run' \<le> limit)"
  using assms
proof (induction rs arbitrary: run)
  case (Cons r rs)
  then obtain run1 where run1: "dispatch_one env now req provider limit r run = Inr run1"
    and rest: "dispatch_all env now req provider limit rs run1 = Inr run'"
    by (auto split: sum.splits)
  obtain new where new: "run_results run' = run_results run1 @ new" "length new \<le> length rs"
      "\<forall>x \<in> set new. fst x \<in> req_id ` set rs"
      "new = [] \<and> run_today run' = run_today run1 \<or> run_today run' \<le> limit"
    using Cons.IH [OF rest] by blast
  from dispatch_one_results [OF run1] show ?case
  proof (elim disjE exE conjE)
    assume "run_results run1 = run_results run" "run_today run1 = run_today run"
    with new show ?thesis by (intro exI [of _ new]) auto
  next
    fix st ref
    assume "run_results run1 = run_results run @ [(req_id r, st, ref)]" "run_today run1 \<le> limit"
    with new show ?thesis by (intro exI [of _ "(req_id r, st, ref) # new"]) auto
  qed
qed auto


definition stub_env :: provider_env where
  "stub_env = \<lparr>env_vault_url = [], env_provider_default = ''stub'',
     vault_fetch = (\<lambda>_. NetworkError ''no vault''), gateway_disburse = (\<lambda>_ _ _. NetworkError ''no gateway''),
     gateway_query = (\<lambda>_. NetworkError ''no gateway''), sha256 = (\<lambda>k. k)\<rparr>"

definition approved_store :: payout_store where
  "approved_store = review_store ''approved''"

lemma lower_words [simp]: "toLowerCase ''true'' = ''true''" "toLowerCase ''false'' = ''false''"
  by code_simp+

text \<open>A key that is not configured reads as the fallback.\<close>

lemma config_missing:
  assumes "map_of (configs s) key = None"
  shows "configString s key d = d" "configInt s key n = n" "configBool s key b = b"
  using assms by (simp_all add: configString_def configInt_def configBool_def)

lemma approved_configs [simp]: "configs approved_store = []"
  by (simp add: approved_store_def review_store_def demo_store_def empty_store_def)

lemma approved_reads [simp]:
  "find_account approved_store ''a1'' = Some demo_account"
  "find_request approved_store ''p1'' = Some (paid_request\<lparr>req_status := ''approved''\<rparr>)"
  "dispatches approved_store = []"
  "requests approved_store = [paid_request\<lparr>req_status := ''approved''\<rparr>]"
  "req_account paid_request = ''a1''" "req_id paid_request = ''p1''" "req_courier paid_request = ''c1''"
  "req_amount paid_request = 50000" "req_fee paid_request = 0"
  "acc_status demo_account = ''verified''"
  by (simp_all add: approved_store_def review_store_def demo_store_def demo_account_def empty_store_def
      find_account_def find_request_def paid_request_def)

lemma approved_candidates [simp]: "dispatch_candidates approved_store 25 = [paid_request\<lparr>req_status := ''approved''\<rparr>]"
  by (simp add: dispatch_candidates_def dispatch_candidate_def del: payout_request.simps)

lemma approved_batch:
  "\<exists>run. dispatchApprovedPayouts stub_env 0 None approved_store = Inr run
     \<and> run_results run = [(''p1'', Processing, providerReferenceFromKey stub_env (providerIdempotencyKey ''p1''))]"
  by (simp add: dispatchApprovedPayouts_def config_missing Let_def stub_env_def dispatch_one_def
      start_run_def provider_usage_def dispatchToProvider_def record_dispatch_def upsert_dispatch_def
      update_request_def settle_dispatch_def request_statuses_def mark_dispatched_def set_provider_status_def
      req_net_amount_def providerReferenceFromKey_def)


text \<open>
  The off switch is ignored.  \<open>payout_dispatcher_enabled\<close> stored as the JSON value \<open>false\<close> does not
  disable the dispatcher: the reader takes the falsy value for a missing one and falls back to
  \<open>true\<close>, so the batch is sent exactly as with no setting at all.
\<close>

theorem disabled_flag_is_ignored:
  assumes "map_of (configs s) ''payout_dispatcher_enabled'' = Some (CBool False)"
    and "\<not> configBool s ''payout_emergency_kill_switch_enabled'' False"
    and "0 \<le> configInt s ''payout_dispatcher_batch_size'' 25"
  shows "dispatchApprovedPayouts env now req s =
     dispatch_all env now req (configString s ''payout_provider_name'' (env_provider_default env))
       (configInt s ''payout_provider_daily_limit_idr'' 50000000)
       (dispatch_candidates s (configInt s ''payout_dispatcher_batch_size'' 25))
       (start_run now (configString s ''payout_provider_name'' (env_provider_default env)) s)"
proof -
  have "configString s ''payout_dispatcher_enabled'' ''true'' = ''true''"
    using assms(1) by (simp add: configString_def config_falsy_def)
  then have "configBool s ''payout_dispatcher_enabled'' True" by (simp add: configBool_def)
  with assms(2,3) show ?thesis by (simp add: dispatchApprovedPayouts_def Let_def)
qed

theorem disabled_flag_is_ignored_witness:
  "dispatchApprovedPayouts stub_env 0 None (empty_store\<lparr>configs := [(''payout_dispatcher_enabled'', CBool False)]\<rparr>) =
     dispatch_all stub_env 0 None (configString (empty_store\<lparr>configs := [(''payout_dispatcher_enabled'', CBool False)]\<rparr>)
         ''payout_provider_name'' (env_provider_default stub_env))
       (configInt (empty_store\<lparr>configs := [(''payout_dispatcher_enabled'', CBool False)]\<rparr>) ''payout_provider_daily_limit_idr'' 50000000)
       (dispatch_candidates (empty_store\<lparr>configs := [(''payout_dispatcher_enabled'', CBool False)]\<rparr>)
         (configInt (empty_store\<lparr>configs := [(''payout_dispatcher_enabled'', CBool False)]\<rparr>) ''payout_dispatcher_batch_size'' 25))
       (start_run 0 (configString (empty_store\<lparr>configs := [(''payout_dispatcher_enabled'', CBool False)]\<rparr>)
         ''payout_provider_name'' (env_provider_default stub_env))
         (empty_store\<lparr>configs := [(''payout_dispatcher_enabled'', CBool False)]\<rparr>))"
  by (rule disabled_flag_is_ignored) (simp_all add: config_missing)

lemma unknown_not_a_request_status: "provider_status_text Unknown \<notin> set request_statuses"
  by (simp add: request_statuses_def)

lemma update_invalid_status:
  assumes "find_request s i \<noteq> None" and "\<And>q. req_status (f q) \<notin> set request_statuses"
  shows "update_request i f s = Inl (CheckViolation ''courier_payout_requests_status_check'')"
proof -
  obtain r where "r \<in> set (requests s)" "req_id r = i"
    using assms(1) find_request_Some by blast
  then have "\<not> list_all (\<lambda>r. req_id r = i \<longrightarrow> req_status (f r) \<in> set request_statuses) (requests s)"
    using assms(2) unfolding list_all_iff by blast
  then show ?thesis unfolding update_request_def Let_def by (rule if_not_P)
qed

text \<open>
  One ambiguous answer aborts the batch.  When the provider's status for a payout is not
  recognised (\<open>unknown\<close>), writing it as the request's status violates the table's check, so the
  whole transaction fails: the dispatches already recorded in this batch are rolled back although
  the provider has accepted them, and no \<open>unknown\<close> dispatch is kept for the poll to resolve.
\<close>

theorem unknown_answer_aborts_batch:
  assumes "payout_inv s" and "effects s (run_store run)" and "r \<in> set (requests s)"
    and "run_today run + req_net_amount r \<le> limit"
    and "find_account (run_store run) (req_account r) = Some a"
    and "provider = ''xendit''"
    and "resolvePayoutAccountNumber env (pay_vault_ref (buildPayoutProviderPayload r a)) = Inr number"
    and "dispatchToProvider env provider (buildPayoutProviderPayload r a) (providerIdempotencyKey (req_id r)) number = Inr res"
    and "res_status res = Unknown"
    and "\<not> list_ex (\<lambda>d. dis_request d = req_id r) (dispatches (run_store run))"
  shows "dispatch_all env now req provider limit (r # rs) run
       = Inl (CheckViolation ''courier_payout_requests_status_check'')"
proof -
  let ?key = "providerIdempotencyKey (req_id r)"
  have fr: "find_request s (req_id r) = Some r" by (rule find_request_inv [OF assms(1,3)])
  have inv: "payout_inv (run_store run)" by (rule effects_inv [OF assms(2,1)])
  have no_key: "\<not> list_ex (\<lambda>d. dis_key d = ?key) (dispatches (run_store run))"
  proof
    assume "list_ex (\<lambda>d. dis_key d = ?key) (dispatches (run_store run))"
    then obtain d where d: "d \<in> set (dispatches (run_store run))" "dis_key d = ?key" by (auto simp: list_ex_iff)
    then have "dis_request d = req_id r"
      using payout_invD(8) [OF inv d(1)] by (simp add: providerIdempotencyKey_def)
    with d(1) assms(10) show False by (auto simp: list_ex_iff)
  qed
  then obtain s1 where s1: "upsert_dispatch now r res ?key (run_store run) = Inr s1"
    using assms(10) by (auto simp: upsert_dispatch_def list_ex_iff)
  have e1: "effects s s1" by (rule upsert_effects [OF s1 assms(2) fr]) simp
  obtain r1 where r1: "find_request s1 (req_id r) = Some r1" using effects_find_request [OF e1 fr] by blast
  have "r1 \<in> set (requests s1)" and "payout_inv s1"
    using find_request_Some [OF r1] effects_inv [OF e1 assms(1)] by auto
  then have "update_request (req_id r) (mark_dispatched now res) s1
      = Inr (s1\<lparr>requests := map (\<lambda>q. if req_id q = req_id r then mark_dispatched now res q else q) (requests s1)\<rparr>)"
    by (auto simp: update_request_def list_all_iff dest: payout_invD(3))
  then obtain s2 where s2: "update_request (req_id r) (mark_dispatched now res) s1 = Inr s2" by blast
  have "find_request s2 (req_id r) \<noteq> None" using r1 by (simp add: find_request_update [OF s2])
  then have "settle_dispatch now r res s2 = Inl (CheckViolation ''courier_payout_requests_status_check'')"
    using assms(9) unknown_not_a_request_status
    by (simp add: settle_dispatch_def) (rule update_invalid_status, simp_all)
  then have "record_dispatch now req r res ?key run = Inl (CheckViolation ''courier_payout_requests_status_check'')"
    by (simp add: record_dispatch_def s1 s2)
  then show ?thesis
    using assms(4-8) by (simp add: dispatch_one_def Let_def)
qed

definition xendit_env :: provider_env where
  "xendit_env = \<lparr>env_vault_url = ''v'', env_provider_default = ''xendit'',
     vault_fetch = (\<lambda>_. Response 200 [(''value'', ''12345678'')]),
     gateway_disburse = (\<lambda>_ _ _. Response 200 [(''id'', ''x-1'')]),
     gateway_query = (\<lambda>_. NetworkError ''no gateway''), sha256 = (\<lambda>k. k)\<rparr>"

lemma approved_inv [simp]: "payout_inv approved_store"
  by (simp add: payout_inv_def refund_statuses_def money_ok_def rows_of_def approved_store_def review_store_def demo_store_def
      empty_store_def request_statuses_def paid_request_def demo_earning_def requested_row_def reversal_row_def
      find_request_def)

lemma account_digits: "filter is_digit ''12345678'' = ''12345678'' \<and> valid_account_number ''12345678''"
  by code_simp

theorem unknown_answer_aborts_batch_witness:
  "dispatch_all xendit_env 0 None ''xendit'' 50000000 [paid_request\<lparr>req_status := ''approved''\<rparr>] (start_run 0 ''xendit'' approved_store)
     = Inl (CheckViolation ''courier_payout_requests_status_check'')"
proof (rule unknown_answer_aborts_batch [where s = approved_store and a = demo_account and number = "''12345678''"
      and res = "\<lparr>res_provider = ''xendit'', res_reference = ''x-1'', res_status = Unknown, res_failure = None\<rparr>"])
  show "resolvePayoutAccountNumber xendit_env
      (pay_vault_ref (buildPayoutProviderPayload (paid_request\<lparr>req_status := ''approved''\<rparr>) demo_account)) = Inr ''12345678''"
    using account_digits
    by (simp add: resolvePayoutAccountNumber_def xendit_env_def buildPayoutProviderPayload_def paid_request_def
        new_request_def demo_account_def or_else_def response_ok_def body_field_def str_or_def)
  show "dispatchToProvider xendit_env ''xendit'' (buildPayoutProviderPayload (paid_request\<lparr>req_status := ''approved''\<rparr>) demo_account)
      (providerIdempotencyKey (req_id (paid_request\<lparr>req_status := ''approved''\<rparr>))) ''12345678''
    = Inr \<lparr>res_provider = ''xendit'', res_reference = ''x-1'', res_status = Unknown, res_failure = None\<rparr>"
    using account_digits
    by (simp add: dispatchToProvider_def xendit_env_def response_ok_def body_field_def str_or_def
        normalizeProviderStatus_def)
qed (simp_all add: start_run_def req_net_amount_def provider_usage_def)

section \<open>Properties of the provider callback\<close>

primrec settled_status :: "provider_status \<Rightarrow> string" where
  "settled_status Paid = ''paid''"
| "settled_status Failed = ''failed''"
| "settled_status Processing = ''processing''"
| "settled_status Unknown = ''processing''"

lemma settle_request_run:
  assumes "settle_request now st reason r i s = Inr t" and r: "find_request s i = Some q"
  shows "(\<exists>q'. find_request t i = Some q' \<and> same_identity q q' \<and> req_status q' = settled_status st)
     \<and> has_reversal t i = (has_reversal s i \<or> st = Failed)"
proof (cases "st = Failed")
  case True
  let ?f = "\<lambda>m r. r\<lparr>req_status := ''failed'', req_failure_reason := Some m,
              req_processed_at := coalesce (req_processed_at r) now, req_updated_at := now\<rparr>"
  let ?m = "str_or reason ''Pencairan gagal diproses provider.''"
  obtain s1 where s1: "update_request i (?f ?m) s = Inr s1"
    and t: "t = ensure_reversal (req_courier r) (req_amount r) i s1"
    using assms(1) True by (auto simp: settle_request_def markPayoutFailedWithReversal_def split: sum.splits)
  have id: "same_identity x (?f ?m x)" for x by (simp add: same_identity_def)
  have "find_request t i = Some (?f ?m q)"
    using find_request_update [OF s1 id] r find_request_Some [OF r] by (simp add: t)
  then show ?thesis using id [of q] True by (simp add: t)
next
  case False
  then obtain f where f: "update_request i f s = Inr t" and id: "\<And>x. same_identity x (f x)"
    and st: "\<And>x. req_status (f x) = settled_status st"
    using assms(1) by (cases st) (auto simp: settle_request_def)
  have "find_request t i = Some (f q)"
    using find_request_update [OF f id] r find_request_Some [OF r] by simp
  moreover have "has_reversal t i = has_reversal s i"
    using update_request_Inr [OF f] by (simp add: has_reversal_def)
  ultimately show ?thesis using False id st by blast
qed

text \<open>
  The callback takes the provider's word.  An accepted callback sets the request's status from the
  provider status alone and refunds it when that is \<open>failed\<close>; the status the request had does not
  enter, so a paid, failed or cancelled request is moved as well.
\<close>

theorem callback_outcome:
  assumes "applyProviderCallback now req provider reference st reason s = Inr (i, t)"
  shows "\<exists>r r'. find_request s i = Some r \<and> find_request t i = Some r' \<and> same_identity r r'
     \<and> req_status r' = settled_status st \<and> has_reversal t i = (has_reversal s i \<or> st = Failed)"
proof -
  obtain d r where d: "find_dispatch s provider reference = Some d" and r: "find_request s (dis_request d) = Some r"
    using assms by (auto simp: applyProviderCallback_def split: option.splits)
  let ?s1 = "s\<lparr>dispatches := map (\<lambda>e. if dis_key e = dis_key d
                 then resolve_dispatch now st reason e else e) (dispatches s)\<rparr>"
  obtain s2 where s2: "settle_request now st reason r (dis_request d) ?s1 = Inr s2" and i: "i = dis_request d"
    and t: "requests t = requests s2" "ledger t = ledger s2"
    using assms d r by (auto simp: applyProviderCallback_def split: sum.splits)
  have "find_request ?s1 i = Some r" using r i by (simp add: find_request_def)
  from settle_request_run [OF s2 [folded i] this] show ?thesis
    using r i t by (simp add: find_request_def has_reversal_def)
qed

definition demo_dispatch :: dispatch_row where
  "demo_dispatch =
     \<lparr>dis_request = ''p1'', dis_courier = ''c1'', dis_provider = ''stub'', dis_reference = ''ref'',
       dis_status = Processing, dis_key = providerIdempotencyKey ''p1'', dis_failure_reason = None,
       dis_attempts = 1, dis_dispatched_at = 0, dis_completed_at = None, dis_created_at = 0,
       dis_updated_at = 0\<rparr>"

definition processing_store :: payout_store where
  "processing_store = (review_store ''processing'')\<lparr>dispatches := [demo_dispatch]\<rparr>"

lemma callback_runs:
  assumes "find_dispatch s provider reference = Some d" and "find_request s (dis_request d) = Some r"
  shows "\<exists>t. applyProviderCallback now req provider reference st reason s = Inr (dis_request d, t)
    \<and> dispatches t = map (\<lambda>e. if dis_key e = dis_key d then resolve_dispatch now st reason e else e) (dispatches s)"
proof -
  let ?s1 = "s\<lparr>dispatches := map (\<lambda>e. if dis_key e = dis_key d
                 then resolve_dispatch now st reason e else e) (dispatches s)\<rparr>"
  have "\<exists>s2. settle_request now st reason r (dis_request d) ?s1 = Inr s2 \<and> dispatches s2 = dispatches ?s1"
    by (cases st) (simp_all add: settle_request_def markPayoutFailedWithReversal_def update_request_ok request_statuses_def)
  then obtain s2 where "settle_request now st reason r (dis_request d) ?s1 = Inr s2" "dispatches s2 = dispatches ?s1"
    by blast
  then show ?thesis using assms by (simp add: applyProviderCallback_def)
qed

lemma single_dispatch:
  assumes "dispatches s = [d]" and "dis_provider d = provider" "dis_reference d = reference"
    and "find_request s (dis_request d) \<noteq> None"
  shows "find_dispatch s provider reference = Some d"
  using assms by (simp add: find_dispatch_def first_of_def)

lemma processing_request:
  "find_request processing_store ''p1'' = Some (paid_request\<lparr>req_status := ''processing''\<rparr>)"
  using review_store_request(1) [of "''processing''"] unfolding processing_store_def find_request_def by simp

lemma demo_callback:
  "\<exists>t. applyProviderCallback 0 None ''stub'' ''ref'' Failed None processing_store = Inr (''p1'', t)
     \<and> dispatches t = [resolve_dispatch 0 Failed None demo_dispatch]"
proof -
  have f: "find_dispatch processing_store ''stub'' ''ref'' = Some demo_dispatch"
  proof (rule single_dispatch)
    show "find_request processing_store (dis_request demo_dispatch) \<noteq> None"
      using processing_request by (simp add: demo_dispatch_def)
  qed (simp_all add: processing_store_def demo_dispatch_def)
  have r: "find_request processing_store (dis_request demo_dispatch) = Some (paid_request\<lparr>req_status := ''processing''\<rparr>)"
    using processing_request by (simp add: demo_dispatch_def)
  from callback_runs [OF f r, of 0 None Failed None] show ?thesis
    by (simp add: processing_store_def demo_dispatch_def)
qed

theorem callback_outcome_witness:
  "\<exists>t r'. applyProviderCallback 0 None ''stub'' ''ref'' Failed None processing_store = Inr (''p1'', t)
     \<and> find_request t ''p1'' = Some r' \<and> req_status r' = ''failed'' \<and> has_reversal t ''p1''"
proof -
  obtain t where "applyProviderCallback 0 None ''stub'' ''ref'' Failed None processing_store = Inr (''p1'', t)"
    using demo_callback by blast
  from callback_outcome [OF this] this show ?thesis by auto
qed

text \<open>
  Callbacks out of order pay twice.  A \<open>failed\<close> callback refunds the hold; a later \<open>paid\<close> callback
  of the same payout is still accepted and marks it paid, and the refund stays: the courier's
  balance was never charged for a payout that was made.
\<close>

theorem failed_then_paid_keeps_refund:
  assumes "applyProviderCallback now req provider reference Failed reason s = Inr (i, t)"
    and "applyProviderCallback now' req provider reference Paid None t = Inr (i, u)"
  shows "\<exists>r. find_request u i = Some r \<and> req_status r = ''paid'' \<and> has_reversal u i"
  using callback_outcome [OF assms(1)] callback_outcome [OF assms(2)] by auto

theorem failed_then_paid_keeps_refund_witness:
  "\<exists>t u r. applyProviderCallback 0 None ''stub'' ''ref'' Failed None processing_store = Inr (''p1'', t)
     \<and> applyProviderCallback 0 None ''stub'' ''ref'' Paid None t = Inr (''p1'', u)
     \<and> find_request u ''p1'' = Some r \<and> req_status r = ''paid'' \<and> has_reversal u ''p1''"
proof -
  let ?d = "resolve_dispatch 0 Failed None demo_dispatch"
  obtain t where t: "applyProviderCallback 0 None ''stub'' ''ref'' Failed None processing_store = Inr (''p1'', t)"
    "dispatches t = [?d]" using demo_callback by blast
  obtain r where r: "find_request t ''p1'' = Some r" using callback_outcome [OF t(1)] by blast
  have d: "dis_request ?d = ''p1''" "dis_provider ?d = ''stub''" "dis_reference ?d = ''ref''"
    by (simp_all add: resolve_dispatch_def demo_dispatch_def)
  have f: "find_dispatch t ''stub'' ''ref'' = Some ?d"
    by (rule single_dispatch [OF t(2)]) (use d r in simp_all)
  obtain u where u: "applyProviderCallback 0 None ''stub'' ''ref'' Paid None t = Inr (''p1'', u)"
    using callback_runs [OF f, of r 0 None Paid None] r unfolding d by blast
  from failed_then_paid_keeps_refund [OF t(1) u] t(1) u show ?thesis by blast
qed

end
