(* ===== verification/PayoutWebhook.thy ===== *)
theory PayoutWebhook
  imports PayoutDispatch
begin

text \<open>
  The provider webhook (\<open>handleCourierPayoutProviderWebhook\<close> of \<open>controllers/finance.controller.ts\<close>)
  with its signature check (\<open>verifyProviderWebhookSignature\<close>) and the webhook audit table
  (\<open>security/webhookSecurity.ts\<close>).  HMAC-SHA256 is a parameter: it maps a secret and the raw
  body to the hexadecimal digest.
\<close>

section \<open>The signature\<close>

definition verifyProviderWebhookSignature ::
  "(string \<Rightarrow> string \<Rightarrow> string) \<Rightarrow> string \<Rightarrow> string \<Rightarrow> string \<Rightarrow> bool" where
  "verifyProviderWebhookSignature hmac raw_body signature secret =
     (if signature = [] \<or> secret = [] then False
      else (let expected = hex_decode (hmac secret raw_body);
                provided = hex_decode (strip_scheme signature)
            in length expected = length provided \<and> expected = provided))"

section \<open>The webhook audit table\<close>

definition insertWebhookAuditEvent ::
  "uuid \<Rightarrow> string \<Rightarrow> string option \<Rightarrow> string \<Rightarrow> string \<Rightarrow> string option \<Rightarrow> payout_store \<Rightarrow> bool \<times> payout_store" where
  "insertWebhookAuditEvent new_id provider event verification processing err s =
     (case insert_audit new_id provider event verification processing err (webhook_audits s) of
        (duplicate, as) \<Rightarrow> (duplicate, s\<lparr>webhook_audits := as\<rparr>))"

definition updateWebhookAuditEvent :: "uuid \<Rightarrow> string \<Rightarrow> string option \<Rightarrow> payout_store \<Rightarrow> payout_store" where
  "updateWebhookAuditEvent i processing err s = s\<lparr>webhook_audits := update_audit i processing err (webhook_audits s)\<rparr>"

section \<open>The handler\<close>

record webhook_request =
  wb_raw :: string
  wb_tembus_signature :: "string option"
  wb_provider_signature :: "string option"
  wb_provider :: "string option"
  wb_provider_name :: "string option"
  wb_event_id :: "string option"
  wb_id :: "string option"
  wb_provider_reference :: "string option"
  wb_reference :: "string option"
  wb_status :: "string option"
  wb_failure_reason :: "string option"
  wb_reason :: "string option"

datatype webhook_result = WebhookRejected nat string | WebhookDuplicate | WebhookDone uuid

definition parse_provider_status :: "string \<Rightarrow> provider_status option" where
  "parse_provider_status st =
     (if st = ''processing'' then Some Processing
      else if st = ''unknown'' then Some Unknown
      else if st = ''paid'' then Some Paid
      else if st = ''failed'' then Some Failed
      else None)"

definition nonempty :: "string \<Rightarrow> string option" where
  "nonempty t = (if t = [] then None else Some t)"

text \<open>The transaction of a valid, well-formed event (lines 1146 to 1223).\<close>

definition process_webhook ::
  "alert_env \<Rightarrow> instant \<Rightarrow> http_request \<Rightarrow> uuid \<Rightarrow> string \<Rightarrow> string \<Rightarrow> string \<Rightarrow> provider_status \<Rightarrow> string option
   \<Rightarrow> payout_store \<Rightarrow> webhook_result \<times> payout_store" where
  "process_webhook aenv now req new_id provider event reference status reason s =
     (case insertWebhookAuditEvent new_id provider (Some event) ''valid'' ''received'' None s of
        (dup, s1) \<Rightarrow>
          if dup then (WebhookDuplicate, s)
          else if list_ex (\<lambda>e. whk_provider e = provider \<and> whk_event e = event) (webhook_events s1)
            then (WebhookDuplicate, updateWebhookAuditEvent new_id ''duplicate'' None s1)
          else
            (let s2 = s1\<lparr>webhook_events := webhook_events s1 @
                   [\<lparr>whk_provider = provider, whk_event = event, whk_reference = reference,
                     whk_processed_at = None\<rparr>]\<rparr>
             in case applyProviderCallback now (Some req) provider reference status reason s2 of
                  Inl e \<Rightarrow> (WebhookRejected 500 ''Webhook processing failed'',
                            updateWebhookAuditEvent new_id ''failed'' (Some ''processing_failed'') s)
                | Inr (i, s3) \<Rightarrow>
                   (let s4 = s3\<lparr>webhook_events := map (\<lambda>e. if whk_provider e = provider \<and> whk_event e = event
                             then e\<lparr>whk_processed_at := Some now\<rparr> else e) (webhook_events s3)\<rparr>;
                        s5 = updateWebhookAuditEvent new_id ''processed'' None s4
                    in (WebhookDone i, evaluatePayoutAlerts aenv now s5))))"

definition handleCourierPayoutProviderWebhook ::
  "(string \<Rightarrow> string \<Rightarrow> string) \<Rightarrow> string \<Rightarrow> provider_env \<Rightarrow> alert_env \<Rightarrow> instant \<Rightarrow> http_request \<Rightarrow> uuid
   \<Rightarrow> webhook_request \<Rightarrow> payout_store \<Rightarrow> webhook_result \<times> payout_store" where
  "handleCourierPayoutProviderWebhook hmac secret penv aenv now req new_id w s =
     (let signature = str_or (wb_tembus_signature w) (str_or (wb_provider_signature w) []);
          provider = str_or (wb_provider w) (str_or (wb_provider_name w) (env_provider_default penv));
          event = str_or (wb_event_id w) (str_or (wb_id w) []);
          reference = str_or (wb_provider_reference w) (str_or (wb_reference w) []);
          status = toLowerCase (str_or (wb_status w) []);
          missing = (signature = [])
      in if \<not> verifyProviderWebhookSignature hmac (wb_raw w) signature secret then
           (WebhookRejected 401 ''Invalid webhook request'',
            writePayoutAuditEvent now (Some req) ''payout_provider_signature_failed'' Critical None None None None None
              (snd (insertWebhookAuditEvent new_id provider (nonempty event)
                 (if missing then ''missing_signature'' else ''invalid'') ''failed''
                 (Some (if missing then ''missing_signature'' else ''invalid_signature'')) s)))
         else case (if event = [] \<or> reference = [] then None else parse_provider_status status) of
           None \<Rightarrow>
             (WebhookRejected 400 ''Invalid webhook request'',
              snd (insertWebhookAuditEvent new_id provider (nonempty event) ''invalid_payload'' ''failed''
                 (Some ''invalid_payload'') s))
         | Some st \<Rightarrow>
             process_webhook aenv now req new_id provider event reference st
               (nonempty (str_or (wb_failure_reason w) (str_or (wb_reason w) []))) s)"

section \<open>The webhook as an operation on the store\<close>

lemma webhook_audit_fields [simp]:
  "requests (snd (insertWebhookAuditEvent i p e v pr er s)) = requests s"
  "ledger (snd (insertWebhookAuditEvent i p e v pr er s)) = ledger s"
  "dispatches (snd (insertWebhookAuditEvent i p e v pr er s)) = dispatches s"
  "accounts (snd (insertWebhookAuditEvent i p e v pr er s)) = accounts s"
  "webhook_events (snd (insertWebhookAuditEvent i p e v pr er s)) = webhook_events s"
  "requests (updateWebhookAuditEvent i pr er s) = requests s"
  "ledger (updateWebhookAuditEvent i pr er s) = ledger s"
  "dispatches (updateWebhookAuditEvent i pr er s) = dispatches s"
  "accounts (updateWebhookAuditEvent i pr er s) = accounts s"
  "webhook_events (updateWebhookAuditEvent i pr er s) = webhook_events s"
  by (simp_all add: insertWebhookAuditEvent_def updateWebhookAuditEvent_def split: prod.split)

lemma update_request_audits:
  "update_request i f s = Inr t \<Longrightarrow> webhook_audits t = webhook_audits s \<and> webhook_events t = webhook_events s"
  by (auto dest: update_request_Inr)

lemma callback_audits:
  assumes "applyProviderCallback now req provider reference st reason s = Inr (i, t)"
  shows "webhook_audits t = webhook_audits s \<and> webhook_events t = webhook_events s"
  using assms
  by (cases st)
    (auto simp: applyProviderCallback_def settle_request_def markPayoutFailedWithReversal_def
      split: option.splits sum.splits dest!: update_request_audits)

definition valid_audit :: "string \<Rightarrow> string \<Rightarrow> payout_store \<Rightarrow> bool" where
  "valid_audit provider event s \<longleftrightarrow>
     list_ex (audit_is provider (Some event)) (webhook_audits s)"

lemma valid_audit_update [simp]:
  "valid_audit provider event (updateWebhookAuditEvent i pr er s) = valid_audit provider event s"
  "valid_audit provider event (evaluatePayoutAlerts env now s) = valid_audit provider event s"
  by (simp_all add: valid_audit_def updateWebhookAuditEvent_def)

lemma process_webhook_cases:
  assumes "process_webhook aenv now req new_id provider event reference st reason s = (res, t)" and "event \<noteq> []"
  obtains (duplicate) "res = WebhookDuplicate" "requests t = requests s" "ledger t = ledger s"
      "dispatches t = dispatches s" "webhook_events t = webhook_events s"
  | (rejected) "res = WebhookRejected 500 ''Webhook processing failed''"
      "t = updateWebhookAuditEvent new_id ''failed'' (Some ''processing_failed'') s"
  | (accepted) i s2 s3 where "res = WebhookDone i" "valid_audit provider event t"
      "requests s2 = requests s" "ledger s2 = ledger s" "dispatches s2 = dispatches s"
      "applyProviderCallback now (Some req) provider reference st reason s2 = Inr (i, s3)"
      "requests t = requests s3" "ledger t = ledger s3" "dispatches t = dispatches s3"
proof -
  define ins where "ins = insertWebhookAuditEvent new_id provider (Some event) ''valid'' ''received'' None s"
  have ev: "webhook_events (snd ins) = webhook_events s" by (simp add: ins_def)
  consider "fst ins" | "\<not> fst ins" "list_ex (\<lambda>e. whk_provider e = provider \<and> whk_event e = event) (webhook_events s)"
    | "\<not> fst ins" "\<not> list_ex (\<lambda>e. whk_provider e = provider \<and> whk_event e = event) (webhook_events s)" by blast
  then show ?thesis
  proof cases
    case 1
    then have "res = WebhookDuplicate \<and> t = s"
      using assms by (simp add: process_webhook_def ins_def [symmetric] split: prod.splits)
    then show ?thesis by (intro duplicate) simp_all
  next
    case 2
    then have "res = WebhookDuplicate \<and> t = updateWebhookAuditEvent new_id ''duplicate'' None (snd ins)"
      using assms ev unfolding process_webhook_def ins_def [symmetric] Let_def case_prod_beta by simp
    then show ?thesis by (intro duplicate) (simp_all add: ins_def)
  next
    case 3
    let ?s2 = "(snd ins)\<lparr>webhook_events := webhook_events s @
       [\<lparr>whk_provider = provider, whk_event = event, whk_reference = reference, whk_processed_at = None\<rparr>]\<rparr>"
    have run: "process_webhook aenv now req new_id provider event reference st reason s =
       (case applyProviderCallback now (Some req) provider reference st reason ?s2 of
          Inl e \<Rightarrow> (WebhookRejected 500 ''Webhook processing failed'',
                    updateWebhookAuditEvent new_id ''failed'' (Some ''processing_failed'') s)
        | Inr (i, s3) \<Rightarrow> (WebhookDone i, evaluatePayoutAlerts aenv now (updateWebhookAuditEvent new_id ''processed'' None
             (s3\<lparr>webhook_events := map (\<lambda>e. if whk_provider e = provider \<and> whk_event e = event
                 then e\<lparr>whk_processed_at := Some now\<rparr> else e) (webhook_events s3)\<rparr>))))"
      using 3 ev unfolding process_webhook_def ins_def [symmetric] Let_def case_prod_beta by simp
    show ?thesis
    proof (cases "applyProviderCallback now (Some req) provider reference st reason ?s2")
      case (Inl e)
      then show ?thesis using assms run by (intro rejected) simp_all
    next
      case (Inr x)
      obtain i s3 where x: "x = (i, s3)" by (cases x)
      have "valid_audit provider event ?s2"
        using 3(1) assms(2)
        by (cases "insert_audit new_id provider (Some event) ''valid'' ''received'' None (webhook_audits s)")
          (simp add: valid_audit_def ins_def insertWebhookAuditEvent_def insert_audit_valid)
      then have "valid_audit provider event s3"
        using callback_audits Inr x by (simp add: valid_audit_def)
      then have "valid_audit provider event (s3\<lparr>webhook_events := es\<rparr>)" for es by (simp add: valid_audit_def)
      then show ?thesis
        using assms run Inr x by (intro accepted [of i ?s2 s3]) (auto simp add: ins_def)
    qed
  qed
qed

lemma process_webhook_effects:
  assumes "event \<noteq> []"
  shows "effects s (snd (process_webhook aenv now req new_id provider event reference st reason s))"
proof -
  obtain res t where run: "process_webhook aenv now req new_id provider event reference st reason s = (res, t)"
    by (cases "process_webhook aenv now req new_id provider event reference st reason s")
  show ?thesis using run assms
  proof (cases rule: process_webhook_cases)
    case duplicate
    then show ?thesis using run by (auto intro: effects_other [OF rtranclp.rtrancl_refl])
  next
    case rejected
    then show ?thesis using run by (auto intro: effects_other [OF rtranclp.rtrancl_refl])
  next
    case (accepted i s2 s3)
    have "effects s s2" by (rule effects_other [OF rtranclp.rtrancl_refl]) (use accepted in simp_all)
    then have "effects s s3" using callback_effects [OF accepted(6)] effects_trans by blast
    then show ?thesis using run accepted by (auto intro: effects_other)
  qed
qed

lemma webhook_effects:
  "effects s (snd (handleCourierPayoutProviderWebhook hmac secret penv aenv now req new_id w s))"
proof -
  let ?event = "str_or (wb_event_id w) (str_or (wb_id w) [])"
  have ins: "effects s (snd (insertWebhookAuditEvent i p e v pr er s))" for i p e v pr er
    by (rule effects_other [OF rtranclp.rtrancl_refl]) simp_all
  show ?thesis
    unfolding handleCourierPayoutProviderWebhook_def Let_def
    by (auto simp: effects_audit ins process_webhook_effects split: option.split)
qed

interpretation webhook: payout_operation
  "\<lambda>s. snd (handleCourierPayoutProviderWebhook hmac secret penv aenv now req new_id w s)" "\<lambda>_. True"
  for hmac secret penv aenv now req new_id w
  by unfold_locales (rule webhook_effects)

section \<open>Properties of the webhook\<close>

text \<open>
  Only the provider moves a payout.  A webhook whose signature does not match the HMAC of the raw
  body under the shared secret is refused with 401, and so is every webhook while no secret is
  configured; no payout table changes.
\<close>

theorem unsigned_webhook_refused:
  assumes "secret = [] \<or> hex_decode (strip_scheme (str_or (wb_tembus_signature w) (str_or (wb_provider_signature w) [])))
       \<noteq> hex_decode (hmac secret (wb_raw w))"
  shows "fst (handleCourierPayoutProviderWebhook hmac secret penv aenv now req new_id w s)
         = WebhookRejected 401 ''Invalid webhook request''
     \<and> requests (snd (handleCourierPayoutProviderWebhook hmac secret penv aenv now req new_id w s)) = requests s
     \<and> ledger (snd (handleCourierPayoutProviderWebhook hmac secret penv aenv now req new_id w s)) = ledger s
     \<and> dispatches (snd (handleCourierPayoutProviderWebhook hmac secret penv aenv now req new_id w s)) = dispatches s
     \<and> webhook_events (snd (handleCourierPayoutProviderWebhook hmac secret penv aenv now req new_id w s)) = webhook_events s"
proof -
  have "\<not> verifyProviderWebhookSignature hmac (wb_raw w) (str_or (wb_tembus_signature w) (str_or (wb_provider_signature w) [])) secret"
    using assms by (auto simp: verifyProviderWebhookSignature_def Let_def)
  then show ?thesis unfolding handleCourierPayoutProviderWebhook_def Let_def by simp
qed

definition bare_webhook :: webhook_request where
  "bare_webhook = \<lparr>wb_raw = ''{}'', wb_tembus_signature = None, wb_provider_signature = None, wb_provider = None,
     wb_provider_name = None, wb_event_id = Some ''e1'', wb_id = None, wb_provider_reference = Some ''ref'',
     wb_reference = None, wb_status = Some ''paid'', wb_failure_reason = None, wb_reason = None\<rparr>"

theorem unsigned_webhook_refused_witness:
  "fst (handleCourierPayoutProviderWebhook (\<lambda>_ _. ''ab12'') ''secret'' stub_env default_alert_env 0 plain_request ''w1''
      bare_webhook processing_store) = WebhookRejected 401 ''Invalid webhook request''"
proof -
  have "hex_decode (strip_scheme (str_or (wb_tembus_signature bare_webhook) (str_or (wb_provider_signature bare_webhook) [])))
       \<noteq> hex_decode ''ab12''"
    by code_simp
  with unsigned_webhook_refused [of "''secret''" bare_webhook "\<lambda>_ _. ''ab12''" stub_env default_alert_env 0 plain_request "''w1''" processing_store]
  show ?thesis by blast
qed

text \<open>
  An event is processed once.  After an event was accepted, the same event of the same provider is
  answered as a duplicate, whatever status it carries, and leaves requests, ledger and dispatches
  as they are.
\<close>

theorem webhook_event_once:
  assumes "process_webhook aenv now req new_id provider event reference st reason s = (WebhookDone i, t)"
    and "event \<noteq> []"
  shows "process_webhook aenv' now' req' new_id' provider event reference' st' reason' t = (WebhookDuplicate, t)"
  by (cases rule: process_webhook_cases [OF assms]) (auto simp: process_webhook_def insertWebhookAuditEvent_def valid_audit_def insert_audit_again assms(2) Let_def)

lemma demo_webhook:
  "\<exists>t. process_webhook default_alert_env 0 plain_request ''w1'' ''stub'' ''e1'' ''ref'' Paid None processing_store = (WebhookDone ''p1'', t)"
proof -
  have empty: "webhook_events processing_store = []" "webhook_audits processing_store = []"
    by (simp_all add: processing_store_def review_store_def demo_store_def empty_store_def)
  obtain s2 where s2: "requests s2 = requests processing_store" "dispatches s2 = [demo_dispatch]"
    and run: "\<And>i s3. applyProviderCallback 0 (Some plain_request) ''stub'' ''ref'' Paid None s2 = Inr (i, s3) \<Longrightarrow>
      \<exists>t. process_webhook default_alert_env 0 plain_request ''w1'' ''stub'' ''e1'' ''ref'' Paid None processing_store = (WebhookDone i, t)"
  proof (rule that)
    let ?s2 = "(snd (insertWebhookAuditEvent ''w1'' ''stub'' (Some ''e1'') ''valid'' ''received'' None processing_store))
       \<lparr>webhook_events := [\<lparr>whk_provider = ''stub'', whk_event = ''e1'', whk_reference = ''ref'', whk_processed_at = None\<rparr>]\<rparr>"
    show "requests ?s2 = requests processing_store" by simp
    show "dispatches ?s2 = [demo_dispatch]" by (simp add: processing_store_def)
    fix i s3 assume "applyProviderCallback 0 (Some plain_request) ''stub'' ''ref'' Paid None ?s2 = Inr (i, s3)"
    then show "\<exists>t. process_webhook default_alert_env 0 plain_request ''w1'' ''stub'' ''e1'' ''ref'' Paid None processing_store = (WebhookDone i, t)"
      by (simp add: process_webhook_def insertWebhookAuditEvent_def insert_audit_def empty)
  qed
  have r: "find_request s2 (dis_request demo_dispatch) = Some (paid_request\<lparr>req_status := ''processing''\<rparr>)"
    using processing_request s2(1) by (simp add: find_request_def demo_dispatch_def)
  have f: "find_dispatch s2 ''stub'' ''ref'' = Some demo_dispatch"
    by (rule single_dispatch [OF s2(2)]) (use r in \<open>simp_all add: demo_dispatch_def\<close>)
  obtain s3 where "applyProviderCallback 0 (Some plain_request) ''stub'' ''ref'' Paid None s2 = Inr (dis_request demo_dispatch, s3)"
    using callback_runs [OF f r] by blast
  from run [OF this] show ?thesis by (simp add: demo_dispatch_def)
qed

theorem webhook_event_once_witness:
  "\<exists>t. process_webhook default_alert_env 0 plain_request ''w1'' ''stub'' ''e1'' ''ref'' Paid None processing_store = (WebhookDone ''p1'', t)
     \<and> process_webhook default_alert_env 5 plain_request ''w2'' ''stub'' ''e1'' ''ref'' Failed None t = (WebhookDuplicate, t)"
proof -
  obtain t where t: "process_webhook default_alert_env 0 plain_request ''w1'' ''stub'' ''e1'' ''ref'' Paid None processing_store
      = (WebhookDone ''p1'', t)" using demo_webhook by blast
  from webhook_event_once [OF t, of default_alert_env 5 plain_request "''w2''" "''ref''" Failed None] t show ?thesis by auto
qed

text \<open>
  A failed webhook leaves no trace.  When the callback of a valid event throws (for example an unknown
  reference), the audit row was inserted in the transaction that is rolled back, so the update that
  should mark it failed finds no row: the store is exactly what it was.
\<close>

theorem failed_webhook_untraced:
  assumes "process_webhook aenv now req new_id provider event reference st reason s = (WebhookRejected code m, t)"
    and "event \<noteq> []" and "\<forall>a \<in> set (webhook_audits s). wha_id a \<noteq> new_id"
  shows "t = s"
  using assms(1,2)
proof (cases rule: process_webhook_cases)
  case rejected
  have "map (\<lambda>a. if wha_id a = new_id then f a else a) (webhook_audits s) = webhook_audits s" for f
    using assms(3) by (intro map_idI) simp
  then show ?thesis using rejected by (simp add: updateWebhookAuditEvent_def update_audit_def)
qed simp_all

theorem failed_webhook_untraced_witness:
  "process_webhook default_alert_env 0 plain_request ''w1'' ''stub'' ''e1'' ''nope'' Paid None empty_store
     = (WebhookRejected 500 ''Webhook processing failed'', empty_store)"
proof -
  obtain t where t: "process_webhook default_alert_env 0 plain_request ''w1'' ''stub'' ''e1'' ''nope'' Paid None empty_store
     = (WebhookRejected 500 ''Webhook processing failed'', t)"
    by (simp add: process_webhook_def insertWebhookAuditEvent_def insert_audit_def empty_store_def applyProviderCallback_def
        find_dispatch_def first_of_def)
  have "t = empty_store" by (rule failed_webhook_untraced [OF t]) (simp_all add: empty_store_def)
  with t show ?thesis by simp
qed

end
