(* ===== verification/PayoutLifecycle.thy ===== *)
theory PayoutLifecycle
  imports PayoutWebhook
begin

text \<open>
  The payout subsystem as a state machine: one step is one handler of the previous theories run to
  its end (the mobile request, the two admin status handlers, the review, the dispatch batch, the
  poll of ambiguous dispatches, the provider webhook), or a step of the rest of the platform: an
  earnings row that belongs to no payout, or a change of the tables the payouts only read
  (configuration, accounts, disputes, profiles, audits).  Each handler is an instance of
  \<open>payout_operation\<close>, so its contract carries over to every reachable store.
\<close>

section \<open>The step relation\<close>

inductive payout_step :: "payout_store \<Rightarrow> payout_store \<Rightarrow> bool" where
  create: "find_request s new_id = None \<Longrightarrow>
    payout_step s (snd (createMobileCourierPayoutRequest bcrypt penv aenv now new_id req currency courier body s))"
| account: "payout_step s (snd (updateCourierPayoutAccountStatus now req actor i status reason s))"
| status: "payout_step s (snd (updateCourierPayoutRequestStatus aenv now req actor i status reason s))"
| review: "payout_step s (snd (reviewCourierPayoutRequestAction aenv now req actor i action reason s))"
| dispatch: "payout_step s (dispatch_store penv now hreq s)"
| poll: "payout_step s (poll_store penv now hreq s)"
| webhook: "payout_step s (snd (handleCourierPayoutProviderWebhook hmac secret penv aenv now req new_id w s))"
| earning: "led_request l = None \<Longrightarrow> payout_step s (s\<lparr>ledger := ledger s @ [l]\<rparr>)"
| platform: "requests t = requests s \<Longrightarrow> ledger t = ledger s \<Longrightarrow> dispatches t = dispatches s \<Longrightarrow> payout_step s t"

abbreviation payout_steps :: "payout_store \<Rightarrow> payout_store \<Rightarrow> bool" where
  "payout_steps \<equiv> payout_step\<^sup>*\<^sup>*"

definition reachable :: "payout_store \<Rightarrow> bool" where
  "reachable s \<longleftrightarrow> payout_steps empty_store s"

text \<open>Every step refines the abstract specification.\<close>

lemma step_effects: "payout_step s t \<Longrightarrow> payout_inv s \<Longrightarrow> effects s t"
proof (induction rule: payout_step.induct)
  case create
  then show ?case by (intro create_request.refines)
next
  case account
  then show ?case by (intro account_status.refines) simp_all
next
  case status
  then show ?case by (intro request_status.refines) simp_all
next
  case review
  then show ?case by (intro review.refines) simp_all
next
  case dispatch
  then show ?case by (intro dispatch.refines) simp_all
next
  case poll
  then show ?case by (intro poll.refines) simp_all
next
  case webhook
  then show ?case by (intro webhook.refines) simp_all
next
  case (earning l s)
  then show ?case by (blast intro: effect.earn)
next
  case (platform t s)
  then show ?case by (blast intro: effect.other)
qed

lemma steps_inv: "payout_steps s t \<Longrightarrow> payout_inv s \<Longrightarrow> payout_inv t \<and> effects s t"
  by (induction rule: rtranclp_induct) (simp, blast intro: effects_inv effects_trans dest: step_effects)

lemma reachable_inv: "reachable s \<Longrightarrow> payout_inv s"
  using steps_inv payout_inv_empty by (simp add: reachable_def)

section \<open>Properties of the life cycle\<close>

text \<open>
  C1.  The money of a payout.  In every reachable store, whatever handlers ran in whatever order, the
  ledger rows of a request sum to minus its amount while it has no reversal and to zero once it
  has one: the amount is held once, refunded at most once, and never more than was held.
\<close>

theorem payout_money_conserved:
  assumes "reachable s" and "r \<in> set (requests s)"
  shows "net_of_request s (req_id r) = (if has_reversal s (req_id r) then 0 else - req_amount r)
     \<and> 0 < req_amount r"
  using net_of_request [OF reachable_inv] payout_invD(4) [OF reachable_inv] assms by blast


text \<open>
  History is kept.  From a reachable store, every later store extends its ledger at the end, and
  still has each of its requests with the same courier, account, amount, fee, destination and key.
\<close>

theorem payout_history_kept:
  assumes "reachable s" and "payout_steps s t"
  shows "prefix (ledger s) (ledger t)
     \<and> (\<forall>r \<in> set (requests s). \<exists>r' \<in> set (requests t). same_identity r r')
     \<and> (\<forall>i. has_reversal s i \<longrightarrow> has_reversal t i)"
proof -
  have inv: "payout_inv s" by (rule reachable_inv [OF assms(1)])
  then have e: "effects s t" using steps_inv [OF assms(2)] by blast
  have p: "prefix (ledger s) (ledger t)" by (rule effects_ledger_prefix [OF e])
  have "\<exists>r' \<in> set (requests t). same_identity r r'" if "r \<in> set (requests s)" for r
    using effects_find_request [OF e find_request_inv [OF inv that]] find_request_Some by blast
  then show ?thesis using p has_reversal_prefix [OF p] by blast
qed

text \<open>
  The request table is well formed.  In every reachable store the request ids are distinct, a
  courier has one request per idempotency key, and every status is one of the declared thirteen.
\<close>

theorem payout_table_wellformed:
  assumes "reachable s"
  shows "distinct (map req_id (requests s))
     \<and> distinct (map (\<lambda>r. (req_courier r, req_key r)) (requests s))
     \<and> (\<forall>r \<in> set (requests s). req_status r \<in> set request_statuses)"
  using payout_invD(1-3) [OF reachable_inv [OF assms]] by blast

text \<open>
  C3.  Ended payouts are refunded.  In every reachable store, a request that is failed, rejected, blocked or
  cancelled has its reversal, so its rows sum to zero: no path ends a request and keeps the hold.
\<close>

theorem ended_payouts_refunded:
  assumes "reachable s" and "r \<in> set (requests s)" and "req_status r \<in> set refund_statuses"
  shows "has_reversal s (req_id r) \<and> net_of_request s (req_id r) = 0"
  using net_of_request [OF reachable_inv [OF assms(1)] assms(2)] payout_invD(10) [OF reachable_inv [OF assms(1)] assms(2,3)]
  by simp

section \<open>A run of the system\<close>

text \<open>A courier with a verified account and an earning asks for a payout.\<close>

lemma demo_reachable: "reachable demo_store"
proof -
  have "payout_step empty_store (empty_store\<lparr>accounts := [demo_account]\<rparr>)"
    by (rule payout_step.platform) simp_all
  moreover have "payout_step (empty_store\<lparr>accounts := [demo_account]\<rparr>) demo_store"
    using payout_step.earning [of demo_earning "empty_store\<lparr>accounts := [demo_account]\<rparr>"]
    by (simp add: demo_store_def demo_earning_def empty_store_def)
  ultimately show ?thesis unfolding reachable_def by (meson rtranclp.simps)
qed

definition demo_pin :: pin_env where
  "demo_pin = \<lparr>placeholder_hash = ''x'', development_pin = ''1234''\<rparr>"

definition demo_body :: payout_body where
  "demo_body = \<lparr>body_amount = Fin 50000, body_pin = ''1234'', body_key = demo_key\<rparr>"

lemma demo_run:
  obtains t r where "payout_step demo_store t" and "find_request t ''p1'' = Some r" and "req_amount r = 50000"
    and "req_status r \<in> {''approved_auto'', ''manual_review'', ''risk_hold'', ''blocked''}"
proof -
  let ?t1 = "demo_store\<lparr>requests := [new_request 0 ''p1'' ''c1'' demo_account 50000 demo_key 80000],
         ledger := [demo_earning, requested_row ''c1'' 50000 ''p1'']\<rparr>"
  have f1: "find_request ?t1 ''p1'' = Some (new_request 0 ''p1'' ''c1'' demo_account 50000 demo_key 80000)"
    by (simp add: find_request_def)
  have a1: "find_account ?t1 (req_account (new_request 0 ''p1'' ''c1'' demo_account 50000 demo_key 80000)) \<noteq> None"
    by (simp add: find_account_def demo_defs)
  obtain d s2 r where ev: "evaluateCourierPayoutRisk 0 (Some plain_request) ''p1'' ?t1 = Inr (d, s2)"
    and r: "find_request s2 ''p1'' = Some r"
      "same_identity (new_request 0 ''p1'' ''c1'' demo_account 50000 demo_key 80000) r"
      "req_status r \<in> {''approved_auto'', ''manual_review'', ''risk_hold'', ''blocked''}"
    by (rule evaluate_risk_run [OF f1 a1])
  have tx: "payout_request_transaction 0 ''p1'' plain_request ''c1'' 50000 demo_key demo_store = Inr (''p1'', s2)"
    by (simp add: payout_request_transaction_def demo_request ev)
  let ?run = "createMobileCourierPayoutRequest (\<lambda>_ _. False) demo_pin default_alert_env 0 ''p1'' plain_request None
      (Some \<lparr>cu_status = ''active'', cu_pin_hash = Some ''1234''\<rparr>) demo_body demo_store"
  have user: "user_id plain_request = Some ''c1''" by (simp add: plain_request_def)
  have "requests (snd ?run) = requests s2"
    by (simp add: createMobileCourierPayoutRequest_def tx demo_body_def isValidCourierPassword_def
        demo_pin_def user)
  then have "find_request (snd ?run) ''p1'' = Some r" using r(1) by (simp add: find_request_def)
  moreover have "payout_step demo_store (snd ?run)"
    by (rule payout_step.create) (simp add: demo_defs find_request_def)
  ultimately show ?thesis using r(2,3) by (intro that [of "snd ?run" r]) (simp_all add: same_identity_def)
qed

theorem payout_money_conserved_witness:
  "\<exists>s r. reachable s \<and> r \<in> set (requests s) \<and> req_amount r = 50000
     \<and> net_of_request s (req_id r) = (if has_reversal s (req_id r) then 0 else - 50000)"
proof -
  obtain t r where t: "payout_step demo_store t" "find_request t ''p1'' = Some r" "req_amount r = 50000"
    by (rule demo_run)
  have "reachable t"
    using demo_reachable t(1) unfolding reachable_def by (rule rtranclp.rtrancl_into_rtrancl)
  moreover have "r \<in> set (requests t)" using find_request_Some [OF t(2)] by blast
  ultimately show ?thesis using payout_money_conserved [of t r] t(3) by metis
qed


theorem payout_history_kept_witness:
  "\<exists>t r. payout_steps demo_store t \<and> find_request t ''p1'' = Some r \<and> prefix [demo_earning] (ledger t)"
proof -
  obtain t r where t: "payout_step demo_store t" "find_request t ''p1'' = Some r" by (rule demo_run)
  have "ledger demo_store = [demo_earning]" by (simp add: demo_store_def)
  moreover have "payout_steps demo_store t" using t(1) by (rule r_into_rtranclp)
  ultimately show ?thesis using payout_history_kept [OF demo_reachable] t(2) by metis
qed

theorem payout_table_wellformed_witness:
  "\<exists>t r. find_request t ''p1'' = Some r \<and> req_status r \<in> set request_statuses"
proof -
  obtain t r where t: "payout_step demo_store t" "find_request t ''p1'' = Some r" by (rule demo_run)
  have "reachable t"
    using demo_reachable t(1) unfolding reachable_def by (rule rtranclp.rtrancl_into_rtrancl)
  then show ?thesis using payout_table_wellformed [of t] find_request_Some [OF t(2)] t(2) by blast
qed

text \<open>The admin fails the request unless the risk engine has already blocked it.\<close>

lemma demo_ended:
  obtains s r where "reachable s" and "r \<in> set (requests s)" and "req_status r \<in> {''failed'', ''blocked''}"
proof -
  obtain t r where t: "payout_step demo_store t" "find_request t ''p1'' = Some r"
      "req_status r \<in> {''approved_auto'', ''manual_review'', ''risk_hold'', ''blocked''}"
    by (rule demo_run)
  have reach: "reachable t"
    using demo_reachable t(1) unfolding reachable_def by (rule rtranclp.rtrancl_into_rtrancl)
  show ?thesis
  proof (cases "req_status r = ''blocked''")
    case True
    then show ?thesis using that [OF reach, of r] find_request_Some [OF t(2)] by simp
  next
    case False
    let ?u = "snd (updateCourierPayoutRequestStatus default_alert_env 0 plain_request ''adm'' ''p1'' ''failed'' None t)"
    have "updateCourierPayoutRequestStatus default_alert_env 0 plain_request ''adm'' ''p1'' ''failed'' None t
        = commit_status default_alert_env 0 plain_request ''adm'' ''p1'' ''failed'' None r t"
      by (rule request_status_accepted [OF settable_members(4) t(2)])
        (use False t(3) in \<open>auto simp: terminalPayoutStatuses_def transition_allowed_def allowedTransitions_def\<close>)
    then obtain r' where r': "find_request ?u ''p1'' = Some r'" "req_status r' = ''failed''"
      using commit_status_run [OF t(2) settable_members(4), of default_alert_env 0 plain_request "''adm''" None]
      by (metis snd_conv)
    have "reachable ?u"
      using reach payout_step.status unfolding reachable_def by (blast intro: rtranclp.rtrancl_into_rtrancl)
    then show ?thesis using that [of ?u r'] find_request_Some [OF r'(1)] r'(2) by simp
  qed
qed

theorem ended_payouts_refunded_witness:
  "\<exists>s r. reachable s \<and> r \<in> set (requests s) \<and> req_status r \<in> {''failed'', ''blocked''}
     \<and> has_reversal s (req_id r) \<and> net_of_request s (req_id r) = 0"
proof -
  obtain s r where s: "reachable s" "r \<in> set (requests s)" "req_status r \<in> {''failed'', ''blocked''}"
    by (rule demo_ended)
  have "req_status r \<in> set refund_statuses" using s(3) by (auto simp: refund_statuses_def)
  from ended_payouts_refunded [OF s(1,2) this] s show ?thesis by blast
qed

end
