(* ===== verification/PayoutRecon.thy ===== *)
theory PayoutRecon
  imports PayoutLifecycle "HOL-Library.AList"
begin

text \<open>
  Payout reconciliation (\<open>services/payoutReconciliation.ts\<close>): the eight checks over the payout
  tables, the run that records their items with a summary, and the operations dashboard.

  Every query is the list of its rows in table order (or in its own \<open>ORDER BY\<close>), cut at 100.  The
  raw row that each item carries as \<open>details\<close> is left out.
\<close>

section \<open>The checks\<close>

datatype check_type =
    LedgerVsRequest | RequestVsProvider | PaidAmountVsLedger | UnknownProviderState
  | FailureWithoutReversal | ProviderLatencyHigh | PendingTooLong | WebhookMissing

record recon_item =
  itm_request :: uuid
  itm_courier :: uuid
  itm_check :: check_type
  itm_severity :: severity
  itm_expected :: string
  itm_actual :: string

definition recon_config :: "payout_store \<Rightarrow> string \<Rightarrow> int \<Rightarrow> int" where
  "recon_config s key fallback =
     (case map_of (configs s) key of
        None \<Rightarrow> fallback
      | Some v \<Rightarrow> (case finite_value (js_number (config_text v)) of Some x \<Rightarrow> js_trunc x | None \<Rightarrow> fallback))"

text \<open>The debits of the hold rows joined to a request (lines 59 and 130).\<close>

definition ledger_debit :: "payout_store \<Rightarrow> uuid \<Rightarrow> int" where
  "ledger_debit s i =
     sum_list (map (\<lambda>l. if led_direction l = Debit then led_amount l else 0)
       (filter (\<lambda>l. led_request l = Some i \<and> led_type l = ''payout_requested'') (ledger s)))"

text \<open>The lateral join: the newest dispatch of a request.\<close>

definition latest_dispatch :: "payout_store \<Rightarrow> uuid \<Rightarrow> dispatch_row option" where
  "latest_dispatch s i =
     first_of (sort_key (\<lambda>d. - dis_created_at d) (filter (\<lambda>d. dis_request d = i) (dispatches s)))"

definition mk_item :: "payout_request \<Rightarrow> check_type \<Rightarrow> severity \<Rightarrow> string \<Rightarrow> string \<Rightarrow> recon_item" where
  "mk_item r c sv e a =
     \<lparr>itm_request = req_id r, itm_courier = req_courier r, itm_check = c, itm_severity = sv,
      itm_expected = e, itm_actual = a\<rparr>"

definition ledger_mismatch :: "payout_store \<Rightarrow> recon_item list" where
  "ledger_mismatch s =
     map (\<lambda>r. mk_item r LedgerVsRequest Critical (show_int (req_amount r)) (show_int (ledger_debit s (req_id r))))
       (take 100 (filter (\<lambda>r. req_status r \<notin> set [''blocked'', ''rejected'', ''cancelled'']
          \<and> ledger_debit s (req_id r) \<noteq> req_amount r) (requests s)))"

definition paid_mismatch :: "payout_store \<Rightarrow> recon_item list" where
  "paid_mismatch s =
     map (\<lambda>r. mk_item r PaidAmountVsLedger Critical (show_int (req_amount r)) (show_int (ledger_debit s (req_id r))))
       (take 100 (filter (\<lambda>r. req_status r = ''paid'' \<and> ledger_debit s (req_id r) \<noteq> req_amount r) (requests s)))"

definition provider_disagrees :: "provider_status \<Rightarrow> string \<Rightarrow> bool" where
  "provider_disagrees p st \<longleftrightarrow>
     (p = Paid \<and> st \<noteq> ''paid'') \<or> (p = Failed \<and> st \<noteq> ''failed'')
     \<or> (p = Processing \<and> st \<notin> set [''processing'', ''paid'', ''failed''])"

definition provider_mismatch :: "payout_store \<Rightarrow> recon_item list" where
  "provider_mismatch s =
     map (\<lambda>r. mk_item r RequestVsProvider Critical
           (case latest_dispatch s (req_id r) of Some d \<Rightarrow> provider_status_text (dis_status d) | None \<Rightarrow> [])
           (req_status r))
       (take 100 (filter (\<lambda>r. case latest_dispatch s (req_id r) of None \<Rightarrow> False
          | Some d \<Rightarrow> provider_disagrees (dis_status d) (req_status r)) (requests s)))"

definition unknown_state :: "payout_store \<Rightarrow> recon_item list" where
  "unknown_state s =
     map (\<lambda>r. mk_item r UnknownProviderState Critical ''paid atau failed dari provider'' ''unknown'')
       (take 100 (filter (\<lambda>r. case latest_dispatch s (req_id r) of None \<Rightarrow> False
          | Some d \<Rightarrow> dis_status d = Unknown) (requests s)))"

definition failure_without_reversal :: "payout_store \<Rightarrow> recon_item list" where
  "failure_without_reversal s =
     map (\<lambda>r. mk_item r FailureWithoutReversal Critical ''satu reversal payout_failed'' ''reversal tidak ditemukan'')
       (take 100 (filter (\<lambda>r. req_status r = ''failed''
          \<and> \<not> list_ex (\<lambda>l. led_request l = Some (req_id r) \<and> led_type l = ''payout_failed''
               \<and> led_direction l = Credit) (ledger s)) (requests s)))"

definition age_text :: "instant \<Rightarrow> instant \<Rightarrow> string" where
  "age_text now t = show_int (js_round (of_int (now - t) / 60000)) @ '' minutes''"

text \<open>The stale dispatches with their request (an inner join), oldest first.\<close>

definition stale_pairs ::
  "instant \<Rightarrow> int \<Rightarrow> (dispatch_row \<Rightarrow> bool) \<Rightarrow> payout_store \<Rightarrow> (dispatch_row \<times> payout_request) list" where
  "stale_pairs now minutes P s =
     take 100 (sort_key (\<lambda>(d, r). dis_dispatched_at d)
       (concat (map (\<lambda>d. case find_request s (dis_request d) of None \<Rightarrow> [] | Some r \<Rightarrow> [(d, r)])
         (filter (\<lambda>d. dis_status d \<in> {Processing, Unknown} \<and> dis_dispatched_at d < now - minutes * minute_ms \<and> P d)
           (dispatches s)))))"

definition provider_latency :: "instant \<Rightarrow> int \<Rightarrow> payout_store \<Rightarrow> recon_item list" where
  "provider_latency now minutes s =
     map (\<lambda>(d, r). mk_item r ProviderLatencyHigh Warning (''<='' @ show_int minutes @ '' minutes'')
            (age_text now (dis_dispatched_at d)))
       (stale_pairs now minutes (\<lambda>_. True) s)"

definition pending_too_long :: "instant \<Rightarrow> int \<Rightarrow> payout_store \<Rightarrow> recon_item list" where
  "pending_too_long now minutes s =
     map (\<lambda>r. mk_item r PendingTooLong Warning (''<='' @ show_int minutes @ '' minutes'') (age_text now (req_requested_at r)))
       (take 100 (sort_key req_requested_at
         (filter (\<lambda>r. req_status r \<in> set [''requested'', ''risk_screening'', ''approved_auto'', ''approved'', ''processing'']
            \<and> req_requested_at r < now - minutes * minute_ms) (requests s))))"

definition webhook_missing :: "instant \<Rightarrow> int \<Rightarrow> payout_store \<Rightarrow> recon_item list" where
  "webhook_missing now minutes s =
     map (\<lambda>(d, r). mk_item r WebhookMissing Warning (''webhook within '' @ show_int minutes @ '' minutes'') ''missing'')
       (stale_pairs now minutes (\<lambda>d. \<not> has_webhook s d) s)"

definition buildPayoutReconciliationItems :: "instant \<Rightarrow> payout_store \<Rightarrow> recon_item list" where
  "buildPayoutReconciliationItems now s =
     (let latencyMinutes = recon_config s ''payout_provider_latency_alert_minutes'' 30;
          pendingMinutes = recon_config s ''payout_pending_too_long_minutes'' 60;
          webhookMinutes = recon_config s ''payout_webhook_missing_minutes'' 20
      in ledger_mismatch s @ provider_mismatch s @ paid_mismatch s @ unknown_state s
         @ failure_without_reversal s @ provider_latency now latencyMinutes s
         @ pending_too_long now pendingMinutes s @ webhook_missing now webhookMinutes s)"

section \<open>The run\<close>

record recon_run =
  run_id :: uuid
  run_created_by :: "uuid option"
  run_total :: nat
  run_mismatches :: nat
  run_alerts :: nat
  run_by_check :: "(check_type \<times> nat) list"
  run_by_severity :: "(severity \<times> nat) list"

record recon_tables =
  recon_runs :: "recon_run list"
  recon_items :: "(uuid \<times> recon_item) list"

text \<open>\<open>reduce\<close> with \<open>acc[k] = (acc[k] || 0) + 1\<close>: keys in order of first occurrence.\<close>

definition count_by :: "('a \<Rightarrow> 'k) \<Rightarrow> 'a list \<Rightarrow> ('k \<times> nat) list" where
  "count_by f xs =
     foldl (\<lambda>acc x. AList.update (f x) ((case map_of acc (f x) of None \<Rightarrow> 0 | Some n \<Rightarrow> n) + 1) acc) [] xs"

definition mismatch_checks :: "check_type list" where
  "mismatch_checks =
     [LedgerVsRequest, RequestVsProvider, PaidAmountVsLedger, UnknownProviderState, FailureWithoutReversal]"

definition alert_checks :: "check_type list" where
  "alert_checks = [ProviderLatencyHigh, PendingTooLong, WebhookMissing]"

definition recon_summary :: "uuid \<Rightarrow> uuid option \<Rightarrow> recon_item list \<Rightarrow> recon_run" where
  "recon_summary new_id creator items =
     \<lparr>run_id = new_id, run_created_by = creator, run_total = length items,
      run_mismatches = length (filter (\<lambda>i. itm_check i \<in> set mismatch_checks) items),
      run_alerts = length (filter (\<lambda>i. itm_check i \<in> set alert_checks) items),
      run_by_check = count_by itm_check items, run_by_severity = count_by itm_severity items\<rparr>"

definition runPayoutReconciliation ::
  "instant \<Rightarrow> http_request option \<Rightarrow> uuid \<Rightarrow> recon_tables \<Rightarrow> payout_store
   \<Rightarrow> (recon_run \<times> recon_item list) \<times> recon_tables \<times> payout_store" where
  "runPayoutReconciliation now req new_id tables s =
     (let items = buildPayoutReconciliationItems now s;
          run = recon_summary new_id (case req of None \<Rightarrow> None | Some r \<Rightarrow> user_id r) items;
          sev = (if list_ex (\<lambda>i. itm_severity i = Critical) items then Critical
                 else if items \<noteq> [] then Warning else Info)
      in ((run, items),
          \<lparr>recon_runs = recon_runs tables @ [run],
           recon_items = recon_items tables @ map (\<lambda>i. (new_id, i)) items\<rparr>,
          writePayoutAuditEvent now req ''payout_reconciliation_run'' sev None None None None None s))"

section \<open>The operations dashboard\<close>

record status_counts =
  cnt_auto_approved :: int
  cnt_manual_review :: int
  cnt_blocked :: int
  cnt_failed :: int
  cnt_processing :: int

record failed_monitor =
  mon_failed_hour :: int
  mon_failed_day :: int
  mon_stale_processing :: int

record ops_dashboard =
  dash_counts :: status_counts
  dash_reasons :: "(string \<times> nat) list"
  dash_failed :: failed_monitor
  dash_latest :: "(recon_run \<times> recon_item list) option"
  dash_alerts :: "audit_row list"

definition day_ms :: int where "day_ms = 86400000"

definition week_counts :: "instant \<Rightarrow> payout_store \<Rightarrow> status_counts" where
  "week_counts now s =
     (let rs = filter (\<lambda>r. req_requested_at r \<ge> now - 7 * day_ms) (requests s);
          n = (\<lambda>sts. count_if (\<lambda>r. req_status r \<in> set sts) rs)
      in \<lparr>cnt_auto_approved = n [''approved_auto''],
          cnt_manual_review = n [''risk_hold'', ''manual_review'', ''under_review''],
          cnt_blocked = n [''blocked''], cnt_failed = n [''failed''], cnt_processing = n [''processing'']\<rparr>)"

text \<open>\<open>ORDER BY count DESC LIMIT 8\<close>; reasons with equal counts keep the order of first occurrence.\<close>

definition reason_breakdown :: "instant \<Rightarrow> payout_store \<Rightarrow> (string \<times> nat) list" where
  "reason_breakdown now s =
     take 8 (sort_key (\<lambda>(_, n). - int n)
       (count_by id (concat (map dec_reasons (filter (\<lambda>d. dec_at d \<ge> now - 7 * day_ms) (decisions s))))))"

definition failure_monitor :: "instant \<Rightarrow> payout_store \<Rightarrow> failed_monitor" where
  "failure_monitor now s =
     \<lparr>mon_failed_hour = count_if (\<lambda>r. req_status r = ''failed'' \<and> req_updated_at r \<ge> now - hour_ms) (requests s),
      mon_failed_day = count_if (\<lambda>r. req_status r = ''failed'' \<and> req_updated_at r \<ge> now - 24 * hour_ms) (requests s),
      mon_stale_processing = count_if (\<lambda>r. req_status r = ''processing''
         \<and> (case req_processed_at r of None \<Rightarrow> False | Some t \<Rightarrow> t < now - 30 * minute_ms)) (requests s)\<rparr>"

text \<open>The latest run is the last one recorded, with its items.\<close>

definition getPayoutOpsDashboard :: "instant \<Rightarrow> recon_tables \<Rightarrow> payout_store \<Rightarrow> ops_dashboard" where
  "getPayoutOpsDashboard now tables s =
     \<lparr>dash_counts = week_counts now s, dash_reasons = reason_breakdown now s,
      dash_failed = failure_monitor now s,
      dash_latest = (case rev (recon_runs tables) of [] \<Rightarrow> None
         | run # _ \<Rightarrow> Some (run, map snd (filter (\<lambda>(i, _). i = run_id run) (recon_items tables)))),
      dash_alerts = take 10 (sort_key (\<lambda>a. - aud_at a)
         (filter (\<lambda>a. aud_event a \<in> set [''observability_alert'', ''saldo_mismatch_detected'',
            ''payout_reconciliation_run'']) (audits s)))\<rparr>"

section \<open>Lemmas\<close>

lemma ledger_debit_rows:
  "ledger_debit s i = sum_list (map (\<lambda>l. if led_direction l = Debit then led_amount l else 0)
     (filter (\<lambda>l. led_type l = ''payout_requested'') (rows_of s i)))"
  by (simp add: ledger_debit_def rows_of_def filter_filter conj_commute)

lemma ledger_debit_inv: "payout_inv s \<Longrightarrow> r \<in> set (requests s) \<Longrightarrow> ledger_debit s (req_id r) = req_amount r"
  using money_ok_reversal [OF payout_invD(5)]
  by (simp add: ledger_debit_rows requested_row_def reversal_row_def)

lemma refund_row_credit:
  assumes "payout_inv s" and "r \<in> set (requests s)" and "has_reversal s (req_id r)"
  shows "list_ex (\<lambda>l. led_request l = Some (req_id r) \<and> led_type l = ''payout_failed'' \<and> led_direction l = Credit) (ledger s)"
proof -
  have "reversal_row (req_courier r) (req_amount r) (req_id r) \<in> set (rows_of s (req_id r))"
    using money_ok_reversal [OF payout_invD(5) [OF assms(1,2)]] assms(3) by simp
  then show ?thesis unfolding list_ex_iff rows_of_def by (rule_tac bexI) (auto simp: reversal_row_def)
qed

lemma mk_item_fields [simp]:
  "itm_request (mk_item r c sv e a) = req_id r" "itm_check (mk_item r c sv e a) = c"
  "itm_severity (mk_item r c sv e a) = sv"
  by (simp_all add: mk_item_def)

lemma check_kinds:
  "x \<in> set (ledger_mismatch s) \<Longrightarrow> itm_check x = LedgerVsRequest"
  "x \<in> set (provider_mismatch s) \<Longrightarrow> itm_check x = RequestVsProvider"
  "x \<in> set (paid_mismatch s) \<Longrightarrow> itm_check x = PaidAmountVsLedger"
  "x \<in> set (unknown_state s) \<Longrightarrow> itm_check x = UnknownProviderState"
  "x \<in> set (failure_without_reversal s) \<Longrightarrow> itm_check x = FailureWithoutReversal"
  unfolding ledger_mismatch_def provider_mismatch_def paid_mismatch_def unknown_state_def
    failure_without_reversal_def set_map by (elim imageE; simp)+

lemma alert_kinds:
  "x \<in> set (provider_latency now n s) \<union> set (pending_too_long now n s) \<union> set (webhook_missing now n s) \<Longrightarrow>
   itm_severity x = Warning \<and> itm_check x \<in> set alert_checks"
  unfolding provider_latency_def pending_too_long_def webhook_missing_def set_map alert_checks_def
  by (elim UnE imageE; clarsimp split: prod.splits)

lemma build_checks:
  assumes "x \<in> set (buildPayoutReconciliationItems now s)"
  shows "x \<in> set (ledger_mismatch s) \<and> itm_check x = LedgerVsRequest
       \<or> x \<in> set (provider_mismatch s) \<and> itm_check x = RequestVsProvider
       \<or> x \<in> set (paid_mismatch s) \<and> itm_check x = PaidAmountVsLedger
       \<or> x \<in> set (unknown_state s) \<and> itm_check x = UnknownProviderState
       \<or> x \<in> set (failure_without_reversal s) \<and> itm_check x = FailureWithoutReversal
       \<or> itm_severity x = Warning \<and> itm_check x \<in> set alert_checks"
  using assms check_kinds alert_kinds
  unfolding buildPayoutReconciliationItems_def Let_def set_append Un_iff by blast

text \<open>
  The books balance.  In every store the payout handlers can reach, reconciliation reports no
  difference between a request and its hold in the ledger, none between a paid amount and the
  ledger, and no failed payout without its reversal: an item of these kinds means that something
  outside the handlers has written to the tables.
\<close>

theorem reachable_books_balance:
  assumes "reachable s"
  shows "filter (\<lambda>x. itm_check x \<in> {LedgerVsRequest, PaidAmountVsLedger, FailureWithoutReversal})
           (buildPayoutReconciliationItems now s) = []"
proof -
  have inv: "payout_inv s" by (rule reachable_inv [OF assms(1)])
  have "ledger_mismatch s = []" and "paid_mismatch s = []"
    using ledger_debit_inv [OF inv] by (auto simp: ledger_mismatch_def paid_mismatch_def filter_empty_conv)
  moreover have "failure_without_reversal s = []"
    using refund_row_credit [OF inv] payout_invD(10) [OF inv]
    by (force simp: failure_without_reversal_def filter_empty_conv refund_statuses_def)
  ultimately show ?thesis
    using build_checks [of _ now s] by (fastforce simp: filter_empty_conv alert_checks_def)
qed

theorem reachable_books_balance_witness:
  "\<exists>s r. reachable s \<and> find_request s ''p1'' = Some r
     \<and> filter (\<lambda>x. itm_check x \<in> {LedgerVsRequest, PaidAmountVsLedger, FailureWithoutReversal})
           (buildPayoutReconciliationItems 99999999 s) = []"
proof -
  obtain t r where t: "payout_step demo_store t" "find_request t ''p1'' = Some r" by (rule demo_run)
  have "reachable t"
    using demo_reachable t(1) unfolding reachable_def by (rule rtranclp.rtrancl_into_rtrancl)
  with reachable_books_balance [OF this, of 99999999] t(2) show ?thesis by blast
qed

text \<open>Every item of a run is counted once, as a mismatch or as an alert.\<close>

lemma check_partition: "c \<in> set mismatch_checks \<longleftrightarrow> c \<notin> set alert_checks"
  by (cases c) (simp_all add: mismatch_checks_def alert_checks_def)

lemma recon_summary_total:
  "run_mismatches (recon_summary i c items) + run_alerts (recon_summary i c items) = run_total (recon_summary i c items)"
  using sum_length_filter_compl [of "\<lambda>i. itm_check i \<in> set mismatch_checks" items]
  by (simp add: recon_summary_def check_partition)

text \<open>
  A refunded payment is not seen.  For a request that is paid and whose newest dispatch is paid,
  reconciliation raises no critical item, whether or not a reversal has given its amount back: the
  checks add up the hold rows only.  The witness is a store with such a reversal.
\<close>

theorem refunded_payment_not_reported:
  assumes "payout_inv s" and "r \<in> set (requests s)" and "req_status r = ''paid''"
    and "latest_dispatch s (req_id r) = Some d" and "dis_status d = Paid"
  shows "filter (\<lambda>x. itm_request x = req_id r \<and> itm_severity x = Critical) (buildPayoutReconciliationItems now s) = []"
proof -
  have own: "q = r" if "q \<in> set (requests s)" "req_id q = req_id r" for q
    using find_request_inv [OF assms(1)] assms(2) that by (metis option.inject)
  note debit = ledger_debit_inv [OF assms(1,2)]
  have "itm_request x \<noteq> req_id r \<or> itm_severity x = Warning"
    if x: "x \<in> set (buildPayoutReconciliationItems now s)" for x
    using build_checks [OF x]
  proof (elim disjE conjE)
    assume "x \<in> set (ledger_mismatch s)"
    then show ?thesis using debit by (auto simp: ledger_mismatch_def dest!: in_set_takeD dest: own)
  next
    assume "x \<in> set (provider_mismatch s)"
    then show ?thesis using assms(3-5)
      by (auto simp: provider_mismatch_def provider_disagrees_def dest!: in_set_takeD dest: own)
  next
    assume "x \<in> set (paid_mismatch s)"
    then show ?thesis using debit by (auto simp: paid_mismatch_def dest!: in_set_takeD dest: own)
  next
    assume "x \<in> set (unknown_state s)"
    then show ?thesis using assms(3-5) by (auto simp: unknown_state_def dest!: in_set_takeD dest: own)
  next
    assume "x \<in> set (failure_without_reversal s)"
    then obtain q where "q \<in> set (requests s)" "req_status q = ''failed''" "itm_request x = req_id q"
      by (auto simp: failure_without_reversal_def dest!: in_set_takeD)
    then show ?thesis using own [of q] assms(3) by auto
  qed simp
  then show ?thesis by (force simp: filter_empty_conv)
qed

definition refunded_paid_store :: payout_store where
  "refunded_paid_store = (review_store ''paid'')\<lparr>
     ledger := [demo_earning, requested_row ''c1'' 50000 ''p1'', reversal_row ''c1'' 50000 ''p1''],
     dispatches := [demo_dispatch\<lparr>dis_status := Paid\<rparr>]\<rparr>"

theorem refunded_payment_not_reported_witness:
  "has_reversal refunded_paid_store ''p1''
   \<and> filter (\<lambda>x. itm_request x = req_id (paid_request\<lparr>req_status := ''paid''\<rparr>) \<and> itm_severity x = Critical)
       (buildPayoutReconciliationItems 7 refunded_paid_store) = []"
proof
  show "has_reversal refunded_paid_store ''p1''"
    by (simp add: refunded_paid_store_def has_reversal_def reversal_row_def)
  show "filter (\<lambda>x. itm_request x = req_id (paid_request\<lparr>req_status := ''paid''\<rparr>) \<and> itm_severity x = Critical)
       (buildPayoutReconciliationItems 7 refunded_paid_store) = []"
  proof (rule refunded_payment_not_reported [where d = "demo_dispatch\<lparr>dis_status := Paid\<rparr>"])
    show "payout_inv refunded_paid_store"
      by (simp add: payout_inv_def refund_statuses_def money_ok_def rows_of_def refunded_paid_store_def
          review_store_def demo_store_def empty_store_def request_statuses_def paid_request_def
          demo_earning_def requested_row_def reversal_row_def find_request_def demo_dispatch_def)
  qed (simp_all add: refunded_paid_store_def review_store_def latest_dispatch_def first_of_def
        demo_dispatch_def paid_request_def)
qed

end
