(* ===== verification/Resilience.thy ===== *)
theory Resilience
  imports Prelude
begin

text \<open>
  The resilience library of the admin service (\<open>lib/resilience/circuitBreaker.ts\<close>,
  \<open>bulkhead.ts\<close>, \<open>retry.ts\<close>): a circuit breaker per key, a bulkhead of slots per key, and a
  retry loop with exponential backoff.

  \<open>Date.now()\<close> is an argument.  The wrapped function is its result: \<open>Inl\<close> a thrown error, \<open>Inr\<close> a
  value.  Options are integers (for the retry delays, rationals) and an absent option takes its default.
\<close>

section \<open>The circuit breaker\<close>

datatype circuit_state = Closed | Open | HalfOpen

record breaker_options =
  failureThreshold :: int
  successThreshold :: int
  resetTimeoutMs :: int

definition DEFAULT_BREAKER_OPTIONS :: breaker_options where
  "DEFAULT_BREAKER_OPTIONS = \<lparr>failureThreshold = 5, successThreshold = 2, resetTimeoutMs = 30000\<rparr>"

record breaker =
  br_options :: breaker_options
  br_state :: circuit_state
  br_failures :: int
  br_successes :: int
  br_opened_at :: instant

definition new_breaker :: "breaker_options \<Rightarrow> breaker" where
  "new_breaker opts = \<lparr>br_options = opts, br_state = Closed, br_failures = 0, br_successes = 0, br_opened_at = 0\<rparr>"

definition refreshHalfOpen :: "instant \<Rightarrow> breaker \<Rightarrow> breaker" where
  "refreshHalfOpen now b =
     (if br_state b = Open \<and> now - br_opened_at b \<ge> resetTimeoutMs (br_options b)
      then b\<lparr>br_state := HalfOpen, br_successes := 0\<rparr> else b)"

definition trip :: "instant \<Rightarrow> breaker \<Rightarrow> breaker" where
  "trip now b = b\<lparr>br_state := Open, br_opened_at := now, br_successes := 0\<rparr>"

definition getState :: "instant \<Rightarrow> breaker \<Rightarrow> circuit_state \<times> breaker" where
  "getState now b = (let b' = refreshHalfOpen now b in (br_state b', b'))"

text \<open>\<open>allow\<close>: whether the call may go ahead (\<open>False\<close> is the thrown \<open>CircuitOpenError\<close>).\<close>

definition allow :: "instant \<Rightarrow> breaker \<Rightarrow> bool \<times> breaker" where
  "allow now b = (let b' = refreshHalfOpen now b in (br_state b' \<noteq> Open, b'))"

definition recordSuccess :: "breaker \<Rightarrow> breaker" where
  "recordSuccess b =
     (if br_state b = HalfOpen then
        (if br_successes b + 1 \<ge> successThreshold (br_options b)
         then b\<lparr>br_state := Closed, br_failures := 0, br_successes := 0\<rparr>
         else b\<lparr>br_successes := br_successes b + 1\<rparr>)
      else if br_state b = Closed then b\<lparr>br_failures := 0\<rparr>
      else b)"

definition recordFailure :: "instant \<Rightarrow> breaker \<Rightarrow> breaker" where
  "recordFailure now b =
     (if br_state b = HalfOpen then trip now b
      else if br_state b = Closed then
        (if br_failures b + 1 \<ge> failureThreshold (br_options b)
         then trip now (b\<lparr>br_failures := br_failures b + 1\<rparr>)
         else b\<lparr>br_failures := br_failures b + 1\<rparr>)
      else b)"

text \<open>The registry of breakers: the first caller of a key fixes its options.\<close>

type_synonym breakers = "string \<Rightarrow> breaker option"

record partial_options =
  opt_failureThreshold :: "int option"
  opt_successThreshold :: "int option"
  opt_resetTimeoutMs :: "int option"

definition merge_options :: "partial_options option \<Rightarrow> breaker_options" where
  "merge_options o1 =
     (let d = DEFAULT_BREAKER_OPTIONS;
          pick = (\<lambda>v x. case v of None \<Rightarrow> x | Some y \<Rightarrow> y)
      in case o1 of None \<Rightarrow> d
         | Some p \<Rightarrow> \<lparr>failureThreshold = pick (opt_failureThreshold p) (failureThreshold d),
                     successThreshold = pick (opt_successThreshold p) (successThreshold d),
                     resetTimeoutMs = pick (opt_resetTimeoutMs p) (resetTimeoutMs d)\<rparr>)"

definition getCircuitBreaker :: "string \<Rightarrow> partial_options option \<Rightarrow> breakers \<Rightarrow> breaker \<times> breakers" where
  "getCircuitBreaker key options bs =
     (case bs key of
        Some b \<Rightarrow> (b, bs)
      | None \<Rightarrow> (let b = new_breaker (merge_options options) in (b, bs(key \<mapsto> b))))"

text \<open>
  \<open>withCircuitBreaker\<close> with no other call of the same key in between: started at \<open>t0\<close>, the function
  settles at \<open>t1\<close>.  \<open>Inl None\<close> is the \<open>CircuitOpenError\<close>, \<open>Inl (Some e)\<close> the function's own error.
\<close>

definition withCircuitBreaker ::
  "string \<Rightarrow> partial_options option \<Rightarrow> instant \<Rightarrow> instant \<Rightarrow> 'e + 'a \<Rightarrow> breakers \<Rightarrow> ('e option + 'a) \<times> breakers" where
  "withCircuitBreaker key options t0 t1 fn bs =
     (case getCircuitBreaker key options bs of
        (b, bs1) \<Rightarrow>
          (case allow t0 b of
             (ok, b1) \<Rightarrow>
               if \<not> ok then (Inl None, bs1(key \<mapsto> b1))
               else (case fn of
                       Inr v \<Rightarrow> (Inr v, bs1(key \<mapsto> recordSuccess b1))
                     | Inl e \<Rightarrow> (Inl (Some e), bs1(key \<mapsto> recordFailure t1 b1)))))"

text \<open>
  Calls of one key may overlap: what the breaker sees is a sequence of events.  A time that passes
  \<open>allow\<close> is the start of a call; the others are its settlement.
\<close>

datatype breaker_event = Start instant | Succeed | Fail instant

primrec breaker_step :: "breaker_event \<Rightarrow> breaker \<Rightarrow> breaker" where
  "breaker_step (Start now) b = snd (allow now b)"
| "breaker_step Succeed b = recordSuccess b"
| "breaker_step (Fail now) b = recordFailure now b"

definition breaker_run :: "breaker_event list \<Rightarrow> breaker \<Rightarrow> breaker" where
  "breaker_run es b = foldl (\<lambda>b e. breaker_step e b) b es"

section \<open>The invariant of the breaker\<close>

text \<open>
  For positive thresholds: the counters are never negative, a closed breaker is below the failure
  threshold, and a half-open one below the success threshold.
\<close>

definition breaker_inv :: "breaker \<Rightarrow> bool" where
  "breaker_inv b \<longleftrightarrow>
     0 \<le> br_failures b \<and> 0 \<le> br_successes b
     \<and> (br_state b = Closed \<longrightarrow> br_failures b < failureThreshold (br_options b) \<and> br_successes b = 0)
     \<and> (br_state b = HalfOpen \<longrightarrow> br_successes b < successThreshold (br_options b))"

lemmas breaker_defs = refreshHalfOpen_def trip_def allow_def recordSuccess_def recordFailure_def Let_def

lemma breaker_step_options [simp]: "br_options (breaker_step e b) = br_options b"
  by (cases e) (simp_all add: breaker_defs)

lemma breaker_run_options [simp]: "br_options (breaker_run es b) = br_options b"
  unfolding breaker_run_def by (induction es arbitrary: b) simp_all

lemma breaker_step_inv:
  assumes "breaker_inv b" and "0 < successThreshold (br_options b)" "0 < failureThreshold (br_options b)"
  shows "breaker_inv (breaker_step e b)"
  using assms by (cases e; cases "br_state b") (auto simp: breaker_inv_def breaker_defs)

lemma breaker_run_inv:
  assumes "breaker_inv b" and "0 < successThreshold (br_options b)" "0 < failureThreshold (br_options b)"
  shows "breaker_inv (breaker_run es b)"
  using assms unfolding breaker_run_def
  by (induction es arbitrary: b) (simp_all add: breaker_step_inv)

text \<open>
  The circuit breaker as a state machine.  After any sequence of starts, successes and failures
  of overlapping calls, a closed breaker has seen fewer failures in a row than the threshold, a
  half-open one fewer successes than it needs, and no counter is negative.
\<close>

theorem breaker_invariant:
  assumes "0 < failureThreshold opts" and "0 < successThreshold opts"
  shows "breaker_inv (breaker_run es (new_breaker opts))"
  using assms by (intro breaker_run_inv) (simp_all add: breaker_inv_def new_breaker_def)

theorem breaker_invariant_witness:
  "breaker_inv (breaker_run [Start 1, Fail 2, Start 3, Succeed] (new_breaker DEFAULT_BREAKER_OPTIONS))"
  by (rule breaker_invariant) (simp_all add: DEFAULT_BREAKER_OPTIONS_def)

text \<open>Failures in a row, from a closed breaker with \<open>n\<close> of them recorded.\<close>

lemma failures_below:
  assumes "br_state b = Closed" and "br_failures b + int (length ts) < failureThreshold (br_options b)"
  shows "breaker_run (map Fail ts) b = b\<lparr>br_failures := br_failures b + int (length ts)\<rparr>"
  using assms
proof (induction ts arbitrary: b)
  case (Cons t ts)
  then have "breaker_step (Fail t) b = b\<lparr>br_failures := br_failures b + 1\<rparr>"
    by (simp add: breaker_defs)
  then show ?case using Cons by (simp add: breaker_run_def algebra_simps)
qed (simp add: breaker_run_def)

lemma failures_when_open: "br_state b = Open \<Longrightarrow> breaker_run (map Fail ts) b = b"
  unfolding breaker_run_def by (induction ts) (simp_all add: breaker_defs)

lemma breaker_run_append: "breaker_run (es @ fs) b = breaker_run fs (breaker_run es b)"
  by (simp add: breaker_run_def)

text \<open>
  The breaker opens on the threshold.  Failures in a row on a new breaker leave it closed while
  there are fewer than the threshold; from the threshold on it is open, since the time of exactly
  that failure, and until the reset time has passed every further call is refused without running
  the wrapped function.
\<close>

theorem breaker_opens_on_threshold:
  fixes ts :: "instant list" and fn :: "'e + 'a"
  assumes "0 < failureThreshold opts"
  defines "b \<equiv> breaker_run (map Fail ts) (new_breaker opts)"
  shows "(int (length ts) < failureThreshold opts \<longrightarrow> br_state b = Closed)
     \<and> (failureThreshold opts \<le> int (length ts) \<longrightarrow>
          br_state b = Open \<and> br_opened_at b = ts ! nat (failureThreshold opts - 1)
          \<and> (\<forall>bs options t0 t1. bs key = Some b \<longrightarrow> t0 < br_opened_at b + resetTimeoutMs opts \<longrightarrow>
               withCircuitBreaker key options t0 t1 fn bs = (Inl None, bs)))"
proof -
  let ?n = "nat (failureThreshold opts - 1)"
  have new: "br_state (new_breaker opts) = Closed" "br_failures (new_breaker opts) = 0"
    "br_options (new_breaker opts) = opts" by (simp_all add: new_breaker_def)
  have below: "br_state b = Closed" if "int (length ts) < failureThreshold opts"
    using failures_below [of "new_breaker opts" ts] that new by (simp add: b_def)
  have above: "br_state b = Open \<and> br_opened_at b = ts ! ?n" if le: "failureThreshold opts \<le> int (length ts)"
  proof -
    have n: "?n < length ts" using le assms(1) by simp
    let ?b1 = "(new_breaker opts)\<lparr>br_failures := failureThreshold opts - 1\<rparr>"
    have "breaker_run (map Fail (take ?n ts)) (new_breaker opts) = ?b1"
      using failures_below [of "new_breaker opts" "take ?n ts"] n assms(1) new by (simp add: min_def)
    moreover have "breaker_run (map Fail (drop ?n ts)) ?b1 = trip (ts ! ?n) (?b1\<lparr>br_failures := failureThreshold opts\<rparr>)"
    proof -
      have "drop ?n ts = ts ! ?n # drop (Suc ?n) ts" using n by (simp add: Cons_nth_drop_Suc)
      moreover have "breaker_step (Fail (ts ! ?n)) ?b1 = trip (ts ! ?n) (?b1\<lparr>br_failures := failureThreshold opts\<rparr>)"
        by (simp add: recordFailure_def new_breaker_def)
      moreover have "br_state (trip (ts ! ?n) (?b1\<lparr>br_failures := failureThreshold opts\<rparr>)) = Open"
        by (simp add: trip_def)
      ultimately show ?thesis using failures_when_open by (simp add: breaker_run_def)
    qed
    moreover have "map Fail ts = map Fail (take ?n ts) @ map Fail (drop ?n ts)"
      by (metis append_take_drop_id map_append)
    ultimately have "b = trip (ts ! ?n) (?b1\<lparr>br_failures := failureThreshold opts\<rparr>)"
      using breaker_run_append unfolding b_def by metis
    then show ?thesis by (simp add: trip_def)
  qed
  have "withCircuitBreaker key options t0 t1 fn bs = (Inl None, bs)"
    if "failureThreshold opts \<le> int (length ts)" "bs key = Some b" "t0 < br_opened_at b + resetTimeoutMs opts"
    for bs options t0 t1
  proof -
    have "br_options b = opts" using new by (simp add: b_def)
    then have "allow t0 b = (False, b)" using above [OF that(1)] that(3) by (simp add: allow_def refreshHalfOpen_def)
    then show ?thesis using that(2) by (simp add: withCircuitBreaker_def getCircuitBreaker_def fun_upd_idem)
  qed
  then show ?thesis using below above by blast
qed

theorem breaker_opens_on_threshold_witness:
  "br_state (breaker_run (map Fail [1, 2, 3, 4, 5, 6]) (new_breaker DEFAULT_BREAKER_OPTIONS)) = Open
   \<and> br_opened_at (breaker_run (map Fail [1, 2, 3, 4, 5, 6]) (new_breaker DEFAULT_BREAKER_OPTIONS)) = 5"
proof -
  have f: "failureThreshold DEFAULT_BREAKER_OPTIONS = 5" by (simp add: DEFAULT_BREAKER_OPTIONS_def)
  have "0 < failureThreshold DEFAULT_BREAKER_OPTIONS"
    and "failureThreshold DEFAULT_BREAKER_OPTIONS \<le> int (length [1, 2, 3, 4, 5, 6 :: instant])" by (simp_all add: f)
  then have "br_state (breaker_run (map Fail [1, 2, 3, 4, 5, 6]) (new_breaker DEFAULT_BREAKER_OPTIONS)) = Open
      \<and> br_opened_at (breaker_run (map Fail [1, 2, 3, 4, 5, 6]) (new_breaker DEFAULT_BREAKER_OPTIONS))
        = [1, 2, 3, 4, 5, 6] ! nat (failureThreshold DEFAULT_BREAKER_OPTIONS - 1)"
    using breaker_opens_on_threshold [of DEFAULT_BREAKER_OPTIONS "[1, 2, 3, 4, 5, 6]" "''k''" "Inr ()"] by blast
  moreover have "[1, 2, 3, 4, 5, 6 :: instant] ! nat (failureThreshold DEFAULT_BREAKER_OPTIONS - 1) = 5"
    by (simp add: f)
  ultimately show ?thesis by simp
qed

text \<open>After the reset time a call goes through, and one failure of it reopens the breaker.\<close>

lemma breaker_probe:
  assumes "br_state b = Open" and "br_opened_at b + resetTimeoutMs (br_options b) \<le> now"
  shows "fst (allow now b)" and "br_state (breaker_run [Start now, Fail t] b) = Open"
  using assms by (simp_all add: allow_def refreshHalfOpen_def breaker_run_def recordFailure_def trip_def)

lemma closed_stays: "br_state c = Closed \<Longrightarrow> br_state (breaker_run (replicate k Succeed) c) = Closed"
  unfolding breaker_run_def by (induction k arbitrary: c) (simp_all add: recordSuccess_def)

lemma half_open_closes:
  "br_state c = HalfOpen \<Longrightarrow> br_successes c < successThreshold (br_options c) \<Longrightarrow> successThreshold (br_options c) \<le> br_successes c + int k
     \<Longrightarrow> br_state (breaker_run (replicate k Succeed) c) = Closed"
proof (induction k arbitrary: c)
  case (Suc k)
  have step: "breaker_run (replicate (Suc k) Succeed) c = breaker_run (replicate k Succeed) (recordSuccess c)"
    by (simp add: breaker_run_def)
  show ?case
  proof (cases "br_successes c + 1 < successThreshold (br_options c)")
    case True
    then show ?thesis unfolding step using Suc.prems by (intro Suc.IH) (simp_all add: recordSuccess_def)
  next
    case False
    then show ?thesis unfolding step using Suc.prems(1) by (intro closed_stays) (simp add: recordSuccess_def)
  qed
qed simp

text \<open>
  C39.  A healthy dependency always closes the breaker again.  Whatever happened before, there is a time
  after which a call is let through and as many successes as the threshold asks for, with no failure between
  them, leave the breaker closed.
\<close>

theorem breaker_closes_again:
  fixes es :: "breaker_event list"
  assumes "0 < failureThreshold opts" and "0 < successThreshold opts"
  shows "\<exists>t0. \<forall>t \<ge> t0. fst (allow t (breaker_run es (new_breaker opts)))
     \<and> br_state (breaker_run (es @ Start t # replicate (nat (successThreshold opts)) Succeed) (new_breaker opts)) = Closed"
proof -
  let ?b = "breaker_run es (new_breaker opts)" and ?k = "nat (successThreshold opts)"
  have opt: "br_options ?b = opts" by (simp add: new_breaker_def)
  have inv: "breaker_inv ?b" using assms by (intro breaker_run_inv) (simp_all add: breaker_inv_def new_breaker_def)
  have run: "breaker_run (es @ Start t # replicate ?k Succeed) (new_breaker opts) = breaker_run (replicate ?k Succeed) (snd (allow t ?b))" for t
    by (simp add: breaker_run_append) (simp add: breaker_run_def)
  have "fst (allow t ?b) \<and> br_state (breaker_run (replicate ?k Succeed) (snd (allow t ?b))) = Closed"
    if "br_opened_at ?b + resetTimeoutMs opts \<le> t" for t
  proof (cases "br_state ?b")
    case Closed
    then show ?thesis by (simp add: allow_def refreshHalfOpen_def closed_stays)
  next
    case HalfOpen
    then show ?thesis using inv opt by (auto simp: allow_def refreshHalfOpen_def breaker_inv_def intro!: half_open_closes)
  next
    case Open
    then show ?thesis using that opt assms by (auto simp: allow_def refreshHalfOpen_def intro!: half_open_closes)
  qed
  then show ?thesis unfolding run by blast
qed

theorem breaker_closes_again_witness:
  "\<exists>t0. \<forall>t \<ge> t0. br_state (breaker_run (map Fail [1, 2, 3, 4, 5] @ Start t # replicate 2 Succeed) (new_breaker DEFAULT_BREAKER_OPTIONS)) = Closed"
  using breaker_closes_again [of DEFAULT_BREAKER_OPTIONS "map Fail [1, 2, 3, 4, 5]"] by (auto simp: DEFAULT_BREAKER_OPTIONS_def)

section \<open>The bulkhead\<close>

record bulkhead =
  bk_max :: int
  bk_timeout :: jsnum
  bk_slots :: int

definition new_bulkhead :: "int \<Rightarrow> jsnum \<Rightarrow> bulkhead" where
  "new_bulkhead m t = \<lparr>bk_max = m, bk_timeout = t, bk_slots = m\<rparr>"

definition queued :: "bulkhead \<Rightarrow> int" where
  "queued b = bk_max b - bk_slots b"

datatype acquired = Leased | Full | Waiting instant

definition tryAcquire :: "bulkhead \<Rightarrow> bool \<times> bulkhead" where
  "tryAcquire b = (if bk_slots b > 0 then (True, b\<lparr>bk_slots := bk_slots b - 1\<rparr>) else (False, b))"

text \<open>\<open>acquire\<close> up to its first suspension: with no slot and a usable timeout the caller waits.\<close>

definition acquire :: "instant \<Rightarrow> bulkhead \<Rightarrow> acquired \<times> bulkhead" where
  "acquire now b =
     (if bk_slots b > 0 then (Leased, b\<lparr>bk_slots := bk_slots b - 1\<rparr>)
      else case bk_timeout b of
        Fin t \<Rightarrow> if t \<le> 0 then (Full, b) else (Waiting now, b)
      | _ \<Rightarrow> (Full, b))"

text \<open>
  One tick of \<open>waitForSlot\<close>'s timer for a caller that waits since \<open>started\<close>.  The continuation that
  takes the slot runs before the next timer callback, so seeing the slot and taking it is one step.
\<close>

definition poll_slot :: "instant \<Rightarrow> instant \<Rightarrow> bulkhead \<Rightarrow> acquired \<times> bulkhead" where
  "poll_slot now started b =
     (if bk_slots b > 0 then (Leased, b\<lparr>bk_slots := bk_slots b - 1\<rparr>)
      else case bk_timeout b of
        Fin t \<Rightarrow> if of_int (now - started) \<ge> t then (Full, b) else (Waiting started, b)
      | _ \<Rightarrow> (Full, b))"

definition releaseSlot :: "bulkhead \<Rightarrow> bulkhead" where
  "releaseSlot b = (if bk_slots b < bk_max b then b\<lparr>bk_slots := bk_slots b + 1\<rparr> else b)"

definition getBulkhead ::
  "string \<Rightarrow> int option \<Rightarrow> jsnum option \<Rightarrow> (string \<Rightarrow> bulkhead option) \<Rightarrow> bulkhead \<times> (string \<Rightarrow> bulkhead option)" where
  "getBulkhead key maxConcurrent queueTimeoutMs bs =
     (case bs key of
        Some b \<Rightarrow> (b, bs)
      | None \<Rightarrow> (let b = new_bulkhead (case maxConcurrent of Some m \<Rightarrow> m | None \<Rightarrow> 10)
                            (case queueTimeoutMs of Some t \<Rightarrow> t | None \<Rightarrow> Fin 5000)
                 in (b, bs(key \<mapsto> b))))"

text \<open>
  The callers of \<open>withBulkhead\<close> on one key: each acquires, waits on its timer or fails, runs, and
  releases its lease once in the \<open>finally\<close>.
\<close>

record bulk_system =
  sys_bulkhead :: bulkhead
  sys_running :: nat
  sys_waiting :: "instant list"

inductive withBulkhead :: "bulk_system \<Rightarrow> bulk_system \<Rightarrow> bool" where
  enter: "acquire now (sys_bulkhead s) = (Leased, b) \<Longrightarrow>
    withBulkhead s (s\<lparr>sys_bulkhead := b, sys_running := sys_running s + 1\<rparr>)"
| queue: "acquire now (sys_bulkhead s) = (Waiting t, b) \<Longrightarrow>
    withBulkhead s (s\<lparr>sys_bulkhead := b, sys_waiting := sys_waiting s @ [t]\<rparr>)"
| refuse: "acquire now (sys_bulkhead s) = (Full, b) \<Longrightarrow> withBulkhead s (s\<lparr>sys_bulkhead := b\<rparr>)"
| wake: "sys_waiting s = xs @ t # ys \<Longrightarrow> poll_slot now t (sys_bulkhead s) = (Leased, b) \<Longrightarrow>
    withBulkhead s (s\<lparr>sys_bulkhead := b, sys_running := sys_running s + 1, sys_waiting := xs @ ys\<rparr>)"
| expire: "sys_waiting s = xs @ t # ys \<Longrightarrow> poll_slot now t (sys_bulkhead s) = (Full, b) \<Longrightarrow>
    withBulkhead s (s\<lparr>sys_bulkhead := b, sys_waiting := xs @ ys\<rparr>)"
| finish: "0 < sys_running s \<Longrightarrow>
    withBulkhead s (s\<lparr>sys_bulkhead := releaseSlot (sys_bulkhead s), sys_running := sys_running s - 1\<rparr>)"

definition bulk_start :: "int \<Rightarrow> jsnum \<Rightarrow> bulk_system" where
  "bulk_start m t = \<lparr>sys_bulkhead = new_bulkhead m t, sys_running = 0, sys_waiting = []\<rparr>"

definition bulk_inv :: "int \<Rightarrow> bulk_system \<Rightarrow> bool" where
  "bulk_inv m s \<longleftrightarrow> bk_max (sys_bulkhead s) = m \<and> 0 \<le> bk_slots (sys_bulkhead s)
     \<and> bk_slots (sys_bulkhead s) + int (sys_running s) = m"

lemma bulk_step_inv: "withBulkhead s t \<Longrightarrow> bulk_inv m s \<Longrightarrow> bulk_inv m t"
  by (induction rule: withBulkhead.induct)
    (auto simp: bulk_inv_def acquire_def poll_slot_def releaseSlot_def split: if_splits jsnum.splits)

text \<open>
  The bulkhead bounds concurrency.  However calls enter, wait, time out and finish, at most
  \<open>maxConcurrent\<close> wrapped functions run at once, and the free slots are exactly the others.
\<close>

theorem bulkhead_bounds_concurrency:
  assumes "0 \<le> m" and "withBulkhead\<^sup>*\<^sup>* (bulk_start m t) s"
  shows "int (sys_running s) \<le> m \<and> bk_slots (sys_bulkhead s) = m - int (sys_running s)"
proof -
  have "bulk_inv m s"
    using assms(2)
  proof (induction rule: rtranclp_induct)
    case base
    show ?case using assms(1) by (simp add: bulk_inv_def bulk_start_def new_bulkhead_def)
  next
    case (step y z)
    then show ?case by (blast intro: bulk_step_inv)
  qed
  then show ?thesis by (auto simp: bulk_inv_def)
qed

lemma demo_bulk: "withBulkhead\<^sup>*\<^sup>* (bulk_start 1 (Fin 5000))
    \<lparr>sys_bulkhead = \<lparr>bk_max = 1, bk_timeout = Fin 5000, bk_slots = 0\<rparr>, sys_running = 1, sys_waiting = [7]\<rparr>"
proof -
  let ?s = "\<lparr>sys_bulkhead = \<lparr>bk_max = 1, bk_timeout = Fin 5000, bk_slots = 0\<rparr>, sys_running = 1, sys_waiting = []\<rparr>"
  have "withBulkhead (bulk_start 1 (Fin 5000)) ?s"
    using withBulkhead.enter [of 0 "bulk_start 1 (Fin 5000)"]
    by (simp add: bulk_start_def new_bulkhead_def acquire_def)
  moreover have "withBulkhead ?s (?s\<lparr>sys_waiting := [7]\<rparr>)"
    using withBulkhead.queue [of 7 ?s 7] by (simp add: acquire_def)
  ultimately show ?thesis by (simp add: converse_rtranclp_into_rtranclp)
qed

theorem bulkhead_bounds_concurrency_witness:
  "int (sys_running \<lparr>sys_bulkhead = \<lparr>bk_max = 1, bk_timeout = Fin 5000, bk_slots = 0\<rparr>, sys_running = 1, sys_waiting = [7]\<rparr>) \<le> 1"
  using bulkhead_bounds_concurrency [OF _ demo_bulk] by simp

section \<open>The retry loop\<close>

text \<open>An error as the loop sees it: whether it is a \<open>CircuitOpenError\<close>, an \<open>Error\<close>, and its name.\<close>

record thrown =
  err_circuit_open :: bool
  err_is_error :: bool
  err_name :: string

definition isAbortError :: "thrown \<Rightarrow> bool" where
  "isAbortError e \<longleftrightarrow> err_is_error e \<and> (err_name e = ''AbortError'' \<or> err_name e = ''TimeoutError'')"

record retry_options =
  rt_max_attempts :: int
  rt_base_delay :: rat
  rt_max_delay :: rat
  rt_multiplier :: rat
  rt_should_retry :: "(thrown \<Rightarrow> bool) option"

definition DEFAULT_RETRY_OPTIONS :: retry_options where
  "DEFAULT_RETRY_OPTIONS =
     \<lparr>rt_max_attempts = 3, rt_base_delay = 300, rt_max_delay = 3000, rt_multiplier = 2, rt_should_retry = None\<rparr>"

definition retryable :: "retry_options \<Rightarrow> thrown \<Rightarrow> bool" where
  "retryable opts e \<longleftrightarrow>
     \<not> err_circuit_open e \<and> \<not> isAbortError e
     \<and> (case rt_should_retry opts of None \<Rightarrow> True | Some p \<Rightarrow> p e)"

definition max_attempts :: "retry_options \<Rightarrow> nat" where
  "max_attempts opts = nat (max 1 (rt_max_attempts opts))"

text \<open>The loop from a given attempt: the outcome, the attempts made and the delays slept.\<close>

function retry_from ::
  "retry_options \<Rightarrow> (nat \<Rightarrow> thrown + 'a) \<Rightarrow> nat \<Rightarrow> rat \<Rightarrow> (thrown + 'a) \<times> nat list \<times> rat list" where
  "retry_from opts fn attempt delay =
     (case fn attempt of
        Inr v \<Rightarrow> (Inr v, [attempt], [])
      | Inl e \<Rightarrow>
         if \<not> retryable opts e \<or> attempt \<ge> max_attempts opts then (Inl e, [attempt], [])
         else (case retry_from opts fn (attempt + 1) (min (delay * rt_multiplier opts) (rt_max_delay opts)) of
                 (res, tried, slept) \<Rightarrow> (res, attempt # tried, delay # slept)))"
  by pat_completeness auto
termination
  by (relation "measure (\<lambda>(opts, fn, attempt, delay). max_attempts opts - attempt)") auto

declare retry_from.simps [simp del]

definition withRetry :: "retry_options \<Rightarrow> (nat \<Rightarrow> thrown + 'a) \<Rightarrow> (thrown + 'a) \<times> nat list \<times> rat list" where
  "withRetry opts fn = retry_from opts fn 1 (rt_base_delay opts)"

text \<open>What a run of the loop is: consecutive attempts, all but the last failing with a retryable error.\<close>

lemma retry_from_run:
  assumes "retry_from opts fn k d = (res, tried, slept)" and "k \<le> max_attempts opts"
  obtains n where "tried = [k..<k + Suc n]" and "length slept = n" and "k + n \<le> max_attempts opts"
    and "res = fn (k + n)"
    and "\<forall>j < n. \<exists>e. fn (k + j) = Inl e \<and> retryable opts e"
    and "\<forall>e. res = Inl e \<longrightarrow> retryable opts e \<longrightarrow> k + n = max_attempts opts"
proof -
  have "\<exists>n. tried = [k..<k + Suc n] \<and> length slept = n \<and> k + n \<le> max_attempts opts \<and> res = fn (k + n)
      \<and> (\<forall>j < n. \<exists>e. fn (k + j) = Inl e \<and> retryable opts e)
      \<and> (\<forall>e. res = Inl e \<longrightarrow> retryable opts e \<longrightarrow> k + n = max_attempts opts)"
    using assms
  proof (induction opts fn k d arbitrary: res tried slept rule: retry_from.induct)
    case (1 opts fn k d)
    show ?case
    proof (cases "fn k")
      case (Inr v)
      with 1(2,3) show ?thesis by (intro exI [of _ 0]) (auto simp add: retry_from.simps [of opts fn k d])
    next
      case (Inl e)
      show ?thesis
      proof (cases "\<not> retryable opts e \<or> k \<ge> max_attempts opts")
        case True
        with Inl 1(2,3) show ?thesis by (intro exI [of _ 0]) (auto simp: retry_from.simps [of opts fn k d])
      next
        case False
        let ?d = "min (d * rt_multiplier opts) (rt_max_delay opts)"
        obtain res' tried' slept' where r: "retry_from opts fn (k + 1) ?d = (res', tried', slept')"
          by (cases "retry_from opts fn (k + 1) ?d") auto
        with False Inl 1(2) have eq: "res = res'" "tried = k # tried'" "slept = d # slept'"
          by (simp_all add: retry_from.simps [of opts fn k d])
        obtain n where n: "tried' = [k + 1..<k + 1 + Suc n]" "length slept' = n" "k + 1 + n \<le> max_attempts opts"
            "res' = fn (k + 1 + n)" "\<forall>j < n. \<exists>e. fn (k + 1 + j) = Inl e \<and> retryable opts e"
            "\<forall>e. res' = Inl e \<longrightarrow> retryable opts e \<longrightarrow> k + 1 + n = max_attempts opts"
          using 1(1) [OF Inl _ r] False by auto
        have "\<forall>j < Suc n. \<exists>e. fn (k + j) = Inl e \<and> retryable opts e"
        proof (intro allI impI)
          fix j assume "j < Suc n"
          then show "\<exists>e. fn (k + j) = Inl e \<and> retryable opts e"
            using n(5) Inl False by (cases j) auto
        qed
        moreover have "k # [k + 1..<k + 1 + Suc n] = [k..<k + Suc (Suc n)]"
          by (simp add: upt_conv_Cons del: upt_Suc)
        ultimately show ?thesis using n eq by (intro exI [of _ "Suc n"]) (simp del: upt_Suc)
      qed
    qed
  qed
  then show ?thesis using that by blast
qed

text \<open>
  C40.  The retry loop is bounded and faithful.  The wrapped function runs on the attempts 1, 2, \<dots>, n with
  \<open>n\<close> at most \<open>max(1, maxAttempts)\<close>, with one sleep between two attempts; all attempts before the
  last failed with an error worth retrying, the outcome is that of the last one, and a retryable
  error is only thrown to the caller when the attempts are used up.
\<close>

theorem retry_bounded:
  "\<exists>n. 1 \<le> n \<and> int n \<le> max 1 (rt_max_attempts opts)
     \<and> fst (snd (withRetry opts fn)) = [1..<Suc n] \<and> length (snd (snd (withRetry opts fn))) = n - 1
     \<and> fst (withRetry opts fn) = fn n
     \<and> (\<forall>j. 1 \<le> j \<longrightarrow> j < n \<longrightarrow> (\<exists>e. fn j = Inl e \<and> retryable opts e))
     \<and> (\<forall>e. fn n = Inl e \<longrightarrow> retryable opts e \<longrightarrow> int n = max 1 (rt_max_attempts opts))"
proof -
  obtain res tried slept where r: "retry_from opts fn 1 (rt_base_delay opts) = (res, tried, slept)"
    by (cases "retry_from opts fn 1 (rt_base_delay opts)") auto
  have "1 \<le> max_attempts opts" by (simp add: max_attempts_def)
  then obtain n where n: "tried = [1..<1 + Suc n]" "length slept = n" "1 + n \<le> max_attempts opts" "res = fn (1 + n)"
      "\<forall>j < n. \<exists>e. fn (1 + j) = Inl e \<and> retryable opts e"
      "\<forall>e. res = Inl e \<longrightarrow> retryable opts e \<longrightarrow> 1 + n = max_attempts opts"
    by (rule_tac retry_from_run [OF r])
  have "\<exists>e. fn j = Inl e \<and> retryable opts e" if "1 \<le> j" "j < 1 + n" for j
    using n(5) [rule_format, of "j - 1"] that by auto
  moreover have "int (max_attempts opts) = max 1 (rt_max_attempts opts)" by (simp add: max_attempts_def)
  ultimately show ?thesis
    using n(1-4,6) unfolding withRetry_def r by (intro exI [of _ "1 + n"]) (auto simp del: upt_Suc)
qed

definition flaky :: "nat \<Rightarrow> thrown + nat" where
  "flaky k = (if k < 3 then Inl \<lparr>err_circuit_open = False, err_is_error = True, err_name = ''Error''\<rparr> else Inr k)"

theorem retry_bounded_witness:
  "fst (snd (withRetry DEFAULT_RETRY_OPTIONS flaky)) = [1, 2, 3] \<and> fst (withRetry DEFAULT_RETRY_OPTIONS flaky) = Inr 3"
proof -
  obtain n where n: "1 \<le> n" "int n \<le> 3" "fst (snd (withRetry DEFAULT_RETRY_OPTIONS flaky)) = [1..<Suc n]"
      "fst (withRetry DEFAULT_RETRY_OPTIONS flaky) = flaky n"
      "\<forall>e. flaky n = Inl e \<longrightarrow> retryable DEFAULT_RETRY_OPTIONS e \<longrightarrow> int n = 3"
    using retry_bounded [of DEFAULT_RETRY_OPTIONS flaky] by (auto simp: DEFAULT_RETRY_OPTIONS_def)
  have "n = 3"
  proof (rule ccontr)
    assume "n \<noteq> 3"
    then have "n < 3" using n(2) by simp
    then show False using n(5) \<open>n \<noteq> 3\<close>
      by (auto simp: flaky_def retryable_def DEFAULT_RETRY_OPTIONS_def isAbortError_def)
  qed
  then show ?thesis using n(3,4) by (simp add: flaky_def upt_rec)
qed

text \<open>
  An abort error is never retried, whatever \<open>shouldRetry\<close> is passed: the loop stops after that
  attempt.  (The comment on \<open>withRetry\<close> says a custom \<open>shouldRetry\<close> can allow it.)
\<close>

theorem abort_never_retried:
  assumes "fn 1 = Inl e" and "isAbortError e"
  shows "withRetry opts fn = (Inl e, [1], [])"
  using assms unfolding withRetry_def by (subst retry_from.simps) (simp add: retryable_def)

theorem abort_never_retried_witness:
  "withRetry (DEFAULT_RETRY_OPTIONS\<lparr>rt_should_retry := Some (\<lambda>_. True)\<rparr>)
     (\<lambda>k. if k = 1 then Inl \<lparr>err_circuit_open = False, err_is_error = True, err_name = ''AbortError''\<rparr> else Inr k)
   = (Inl \<lparr>err_circuit_open = False, err_is_error = True, err_name = ''AbortError''\<rparr>, [1], [])"
  by (rule abort_never_retried) (simp_all add: isAbortError_def)

end
