(* ===== verification/AuthProtection.thy ===== *)
theory AuthProtection
  imports Prelude
begin

text \<open>
  Brute-force protection of the authentication endpoints (\<open>security/bruteForceProtection.ts\<close>):
  counters and lockouts per identifier and per network address, kept in Redis or, without it, in
  the process memory.

  The handlers use the store through the five operations of \<open>store_ops\<close>; an operation that throws
  answers \<open>None\<close>.  The locale \<open>counter_store\<close> states what the handlers rely on, which is also
  what Redis documents for EXISTS, TTL, INCR with EXPIRE, SET EX and DEL; the in-memory store of
  the source is its interpretation.  Times are whole seconds, SHA-256 is a parameter, and the
  limits of the environment are integers.
\<close>

section \<open>Policy and keys\<close>

datatype auth_scope = AdminWebLogin | CourierLogin | CourierOtpVerify | CustomerJwtExchange | PasswordReset

primrec scope_text :: "auth_scope \<Rightarrow> string" where
  "scope_text AdminWebLogin = ''admin_web_login''"
| "scope_text CourierLogin = ''courier_login''"
| "scope_text CourierOtpVerify = ''courier_otp_verify''"
| "scope_text CustomerJwtExchange = ''customer_jwt_exchange''"
| "scope_text PasswordReset = ''password_reset''"

record auth_input =
  in_scope :: auth_scope
  in_identifier :: "string option"
  in_ip :: "string option"

record auth_policy =
  requestLimit :: int
  requestWindowSeconds :: int
  identifierFailureLimit :: int
  ipFailureLimit :: int
  baseLockoutSeconds :: int
  maxLockoutSeconds :: int

text \<open>The environment: the two production flags and the numeric overrides that are set.\<close>

record auth_env =
  env_production :: bool
  env_request_limit :: "int option"
  env_request_window :: "int option"
  env_identifier_limit :: "int option"
  env_ip_limit :: "int option"
  env_base_lockout :: "int option"
  env_max_lockout :: "int option"

definition or_default :: "'a option \<Rightarrow> 'a \<Rightarrow> 'a" where
  "or_default v d = (case v of None \<Rightarrow> d | Some x \<Rightarrow> x)"

definition defaultPolicy :: "auth_env \<Rightarrow> auth_policy" where
  "defaultPolicy e =
     (let production = env_production e in
      \<lparr>requestLimit = or_default (env_request_limit e) (if production then 30 else 300),
       requestWindowSeconds = or_default (env_request_window e) 60,
       identifierFailureLimit = or_default (env_identifier_limit e) (if production then 5 else 20),
       ipFailureLimit = or_default (env_ip_limit e) (if production then 30 else 100),
       baseLockoutSeconds = or_default (env_base_lockout e) (if production then 15 * 60 else 60),
       maxLockoutSeconds = or_default (env_max_lockout e) (if production then 60 * 60 else 5 * 60)\<rparr>)"

definition hashKeyPart :: "(string \<Rightarrow> string) \<Rightarrow> string \<Rightarrow> string" where
  "hashKeyPart sha value = sha (toLowerCase (js_trim value))"

definition normalizeIdentifier :: "string option \<Rightarrow> string" where
  "normalizeIdentifier identifier =
     (let value = toLowerCase (js_trim (str_or identifier [])) in
      if value = [] then ''anonymous'' else value)"

definition request_ip_of :: "auth_input \<Rightarrow> string" where
  "request_ip_of i = str_or (in_ip i) ''unknown''"

text \<open>The address of a request (only a single header value counts, unlike a repeated header).\<close>

record ip_request =
  hdr_forwarded :: "string option"
  hdr_real_ip :: "string option"
  req_ip :: "string option"
  sock_address :: "string option"

definition getRequestIpAddress :: "ip_request \<Rightarrow> string" where
  "getRequestIpAddress r =
     (if js_trim (str_or (hdr_forwarded r) []) \<noteq> [] then js_trim (split_head CHR '','' (str_or (hdr_forwarded r) []))
      else if js_trim (str_or (hdr_real_ip r) []) \<noteq> [] then js_trim (str_or (hdr_real_ip r) [])
      else str_or (req_ip r) (str_or (sock_address r) ''unknown''))"

datatype dimension = Identifier | Ip

primrec dimension_text :: "dimension \<Rightarrow> string" where
  "dimension_text Identifier = ''identifier''"
| "dimension_text Ip = ''ip''"

definition lockoutKey :: "(string \<Rightarrow> string) \<Rightarrow> auth_scope \<Rightarrow> dimension \<Rightarrow> string \<Rightarrow> string" where
  "lockoutKey sha sc d v = ''auth:lockout:'' @ scope_text sc @ '':'' @ dimension_text d @ '':'' @ hashKeyPart sha v"

definition failureKey :: "(string \<Rightarrow> string) \<Rightarrow> auth_scope \<Rightarrow> dimension \<Rightarrow> string \<Rightarrow> string" where
  "failureKey sha sc d v = ''auth:fail:'' @ scope_text sc @ '':'' @ dimension_text d @ '':'' @ hashKeyPart sha v"

definition requestKey :: "(string \<Rightarrow> string) \<Rightarrow> auth_scope \<Rightarrow> string \<Rightarrow> string" where
  "requestKey sha sc ip = ''auth:req:'' @ scope_text sc @ '':ip:'' @ hashKeyPart sha ip"

section \<open>The store interface and the in-memory store\<close>

record 's store_ops =
  hasLockout :: "int \<Rightarrow> string \<Rightarrow> 's \<Rightarrow> bool option \<times> 's"
  getTtlSeconds :: "int \<Rightarrow> string \<Rightarrow> 's \<Rightarrow> int option \<times> 's"
  incrementWithExpiry :: "int \<Rightarrow> string \<Rightarrow> int \<Rightarrow> 's \<Rightarrow> int option \<times> 's"
  setLockout :: "int \<Rightarrow> string \<Rightarrow> int \<Rightarrow> 's \<Rightarrow> unit option \<times> 's"
  clearKeys :: "int \<Rightarrow> string list \<Rightarrow> 's \<Rightarrow> unit option \<times> 's"

record counter_state =
  ctr_value :: int
  ctr_expires :: int

type_synonym memory_store = "string \<Rightarrow> counter_state option"

definition purgeExpiredMemoryKey :: "int \<Rightarrow> string \<Rightarrow> memory_store \<Rightarrow> memory_store" where
  "purgeExpiredMemoryKey now k m =
     (case m k of None \<Rightarrow> m | Some c \<Rightarrow> if ctr_expires c \<le> now then m(k := None) else m)"

definition memory_has :: "int \<Rightarrow> string \<Rightarrow> memory_store \<Rightarrow> bool option \<times> memory_store" where
  "memory_has now k m = (let m' = purgeExpiredMemoryKey now k m in (Some (m' k \<noteq> None), m'))"

definition memory_ttl :: "int \<Rightarrow> string \<Rightarrow> memory_store \<Rightarrow> int option \<times> memory_store" where
  "memory_ttl now k m =
     (let m' = purgeExpiredMemoryKey now k m in
      (Some (case m' k of None \<Rightarrow> 0 | Some c \<Rightarrow> max 0 (ctr_expires c - now)), m'))"

definition memory_increment :: "int \<Rightarrow> string \<Rightarrow> int \<Rightarrow> memory_store \<Rightarrow> int option \<times> memory_store" where
  "memory_increment now k ex m =
     (let m' = purgeExpiredMemoryKey now k m;
          n = (case m' k of None \<Rightarrow> 1 | Some c \<Rightarrow> ctr_value c + 1)
      in (Some n, m'(k \<mapsto> \<lparr>ctr_value = n, ctr_expires = now + ex\<rparr>)))"

definition memory_set :: "int \<Rightarrow> string \<Rightarrow> int \<Rightarrow> memory_store \<Rightarrow> unit option \<times> memory_store" where
  "memory_set now k ttl m = (Some (), m(k \<mapsto> \<lparr>ctr_value = 1, ctr_expires = now + ttl\<rparr>))"

definition memory_clear :: "int \<Rightarrow> string list \<Rightarrow> memory_store \<Rightarrow> unit option \<times> memory_store" where
  "memory_clear now ks m = (Some (), foldl (\<lambda>m k. m(k := None)) m ks)"

definition memory_ops :: "memory_store store_ops" where
  "memory_ops = \<lparr>hasLockout = memory_has, getTtlSeconds = memory_ttl, incrementWithExpiry = memory_increment,
     setLockout = memory_set, clearKeys = memory_clear\<rparr>"

section \<open>The handlers\<close>

record auth_error =
  ae_message :: string
  ae_code :: string
  ae_status :: int
  ae_retry_after :: int

definition account_locked :: "int \<Rightarrow> auth_error" where
  "account_locked ttl = \<lparr>ae_message = ''Too many failed attempts. Try again later.'',
     ae_code = ''ERR_ACCOUNT_TEMPORARILY_LOCKED'', ae_status = 423, ae_retry_after = ttl\<rparr>"

definition network_locked :: "int \<Rightarrow> auth_error" where
  "network_locked ttl = \<lparr>ae_message = ''Too many failed attempts from this network. Try again later.'',
     ae_code = ''ERR_AUTH_NETWORK_TEMPORARILY_LOCKED'', ae_status = 429, ae_retry_after = ttl\<rparr>"

definition rate_limited :: "int \<Rightarrow> auth_error" where
  "rate_limited window = \<lparr>ae_message = ''Too many authentication attempts. Slow down and try again later.'',
     ae_code = ''ERR_AUTH_RATE_LIMIT'', ae_status = 429, ae_retry_after = window\<rparr>"

definition protection_unavailable :: auth_error where
  "protection_unavailable = \<lparr>ae_message = ''Authentication protection is temporarily unavailable'',
     ae_code = ''ERR_AUTH_PROTECTION_UNAVAILABLE'', ae_status = 503, ae_retry_after = 30\<rparr>"

text \<open>\<open>withProtectionStore\<close>: \<open>Inl None\<close> is an error of the store, which lets the caller pass outside production.\<close>

definition withProtectionStore :: "bool \<Rightarrow> auth_error option + unit \<Rightarrow> auth_error + unit" where
  "withProtectionStore production r =
     (case r of
        Inr u \<Rightarrow> Inr u
      | Inl (Some e) \<Rightarrow> Inl e
      | Inl None \<Rightarrow> if production then Inl protection_unavailable else Inr ())"

text \<open>Running a store call: a thrown error ends the operation.\<close>

definition bind_store :: "'b option \<times> 's \<Rightarrow> ('b \<Rightarrow> 's \<Rightarrow> (auth_error option + unit) \<times> 's) \<Rightarrow> (auth_error option + unit) \<times> 's" where
  "bind_store r k = (case r of (None, s) \<Rightarrow> (Inl None, s) | (Some x, s) \<Rightarrow> k x s)"

definition calculateLockoutSeconds :: "int \<Rightarrow> int \<Rightarrow> auth_policy \<Rightarrow> int" where
  "calculateLockoutSeconds failureCount failureLimit p =
     (let extraFailures = nat (max 0 (failureCount - failureLimit));
          multiplier = min 8 (2 ^ extraFailures)
      in min (maxLockoutSeconds p) (baseLockoutSeconds p * multiplier))"

definition attempt_body ::
  "'s store_ops \<Rightarrow> (string \<Rightarrow> string) \<Rightarrow> auth_policy \<Rightarrow> int \<Rightarrow> auth_input \<Rightarrow> 's \<Rightarrow> (auth_error option + unit) \<times> 's" where
  "attempt_body ops sha p now i s =
     (let idLock = lockoutKey sha (in_scope i) Identifier (normalizeIdentifier (in_identifier i));
          ipLock = lockoutKey sha (in_scope i) Ip (request_ip_of i) in
      bind_store (hasLockout ops now idLock s) (\<lambda>locked s1.
        if locked then
          bind_store (getTtlSeconds ops now idLock s1) (\<lambda>ttl s2. (Inl (Some (account_locked ttl)), s2))
        else bind_store (hasLockout ops now ipLock s1) (\<lambda>locked2 s2.
          if locked2 then
            bind_store (getTtlSeconds ops now ipLock s2) (\<lambda>ttl s3. (Inl (Some (network_locked ttl)), s3))
          else bind_store (incrementWithExpiry ops now (requestKey sha (in_scope i) (request_ip_of i))
                 (requestWindowSeconds p) s2) (\<lambda>n s3.
            if n > requestLimit p then (Inl (Some (rate_limited (requestWindowSeconds p))), s3)
            else (Inr (), s3)))))"

definition assertAuthAttemptAllowed ::
  "'s store_ops \<Rightarrow> (string \<Rightarrow> string) \<Rightarrow> auth_env \<Rightarrow> int \<Rightarrow> auth_input \<Rightarrow> 's \<Rightarrow> (auth_error + unit) \<times> 's" where
  "assertAuthAttemptAllowed ops sha e now i s =
     (case attempt_body ops sha (defaultPolicy e) now i s of
        (r, s') \<Rightarrow> (withProtectionStore (env_production e) r, s'))"

text \<open>The lockout of one dimension, set when its failures reach the limit.\<close>

definition lock_when_due ::
  "'s store_ops \<Rightarrow> auth_policy \<Rightarrow> int \<Rightarrow> string \<Rightarrow> int \<Rightarrow> int \<Rightarrow> 's \<Rightarrow> unit option \<times> 's" where
  "lock_when_due ops p now key failures limit s =
     (if failures \<ge> limit then setLockout ops now key (calculateLockoutSeconds failures limit p) s else (Some (), s))"

definition failure_body ::
  "'s store_ops \<Rightarrow> (string \<Rightarrow> string) \<Rightarrow> auth_policy \<Rightarrow> int \<Rightarrow> auth_input \<Rightarrow> 's \<Rightarrow> (auth_error option + unit) \<times> 's" where
  "failure_body ops sha p now i s =
     (let ident = normalizeIdentifier (in_identifier i); ip = request_ip_of i; sc = in_scope i in
      bind_store (incrementWithExpiry ops now (failureKey sha sc Identifier ident) (maxLockoutSeconds p) s) (\<lambda>nid s1.
      bind_store (incrementWithExpiry ops now (failureKey sha sc Ip ip) (maxLockoutSeconds p) s1) (\<lambda>nip s2.
      bind_store (lock_when_due ops p now (lockoutKey sha sc Identifier ident) nid (identifierFailureLimit p) s2) (\<lambda>_ s3.
      bind_store (lock_when_due ops p now (lockoutKey sha sc Ip ip) nip (ipFailureLimit p) s3) (\<lambda>_ s4.
        (Inr (), s4))))))"

definition recordAuthFailure ::
  "'s store_ops \<Rightarrow> (string \<Rightarrow> string) \<Rightarrow> auth_env \<Rightarrow> int \<Rightarrow> auth_input \<Rightarrow> 's \<Rightarrow> (auth_error + unit) \<times> 's" where
  "recordAuthFailure ops sha e now i s =
     (case failure_body ops sha (defaultPolicy e) now i s of
        (r, s') \<Rightarrow> (withProtectionStore (env_production e) r, s'))"

definition recordAuthSuccess ::
  "'s store_ops \<Rightarrow> (string \<Rightarrow> string) \<Rightarrow> auth_env \<Rightarrow> int \<Rightarrow> auth_input \<Rightarrow> 's \<Rightarrow> (auth_error + unit) \<times> 's" where
  "recordAuthSuccess ops sha e now i s =
     (let ident = normalizeIdentifier (in_identifier i) in
      case bind_store (clearKeys ops now [failureKey sha (in_scope i) Identifier ident,
             lockoutKey sha (in_scope i) Identifier ident] s) (\<lambda>_ s1. (Inr (), s1)) of
        (r, s') \<Rightarrow> (withProtectionStore (env_production e) r, s'))"

text \<open>The response of a refusal: status, \<open>Retry-After\<close> header and body.\<close>

record auth_response =
  ar_status :: int
  ar_retry_header :: "string option"
  ar_message :: string
  ar_code :: string
  ar_retry_seconds :: "int option"

definition sendAuthProtectionError :: "auth_error \<Rightarrow> auth_response" where
  "sendAuthProtectionError e =
     \<lparr>ar_status = ae_status e,
      ar_retry_header = (if ae_retry_after e > 0 then Some (show_int (ae_retry_after e)) else None),
      ar_message = ae_message e, ar_code = ae_code e,
      ar_retry_seconds = (if ae_retry_after e > 0 then Some (ae_retry_after e) else None)\<rparr>"

section \<open>The contract of the store\<close>

text \<open>\<open>live t s k\<close> is the counter of \<open>k\<close> at time \<open>t\<close>, with its expiry, if it has not expired by then.\<close>

locale counter_store =
  fixes ops :: "'s store_ops"
    and live :: "int \<Rightarrow> 's \<Rightarrow> string \<Rightarrow> (int \<times> int) option"
  assumes has: "hasLockout ops now k s = (Some b, s') \<Longrightarrow> b = (live now s k \<noteq> None) \<and> (\<forall>t \<ge> now. live t s' = live t s)"
    and ttl: "getTtlSeconds ops now k s = (Some n, s') \<Longrightarrow>
      (case live now s k of None \<Rightarrow> True | Some (v, ex) \<Rightarrow> n = ex - now) \<and> (\<forall>t \<ge> now. live t s' = live t s)"
    and incr: "incrementWithExpiry ops now k ex s = (Some n, s') \<Longrightarrow>
      n = (case live now s k of None \<Rightarrow> 1 | Some (v, _) \<Rightarrow> v + 1)
      \<and> (\<forall>t \<ge> now. live t s' = (live t s)(k := if t < now + ex then Some (n, now + ex) else None))"
    and lock: "setLockout ops now k d s = (Some u, s') \<Longrightarrow>
      \<forall>t \<ge> now. live t s' = (live t s)(k := if t < now + d then Some (1, now + d) else None)"
    and clear: "clearKeys ops now ks s = (Some u, s') \<Longrightarrow>
      \<forall>t \<ge> now. live t s' = (\<lambda>k. if k \<in> set ks then None else live t s k)"
    and ages: "now \<le> t \<Longrightarrow>
      live t s k = (case live now s k of None \<Rightarrow> None | Some (v, ex) \<Rightarrow> if t < ex then Some (v, ex) else None)"
begin

text \<open>A lockout that is live refuses the attempt with the seconds that remain.\<close>

lemma locked_account_refused:
  assumes "live now s (lockoutKey sha (in_scope i) Identifier (normalizeIdentifier (in_identifier i))) = Some (v, ex)"
    and "fst (attempt_body ops sha p now i s) \<noteq> Inl None"
  shows "fst (attempt_body ops sha p now i s) = Inl (Some (account_locked (ex - now)))"
proof -
  let ?k = "lockoutKey sha (in_scope i) Identifier (normalizeIdentifier (in_identifier i))"
  obtain b s1 where h: "hasLockout ops now ?k s = (b, s1)" by (cases "hasLockout ops now ?k s")
  with assms(2) obtain b' where b: "b = Some b'" by (cases b) (simp_all add: attempt_body_def bind_store_def)
  have b': "b'" "live now s1 = live now s" using has [OF h [unfolded b]] assms(1) by auto
  obtain n s2 where t: "getTtlSeconds ops now ?k s1 = (n, s2)" by (cases "getTtlSeconds ops now ?k s1")
  with assms(2) h b b' obtain n' where n: "n = Some n'" by (cases n) (simp_all add: attempt_body_def bind_store_def)
  have "n' = ex - now" using ttl [OF t [unfolded n]] b'(2) assms(1) by simp
  then show ?thesis using h b b' t n by (simp add: attempt_body_def bind_store_def)
qed

lemma allowed_means_unlocked:
  assumes "env_production e" and "assertAuthAttemptAllowed ops sha e now i s = (Inr (), s')"
  shows "live now s (lockoutKey sha (in_scope i) Identifier (normalizeIdentifier (in_identifier i))) = None
     \<and> live now s (lockoutKey sha (in_scope i) Ip (request_ip_of i)) = None
     \<and> (case live now s (requestKey sha (in_scope i) (request_ip_of i)) of None \<Rightarrow> 0 | Some (v, _) \<Rightarrow> v) + 1
         \<le> requestLimit (defaultPolicy e)"
proof -
  let ?p = "defaultPolicy e"
  let ?k1 = "lockoutKey sha (in_scope i) Identifier (normalizeIdentifier (in_identifier i))"
  let ?k2 = "lockoutKey sha (in_scope i) Ip (request_ip_of i)"
  let ?k3 = "requestKey sha (in_scope i) (request_ip_of i)"
  have body: "fst (attempt_body ops sha ?p now i s) = Inr ()"
    using assms by (auto simp: assertAuthAttemptAllowed_def withProtectionStore_def
        split: prod.splits sum.splits option.splits)
  obtain s1 where s1: "hasLockout ops now ?k1 s = (Some False, s1)"
    using body by (auto simp: attempt_body_def bind_store_def Let_def split: prod.splits option.splits if_splits)
  obtain s2 where s2: "hasLockout ops now ?k2 s1 = (Some False, s2)"
    using body s1 by (auto simp: attempt_body_def bind_store_def Let_def split: prod.splits option.splits if_splits)
  obtain n s3 where s3: "incrementWithExpiry ops now ?k3 (requestWindowSeconds ?p) s2 = (Some n, s3)"
    and n: "n \<le> requestLimit ?p"
    using body s1 s2 by (auto simp: attempt_body_def bind_store_def Let_def split: prod.splits option.splits if_splits)
  have l1: "live now s1 = live now s" and l2: "live now s2 = live now s1"
    using has [OF s1] has [OF s2] by simp_all
  have "live now s ?k1 = None" "live now s ?k2 = None"
    using has [OF s1] has [OF s2] l1 by (simp_all del: not_None_eq)
  moreover have "n = (case live now s ?k3 of None \<Rightarrow> 1 | Some (v, _) \<Rightarrow> v + 1)"
    using incr [OF s3] l1 l2 by simp
  ultimately show ?thesis using n by (simp split: option.splits prod.splits)
qed

end

text \<open>A store whose operations never throw.\<close>

locale reliable_store = counter_store ops live for ops :: "'s store_ops" and live +
  assumes answers: "fst (hasLockout ops now k s) \<noteq> None" "fst (getTtlSeconds ops now k s) \<noteq> None"
    "fst (incrementWithExpiry ops now k ex s) \<noteq> None" "fst (setLockout ops now k d s) \<noteq> None"
    "fst (clearKeys ops now ks s) \<noteq> None"
begin

lemma runs:
  obtains b s1 where "hasLockout ops now k s = (Some b, s1)"
  using answers(1) [of now k s] by (cases "hasLockout ops now k s") auto

lemma bind_has: "bind_store (hasLockout ops now k s) f = f (the (fst (hasLockout ops now k s))) (snd (hasLockout ops now k s))"
  using answers(1) [of now k s] by (auto simp: bind_store_def split: option.splits prod.splits)

lemma bind_ttl: "bind_store (getTtlSeconds ops now k s) f = f (the (fst (getTtlSeconds ops now k s))) (snd (getTtlSeconds ops now k s))"
  using answers(2) [of now k s] by (auto simp: bind_store_def split: option.splits prod.splits)

lemma bind_incr: "bind_store (incrementWithExpiry ops now k ex s) f
    = f (the (fst (incrementWithExpiry ops now k ex s))) (snd (incrementWithExpiry ops now k ex s))"
  using answers(3) [of now k ex s] by (auto simp: bind_store_def split: option.splits prod.splits)

lemma bind_lock: "bind_store (lock_when_due ops p now k n l s) f = f () (snd (lock_when_due ops p now k n l s))"
  using answers(4) [of now k "calculateLockoutSeconds n l p" s]
  by (auto simp: bind_store_def lock_when_due_def split: option.splits prod.splits)

lemma body_answers: "fst (attempt_body ops sha p now i s) \<noteq> Inl None"
  by (simp add: attempt_body_def Let_def bind_has bind_ttl bind_incr)

lemma incr_live:
  "live t (snd (incrementWithExpiry ops now k ex s)) = (live t s)(k := if t < now + ex
     then Some (the (fst (incrementWithExpiry ops now k ex s)), now + ex) else None)" if "now \<le> t"
  using incr [of now k ex s] answers(3) [of now k ex s] that
  by (cases "incrementWithExpiry ops now k ex s") auto

lemma incr_value:
  "the (fst (incrementWithExpiry ops now k ex s)) = (case live now s k of None \<Rightarrow> 1 | Some (v, _) \<Rightarrow> v + 1)"
  using incr [of now k ex s] answers(3) [of now k ex s] by (cases "incrementWithExpiry ops now k ex s") auto

lemma lock_live:
  "live t (snd (lock_when_due ops p now k n l s)) =
     (if n \<ge> l then (live t s)(k := if t < now + calculateLockoutSeconds n l p
        then Some (1, now + calculateLockoutSeconds n l p) else None) else live t s)" if "now \<le> t"
  using lock [of now k "calculateLockoutSeconds n l p" s] answers(4) [of now k "calculateLockoutSeconds n l p" s] that
  by (cases "setLockout ops now k (calculateLockoutSeconds n l p) s") (auto simp: lock_when_due_def)

end

text \<open>The in-memory store keeps the contract.\<close>

definition memory_live :: "int \<Rightarrow> memory_store \<Rightarrow> string \<Rightarrow> (int \<times> int) option" where
  "memory_live t m k =
     (case m k of None \<Rightarrow> None | Some c \<Rightarrow> if t < ctr_expires c then Some (ctr_value c, ctr_expires c) else None)"

lemma purge_live: "now \<le> t \<Longrightarrow> memory_live t (purgeExpiredMemoryKey now k m) = memory_live t m"
  by (rule ext) (auto simp: memory_live_def purgeExpiredMemoryKey_def split: option.split)

lemma purge_lookup: "purgeExpiredMemoryKey now k m k = (case m k of None \<Rightarrow> None | Some c \<Rightarrow> if ctr_expires c \<le> now then None else Some c)"
  by (auto simp: purgeExpiredMemoryKey_def split: option.split)

lemma memory_clear_apply: "foldl (\<lambda>m k. m(k := None)) m ks k = (if k \<in> set ks then None else m k)"
  by (induction ks arbitrary: m) auto

interpretation memory: reliable_store memory_ops memory_live
proof
  fix now k s b s'
  assume "hasLockout memory_ops now k s = (Some b, s')"
  then show "b = (memory_live now s k \<noteq> None) \<and> (\<forall>t \<ge> now. memory_live t s' = memory_live t s)"
    by (auto simp: memory_ops_def memory_has_def Let_def purge_live)
      (auto simp: purge_lookup memory_live_def split: option.splits if_splits)
next
  fix now k s n s'
  assume "getTtlSeconds memory_ops now k s = (Some n, s')"
  then show "(case memory_live now s k of None \<Rightarrow> True | Some (v, ex) \<Rightarrow> n = ex - now)
      \<and> (\<forall>t \<ge> now. memory_live t s' = memory_live t s)"
    by (auto simp: memory_ops_def memory_ttl_def Let_def purge_live)
      (auto simp: purge_lookup memory_live_def split: option.splits if_splits)
next
  fix now k ex s n s'
  assume "incrementWithExpiry memory_ops now k ex s = (Some n, s')"
  then have n: "n = (case memory_live now s k of None \<Rightarrow> 1 | Some (v, _) \<Rightarrow> v + 1)"
    and s': "s' = (purgeExpiredMemoryKey now k s)(k \<mapsto> \<lparr>ctr_value = n, ctr_expires = now + ex\<rparr>)"
    by (auto simp: memory_ops_def memory_increment_def Let_def purge_lookup memory_live_def split: option.splits)
  have "memory_live t s' = (memory_live t s)(k := if t < now + ex then Some (n, now + ex) else None)" if "now \<le> t" for t
    using purge_live [OF that, of k s] by (auto simp: s' memory_live_def fun_eq_iff)
  with n show "n = (case memory_live now s k of None \<Rightarrow> 1 | Some (v, _) \<Rightarrow> v + 1)
      \<and> (\<forall>t \<ge> now. memory_live t s' = (memory_live t s)(k := if t < now + ex then Some (n, now + ex) else None))" by blast
next
  fix now k d s u s'
  assume "setLockout memory_ops now k d s = (Some u, s')"
  then have s': "s' = s(k \<mapsto> \<lparr>ctr_value = 1, ctr_expires = now + d\<rparr>)" by (simp add: memory_ops_def memory_set_def)
  show "\<forall>t \<ge> now. memory_live t s' = (memory_live t s)(k := if t < now + d then Some (1, now + d) else None)"
    by (auto simp: s' memory_live_def fun_eq_iff)
next
  fix now ks s u s'
  assume "clearKeys memory_ops now ks s = (Some u, s')"
  then have s': "s' = foldl (\<lambda>m k. m(k := None)) s ks" by (simp add: memory_ops_def memory_clear_def)
  show "\<forall>t \<ge> now. memory_live t s' = (\<lambda>k. if k \<in> set ks then None else memory_live t s k)"
    by (auto simp: s' memory_live_def fun_eq_iff memory_clear_apply)
next
  fix now t s k
  show "now \<le> t \<Longrightarrow> memory_live t s k =
      (case memory_live now s k of None \<Rightarrow> None | Some (v, ex) \<Rightarrow> if t < ex then Some (v, ex) else None)"
    by (auto simp: memory_live_def split: option.split)
qed (simp_all add: memory_ops_def memory_has_def memory_ttl_def memory_increment_def memory_set_def memory_clear_def Let_def)

section \<open>Repeated failures\<close>

lemma keys_distinct [simp]:
  "failureKey sha sc d v \<noteq> lockoutKey sha sc' d' v'" "lockoutKey sha sc' d' v' \<noteq> failureKey sha sc d v"
  "failureKey sha sc Identifier v \<noteq> failureKey sha sc Ip v'" "lockoutKey sha sc Identifier v \<noteq> lockoutKey sha sc Ip v'"
  "requestKey sha sc' v' \<noteq> lockoutKey sha sc d v" "lockoutKey sha sc d v \<noteq> requestKey sha sc' v'"
  by (simp_all add: failureKey_def lockoutKey_def requestKey_def)

abbreviation id_fail :: "(string \<Rightarrow> string) \<Rightarrow> auth_input \<Rightarrow> string" where
  "id_fail sha i \<equiv> failureKey sha (in_scope i) Identifier (normalizeIdentifier (in_identifier i))"

abbreviation id_lock :: "(string \<Rightarrow> string) \<Rightarrow> auth_input \<Rightarrow> string" where
  "id_lock sha i \<equiv> lockoutKey sha (in_scope i) Identifier (normalizeIdentifier (in_identifier i))"

abbreviation ip_lock :: "(string \<Rightarrow> string) \<Rightarrow> auth_input \<Rightarrow> string" where
  "ip_lock sha i \<equiv> lockoutKey sha (in_scope i) Ip (request_ip_of i)"

abbreviation ip_requests :: "(string \<Rightarrow> string) \<Rightarrow> auth_input \<Rightarrow> string" where
  "ip_requests sha i \<equiv> requestKey sha (in_scope i) (request_ip_of i)"

definition counted :: "(int \<times> int) option \<Rightarrow> int" where
  "counted c = (case c of None \<Rightarrow> 0 | Some (v, _) \<Rightarrow> v)"

text \<open>Failures (or attempts) of one input at the given times.\<close>

definition record_failures ::
  "'s store_ops \<Rightarrow> (string \<Rightarrow> string) \<Rightarrow> auth_env \<Rightarrow> auth_input \<Rightarrow> int list \<Rightarrow> 's \<Rightarrow> 's" where
  "record_failures ops sha e i ts s = foldl (\<lambda>s t. snd (recordAuthFailure ops sha e t i s)) s ts"

definition make_attempts ::
  "'s store_ops \<Rightarrow> (string \<Rightarrow> string) \<Rightarrow> auth_env \<Rightarrow> auth_input \<Rightarrow> int list \<Rightarrow> 's \<Rightarrow> 's" where
  "make_attempts ops sha e i ts s = foldl (\<lambda>s t. snd (assertAuthAttemptAllowed ops sha e t i s)) s ts"

text \<open>Times in order, each within \<open>w\<close> seconds of the one before.\<close>

definition spaced :: "int \<Rightarrow> int list \<Rightarrow> bool" where
  "spaced w ts = successively (\<lambda>a b. a \<le> b \<and> b < a + w) ts"

lemma spaced_snoc: "spaced w (ts @ [t]) \<longleftrightarrow> spaced w ts \<and> (ts = [] \<or> last ts \<le> t \<and> t < last ts + w)"
  by (auto simp: spaced_def successively_append_iff)

context reliable_store
begin

lemma failure_step:
  fixes s :: 's and sha :: "string \<Rightarrow> string" and e :: auth_env and i :: auth_input
  assumes "now \<le> t"
  defines "s' \<equiv> snd (recordAuthFailure ops sha e now i s)" and "m \<equiv> maxLockoutSeconds (defaultPolicy e)"
    and "n \<equiv> counted (live now s (id_fail sha i)) + 1"
  shows "live t s' (id_fail sha i) = (if t < now + m then Some (n, now + m) else None)"
    and "identifierFailureLimit (defaultPolicy e) \<le> n \<Longrightarrow>
      live t s' (id_lock sha i) =
        (let d = calculateLockoutSeconds n (identifierFailureLimit (defaultPolicy e)) (defaultPolicy e)
         in if t < now + d then Some (1, now + d) else None)"
proof -
  have n: "the (fst (incrementWithExpiry ops now (id_fail sha i) x s)) = n" for x
    by (auto simp: incr_value n_def counted_def split: option.split)
  show "live t s' (id_fail sha i) = (if t < now + m then Some (n, now + m) else None)"
    using assms(1)
    by (simp add: s'_def m_def recordAuthFailure_def failure_body_def Let_def bind_incr bind_lock
        lock_live incr_live n)
  show "live t s' (id_lock sha i) =
        (let d = calculateLockoutSeconds n (identifierFailureLimit (defaultPolicy e)) (defaultPolicy e)
         in if t < now + d then Some (1, now + d) else None)"
    if "identifierFailureLimit (defaultPolicy e) \<le> n"
    using assms(1) that
    by (simp add: s'_def recordAuthFailure_def failure_body_def Let_def bind_incr bind_lock
        lock_live incr_live n)
qed

lemma failures_counted:
  assumes "ts \<noteq> []" and "spaced (maxLockoutSeconds (defaultPolicy e)) ts"
    and "last ts \<le> t" and "t < last ts + maxLockoutSeconds (defaultPolicy e)"
    and "live (hd ts) s (id_fail sha i) = None"
  shows "counted (live t (record_failures ops sha e i ts s) (id_fail sha i)) = int (length ts)"
  using assms
proof (induction ts arbitrary: t rule: rev_induct)
  case (snoc t' ts)
  let ?s = "record_failures ops sha e i ts s"
  have c: "counted (live t' ?s (id_fail sha i)) = int (length ts)"
  proof (cases "ts = []")
    case True
    with snoc.prems(5) show ?thesis by (simp add: record_failures_def counted_def)
  next
    case False
    with snoc show ?thesis by (intro snoc.IH) (simp_all add: spaced_snoc)
  qed
  have run: "record_failures ops sha e i (ts @ [t']) s = snd (recordAuthFailure ops sha e t' i ?s)"
    by (simp add: record_failures_def)
  show ?case
    using failure_step(1) [where now = t' and t = t and sha = sha and e = e and i = i and s = ?s] snoc.prems(3,4) c by (simp add: run counted_def)
qed simp

lemma failures_lock_account:
  assumes "ts \<noteq> []" and "spaced (maxLockoutSeconds (defaultPolicy e)) ts"
    and "live (hd ts) s (id_fail sha i) = None"
    and "identifierFailureLimit (defaultPolicy e) \<le> int (length ts)"
    and "d = calculateLockoutSeconds (int (length ts)) (identifierFailureLimit (defaultPolicy e)) (defaultPolicy e)"
    and "last ts \<le> t" "t < last ts + d"
  shows "fst (assertAuthAttemptAllowed ops sha e t i (record_failures ops sha e i ts s)) = Inl (account_locked (last ts + d - t))"
proof -
  obtain ts' t' where ts: "ts = ts' @ [t']" using assms(1) by (metis append_butlast_last_id)
  let ?s = "record_failures ops sha e i ts' s"
  have c: "counted (live t' ?s (id_fail sha i)) + 1 = int (length ts)"
  proof (cases "ts' = []")
    case True
    with assms(3) show ?thesis by (simp add: record_failures_def counted_def ts)
  next
    case False
    with assms(2,3) show ?thesis by (simp add: failures_counted ts spaced_snoc)
  qed
  have run: "record_failures ops sha e i (ts' @ [t']) s = snd (recordAuthFailure ops sha e t' i ?s)"
    by (simp add: record_failures_def)
  have "live t (record_failures ops sha e i ts s) (id_lock sha i) = Some (1, last ts + d)"
    using failure_step(2) [where now = t' and t = t and sha = sha and e = e and i = i and s = ?s] assms(4-7) c by (simp add: run ts Let_def)
  note refused = locked_account_refused [OF this body_answers, of "defaultPolicy e"]
  obtain r s' where b: "attempt_body ops sha (defaultPolicy e) t i (record_failures ops sha e i ts s) = (r, s')"
    by (cases "attempt_body ops sha (defaultPolicy e) t i (record_failures ops sha e i ts s)")
  with refused show ?thesis by (simp add: assertAuthAttemptAllowed_def withProtectionStore_def)
qed

lemma attempt_step:
  assumes "now \<le> t" and "live now s (id_lock sha i) = None" and "live now s (ip_lock sha i) = None"
  shows "live t (snd (assertAuthAttemptAllowed ops sha e now i s)) =
      (live t s)(ip_requests sha i :=
         if t < now + requestWindowSeconds (defaultPolicy e)
         then Some (counted (live now s (ip_requests sha i)) + 1, now + requestWindowSeconds (defaultPolicy e)) else None)"
    and "fst (assertAuthAttemptAllowed ops sha e now i s) =
      (if counted (live now s (ip_requests sha i)) + 1 > requestLimit (defaultPolicy e)
       then Inl (rate_limited (requestWindowSeconds (defaultPolicy e))) else Inr ())"
proof -
  let ?s1 = "snd (hasLockout ops now (id_lock sha i) s)"
  let ?s2 = "snd (hasLockout ops now (ip_lock sha i) ?s1)"
  have has_run: "hasLockout ops now k u = (Some (live now u k \<noteq> None), snd (hasLockout ops now k u))
      \<and> (\<forall>t \<ge> now. live t (snd (hasLockout ops now k u)) = live t u)" for k u
  proof -
    obtain b u' where "hasLockout ops now k u = (Some b, u')" by (rule runs)
    then show ?thesis using has [of now k u b u'] by simp
  qed
  have l1: "\<forall>t \<ge> now. live t ?s1 = live t s" and l2: "\<forall>t \<ge> now. live t ?s2 = live t s"
    using has_run by auto
  have h1: "\<not> the (fst (hasLockout ops now (id_lock sha i) s))"
    using arg_cong [OF conjunct1 [OF has_run [of "id_lock sha i" s]], of fst] assms(2) by simp
  have h2: "\<not> the (fst (hasLockout ops now (ip_lock sha i) ?s1))"
    using arg_cong [OF conjunct1 [OF has_run [of "ip_lock sha i" ?s1]], of fst] l1 assms(3) by simp
  let ?inc = "incrementWithExpiry ops now (ip_requests sha i) (requestWindowSeconds (defaultPolicy e)) ?s2"
  have n: "the (fst ?inc) = counted (live now s (ip_requests sha i)) + 1"
    using l2 by (auto simp: incr_value counted_def split: option.split)
  have run: "attempt_body ops sha (defaultPolicy e) now i s =
      ((if the (fst ?inc) > requestLimit (defaultPolicy e)
        then Inl (Some (rate_limited (requestWindowSeconds (defaultPolicy e)))) else Inr ()), snd ?inc)"
    using h1 h2 by (simp add: attempt_body_def Let_def bind_has bind_incr)
  show "live t (snd (assertAuthAttemptAllowed ops sha e now i s)) =
      (live t s)(ip_requests sha i :=
         if t < now + requestWindowSeconds (defaultPolicy e)
         then Some (counted (live now s (ip_requests sha i)) + 1, now + requestWindowSeconds (defaultPolicy e)) else None)"
    using incr_live [OF assms(1)] l2 assms(1) by (simp add: assertAuthAttemptAllowed_def run n)
  show "fst (assertAuthAttemptAllowed ops sha e now i s) =
      (if counted (live now s (ip_requests sha i)) + 1 > requestLimit (defaultPolicy e)
       then Inl (rate_limited (requestWindowSeconds (defaultPolicy e))) else Inr ())"
    by (simp add: assertAuthAttemptAllowed_def run n withProtectionStore_def)
qed

lemma attempts_counted:
  assumes "ts \<noteq> []" and "spaced (requestWindowSeconds (defaultPolicy e)) ts"
    and "last ts \<le> t" and "t < last ts + requestWindowSeconds (defaultPolicy e)"
    and "\<forall>u \<ge> hd ts. live u s (id_lock sha i) = None \<and> live u s (ip_lock sha i) = None"
    and "live (hd ts) s (ip_requests sha i) = None"
  shows "counted (live t (make_attempts ops sha e i ts s) (ip_requests sha i)) = int (length ts)
    \<and> live t (make_attempts ops sha e i ts s) (id_lock sha i) = None
    \<and> live t (make_attempts ops sha e i ts s) (ip_lock sha i) = None
    \<and> hd ts \<le> last ts"
  using assms
proof (induction ts arbitrary: t rule: rev_induct)
  case (snoc t' ts)
  let ?s = "make_attempts ops sha e i ts s"
  have run: "make_attempts ops sha e i (ts @ [t']) s = snd (assertAuthAttemptAllowed ops sha e t' i ?s)"
    by (simp add: make_attempts_def)
  have c: "counted (live t' ?s (ip_requests sha i)) = int (length ts)
      \<and> live t' ?s (id_lock sha i) = None \<and> live t' ?s (ip_lock sha i) = None \<and> hd (ts @ [t']) \<le> t'"
  proof (cases "ts = []")
    case True
    with snoc.prems(5,6) show ?thesis by (simp add: make_attempts_def counted_def)
  next
    case False
    with snoc.prems have p: "spaced (requestWindowSeconds (defaultPolicy e)) ts" "last ts \<le> t'"
        "t' < last ts + requestWindowSeconds (defaultPolicy e)" by (simp_all add: spaced_snoc)
    from snoc.IH [OF False p] snoc.prems(5,6) False p(2) show ?thesis by simp
  qed
  then have later: "live t ?s (id_lock sha i) = None" "live t ?s (ip_lock sha i) = None"
    using ages [of t' t ?s] snoc.prems(3) by auto
  from attempt_step(1) [of t' t ?s sha i e] c snoc.prems(3,4) later show ?case
    by (simp add: run counted_def del: fun_upd_apply) (simp add: fun_upd_def)
qed simp

lemma window_slides:
  assumes "spaced (requestWindowSeconds (defaultPolicy e)) (ts @ [t])" and "ts \<noteq> []"
    and "\<forall>u \<ge> hd ts. live u s (id_lock sha i) = None \<and> live u s (ip_lock sha i) = None"
    and "live (hd ts) s (ip_requests sha i) = None"
    and "requestLimit (defaultPolicy e) \<le> int (length ts)"
  shows "fst (assertAuthAttemptAllowed ops sha e t i (make_attempts ops sha e i ts s))
       = Inl (rate_limited (requestWindowSeconds (defaultPolicy e)))"
proof -
  have p: "spaced (requestWindowSeconds (defaultPolicy e)) ts" "last ts \<le> t"
      "t < last ts + requestWindowSeconds (defaultPolicy e)" using assms(1,2) by (simp_all add: spaced_snoc)
  note c = attempts_counted [OF assms(2) p assms(3,4)]
  show ?thesis using c assms(5) by (subst attempt_step(2)) auto
qed

end

section \<open>Properties of the protection\<close>


definition production_env :: auth_env where
  "production_env = \<lparr>env_production = True, env_request_limit = None, env_request_window = None,
     env_identifier_limit = None, env_ip_limit = None, env_base_lockout = None, env_max_lockout = None\<rparr>"

definition demo_input :: auth_input where
  "demo_input = \<lparr>in_scope = CourierLogin, in_identifier = Some ''+62811'', in_ip = Some ''10.0.0.1''\<rparr>"

lemma production_policy [simp]:
  "defaultPolicy production_env = \<lparr>requestLimit = 30, requestWindowSeconds = 60, identifierFailureLimit = 5,
     ipFailureLimit = 30, baseLockoutSeconds = 900, maxLockoutSeconds = 3600\<rparr>"
  by (simp add: defaultPolicy_def production_env_def or_default_def)


text \<open>
  The request window slides with the traffic.  The window of the request counter starts again with
  every attempt, so attempts that are each less than a window apart are all counted together: once
  there have been \<open>requestLimit\<close> of them, over whatever time, the next one is refused with 429,
  although no window of \<open>requestWindowSeconds\<close> holds more than two of them.
\<close>

theorem request_window_slides:
  assumes "spaced (requestWindowSeconds (defaultPolicy e)) (ts @ [t])" and "ts \<noteq> []"
    and "\<forall>u \<ge> hd ts. memory_live u s (id_lock sha i) = None \<and> memory_live u s (ip_lock sha i) = None"
    and "memory_live (hd ts) s (ip_requests sha i) = None"
    and "requestLimit (defaultPolicy e) \<le> int (length ts)"
  shows "fst (assertAuthAttemptAllowed memory_ops sha e t i (make_attempts memory_ops sha e i ts s))
       = Inl (rate_limited (requestWindowSeconds (defaultPolicy e)))"
  by (rule memory.window_slides [OF assms])

lemma spaced_every: "0 \<le> d \<Longrightarrow> d < w \<Longrightarrow> spaced w (map (\<lambda>k. d * int k) [0..<n])"
proof (induction n)
  case (Suc n)
  have "n = 0 \<or> last (map (\<lambda>k. d * int k) [0..<n]) = d * int (n - 1)" by (cases n) simp_all
  then show ?case using Suc by (auto simp: spaced_snoc algebra_simps of_nat_diff)
qed (simp add: spaced_def)

text \<open>Thirty-one attempts, one every 59 seconds.\<close>

theorem request_window_slides_witness:
  "fst (assertAuthAttemptAllowed memory_ops id production_env (59 * 30) demo_input
      (make_attempts memory_ops id production_env demo_input (map (\<lambda>k. 59 * int k) [0..<30]) (\<lambda>_. None)))
   = Inl (rate_limited 60)"
proof -
  have "spaced 60 (map (\<lambda>k. 59 * int k) [0..<31])" by (rule spaced_every) simp_all
  moreover have "map (\<lambda>k. 59 * int k) [0..<31] = map (\<lambda>k. 59 * int k) [0..<30] @ [59 * 30]"
    by (simp add: upt_rec)
  ultimately show ?thesis
    using request_window_slides [of production_env "map (\<lambda>k. 59 * int k) [0..<30]" "59 * 30" "\<lambda>_. None" id demo_input]
    by (simp add: memory_live_def)
qed

text \<open>
  In production the protection fails closed.  For any store that keeps the contract, whether or not
  its operations throw, an attempt that is let through in production had no live lockout of its
  identifier or its address and was within the request limit.
\<close>

theorem production_fails_closed:
  assumes "counter_store ops live" and "env_production e"
    and "assertAuthAttemptAllowed ops sha e now i s = (Inr (), s')"
  shows "live now s (id_lock sha i) = None \<and> live now s (ip_lock sha i) = None
     \<and> counted (live now s (ip_requests sha i)) + 1 \<le> requestLimit (defaultPolicy e)"
  unfolding counted_def using counter_store.allowed_means_unlocked [OF assms] .

theorem production_fails_closed_witness:
  "memory_live 7 (\<lambda>_. None) (id_lock id demo_input) = None"
proof -
  obtain s' where "assertAuthAttemptAllowed memory_ops id production_env 7 demo_input (\<lambda>_. None) = (Inr (), s')"
    using memory.attempt_step(2) [of 7 7 "\<lambda>_. None" id demo_input production_env]
    by (cases "assertAuthAttemptAllowed memory_ops id production_env 7 demo_input (\<lambda>_. None)")
      (simp add: memory_live_def counted_def)
  from production_fails_closed [OF memory.counter_store_axioms _ this] show ?thesis
    by (simp add: production_env_def)
qed

text \<open>
  Lockouts grow and stay bounded.  With a non-negative base, a lockout lasts at least the smaller of
  base and maximum, at most the maximum and at most eight times the base, and never shrinks as the
  failures go on.
\<close>

theorem lockout_bounds:
  assumes "0 \<le> baseLockoutSeconds p"
  shows "min (baseLockoutSeconds p) (maxLockoutSeconds p) \<le> calculateLockoutSeconds n l p
     \<and> calculateLockoutSeconds n l p \<le> maxLockoutSeconds p
     \<and> calculateLockoutSeconds n l p \<le> 8 * baseLockoutSeconds p
     \<and> calculateLockoutSeconds n l p \<le> calculateLockoutSeconds (n + 1) l p"
proof -
  let ?k = "nat (max 0 (n - l))" and ?k' = "nat (max 0 (n + 1 - l))"
  let ?m = "min 8 (2 ^ ?k) :: int" and ?m' = "min 8 (2 ^ ?k') :: int"
  have "(2::int) ^ ?k \<le> 2 ^ ?k'" by (intro power_increasing nat_mono) simp_all
  then have "?m \<le> ?m'" by (rule min.mono [OF order_refl])
  then have m: "1 \<le> ?m" "?m \<le> 8" "?m \<le> ?m'" by simp_all
  have "baseLockoutSeconds p * 1 \<le> baseLockoutSeconds p * ?m"
    using assms m(1) by (rule mult_left_mono [rotated])
  moreover have "baseLockoutSeconds p * ?m \<le> baseLockoutSeconds p * 8"
    using assms m(2) by (rule mult_left_mono [rotated])
  moreover have "baseLockoutSeconds p * ?m \<le> baseLockoutSeconds p * ?m'"
    using assms m(3) by (rule mult_left_mono [rotated])
  moreover have "calculateLockoutSeconds n l p = min (maxLockoutSeconds p) (baseLockoutSeconds p * ?m)"
    "calculateLockoutSeconds (n + 1) l p = min (maxLockoutSeconds p) (baseLockoutSeconds p * ?m')"
    by (simp_all only: calculateLockoutSeconds_def Let_def)
  ultimately show ?thesis by (auto simp only: min_le_iff_disj min.bounded_iff mult_1_right mult.commute [of _ 8])
qed

theorem lockout_bounds_witness:
  "calculateLockoutSeconds 7 5 (defaultPolicy production_env) \<le> 3600"
  using lockout_bounds [of "defaultPolicy production_env" 7 5] by simp

end
