(* ===== verification/Idempotency.thy ===== *)
theory Idempotency
  imports JsonText
begin

text \<open>
  The idempotency middleware of the API (\<open>middleware/idempotencyRequirement.ts\<close>) over the table
  \<open>api_idempotency_keys\<close>: a request that repeats a key is answered with the stored response, and a
  key is never used for two different requests.

  The three statements of \<open>acquireOrReplay\<close> (insert, find, take over) and the persisting of the
  response are separate definitions.  \<open>requireIdempotencyKey\<close> runs them one after the other for a
  single request; the step relation \<open>idem_step\<close> interleaves the statements of several requests,
  since each is its own database query.  SHA-256 is a parameter; a rejected query is \<open>None\<close>.
  Times are milliseconds.
\<close>

section \<open>Requests\<close>

datatype header = One string | Many "string list"

record request_file =
  file_size :: int
  file_detected :: "string option"
  file_mime :: string
  file_checksum :: "string option"

record auth_user =
  user_id :: "string option"
  user_role :: "string option"

record http_request =
  hr_method :: string
  hr_url :: string
  hr_params :: json
  hr_query :: json
  hr_body :: "json option"
  hr_file :: "request_file option"
  hr_headers :: "string \<Rightarrow> header option"
  hr_user :: "auth_user option"
  hr_ip :: "string option"

definition getHeader :: "http_request \<Rightarrow> string \<Rightarrow> string option" where
  "getHeader rq name =
     (case hr_headers rq name of None \<Rightarrow> None
      | Some (One v) \<Rightarrow> Some v
      | Some (Many []) \<Rightarrow> None
      | Some (Many (v # _)) \<Rightarrow> Some v)"

text \<open>\<open>a || b\<close> on optional strings.\<close>

definition or_else :: "string option \<Rightarrow> string option \<Rightarrow> string option" where
  "or_else a b = (case a of Some (c # cs) \<Rightarrow> Some (c # cs) | _ \<Rightarrow> b)"

definition file_json :: "request_file option \<Rightarrow> json" where
  "file_json fl =
     (case fl of None \<Rightarrow> JNull
      | Some f \<Rightarrow> JObj
         [(''size'', JNum (show_int (file_size f))),
          (''detected_mime_type'', JStr (str_or (file_detected f) (file_mime f))),
          (''checksum_sha256'', case or_else (file_checksum f) None of None \<Rightarrow> JNull | Some c \<Rightarrow> JStr c)])"

definition request_payload :: "http_request \<Rightarrow> json" where
  "request_payload rq = JObj
     [(''method'', JStr (hr_method rq)),
      (''path'', JStr (split_head CHR ''?'' (hr_url rq))),
      (''params'', hr_params rq),
      (''query'', hr_query rq),
      (''body'', case hr_body rq of None \<Rightarrow> JNull | Some b \<Rightarrow> b),
      (''file'', file_json (hr_file rq))]"

definition hashRequest :: "(string \<Rightarrow> string) \<Rightarrow> http_request \<Rightarrow> string" where
  "hashRequest sha rq = sha (stableJson (request_payload rq))"

definition hashNullableHeader :: "(string \<Rightarrow> string) \<Rightarrow> string option \<Rightarrow> string option" where
  "hashNullableHeader sha v = map_option sha (or_else v None)"

text \<open>\<open>forwardedFor?.split(',')[0]?.trim() || req.ip || fallback\<close>.\<close>

definition ip_source :: "http_request \<Rightarrow> string \<Rightarrow> string" where
  "ip_source rq fallback =
     str_or (map_option (\<lambda>v. js_trim (split_head CHR '','' v)) (getHeader rq ''x-forwarded-for''))
       (str_or (hr_ip rq) fallback)"

definition resolveActor :: "(string \<Rightarrow> string) \<Rightarrow> http_request \<Rightarrow> string \<times> string" where
  "resolveActor sha rq =
     (case or_else (Option.bind (hr_user rq) user_id) None of
        Some uid \<Rightarrow> (uid, str_or (Option.bind (hr_user rq) user_role) ''authenticated_user'')
      | None \<Rightarrow> (''anonymous:'' @ sha (ip_source rq ''unknown''), ''anonymous''))"

section \<open>The table\<close>

datatype idem_state = Processing | Completed | Failed

record idem_row =
  ik_id :: uuid
  ik_scope :: string
  ik_actor :: string
  ik_actor_type :: string
  ik_key :: string
  ik_hash :: string
  ik_response_hash :: "string option"
  ik_status :: "int option"
  ik_body :: "json option"
  ik_state :: idem_state
  ik_device :: "string option"
  ik_ip_hash :: "string option"
  ik_agent_hash :: "string option"
  ik_locked_until :: instant

text \<open>Milliseconds of the lock, from the parsed environment variable (\<open>None\<close> when it is not a number).\<close>

definition lock_ms :: "int option \<Rightarrow> int" where
  "lock_ms env = 1000 * (case env of None \<Rightarrow> 120 | Some n \<Rightarrow> n)"

definition is_row :: "string \<Rightarrow> string \<Rightarrow> string \<Rightarrow> idem_row \<Rightarrow> bool" where
  "is_row scope actor key r \<longleftrightarrow> ik_scope r = scope \<and> ik_actor r = actor \<and> ik_key r = key"

definition findExistingRequest :: "string \<Rightarrow> string \<Rightarrow> string \<Rightarrow> idem_row list \<Rightarrow> idem_row option" where
  "findExistingRequest scope actor key rows = find (is_row scope actor key) rows"

section \<open>Acquire or replay\<close>

definition new_row ::
  "(string \<Rightarrow> string) \<Rightarrow> int option \<Rightarrow> instant \<Rightarrow> uuid \<Rightarrow> http_request \<Rightarrow> string \<Rightarrow> string \<Rightarrow> idem_row" where
  "new_row sha env now fresh rq scope key =
     \<lparr>ik_id = fresh, ik_scope = scope, ik_actor = fst (resolveActor sha rq),
      ik_actor_type = snd (resolveActor sha rq), ik_key = key, ik_hash = hashRequest sha rq,
      ik_response_hash = None, ik_status = None, ik_body = None, ik_state = Processing,
      ik_device = or_else (getHeader rq ''x-device-id'')
        (or_else (getHeader rq ''x-client-device-id'') (or_else (getHeader rq ''x-installation-id'') None)),
      ik_ip_hash = hashNullableHeader sha (Some (ip_source rq [])),
      ik_agent_hash = hashNullableHeader sha (getHeader rq ''user-agent''),
      ik_locked_until = now + lock_ms env\<rparr>"

text \<open>
  INSERT ... ON CONFLICT DO NOTHING: the id of the inserted row, or none when the key exists.  Values
  too long for their columns are refused by the database.
\<close>

definition insert_key ::
  "(string \<Rightarrow> string) \<Rightarrow> int option \<Rightarrow> instant \<Rightarrow> uuid \<Rightarrow> http_request \<Rightarrow> string \<Rightarrow> string \<Rightarrow> idem_row list
     \<Rightarrow> (uuid option \<times> idem_row list) option" where
  "insert_key sha env now fresh rq scope key rows =
     (let row = new_row sha env now fresh rq scope key in
      if length scope > 100 \<or> length (ik_actor_type row) > 40 then None
      else if list_ex (is_row scope (ik_actor row) key) rows then Some (None, rows)
      else Some (Some fresh, rows @ [row]))"

datatype reply = Refuse int string string | ReplayOf int json

datatype verdict = Answer reply | TakeOver uuid

definition state_conflict :: reply where
  "state_conflict = Refuse 409 ''IDEMPOTENCY_STATE_CONFLICT''
     ''Request idempotency sedang diproses. Coba ulang beberapa saat lagi.''"

definition key_conflict :: reply where
  "key_conflict = Refuse 409 ''IDEMPOTENCY_KEY_CONFLICT''
     ''X-Idempotency-Key sudah pernah dipakai untuk payload berbeda.''"

definition in_progress :: reply where
  "in_progress = Refuse 409 ''IDEMPOTENCY_REQUEST_IN_PROGRESS''
     ''Request yang sama masih diproses. Coba ulang sebentar lagi.''"

text \<open>What the handler does with the row it found.\<close>

definition judge :: "instant \<Rightarrow> string \<Rightarrow> idem_row option \<Rightarrow> verdict" where
  "judge now hash existing =
     (case existing of None \<Rightarrow> Answer state_conflict
      | Some r \<Rightarrow>
          if ik_hash r \<noteq> hash then Answer key_conflict
          else if ik_state r = Completed \<and> ik_status r \<notin> {None, Some 0} \<and> ik_body r \<noteq> None \<and> js_truthy (the (ik_body r))
            then Answer (ReplayOf (the (ik_status r)) (the (ik_body r)))
          else if ik_state r = Processing \<and> ik_locked_until r > now then Answer in_progress
          else TakeOver (ik_id r))"

definition take_over :: "int option \<Rightarrow> instant \<Rightarrow> string \<Rightarrow> string \<Rightarrow> string \<Rightarrow> idem_row list \<Rightarrow> idem_row list" where
  "take_over env now scope actor key rows =
     map (\<lambda>r. if is_row scope actor key r then r\<lparr>ik_state := Processing, ik_locked_until := now + lock_ms env\<rparr> else r) rows"

datatype acquisition = Proceed uuid | Answered reply | Threw

definition acquireOrReplay ::
  "(string \<Rightarrow> string) \<Rightarrow> int option \<Rightarrow> instant \<Rightarrow> uuid \<Rightarrow> http_request \<Rightarrow> string \<Rightarrow> string \<Rightarrow> idem_row list
     \<Rightarrow> acquisition \<times> idem_row list" where
  "acquireOrReplay sha env now fresh rq scope key rows =
     (let actor = fst (resolveActor sha rq) in
      case insert_key sha env now fresh rq scope key rows of
        None \<Rightarrow> (Threw, rows)
      | Some (Some i, rows') \<Rightarrow> (Proceed i, rows')
      | Some (None, _) \<Rightarrow>
          (case judge now (hashRequest sha rq) (findExistingRequest scope actor key rows) of
             Answer a \<Rightarrow> (Answered a, rows)
           | TakeOver i \<Rightarrow> (Proceed i, take_over env now scope actor key rows)))"

definition persistResponse :: "(string \<Rightarrow> string) \<Rightarrow> uuid \<Rightarrow> int \<Rightarrow> json option \<Rightarrow> idem_row list \<Rightarrow> idem_row list" where
  "persistResponse sha i status body rows =
     (let b = (case body of None \<Rightarrow> JNull | Some x \<Rightarrow> x) in
      map (\<lambda>r. if ik_id r = i then
          r\<lparr>ik_state := if status \<ge> 500 then Failed else Completed, ik_status := Some status,
            ik_body := Some b, ik_response_hash := Some (sha (stableJson b))\<rparr> else r) rows)"


section \<open>The middleware\<close>

text \<open>
  What the wrapped handler does: it answers with \<open>res.json\<close>, whose body is persisted (unless that
  query fails), or in another way, which the middleware does not see.
\<close>

datatype outcome = SentJson int "json option" | SentOther

datatype idem_answer = KeyRequired string | FromStore reply | NextError | Handled outcome

definition idempotency_key :: "http_request \<Rightarrow> string option" where
  "idempotency_key rq = or_else (map_option js_trim (getHeader rq ''x-idempotency-key'')) None"

definition persist_outcome :: "(string \<Rightarrow> string) \<Rightarrow> bool \<Rightarrow> uuid \<Rightarrow> outcome \<Rightarrow> idem_row list \<Rightarrow> idem_row list" where
  "persist_outcome sha persist_ok i a rows =
     (case a of SentJson status body \<Rightarrow> if persist_ok then persistResponse sha i status body rows else rows
      | SentOther \<Rightarrow> rows)"

definition requireIdempotencyKey ::
  "(string \<Rightarrow> string) \<Rightarrow> int option \<Rightarrow> bool \<Rightarrow> bool \<Rightarrow> instant \<Rightarrow> uuid \<Rightarrow> http_request \<Rightarrow> string
     \<Rightarrow> ('s \<Rightarrow> outcome \<times> 's) \<Rightarrow> idem_row list \<Rightarrow> 's \<Rightarrow> idem_answer \<times> idem_row list \<times> 's" where
  "requireIdempotencyKey sha env required persist_ok now fresh rq scope run rows s =
     (case idempotency_key rq of
        None \<Rightarrow> if required then (KeyRequired scope, rows, s)
          else (case run s of (a, s') \<Rightarrow> (Handled a, rows, s'))
      | Some key \<Rightarrow>
          (case acquireOrReplay sha env now fresh rq scope key rows of
             (Threw, rows') \<Rightarrow> (NextError, rows', s)
           | (Answered a, rows') \<Rightarrow> (FromStore a, rows', s)
           | (Proceed i, rows') \<Rightarrow>
               (case run s of (a, s') \<Rightarrow> (Handled a, persist_outcome sha persist_ok i a rows', s'))))"

section \<open>The table keeps its keys\<close>

definition idem_inv :: "idem_row list \<Rightarrow> bool" where
  "idem_inv rows \<longleftrightarrow> distinct (map ik_id rows) \<and> distinct (map (\<lambda>r. (ik_scope r, ik_actor r, ik_key r)) rows)"

text \<open>An update that leaves the identity of every row alone keeps the invariant and every lookup.\<close>

definition same_row :: "(idem_row \<Rightarrow> idem_row) \<Rightarrow> bool" where
  "same_row f \<longleftrightarrow> (\<forall>r. ik_id (f r) = ik_id r \<and> ik_scope (f r) = ik_scope r \<and> ik_actor (f r) = ik_actor r
     \<and> ik_key (f r) = ik_key r \<and> ik_hash (f r) = ik_hash r)"

lemma same_row_inv: "same_row f \<Longrightarrow> idem_inv (map f rows) = idem_inv rows"
  by (simp add: idem_inv_def same_row_def comp_def)

lemma same_row_is: "same_row f \<Longrightarrow> is_row scope actor key (f r) = is_row scope actor key r"
  by (simp add: is_row_def same_row_def)

lemma same_row_find: "same_row f \<Longrightarrow> findExistingRequest scope actor key (map f rows) = map_option f (findExistingRequest scope actor key rows)"
  by (induction rows) (simp_all add: findExistingRequest_def same_row_is)

definition take_row :: "int option \<Rightarrow> instant \<Rightarrow> string \<Rightarrow> string \<Rightarrow> string \<Rightarrow> idem_row \<Rightarrow> idem_row" where
  "take_row env now scope actor key r =
     (if is_row scope actor key r then r\<lparr>ik_state := Processing, ik_locked_until := now + lock_ms env\<rparr> else r)"

lemma take_over_map: "take_over env now scope actor key rows = map (take_row env now scope actor key) rows"
  by (simp add: take_over_def take_row_def)

lemma take_same: "same_row (take_row env now scope actor key)"
  by (simp add: same_row_def take_row_def)

definition answered_row :: "(string \<Rightarrow> string) \<Rightarrow> int \<Rightarrow> json \<Rightarrow> idem_row \<Rightarrow> idem_row" where
  "answered_row sha status b r =
     r\<lparr>ik_state := if status \<ge> 500 then Failed else Completed, ik_status := Some status,
       ik_body := Some b, ik_response_hash := Some (sha (stableJson b))\<rparr>"

definition persist_row :: "(string \<Rightarrow> string) \<Rightarrow> uuid \<Rightarrow> int \<Rightarrow> json \<Rightarrow> idem_row \<Rightarrow> idem_row" where
  "persist_row sha i status b r = (if ik_id r = i then answered_row sha status b r else r)"

lemma persist_map: "persistResponse sha i status (Some b) rows = map (persist_row sha i status b) rows"
  by (simp add: persistResponse_def persist_row_def answered_row_def)

lemma persist_same: "same_row (persist_row sha i status b)"
  by (simp add: same_row_def persist_row_def answered_row_def)

lemma persist_None: "persistResponse sha i status None rows = persistResponse sha i status (Some JNull) rows"
  by (simp add: persistResponse_def)

lemma find_row:
  "findExistingRequest scope actor key rows = Some r \<Longrightarrow> r \<in> set rows \<and> is_row scope actor key r"
  by (auto simp: findExistingRequest_def find_Some_iff)

lemma find_none: "findExistingRequest scope actor key rows = None \<longleftrightarrow> \<not> list_ex (is_row scope actor key) rows"
  by (auto simp: findExistingRequest_def find_None_iff list_ex_iff)

lemma unique_row:
  assumes "idem_inv rows" "r \<in> set rows" "r' \<in> set rows" "is_row scope actor key r" "is_row scope actor key r'"
  shows "r = r'"
  using assms by (auto simp: idem_inv_def is_row_def distinct_map dest: inj_onD)

lemma unique_id: "idem_inv rows \<Longrightarrow> r \<in> set rows \<Longrightarrow> r' \<in> set rows \<Longrightarrow> ik_id r = ik_id r' \<Longrightarrow> r = r'"
  by (auto simp: idem_inv_def distinct_map dest: inj_onD)

lemma find_unique:
  "idem_inv rows \<Longrightarrow> r \<in> set rows \<Longrightarrow> is_row scope actor key r \<Longrightarrow> findExistingRequest scope actor key rows = Some r"
proof (cases "findExistingRequest scope actor key rows")
  case None
  assume "r \<in> set rows" "is_row scope actor key r"
  with None show ?thesis by (auto simp: find_none list_ex_iff)
next
  case (Some r')
  assume "idem_inv rows" "r \<in> set rows" "is_row scope actor key r"
  then have "r' = r" using find_row [OF Some] unique_row by blast
  with Some show ?thesis by simp
qed

lemma new_row_is: "is_row scope (fst (resolveActor sha rq)) key (new_row sha env now fresh rq scope key)"
  by (simp add: is_row_def new_row_def)

lemma insert_inv:
  assumes "insert_key sha env now fresh rq scope key rows = Some (Some i, rows')" "idem_inv rows" "fresh \<notin> ik_id ` set rows"
  shows "idem_inv rows'" "i = fresh" "rows' = rows @ [new_row sha env now fresh rq scope key]"
    "\<not> list_ex (is_row scope (fst (resolveActor sha rq)) key) rows"
proof -
  from assms(1) show "i = fresh" and new: "rows' = rows @ [new_row sha env now fresh rq scope key]"
    and none: "\<not> list_ex (is_row scope (fst (resolveActor sha rq)) key) rows"
    by (auto simp: insert_key_def Let_def new_row_def split: if_splits)
  show "idem_inv rows'"
    using assms(2,3) none by (auto simp: new idem_inv_def new_row_def list_ex_iff is_row_def)
qed


section \<open>One request at a time: a memo table\<close>

text \<open>
  The promise of the middleware is a memo table: a map from scope, actor and key to the fingerprint
  and the answer of the first request.
\<close>

type_synonym memo = "string \<times> string \<times> string \<Rightarrow> (string \<times> int \<times> json) option"

definition memo_spec ::
  "string \<times> string \<times> string \<Rightarrow> string \<Rightarrow> ('s \<Rightarrow> outcome \<times> 's) \<Rightarrow> memo \<Rightarrow> 's \<Rightarrow> idem_answer \<times> memo \<times> 's" where
  "memo_spec k hash run m s =
     (case m k of
        Some (h, status, body) \<Rightarrow> (FromStore (if h \<noteq> hash then key_conflict else ReplayOf status body), m, s)
      | None \<Rightarrow>
          (case run s of (a, s') \<Rightarrow>
             (Handled a, (case a of SentJson status (Some b) \<Rightarrow> m(k \<mapsto> (hash, status, b)) | _ \<Rightarrow> m), s')))"

text \<open>A row that holds an answer which will be replayed.\<close>

definition settled :: "idem_row \<Rightarrow> bool" where
  "settled r \<longleftrightarrow> ik_state r = Completed \<and> ik_status r \<noteq> None \<and> ik_status r \<noteq> Some 0 \<and> ik_body r \<noteq> None \<and> js_truthy (the (ik_body r))"

definition memo_of :: "idem_row list \<Rightarrow> memo" where
  "memo_of rows = (\<lambda>(scope, actor, key). map_option (\<lambda>r. (ik_hash r, the (ik_status r), the (ik_body r)))
     (findExistingRequest scope actor key rows))"

lemma judge_settled:
  "settled r \<Longrightarrow> judge now hash (Some r) = Answer (if ik_hash r \<noteq> hash then key_conflict else ReplayOf (the (ik_status r)) (the (ik_body r)))"
  by (simp add: judge_def settled_def)

lemma memo_settles:
  assumes "idem_inv (rows @ [r])" "is_row scope actor key r" "\<not> list_ex (is_row scope actor key) rows"
  shows "memo_of (rows @ [r]) = (memo_of rows)((scope, actor, key) \<mapsto> (ik_hash r, the (ik_status r), the (ik_body r)))"
proof (rule ext, clarify)
  fix a b c
  show "memo_of (rows @ [r]) (a, b, c) = ((memo_of rows)((scope, actor, key) \<mapsto> (ik_hash r, the (ik_status r), the (ik_body r)))) (a, b, c)"
  proof (cases "(a, b, c) = (scope, actor, key)")
    case True
    then show ?thesis using find_unique [OF assms(1) _ assms(2)] by (simp add: memo_of_def)
  next
    case False
    with assms(2) have "\<not> is_row a b c r" by (auto simp: is_row_def)
    then have "findExistingRequest a b c (rows @ [r]) = findExistingRequest a b c rows"
      unfolding findExistingRequest_def by (induction rows) simp_all
    then show ?thesis using False by (auto simp: memo_of_def)
  qed
qed


definition demo_request :: http_request where
  "demo_request =
     \<lparr>hr_method = ''POST'', hr_url = ''/orders?x=1'', hr_params = JObj [], hr_query = JObj [],
      hr_body = Some (JObj [(''total'', JNum ''5'')]), hr_file = None,
      hr_headers = (\<lambda>n. if n = ''x-idempotency-key'' then Some (One ''k-1'') else None),
      hr_user = Some \<lparr>user_id = Some ''u1'', user_role = Some ''customer''\<rparr>, hr_ip = None\<rparr>"

lemma demo_key: "idempotency_key demo_request = Some ''k-1''"
  by (simp add: idempotency_key_def demo_request_def getHeader_def or_else_def js_trim_def is_space_def)

lemma demo_actor: "resolveActor sha demo_request = (''u1'', ''customer'')"
  by (simp add: resolveActor_def demo_request_def or_else_def str_or_def)


text \<open>
  An empty answer is not remembered.  When the handler answers a keyed request with a body that is
  not truthy (none, null, false, zero or an empty string), the stored row is completed but is never
  replayed: the same request runs the handler again, at any later time.
\<close>

theorem empty_answer_runs_again:
  assumes "idem_inv rows" and "fresh \<notin> ik_id ` set rows" and "fresh' \<notin> ik_id ` set rows \<union> {fresh}"
    and "idempotency_key rq = Some key" and "length scope \<le> 100" and "length (snd (resolveActor sha rq)) \<le> 40"
    and "findExistingRequest scope (fst (resolveActor sha rq)) key rows = None"
    and "run s = (SentJson status body, s')" and "status < 500"
    and "\<not> js_truthy (case body of None \<Rightarrow> JNull | Some b \<Rightarrow> b)"
    and "requireIdempotencyKey sha env required True now fresh rq scope run rows s = (a, rows1, s1)"
  shows "fst (requireIdempotencyKey sha env required True now' fresh' rq scope run rows1 s1) = Handled (fst (run s1))"
proof -
  let ?row = "new_row sha env now fresh rq scope key" and ?actor = "fst (resolveActor sha rq)"
  let ?b = "case body of None \<Rightarrow> JNull | Some b \<Rightarrow> b"
  have none: "\<not> list_ex (is_row scope ?actor key) rows" using assms(7) by (simp add: find_none)
  have ins: "insert_key sha env now fresh rq scope key rows = Some (Some fresh, rows @ [?row])"
    using none assms(5,6) by (simp add: insert_key_def new_row_def)
  let ?f = "persist_row sha fresh status ?b"
  have "persistResponse sha fresh status body (rows @ [?row]) = map ?f (rows @ [?row])"
    by (cases body) (simp_all add: persist_None persist_map del: map_append)
  with assms(4,8,11) ins have rows1: "rows1 = map ?f (rows @ [?row])"
    by (simp add: requireIdempotencyKey_def acquireOrReplay_def persist_outcome_def)
  have "findExistingRequest scope ?actor key (rows @ [?row]) = Some ?row"
    by (rule find_unique [OF insert_inv(1) [OF ins assms(1,2)]]) (simp_all add: new_row_is)
  then have found: "findExistingRequest scope ?actor key rows1 = Some (answered_row sha status ?b ?row)"
    using rows1 same_row_find [OF persist_same] by (simp add: persist_row_def new_row_def del: map_append)
  have "judge now' (hashRequest sha rq) (Some (answered_row sha status ?b ?row)) = TakeOver fresh"
    using assms(9,10) by (simp add: judge_def answered_row_def new_row_def)
  moreover have "list_ex (is_row scope ?actor key) rows1" using found find_none [of scope ?actor key rows1] by simp
  ultimately show ?thesis
    using assms(4-6) found
    by (simp add: requireIdempotencyKey_def acquireOrReplay_def insert_key_def new_row_def split: prod.splits)
qed

theorem empty_answer_runs_again_witness:
  "\<exists>rows1 n. requireIdempotencyKey id None True True 0 ''r1'' demo_request ''orders''
       (\<lambda>n. (SentJson 204 None, n + 1)) [] (0 :: nat) = (Handled (SentJson 204 None), rows1, n)
     \<and> fst (requireIdempotencyKey id None True True 9999 ''r2'' demo_request ''orders'' (\<lambda>n. (SentJson 204 None, n + 1)) rows1 n)
         = Handled (SentJson 204 None)"
proof -
  let ?run = "\<lambda>n :: nat. (SentJson 204 None, n + 1)"
  obtain a rows' n where r: "requireIdempotencyKey id None True True 0 ''r1'' demo_request ''orders'' ?run [] 0 = (a, rows', n)"
    using prod_cases3 by blast
  have "a = Handled (SentJson 204 None)"
    using r by (simp add: requireIdempotencyKey_def demo_key acquireOrReplay_def insert_key_def new_row_def demo_actor)
  moreover have "fst (requireIdempotencyKey id None True True 9999 ''r2'' demo_request ''orders'' ?run rows' n) = Handled (SentJson 204 None)"
    using empty_answer_runs_again [OF _ _ _ demo_key _ _ _ _ _ _ r, of "''r2''" 204 None 1 9999]
    by (simp add: demo_actor idem_inv_def findExistingRequest_def)
  ultimately show ?thesis using r by blast
qed


section \<open>Requests in parallel\<close>

text \<open>
  Where a request stands between its queries: arrived, past a conflicting insert, judged to take the
  key over, running its handler (with the time it was let in, and whether by its own insert), done.
  The clock of the service and of the database are one.
\<close>

datatype pc = Arrived | Conflicted | TakingOver uuid instant | Running uuid instant bool | Done

record idem_call =
  cl_req :: http_request
  cl_scope :: string
  cl_key :: string
  cl_pc :: pc

record idem_system =
  sys_now :: instant
  sys_rows :: "idem_row list"
  sys_calls :: "idem_call list"

definition call_at :: "idem_system \<Rightarrow> nat \<Rightarrow> pc \<Rightarrow> idem_call \<Rightarrow> bool" where
  "call_at S j p c \<longleftrightarrow> j < length (sys_calls S) \<and> sys_calls S ! j = c \<and> cl_pc c = p"

definition goto :: "idem_system \<Rightarrow> nat \<Rightarrow> pc \<Rightarrow> idem_row list \<Rightarrow> idem_system" where
  "goto S j p rows = S\<lparr>sys_rows := rows, sys_calls := (sys_calls S)[j := (sys_calls S ! j)\<lparr>cl_pc := p\<rparr>]\<rparr>"

definition call_actor :: "(string \<Rightarrow> string) \<Rightarrow> idem_call \<Rightarrow> string" where
  "call_actor sha c = fst (resolveActor sha (cl_req c))"

inductive idem_step :: "(string \<Rightarrow> string) \<Rightarrow> int option \<Rightarrow> idem_system \<Rightarrow> idem_system \<Rightarrow> bool" for sha env where
  pass: "sys_now S \<le> t \<Longrightarrow> idem_step sha env S (S\<lparr>sys_now := t\<rparr>)"
| arrive: "idem_step sha env S (S\<lparr>sys_calls := sys_calls S @ [\<lparr>cl_req = rq, cl_scope = scope, cl_key = key, cl_pc = Arrived\<rparr>]\<rparr>)"
| insert: "call_at S j Arrived c \<Longrightarrow> fresh \<notin> ik_id ` set (sys_rows S) \<Longrightarrow>
    insert_key sha env (sys_now S) fresh (cl_req c) (cl_scope c) (cl_key c) (sys_rows S) = Some (Some i, rows) \<Longrightarrow>
    idem_step sha env S (goto S j (Running i (sys_now S) True) rows)"
| conflict: "call_at S j Arrived c \<Longrightarrow>
    insert_key sha env (sys_now S) fresh (cl_req c) (cl_scope c) (cl_key c) (sys_rows S) = Some (None, rows) \<Longrightarrow>
    idem_step sha env S (goto S j Conflicted rows)"
| refused: "call_at S j Arrived c \<Longrightarrow>
    insert_key sha env (sys_now S) fresh (cl_req c) (cl_scope c) (cl_key c) (sys_rows S) = None \<Longrightarrow>
    idem_step sha env S (goto S j Done (sys_rows S))"
| answer: "call_at S j Conflicted c \<Longrightarrow>
    judge (sys_now S) (hashRequest sha (cl_req c)) (findExistingRequest (cl_scope c) (call_actor sha c) (cl_key c) (sys_rows S)) = Answer a \<Longrightarrow>
    idem_step sha env S (goto S j Done (sys_rows S))"
| decide: "call_at S j Conflicted c \<Longrightarrow>
    judge (sys_now S) (hashRequest sha (cl_req c)) (findExistingRequest (cl_scope c) (call_actor sha c) (cl_key c) (sys_rows S)) = TakeOver i \<Longrightarrow>
    idem_step sha env S (goto S j (TakingOver i (sys_now S)) (sys_rows S))"
| take: "call_at S j (TakingOver i t) c \<Longrightarrow>
    idem_step sha env S (goto S j (Running i t False) (take_over env (sys_now S) (cl_scope c) (call_actor sha c) (cl_key c) (sys_rows S)))"
| finish: "call_at S j (Running i t b) c \<Longrightarrow>
    idem_step sha env S (goto S j Done (persist_outcome sha ok i a (sys_rows S)))"

definition idem_reachable :: "(string \<Rightarrow> string) \<Rightarrow> int option \<Rightarrow> idem_system \<Rightarrow> bool" where
  "idem_reachable sha env S \<longleftrightarrow> (\<exists>t. (idem_step sha env)\<^sup>*\<^sup>* \<lparr>sys_now = t, sys_rows = [], sys_calls = []\<rparr> S)"

subsection \<open>The invariant\<close>

text \<open>The row a call works for, when and how it was let in.\<close>

fun held :: "pc \<Rightarrow> (uuid \<times> instant \<times> bool) option" where
  "held (TakingOver i t) = Some (i, t, False)"
| "held (Running i t b) = Some (i, t, b)"
| "held _ = None"

definition row_of :: "(string \<Rightarrow> string) \<Rightarrow> idem_call \<Rightarrow> idem_row \<Rightarrow> bool" where
  "row_of sha c = is_row (cl_scope c) (call_actor sha c) (cl_key c)"

definition same_key :: "(string \<Rightarrow> string) \<Rightarrow> idem_call \<Rightarrow> idem_call \<Rightarrow> bool" where
  "same_key sha c d \<longleftrightarrow> cl_scope c = cl_scope d \<and> call_actor sha c = call_actor sha d \<and> cl_key c = cl_key d"

text \<open>The lock a handler took at \<open>t\<close> on its row still stands, or its time is over.\<close>

definition lock_held :: "int option \<Rightarrow> instant \<Rightarrow> instant \<Rightarrow> idem_row \<Rightarrow> bool" where
  "lock_held env now t r \<longleftrightarrow> ik_state r = Processing \<and> t + lock_ms env \<le> ik_locked_until r \<or> t + lock_ms env \<le> now"

definition call_ok :: "(string \<Rightarrow> string) \<Rightarrow> int option \<Rightarrow> instant \<Rightarrow> idem_row list \<Rightarrow> idem_call \<Rightarrow> bool" where
  "call_ok sha env now rows c \<longleftrightarrow>
     (\<forall>i t b. held (cl_pc c) = Some (i, t, b) \<longrightarrow>
        t \<le> now \<and> (\<exists>r \<in> set rows. row_of sha c r \<and> ik_id r = i \<and> (b \<longrightarrow> lock_held env now t r)))"

definition pair_ok :: "(string \<Rightarrow> string) \<Rightarrow> int option \<Rightarrow> idem_call \<Rightarrow> idem_call \<Rightarrow> bool" where
  "pair_ok sha env c d \<longleftrightarrow>
     (\<forall>i t i' t' b. held (cl_pc c) = Some (i, t, True) \<longrightarrow> held (cl_pc d) = Some (i', t', b) \<longrightarrow> same_key sha c d \<longrightarrow>
        \<not> b \<and> t + lock_ms env \<le> t')"

definition system_inv :: "(string \<Rightarrow> string) \<Rightarrow> int option \<Rightarrow> idem_system \<Rightarrow> bool" where
  "system_inv sha env S \<longleftrightarrow> idem_inv (sys_rows S)
     \<and> (\<forall>c \<in> set (sys_calls S). call_ok sha env (sys_now S) (sys_rows S) c)
     \<and> (\<forall>j < length (sys_calls S). \<forall>k < length (sys_calls S). j \<noteq> k \<longrightarrow> pair_ok sha env (sys_calls S ! j) (sys_calls S ! k))"

lemma same_key_row: "same_key sha c d \<Longrightarrow> row_of sha c = row_of sha d"
  by (simp add: same_key_def row_of_def)

lemma row_of_same_key: "row_of sha c r \<Longrightarrow> row_of sha d r \<Longrightarrow> same_key sha c d"
  by (simp add: same_key_def row_of_def is_row_def)

lemma same_row_of: "same_row f \<Longrightarrow> row_of sha c (f r) = row_of sha c r"
  by (simp add: row_of_def same_row_is)

lemma goto_simps [simp]:
  "sys_now (goto S j p rows) = sys_now S" "sys_rows (goto S j p rows) = rows"
  "sys_calls (goto S j p rows) = (sys_calls S)[j := (sys_calls S ! j)\<lparr>cl_pc := p\<rparr>]"
  by (simp_all add: goto_def)

text \<open>Moving one call on: what has to be shown of its new place and of the rows it leaves.\<close>

lemma goto_inv:
  assumes "system_inv sha env S" "j < length (sys_calls S)" "idem_inv rows"
    and others: "\<And>k. k < length (sys_calls S) \<Longrightarrow> k \<noteq> j \<Longrightarrow>
      call_ok sha env (sys_now S) rows (sys_calls S ! k)
      \<and> pair_ok sha env (sys_calls S ! k) ((sys_calls S ! j)\<lparr>cl_pc := p\<rparr>)
      \<and> pair_ok sha env ((sys_calls S ! j)\<lparr>cl_pc := p\<rparr>) (sys_calls S ! k)"
    and own: "call_ok sha env (sys_now S) rows ((sys_calls S ! j)\<lparr>cl_pc := p\<rparr>)"
  shows "system_inv sha env (goto S j p rows)"
  unfolding system_inv_def
proof (intro conjI ballI allI impI)
  show "idem_inv (sys_rows (goto S j p rows))" using assms(3) by simp
next
  fix c assume "c \<in> set (sys_calls (goto S j p rows))"
  then obtain k where k: "k < length (sys_calls S)" "c = (sys_calls S)[j := (sys_calls S ! j)\<lparr>cl_pc := p\<rparr>] ! k"
    by (auto simp: in_set_conv_nth)
  show "call_ok sha env (sys_now (goto S j p rows)) (sys_rows (goto S j p rows)) c"
    using k others [of k] own assms(2) by (cases "k = j") simp_all
next
  fix k l assume "k < length (sys_calls (goto S j p rows))" "l < length (sys_calls (goto S j p rows))" "k \<noteq> l"
  then show "pair_ok sha env (sys_calls (goto S j p rows) ! k) (sys_calls (goto S j p rows) ! l)"
    using others [of k] others [of l] assms(1,2)
    by (cases "k = j"; cases "l = j") (simp_all add: system_inv_def)
qed

lemma pair_ok_unheld [simp]:
  "held p = None \<Longrightarrow> pair_ok sha env (c\<lparr>cl_pc := p\<rparr>) d" "held p = None \<Longrightarrow> pair_ok sha env c (d\<lparr>cl_pc := p\<rparr>)"
  by (simp_all add: pair_ok_def)

lemma call_ok_unheld [simp]: "held p = None \<Longrightarrow> call_ok sha env now rows (c\<lparr>cl_pc := p\<rparr>)"
  by (simp add: call_ok_def)

lemma goto_unheld:
  assumes "system_inv sha env S" "j < length (sys_calls S)" "held p = None" "idem_inv rows"
    and "\<And>k. k < length (sys_calls S) \<Longrightarrow> k \<noteq> j \<Longrightarrow> call_ok sha env (sys_now S) rows (sys_calls S ! k)"
  shows "system_inv sha env (goto S j p rows)"
  using assms by (intro goto_inv) simp_all

lemma inv_call:
  "system_inv sha env S \<Longrightarrow> k < length (sys_calls S) \<Longrightarrow> call_ok sha env (sys_now S) (sys_rows S) (sys_calls S ! k)"
  by (simp add: system_inv_def)

lemma inv_pair:
  "system_inv sha env S \<Longrightarrow> j < length (sys_calls S) \<Longrightarrow> k < length (sys_calls S) \<Longrightarrow> j \<noteq> k \<Longrightarrow>
     pair_ok sha env (sys_calls S ! j) (sys_calls S ! k)"
  by (simp add: system_inv_def)

lemma inv_rows: "system_inv sha env S \<Longrightarrow> idem_inv (sys_rows S)"
  by (simp add: system_inv_def)


lemma call_ok_map:
  assumes "call_ok sha env now rows c" "same_row f"
    and "\<And>r i t. held (cl_pc c) = Some (i, t, True) \<Longrightarrow> r \<in> set rows \<Longrightarrow> row_of sha c r \<Longrightarrow> ik_id r = i \<Longrightarrow> t \<le> now \<Longrightarrow>
      lock_held env now t r \<Longrightarrow> lock_held env now t (f r)"
  shows "call_ok sha env now (map f rows) c"
  unfolding call_ok_def
proof (intro allI impI)
  fix i t b assume h: "held (cl_pc c) = Some (i, t, b)"
  with assms(1) obtain r where "t \<le> now" "r \<in> set rows" "row_of sha c r" "ik_id r = i" "b \<longrightarrow> lock_held env now t r"
    by (auto simp: call_ok_def)
  moreover have "row_of sha c (f r) = row_of sha c r" "ik_id (f r) = ik_id r"
    using same_row_of [OF assms(2)] assms(2) by (simp_all add: same_row_def)
  ultimately show "t \<le> now \<and> (\<exists>r \<in> set (map f rows). row_of sha c r \<and> ik_id r = i \<and> (b \<longrightarrow> lock_held env now t r))"
    using assms(3) [of i t r] h by auto
qed

lemma call_ok_more: "call_ok sha env now rows c \<Longrightarrow> set rows \<subseteq> set rows' \<Longrightarrow> call_ok sha env now rows' c"
  unfolding call_ok_def by blast

lemma call_ok_later: "call_ok sha env now rows c \<Longrightarrow> now \<le> now' \<Longrightarrow> call_ok sha env now' rows c"
  unfolding call_ok_def lock_held_def by (meson order_trans)

lemma step_insert:
  assumes inv: "system_inv sha env S" and c: "call_at S j Arrived c" and fresh: "fresh \<notin> ik_id ` set (sys_rows S)"
    and ins: "insert_key sha env (sys_now S) fresh (cl_req c) (cl_scope c) (cl_key c) (sys_rows S) = Some (Some i, rows)"
  shows "system_inv sha env (goto S j (Running i (sys_now S) True) rows)"
proof (rule goto_inv [OF inv])
  note new = insert_inv [OF ins inv_rows [OF inv] fresh]
  show j: "j < length (sys_calls S)" using c by (simp add: call_at_def)
  show "idem_inv rows" by (rule new(1))
  let ?row = "new_row sha env (sys_now S) fresh (cl_req c) (cl_scope c) (cl_key c)"
  have cj: "sys_calls S ! j = c" using c by (simp add: call_at_def)
  have "row_of sha c ?row" using new_row_is by (simp add: row_of_def call_actor_def)
  then show "call_ok sha env (sys_now S) rows ((sys_calls S ! j)\<lparr>cl_pc := Running i (sys_now S) True\<rparr>)"
    using new(2,3) by (auto simp: call_ok_def cj row_of_def call_actor_def lock_held_def new_row_def)
  fix k assume k: "k < length (sys_calls S)" "k \<noteq> j"
  have unheld: "held (cl_pc (sys_calls S ! k)) = None" if "same_key sha (sys_calls S ! k) c"
  proof (rule ccontr)
    assume "held (cl_pc (sys_calls S ! k)) \<noteq> None"
    then obtain r where "r \<in> set (sys_rows S)" "row_of sha (sys_calls S ! k) r"
      using inv_call [OF inv k(1)] by (auto simp: call_ok_def)
    with new(4) same_key_row [OF that] show False by (auto simp: row_of_def call_actor_def list_ex_iff fun_eq_iff)
  qed
  then have "pair_ok sha env (sys_calls S ! k) (c\<lparr>cl_pc := p\<rparr>) \<and> pair_ok sha env (c\<lparr>cl_pc := p\<rparr>) (sys_calls S ! k)" for p
    by (auto simp: pair_ok_def same_key_def call_actor_def)
  then show "call_ok sha env (sys_now S) rows (sys_calls S ! k)
      \<and> pair_ok sha env (sys_calls S ! k) ((sys_calls S ! j)\<lparr>cl_pc := Running i (sys_now S) True\<rparr>)
      \<and> pair_ok sha env ((sys_calls S ! j)\<lparr>cl_pc := Running i (sys_now S) True\<rparr>) (sys_calls S ! k)"
    using call_ok_more [OF inv_call [OF inv k(1)], of rows] new(3) cj by auto
qed

lemma judge_TakeOver:
  assumes "judge now hash e = TakeOver i"
  obtains r where "e = Some r" "ik_id r = i" "\<not> (ik_state r = Processing \<and> now < ik_locked_until r)"
  using assms by (auto simp: judge_def split: option.splits if_splits)

lemma step_decide:
  assumes inv: "system_inv sha env S" and c: "call_at S j Conflicted c"
    and decision: "judge (sys_now S) (hashRequest sha (cl_req c)) (findExistingRequest (cl_scope c) (call_actor sha c) (cl_key c) (sys_rows S)) = TakeOver i"
  shows "system_inv sha env (goto S j (TakingOver i (sys_now S)) (sys_rows S))"
proof (rule goto_inv [OF inv _ inv_rows [OF inv]])
  from decision obtain r where r: "findExistingRequest (cl_scope c) (call_actor sha c) (cl_key c) (sys_rows S) = Some r"
      "ik_id r = i" "\<not> (ik_state r = Processing \<and> sys_now S < ik_locked_until r)" by (rule judge_TakeOver)
  then have row: "r \<in> set (sys_rows S)" "row_of sha c r" using find_row by (auto simp: row_of_def)
  show "j < length (sys_calls S)" using c by (simp add: call_at_def)
  have cj: "sys_calls S ! j = c" using c by (simp add: call_at_def)
  show "call_ok sha env (sys_now S) (sys_rows S) ((sys_calls S ! j)\<lparr>cl_pc := TakingOver i (sys_now S)\<rparr>)"
    using row r(2) by (auto simp: call_ok_def cj row_of_def call_actor_def)
  fix k assume k: "k < length (sys_calls S)" "k \<noteq> j"
  have "t + lock_ms env \<le> sys_now S"
    if h: "held (cl_pc (sys_calls S ! k)) = Some (i', t, True)" and same: "same_key sha (sys_calls S ! k) c" for i' t
  proof -
    obtain r' where r': "r' \<in> set (sys_rows S)" "row_of sha c r'" "lock_held env (sys_now S) t r'"
      using inv_call [OF inv k(1)] h same_key_row [OF same] by (auto simp: call_ok_def)
    then have "r' = r" using unique_row [OF inv_rows [OF inv]] row by (metis row_of_def)
    with r(3) r'(3) show ?thesis by (auto simp: lock_held_def)
  qed
  then show "call_ok sha env (sys_now S) (sys_rows S) (sys_calls S ! k)
      \<and> pair_ok sha env (sys_calls S ! k) ((sys_calls S ! j)\<lparr>cl_pc := TakingOver i (sys_now S)\<rparr>)
      \<and> pair_ok sha env ((sys_calls S ! j)\<lparr>cl_pc := TakingOver i (sys_now S)\<rparr>) (sys_calls S ! k)"
    using inv_call [OF inv k(1)] cj by (auto simp: pair_ok_def same_key_def call_actor_def)
qed

lemma step_take:
  assumes inv: "system_inv sha env S" and c: "call_at S j (TakingOver i t) c"
  shows "system_inv sha env (goto S j (Running i t False)
           (take_over env (sys_now S) (cl_scope c) (call_actor sha c) (cl_key c) (sys_rows S)))"
proof (rule goto_inv [OF inv])
  show j: "j < length (sys_calls S)" using c by (simp add: call_at_def)
  have cj: "sys_calls S ! j = c" "held (cl_pc c) = Some (i, t, False)" using c by (simp_all add: call_at_def)
  show "idem_inv (take_over env (sys_now S) (cl_scope c) (call_actor sha c) (cl_key c) (sys_rows S))"
    using inv_rows [OF inv] by (simp add: take_over_map same_row_inv [OF take_same])
  have ok: "call_ok sha env (sys_now S) (take_over env (sys_now S) (cl_scope c) (call_actor sha c) (cl_key c) (sys_rows S)) (sys_calls S ! k)"
    if k: "k < length (sys_calls S)" for k
    unfolding take_over_map
    by (rule call_ok_map [OF inv_call [OF inv k] take_same]) (auto simp: take_row_def lock_held_def)
  then show "call_ok sha env (sys_now S) (take_over env (sys_now S) (cl_scope c) (call_actor sha c) (cl_key c) (sys_rows S))
      ((sys_calls S ! j)\<lparr>cl_pc := Running i t False\<rparr>)"
    using ok [OF j] cj by (simp add: call_ok_def row_of_def call_actor_def)
  fix k assume k: "k < length (sys_calls S)" "k \<noteq> j"
  then show "call_ok sha env (sys_now S) (take_over env (sys_now S) (cl_scope c) (call_actor sha c) (cl_key c) (sys_rows S)) (sys_calls S ! k)
      \<and> pair_ok sha env (sys_calls S ! k) ((sys_calls S ! j)\<lparr>cl_pc := Running i t False\<rparr>)
      \<and> pair_ok sha env ((sys_calls S ! j)\<lparr>cl_pc := Running i t False\<rparr>) (sys_calls S ! k)"
    using ok [OF k(1)] inv_pair [OF inv k(1) j] inv_pair [OF inv j k(1)] k(2) cj
    by (simp add: pair_ok_def same_key_def call_actor_def)
qed

lemma step_finish:
  assumes inv: "system_inv sha env S" and c: "call_at S j (Running i t b) c"
  shows "system_inv sha env (goto S j Done (persist_outcome sha ok i a (sys_rows S)))"
proof -
  have j: "j < length (sys_calls S)" and cj: "sys_calls S ! j = c" "held (cl_pc c) = Some (i, t, b)"
    using c by (simp_all add: call_at_def)
  have persisted: "system_inv sha env (goto S j Done (map (persist_row sha i status x) (sys_rows S)))" for status x
  proof (rule goto_unheld [OF inv j])
    show "held Done = None" by simp
    show "idem_inv (map (persist_row sha i status x) (sys_rows S))"
      using inv_rows [OF inv] by (simp add: same_row_inv [OF persist_same])
    fix k assume k: "k < length (sys_calls S)" "k \<noteq> j"
    obtain r0 where r0: "t \<le> sys_now S" "r0 \<in> set (sys_rows S)" "row_of sha c r0" "ik_id r0 = i"
      using inv_call [OF inv j] cj by (auto simp: call_ok_def)
    show "call_ok sha env (sys_now S) (map (persist_row sha i status x) (sys_rows S)) (sys_calls S ! k)"
    proof (rule call_ok_map [OF inv_call [OF inv k(1)] persist_same])
      fix r i' t' assume h: "held (cl_pc (sys_calls S ! k)) = Some (i', t', True)" and r: "r \<in> set (sys_rows S)"
        "row_of sha (sys_calls S ! k) r" "ik_id r = i'" and l: "lock_held env (sys_now S) t' r"
      show "lock_held env (sys_now S) t' (persist_row sha i status x r)"
      proof (cases "ik_id r = i")
        case True
        then have "r = r0" using unique_id [OF inv_rows [OF inv]] r0 r by blast
        then have "same_key sha (sys_calls S ! k) c" using r r0 row_of_same_key by blast
        then have "t' + lock_ms env \<le> t" using inv_pair [OF inv k(1) j k(2)] h cj by (auto simp: pair_ok_def)
        then show ?thesis using r0(1) by (simp add: lock_held_def)
      next
        case False
        then show ?thesis using l by (simp add: persist_row_def)
      qed
    qed
  qed
  have kept: "system_inv sha env (goto S j Done (sys_rows S))"
    using inv inv_call [OF inv] by (intro goto_unheld [OF inv j _ inv_rows [OF inv]]) simp_all
  show ?thesis
  proof (cases a)
    case (SentJson status body)
    then show ?thesis using persisted kept by (cases body) (simp_all add: persist_outcome_def persist_None persist_map)
  next
    case SentOther
    then show ?thesis using kept by (simp add: persist_outcome_def)
  qed
qed

lemma insert_rows_kept: "insert_key sha env now fresh rq scope key rows = Some (None, rows') \<Longrightarrow> rows' = rows"
  by (auto simp: insert_key_def Let_def split: if_splits)

lemma idem_step_inv: "idem_step sha env S S' \<Longrightarrow> system_inv sha env S \<Longrightarrow> system_inv sha env S'"
proof (induction rule: idem_step.induct)
  case (pass S t)
  then show ?case using call_ok_later by (auto simp: system_inv_def)
next
  case (arrive S rq scope key)
  let ?new = "\<lparr>cl_req = rq, cl_scope = scope, cl_key = key, cl_pc = Arrived\<rparr>"
  have "pair_ok sha env ?new d \<and> pair_ok sha env d ?new" for d by (simp add: pair_ok_def)
  moreover have "call_ok sha env (sys_now S) (sys_rows S) ?new" by (simp add: call_ok_def)
  ultimately show ?case using arrive by (auto simp: system_inv_def nth_append less_Suc_eq)
next
  case (insert S j c fresh i rows)
  then show ?case by (intro step_insert)
next
  case (conflict S j c fresh rows)
  then show ?case using insert_rows_kept inv_call inv_rows
    by (intro goto_unheld) (simp_all add: call_at_def, metis+)
next
  case (refused S j c fresh)
  then show ?case using inv_call inv_rows by (intro goto_unheld) (simp_all add: call_at_def)
next
  case (answer S j c a)
  then show ?case using inv_call inv_rows by (intro goto_unheld) (simp_all add: call_at_def)
next
  case (decide S j c i)
  then show ?case by (intro step_decide)
next
  case (take S j i t c)
  then show ?case by (intro step_take)
next
  case (finish S j i t b c ok a)
  then show ?case by (intro step_finish)
qed

lemma reachable_system_inv: "idem_reachable sha env S \<Longrightarrow> system_inv sha env S"
proof -
  assume "idem_reachable sha env S"
  then obtain t where "(idem_step sha env)\<^sup>*\<^sup>* \<lparr>sys_now = t, sys_rows = [], sys_calls = []\<rparr> S" by (auto simp: idem_reachable_def)
  then show ?thesis
  proof (induction rule: rtranclp_induct)
    case base
    show ?case by (simp add: system_inv_def idem_inv_def)
  next
    case (step S S')
    then show ?case using idem_step_inv by blast
  qed
qed


subsection \<open>What the lock guarantees, and what it does not\<close>

text \<open>
  C12.  A first run is alone while its lock lasts.  However the queries of any number of requests
  interleave, while a handler that inserted its key at time \<open>t\<close> runs, every other handler of the
  same scope, actor and key was let in by a take-over, decided no sooner than the lock ended.
\<close>

theorem lock_excludes_second_run:
  assumes "idem_reachable sha env S" and "j < length (sys_calls S)" and "k < length (sys_calls S)" and "j \<noteq> k"
    and "cl_pc (sys_calls S ! j) = Running i t True" and "cl_pc (sys_calls S ! k) = Running i' t' b"
    and "same_key sha (sys_calls S ! j) (sys_calls S ! k)"
  shows "\<not> b \<and> t + lock_ms env \<le> t' \<and> t' \<le> sys_now S"
  using inv_pair [OF reachable_system_inv [OF assms(1)] assms(2-4)] inv_call [OF reachable_system_inv [OF assms(1)] assms(3)]
    assms(5-7) by (auto simp: pair_ok_def call_ok_def)

text \<open>Three calls of the demo request: the first runs, the others come when its lock has ended.\<close>

definition demo_call :: "pc \<Rightarrow> idem_call" where
  "demo_call p = \<lparr>cl_req = demo_request, cl_scope = ''orders'', cl_key = ''k-1'', cl_pc = p\<rparr>"

definition demo_row :: "instant \<Rightarrow> idem_row" where
  "demo_row t = (new_row id None 0 ''r1'' demo_request ''orders'' ''k-1'')\<lparr>ik_locked_until := t\<rparr>"

definition demo_system :: "instant \<Rightarrow> instant \<Rightarrow> pc list \<Rightarrow> idem_system" where
  "demo_system now t ps = \<lparr>sys_now = now, sys_rows = [demo_row t], sys_calls = map demo_call ps\<rparr>"

lemma demo_row_is: "is_row ''orders'' ''u1'' ''k-1'' (demo_row t)"
  by (simp add: demo_row_def is_row_def new_row_def demo_actor)

lemma demo_call_actor: "call_actor id (demo_call p) = ''u1''"
  by (simp add: demo_call_def call_actor_def demo_actor)

lemma demo_call_sel [simp]:
  "cl_req (demo_call p) = demo_request" "cl_scope (demo_call p) = ''orders''" "cl_key (demo_call p) = ''k-1''"
  "cl_pc (demo_call p) = p" "(demo_call p)\<lparr>cl_pc := q\<rparr> = demo_call q"
  by (simp_all add: demo_call_def)

lemma demo_start: "idem_reachable id None (demo_system 0 120000 [Running ''r1'' 0 True])"
proof -
  let ?S0 = "\<lparr>sys_now = 0, sys_rows = [], sys_calls = []\<rparr> :: idem_system"
  let ?S1 = "\<lparr>sys_now = 0, sys_rows = [], sys_calls = [demo_call Arrived]\<rparr>"
  have "idem_step id None ?S0 ?S1"
    using idem_step.arrive [of id None ?S0 demo_request "''orders''" "''k-1''"] by (simp add: demo_call_def)
  moreover have "insert_key id None 0 ''r1'' demo_request ''orders'' ''k-1'' [] = Some (Some ''r1'', [demo_row 120000])"
    by (simp add: insert_key_def new_row_def demo_actor demo_row_def lock_ms_def)
  then have "idem_step id None ?S1 (demo_system 0 120000 [Running ''r1'' 0 True])"
    using idem_step.insert [of ?S1 0 "demo_call Arrived" "''r1''" id None "''r1''" "[demo_row 120000]"]
    by (simp add: call_at_def goto_def demo_system_def)
  ultimately have "(idem_step id None)\<^sup>*\<^sup>* ?S0 (demo_system 0 120000 [Running ''r1'' 0 True])"
    by (rule rtranclp.rtrancl_into_rtrancl [OF r_into_rtranclp])
  then show ?thesis unfolding idem_reachable_def by blast
qed

lemma reachable_next: "idem_reachable sha env S \<Longrightarrow> idem_step sha env S S' \<Longrightarrow> idem_reachable sha env S'"
  unfolding idem_reachable_def by (meson rtranclp.rtrancl_into_rtrancl)

lemma demo_pass: "idem_reachable id None (demo_system now t ps) \<Longrightarrow> now \<le> now' \<Longrightarrow> idem_reachable id None (demo_system now' t ps)"
  by (erule reachable_next) (use idem_step.pass [of "demo_system now t ps" now' id None] in \<open>simp add: demo_system_def\<close>)

lemma demo_arrive: "idem_reachable id None (demo_system now t ps) \<Longrightarrow> idem_reachable id None (demo_system now t (ps @ [Arrived]))"
  by (erule reachable_next)
    (use idem_step.arrive [of id None "demo_system now t ps" demo_request "''orders''" "''k-1''"] in \<open>simp add: demo_system_def demo_call_def\<close>)

lemma demo_at: "j < length ps \<Longrightarrow> ps ! j = p \<Longrightarrow> call_at (demo_system now t ps) j p (demo_call p)"
  by (simp add: call_at_def demo_system_def)

lemma demo_goto: "j < length ps \<Longrightarrow> goto (demo_system now t ps) j q [demo_row u] = demo_system now u (ps[j := q])"
  by (simp add: goto_def demo_system_def map_update)

lemma demo_conflict:
  assumes "idem_reachable id None (demo_system now t ps)" "j < length ps" "ps ! j = Arrived"
  shows "idem_reachable id None (demo_system now t (ps[j := Conflicted]))"
proof -
  have "insert_key id None now ''x'' demo_request ''orders'' ''k-1'' [demo_row t] = Some (None, [demo_row t])"
    using demo_row_is by (simp add: insert_key_def new_row_def demo_actor)
  then have "idem_step id None (demo_system now t ps) (goto (demo_system now t ps) j Conflicted [demo_row t])"
    using idem_step.conflict [OF demo_at [OF assms(2,3), of now t], where sha = id and env = None and fresh = "''x''" and rows = "[demo_row t]"] by (simp add: demo_system_def)
  then show ?thesis using assms(1,2) reachable_next demo_goto by metis
qed

lemma demo_decide:
  assumes "idem_reachable id None (demo_system now t ps)" "j < length ps" "ps ! j = Conflicted" "t \<le> now"
  shows "idem_reachable id None (demo_system now t (ps[j := TakingOver ''r1'' now]))"
proof -
  have "judge now (hashRequest id demo_request) (findExistingRequest ''orders'' ''u1'' ''k-1'' [demo_row t]) = TakeOver ''r1''"
    using demo_row_is assms(4) by (simp add: findExistingRequest_def judge_def) (simp add: demo_row_def new_row_def)
  then have "idem_step id None (demo_system now t ps) (goto (demo_system now t ps) j (TakingOver ''r1'' now) [demo_row t])"
    using idem_step.decide [OF demo_at [OF assms(2,3), of now t], where sha = id and env = None and i = "''r1''"] by (simp add: demo_system_def demo_call_actor)
  then show ?thesis using assms(1,2) reachable_next demo_goto by metis
qed

lemma demo_take:
  assumes "idem_reachable id None (demo_system now t ps)" "j < length ps" "ps ! j = TakingOver ''r1'' u"
  shows "idem_reachable id None (demo_system now (now + 120000) (ps[j := Running ''r1'' u False]))"
proof -
  have "take_over None now ''orders'' ''u1'' ''k-1'' [demo_row t] = [demo_row (now + 120000)]"
    using demo_row_is by (simp add: take_over_def) (simp add: demo_row_def new_row_def lock_ms_def)
  then have "idem_step id None (demo_system now t ps) (goto (demo_system now t ps) j (Running ''r1'' u False) [demo_row (now + 120000)])"
    using idem_step.take [OF demo_at [OF assms(2,3), of now t], where sha = id and env = None] by (simp add: demo_system_def demo_call_actor)
  then show ?thesis using assms(1,2) reachable_next demo_goto by metis
qed

lemma demo_retry:
  "idem_reachable id None (demo_system 120000 240000 [Running ''r1'' 0 True, Running ''r1'' 120000 False, Running ''r1'' 120000 False])"
proof -
  have "idem_reachable id None (demo_system 120000 120000 [Running ''r1'' 0 True, Arrived, Arrived])"
    using demo_arrive [OF demo_arrive [OF demo_pass [OF demo_start, of 120000]]] by simp
  from demo_conflict [OF this, of 1] demo_conflict [of 120000 120000 "[Running ''r1'' 0 True, Conflicted, Arrived]" 2]
  have "idem_reachable id None (demo_system 120000 120000 [Running ''r1'' 0 True, Conflicted, Conflicted])" by simp
  from demo_decide [OF this, of 1] demo_decide [of 120000 120000 "[Running ''r1'' 0 True, TakingOver ''r1'' 120000, Conflicted]" 2]
  have "idem_reachable id None (demo_system 120000 120000 [Running ''r1'' 0 True, TakingOver ''r1'' 120000, TakingOver ''r1'' 120000])" by simp
  from demo_take [OF this, of 1] demo_take [of 120000 240000 "[Running ''r1'' 0 True, Running ''r1'' 120000 False, TakingOver ''r1'' 120000]" 2]
  show ?thesis by simp
qed

theorem lock_excludes_second_run_witness:
  "(0 :: int) + lock_ms None \<le> 120000"
  using lock_excludes_second_run [OF demo_retry, of 0 1 "''r1''" 0 "''r1''" 120000 False] by (simp add: demo_system_def same_key_def call_actor_def)

text \<open>
  An ended lock can be taken twice.  The take-over does not test again what was read: two repetitions
  that both read the row when its lock had ended both take it over, and the handler runs twice at
  the same time although the renewed lock stands.
\<close>

theorem expired_lock_taken_twice:
  "\<exists>S i t r. idem_reachable id None S \<and> length (sys_calls S) = 3
     \<and> cl_pc (sys_calls S ! 1) = Running i t False \<and> cl_pc (sys_calls S ! 2) = Running i t False
     \<and> same_key id (sys_calls S ! 1) (sys_calls S ! 2)
     \<and> r \<in> set (sys_rows S) \<and> ik_id r = i \<and> ik_state r = Processing \<and> sys_now S < ik_locked_until r"
proof -
  let ?S = "demo_system 120000 240000 [Running ''r1'' 0 True, Running ''r1'' 120000 False, Running ''r1'' 120000 False]"
  have "sys_rows ?S = [demo_row 240000]" "sys_now ?S = 120000" by (simp_all add: demo_system_def)
  moreover have "ik_id (demo_row 240000) = ''r1''" "ik_state (demo_row 240000) = Processing" "ik_locked_until (demo_row 240000) = 240000"
    by (simp_all add: demo_row_def new_row_def)
  ultimately show ?thesis
    using demo_retry by (intro exI [of _ ?S] exI [of _ "''r1''"] exI [of _ "120000"] exI [of _ "demo_row 240000"])
      (simp add: demo_system_def same_key_def call_actor_def)
qed

end
