(* ===== verification/JsDouble.thy ===== *)
theory JsDouble
  imports Prelude "HOL-Library.Log_Nat"
begin

text \<open>
  Binary double precision, as JavaScript computes with it: the exact rational result of an operation
  rounded to 53 significant bits, ties to even.  The amounts of the program stay far inside the
  range of normal doubles, so overflow and subnormal numbers do not occur.
\<close>

definition round_half_even :: "rat \<Rightarrow> int" where
  "round_half_even x =
     (let f = \<lfloor>x\<rfloor>; r = x - of_int f in
      if r < 1 / 2 then f else if r > 1 / 2 then f + 1 else if even f then f else f + 1)"

text \<open>A power of two with an integer exponent.\<close>

definition two_power :: "int \<Rightarrow> rat" where
  "two_power e = (if 0 \<le> e then 2 ^ nat e else 1 / 2 ^ nat (- e))"

text \<open>The exponent of the last place of a positive rational with 53 significant bits.\<close>

definition ulp_exponent :: "rat \<Rightarrow> int" where
  "ulp_exponent x =
     (let (n, d) = quotient_of x; e = bitlen n - bitlen d - 53 in
      if two_power 53 \<le> x / two_power e then e + 1 else e)"

definition dbl :: "rat \<Rightarrow> rat" where
  "dbl x =
     (if x = 0 then 0
      else let e = ulp_exponent \<bar>x\<bar> in sgn x * (of_int (round_half_even (\<bar>x\<bar> / two_power e)) * two_power e))"

text \<open>\<open>Math.ceil(amount * (percent / 100))\<close> on doubles.\<close>

definition percent_ceil :: "int \<Rightarrow> rat \<Rightarrow> int" where
  "percent_ceil amount percent = \<lceil>dbl (of_int amount * dbl (dbl percent / 100))\<rceil>"

lemma round_half_even_nonneg: "0 \<le> x \<Longrightarrow> 0 \<le> round_half_even x"
  by (simp add: round_half_even_def Let_def)

lemma two_power_pos: "0 < two_power e"
  by (simp add: two_power_def)

lemma dbl_nonneg: "0 \<le> x \<Longrightarrow> 0 \<le> dbl x"
  using round_half_even_nonneg two_power_pos [THEN less_imp_le]
  by (auto simp: dbl_def Let_def sgn_if intro!: mult_nonneg_nonneg divide_nonneg_nonneg)

lemma percent_ceil_nonneg:
  assumes "0 \<le> amount" "0 \<le> percent"
  shows "0 \<le> percent_ceil amount percent"
proof -
  have "0 \<le> dbl (of_int amount * dbl (dbl percent / 100))"
    using assms by (intro dbl_nonneg mult_nonneg_nonneg divide_nonneg_nonneg) simp_all
  then have "(-1 :: rat) < dbl (of_int amount * dbl (dbl percent / 100))" by linarith
  then show ?thesis by (simp add: percent_ceil_def)
qed

lemma percent_of_nothing: "percent_ceil 0 p = 0"
  by (simp add: percent_ceil_def dbl_def)

text \<open>The rounding error of the product shows: seven percent of 100000 is rounded up to 7001.\<close>

lemma seven_percent: "percent_ceil 100000 7 = 7001"
  by code_simp

end
