(* ===== verification/PromoStore.thy ===== *)
theory PromoStore
  imports JsDouble JsonText
begin

text \<open>
  The tables of the promotion engine (\<open>services/promoEngine.ts\<close>, migrations 20260607000001 and later):
  campaigns with their budget counters, the budget ledger, the redemptions, the margin policies,
  the delivery products and the audit trail.

  A ledger row is identified by its unique index (campaign, key, type) and a redemption by (campaign,
  key); their surrogate ids, the 32-bit range of the two counters, the image columns and the columns and
  statuses of advertisements are left out.
  Texts that the engine only stores (name, description, rules, copy) are kept as they are.
\<close>

section \<open>Rows\<close>

datatype campaign_status = Draft | PendingApproval | Scheduled | Active | Paused | Expired | Archived

datatype discount_type = Fixed | Percentage | ShippingDiscount | FreeInsurance

datatype component_scope = Shipping | Insurance | ServiceFee | Referral

record campaign =
  cp_id :: uuid
  cp_code :: string
  cp_name :: string
  cp_description :: string
  cp_status :: campaign_status
  cp_type :: discount_type
  cp_value :: int
  cp_percent :: rat
  cp_max_discount :: int
  cp_min_order :: int
  cp_services :: "string list"
  cp_scope :: component_scope
  cp_stacking_key :: string
  cp_stack_other :: bool
  cp_total :: int
  cp_daily :: int
  cp_reserved :: int
  cp_redeemed :: int
  cp_max_redemptions :: int
  cp_user_limit :: int
  cp_starts :: instant
  cp_ends :: instant
  cp_audience :: json
  cp_eligibility :: json
  cp_copy :: json
  cp_risk :: bool
  cp_risk_reason :: "string option"
  cp_approved :: "(uuid \<times> instant) option"
  cp_published :: "(uuid \<times> instant) option"
  cp_paused :: "(uuid \<times> instant) option"
  cp_created_by :: "uuid option"
  cp_updated_by :: "uuid option"
  cp_created :: instant
  cp_is_promo :: bool

datatype redemption_status = Reserved | Redeemed | Released | VoidRedemption

record redemption =
  rd_campaign :: uuid
  rd_user :: uuid
  rd_order :: "uuid option"
  rd_key :: string
  rd_service :: string
  rd_discount :: int
  rd_gross :: int
  rd_margin :: int
  rd_status :: redemption_status

datatype ledger_type = ReserveEntry | ReleaseEntry | RedeemEntry | Adjustment

datatype ledger_status = ActiveEntry | ReleasedEntry | RedeemedEntry | ExpiredEntry | VoidEntry

record budget_row =
  bl_campaign :: uuid
  bl_user :: uuid
  bl_order :: "uuid option"
  bl_type :: ledger_type
  bl_amount :: int
  bl_key :: string
  bl_status :: ledger_status

record margin_policy =
  mp_service :: string
  mp_vehicle :: "string option"
  mp_zone :: "string option"
  mp_min_amount :: int
  mp_min_percent :: rat
  mp_active :: bool

record service_product =
  sp_code :: string
  sp_courier_percent :: rat
  sp_courier_min :: int
  sp_mdr :: rat
  sp_ppn :: rat

record promo_audit =
  pa_campaign :: uuid
  pa_actor :: "uuid option"
  pa_role :: "string option"
  pa_action :: string
  pa_reason :: string

record promo_store =
  campaigns :: "campaign list"
  redemptions :: "redemption list"
  budget :: "budget_row list"
  policies :: "margin_policy list"
  products :: "service_product list"
  promo_audits :: "promo_audit list"

section \<open>Requests\<close>

text \<open>The parsed request of a validation; ids are well-formed.\<close>

record promo_input =
  pi_code :: "string option"
  pi_campaign :: "uuid option"
  pi_codes :: "string list option"
  pi_service :: string
  pi_vehicle :: "string option"
  pi_zone :: "string option"
  pi_gross :: int
  pi_insurance :: int
  pi_fee :: "int option"
  pi_tax :: "int option"
  pi_key :: "string option"
  pi_order :: "uuid option"

definition service_char :: "char \<Rightarrow> bool" where
  "service_char c = (is_digit c \<or> c \<in> set ''abcdefghijklmnopqrstuvwxyzABCDEFGHIJKLMNOPQRSTUVWXYZ_-'')"

definition amount_ok :: "int \<Rightarrow> bool" where
  "amount_ok n \<longleftrightarrow> 0 \<le> n \<and> n \<le> 1000000000"

definition text_ok :: "nat \<Rightarrow> nat \<Rightarrow> string \<Rightarrow> bool" where
  "text_ok low high s \<longleftrightarrow> low \<le> length (js_trim s) \<and> length (js_trim s) \<le> high"

text \<open>An optional field is checked when it is given.\<close>

fun given :: "('a \<Rightarrow> bool) \<Rightarrow> 'a option \<Rightarrow> bool" where
  "given P None = True"
| "given P (Some x) = P x"

text \<open>\<open>validationSchema\<close>.\<close>

definition validation_ok :: "promo_input \<Rightarrow> bool" where
  "validation_ok i \<longleftrightarrow>
     given (text_ok 0 40) (pi_code i)
     \<and> given (\<lambda>cs. 1 \<le> length cs \<and> length cs \<le> 5 \<and> list_all (text_ok 3 40) cs) (pi_codes i)
     \<and> text_ok 2 50 (pi_service i) \<and> list_all service_char (js_trim (pi_service i))
     \<and> given (text_ok 0 40) (pi_vehicle i) \<and> given (text_ok 0 80) (pi_zone i)
     \<and> amount_ok (pi_gross i) \<and> amount_ok (pi_insurance i)
     \<and> given amount_ok (pi_fee i) \<and> given amount_ok (pi_tax i)
     \<and> given (text_ok 8 120) (pi_key i)
     \<and> (str_or (pi_code i) [] \<noteq> [] \<or> pi_campaign i \<noteq> None \<or> pi_codes i \<noteq> None)"

text \<open>The schema trims the texts it accepts.\<close>

definition trimmed :: "promo_input \<Rightarrow> promo_input" where
  "trimmed i = i\<lparr>pi_code := map_option js_trim (pi_code i), pi_codes := map_option (map js_trim) (pi_codes i),
     pi_service := js_trim (pi_service i), pi_vehicle := map_option js_trim (pi_vehicle i),
     pi_zone := map_option js_trim (pi_zone i), pi_key := map_option js_trim (pi_key i)\<rparr>"

section \<open>Queries\<close>

definition find_campaign :: "promo_store \<Rightarrow> uuid \<Rightarrow> campaign option" where
  "find_campaign s i = find (\<lambda>c. cp_id c = i) (campaigns s)"

definition null_or :: "string option \<Rightarrow> (string \<Rightarrow> bool) \<Rightarrow> bool" where
  "null_or v P = (case v of None \<Rightarrow> True | Some x \<Rightarrow> x = [] \<or> P x)"

definition usable_campaign :: "instant \<Rightarrow> promo_input \<Rightarrow> campaign \<Rightarrow> bool" where
  "usable_campaign now i c \<longleftrightarrow>
     cp_is_promo c \<and> cp_status c = Active \<and> cp_starts c \<le> now \<and> now < cp_ends c
     \<and> (cp_total c = 0 \<or> cp_reserved c + cp_redeemed c < cp_total c)
     \<and> null_or (pi_campaign i) (\<lambda>x. cp_id c = x) \<and> null_or (pi_code i) (\<lambda>x. cp_code c = toUpperCase x)
     \<and> pi_service i \<in> set (cp_services c)"

text \<open>ORDER BY created_at DESC LIMIT 1.\<close>

definition findCampaignForValidation :: "instant \<Rightarrow> promo_input \<Rightarrow> promo_store \<Rightarrow> campaign option" where
  "findCampaignForValidation now i s =
     (case sort_key (\<lambda>c. - cp_created c) (filter (usable_campaign now i) (campaigns s)) of
        [] \<Rightarrow> None | c # _ \<Rightarrow> Some c)"

definition policy_applies :: "promo_input \<Rightarrow> service_product \<Rightarrow> margin_policy \<Rightarrow> bool" where
  "policy_applies i sp mp \<longleftrightarrow> mp_service mp = sp_code sp \<and> mp_active mp
     \<and> (case mp_vehicle mp of None \<Rightarrow> True | Some v \<Rightarrow> str_or (pi_vehicle i) [] = v \<and> v \<noteq> [])
     \<and> (case mp_zone mp of None \<Rightarrow> True | Some z \<Rightarrow> str_or (pi_zone i) [] = z \<and> z \<noteq> [])"

definition policy_rank :: "margin_policy \<Rightarrow> nat" where
  "policy_rank mp = 2 * (if mp_vehicle mp = None then 1 else 0) + (if mp_zone mp = None then 1 else 0)"

definition fetchServiceAndPolicy :: "promo_input \<Rightarrow> promo_store \<Rightarrow> (service_product \<times> margin_policy) option" where
  "fetchServiceAndPolicy i s =
     (case sort_key (\<lambda>p. policy_rank (snd p))
         [(sp, mp). sp \<leftarrow> products s, sp_code sp = pi_service i, mp \<leftarrow> policies s, policy_applies i sp mp] of
        [] \<Rightarrow> None | p # _ \<Rightarrow> Some p)"

definition live :: "redemption \<Rightarrow> bool" where
  "live r \<longleftrightarrow> rd_status r = Reserved \<or> rd_status r = Redeemed"

text \<open>The live redemptions of a user in a campaign, without those of a key.\<close>

definition other_uses :: "promo_store \<Rightarrow> uuid \<Rightarrow> uuid \<Rightarrow> string option \<Rightarrow> int" where
  "other_uses s cid user key =
     int (length (filter (\<lambda>r. rd_campaign r = cid \<and> rd_user r = user \<and> live r \<and> null_or key (\<lambda>k. rd_key r \<noteq> k)) (redemptions s)))"

definition has_live_use :: "promo_store \<Rightarrow> uuid \<Rightarrow> uuid \<Rightarrow> string \<Rightarrow> bool" where
  "has_live_use s cid user key =
     list_ex (\<lambda>r. rd_campaign r = cid \<and> rd_user r = user \<and> rd_key r = key \<and> live r) (redemptions s)"

section \<open>Discount and economics\<close>

definition calculateDiscount :: "campaign \<Rightarrow> promo_input \<Rightarrow> int" where
  "calculateDiscount c i =
     (let gross = pi_gross i;
          discount = (case cp_type c of
              Percentage \<Rightarrow> percent_ceil gross (cp_percent c)
            | FreeInsurance \<Rightarrow> pi_insurance i
            | _ \<Rightarrow> cp_value c);
          capped = (if cp_max_discount c > 0 then min discount (cp_max_discount c) else discount)
      in max 0 (min capped gross))"

record economics =
  ec_gross :: int
  ec_discount :: int
  ec_fee :: int
  ec_tax :: int
  ec_insurance :: int
  ec_courier :: int
  ec_margin :: int
  ec_margin_percent :: rat
  ec_min_amount :: int
  ec_min_percent :: rat

definition promo_economics :: "service_product \<Rightarrow> margin_policy \<Rightarrow> promo_input \<Rightarrow> int \<Rightarrow> economics" where
  "promo_economics sp mp i discount =
     (let gross = pi_gross i;
          fee = (case pi_fee i of Some f \<Rightarrow> f | None \<Rightarrow> percent_ceil gross (sp_mdr sp));
          tax = (case pi_tax i of Some t \<Rightarrow> t | None \<Rightarrow> percent_ceil gross (sp_ppn sp));
          pool = max 0 (gross - fee - tax - pi_insurance i);
          courier = max (sp_courier_min sp) (percent_ceil pool (sp_courier_percent sp));
          margin = max 0 (gross - fee - tax - pi_insurance i - courier - discount);
          percent = (if gross > 0 then dbl (dbl (of_int margin / of_int gross) * 100) else 0)
      in \<lparr>ec_gross = gross, ec_discount = discount, ec_fee = fee, ec_tax = tax, ec_insurance = pi_insurance i,
          ec_courier = courier, ec_margin = margin, ec_margin_percent = percent,
          ec_min_amount = mp_min_amount mp, ec_min_percent = dbl (mp_min_percent mp)\<rparr>)"

definition margin_too_low :: "economics \<Rightarrow> bool" where
  "margin_too_low e \<longleftrightarrow> ec_margin e < ec_min_amount e \<or> ec_margin_percent e < ec_min_percent e"

definition promo_audit_event :: "uuid \<Rightarrow> uuid option \<Rightarrow> string option \<Rightarrow> string \<Rightarrow> string \<Rightarrow> promo_store \<Rightarrow> promo_store" where
  "promo_audit_event cid actor role action reason s =
     s\<lparr>promo_audits := promo_audits s @ [\<lparr>pa_campaign = cid, pa_actor = actor, pa_role = role, pa_action = action, pa_reason = reason\<rparr>]\<rparr>"

text \<open>The discount is never negative and never more than the order is worth.\<close>

lemma discount_bounds: "0 \<le> pi_gross i \<Longrightarrow> 0 \<le> calculateDiscount c i \<and> calculateDiscount c i \<le> pi_gross i"
  by (simp add: calculateDiscount_def Let_def)

lemma discount_cap: "0 < cp_max_discount c \<Longrightarrow> calculateDiscount c i \<le> cp_max_discount c"
  by (simp add: calculateDiscount_def Let_def)

section \<open>A small store for the witnesses\<close>

definition demo_campaign :: campaign where
  "demo_campaign =
     \<lparr>cp_id = ''c1'', cp_code = ''HEMAT'', cp_name = ''Hemat'', cp_description = [], cp_status = Active, cp_type = Fixed,
      cp_value = 5000, cp_percent = 0, cp_max_discount = 0, cp_min_order = 0, cp_services = [''bike''], cp_scope = Shipping,
      cp_stacking_key = ''bike'', cp_stack_other = True, cp_total = 10000, cp_daily = 0, cp_reserved = 0, cp_redeemed = 0,
      cp_max_redemptions = 0, cp_user_limit = 1, cp_starts = 0, cp_ends = 1000, cp_audience = JObj [], cp_eligibility = JObj [],
      cp_copy = JObj [], cp_risk = True, cp_risk_reason = None, cp_approved = Some (''boss'', 0), cp_published = None,
      cp_paused = None, cp_created_by = None, cp_updated_by = None, cp_created = 0, cp_is_promo = True\<rparr>"

definition demo_promos :: promo_store where
  "demo_promos =
     \<lparr>campaigns = [demo_campaign], redemptions = [], budget = [],
      policies = [\<lparr>mp_service = ''bike'', mp_vehicle = None, mp_zone = None, mp_min_amount = 0, mp_min_percent = 0, mp_active = True\<rparr>],
      products = [\<lparr>sp_code = ''bike'', sp_courier_percent = 0, sp_courier_min = 0, sp_mdr = 0, sp_ppn = 0\<rparr>],
      promo_audits = []\<rparr>"

definition demo_checkout :: promo_input where
  "demo_checkout =
     \<lparr>pi_code = Some ''HEMAT'', pi_campaign = None, pi_codes = None, pi_service = ''bike'', pi_vehicle = None, pi_zone = None,
      pi_gross = 20000, pi_insurance = 0, pi_fee = Some 0, pi_tax = Some 0, pi_key = Some ''key-0001'', pi_order = None\<rparr>"

end
