(* ===== verification/PromoCheckout.thy ===== *)
theory PromoCheckout
  imports PromoStore "HOL-Library.Product_Lexorder"
begin

text \<open>
  Promotions at checkout (\<open>services/promoEngine.ts\<close>): quoting, reserving and redeeming one campaign,
  releasing a reservation, choosing which campaigns combine, and reserving a combination.

  A validation reads first and then writes in a transaction of its own: \<open>quote_promo\<close> is the reading
  part, \<open>commit_promo\<close> the transaction, and between the two other requests may run.  An error is its
  HTTP status with its message; a failed transaction leaves the tables as they were.
\<close>

datatype promo_mode = Quote | Reserve | Redeem

type_synonym promo_error = "nat \<times> string"

record promo_result =
  pr_eligible :: bool
  pr_reason :: "string option"
  pr_campaign :: "campaign option"
  pr_discount :: int
  pr_economics :: "economics option"

section \<open>Quoting\<close>

definition refuse_promo :: "string \<Rightarrow> campaign option \<Rightarrow> economics option \<Rightarrow> promo_result" where
  "refuse_promo reason c e =
     \<lparr>pr_eligible = False, pr_reason = Some reason, pr_campaign = c, pr_discount = 0, pr_economics = e\<rparr>"

definition budget_left :: "campaign \<Rightarrow> int" where
  "budget_left c = cp_total c - cp_reserved c - cp_redeemed c"

definition quote_promo :: "instant \<Rightarrow> promo_mode \<Rightarrow> uuid \<Rightarrow> promo_input \<Rightarrow> promo_store \<Rightarrow> promo_result" where
  "quote_promo now mode user i s =
     (case findCampaignForValidation now i s of
        None \<Rightarrow> refuse_promo ''Promo tidak tersedia untuk layanan ini.'' None None
      | Some c \<Rightarrow>
          if pi_gross i < cp_min_order c then refuse_promo ''Nilai order belum memenuhi minimum promo.'' (Some c) None
          else (case fetchServiceAndPolicy i s of
              None \<Rightarrow> refuse_promo ''Promo belum siap untuk layanan ini.'' (Some c) None
            | Some (sp, mp) \<Rightarrow>
                if other_uses s (cp_id c) user (pi_key i) \<ge> cp_user_limit c
                then refuse_promo ''Batas penggunaan promo sudah tercapai.'' (Some c) None
                else
                  let discount = calculateDiscount c i;
                      e = promo_economics sp mp i discount;
                      replay = mode \<noteq> Quote \<and> str_or (pi_key i) [] \<noteq> [] \<and> has_live_use s (cp_id c) user (str_or (pi_key i) [])
                  in if margin_too_low e then refuse_promo ''Promo tidak memenuhi batas margin layanan.'' (Some c) (Some e)
                     else if cp_total c > 0 \<and> \<not> replay \<and> budget_left c < discount
                       then refuse_promo ''Kuota promo sudah habis.'' (Some c) None
                     else \<lparr>pr_eligible = True, pr_reason = None, pr_campaign = Some c, pr_discount = discount,
                           pr_economics = Some e\<rparr>))"

section \<open>The transaction\<close>

definition entry_is :: "uuid \<Rightarrow> string \<Rightarrow> ledger_type \<Rightarrow> budget_row \<Rightarrow> bool" where
  "entry_is cid key typ b \<longleftrightarrow> bl_campaign b = cid \<and> bl_key b = key \<and> bl_type b = typ"

definition redemption_is :: "uuid \<Rightarrow> string \<Rightarrow> redemption \<Rightarrow> bool" where
  "redemption_is cid key r \<longleftrightarrow> rd_campaign r = cid \<and> rd_key r = key"

definition has_entry :: "promo_store \<Rightarrow> uuid \<Rightarrow> string \<Rightarrow> ledger_type \<Rightarrow> bool" where
  "has_entry s cid key typ = list_ex (entry_is cid key typ) (budget s)"

definition upd_campaign :: "uuid \<Rightarrow> (campaign \<Rightarrow> campaign) \<Rightarrow> promo_store \<Rightarrow> promo_store" where
  "upd_campaign cid f s = s\<lparr>campaigns := map (\<lambda>c. if cp_id c = cid then f c else c) (campaigns s)\<rparr>"

definition add_entry :: "budget_row \<Rightarrow> promo_store \<Rightarrow> promo_store" where
  "add_entry b s = s\<lparr>budget := budget s @ [b]\<rparr>"

definition put_redemption :: "redemption \<Rightarrow> (redemption \<Rightarrow> redemption) \<Rightarrow> promo_store \<Rightarrow> promo_store" where
  "put_redemption r upd s =
     (if list_ex (redemption_is (rd_campaign r) (rd_key r)) (redemptions s)
      then s\<lparr>redemptions := map (\<lambda>x. if redemption_is (rd_campaign r) (rd_key r) x then upd x else x) (redemptions s)\<rparr>
      else s\<lparr>redemptions := redemptions s @ [r]\<rparr>)"

definition reserve_budget :: "int \<Rightarrow> campaign \<Rightarrow> campaign" where
  "reserve_budget d c = c\<lparr>cp_reserved := cp_reserved c + d\<rparr>"

definition redeem_budget :: "int \<Rightarrow> campaign \<Rightarrow> campaign" where
  "redeem_budget d c = c\<lparr>cp_redeemed := cp_redeemed c + d\<rparr>"

text \<open>\<open>key\<close>, \<open>discount\<close>, \<open>gross\<close> and \<open>margin\<close> are those of the quote.\<close>

definition commit_promo ::
  "promo_mode \<Rightarrow> uuid \<Rightarrow> uuid \<Rightarrow> string \<Rightarrow> int \<Rightarrow> int \<Rightarrow> int \<Rightarrow> promo_input \<Rightarrow> promo_store \<Rightarrow> promo_error + promo_store" where
  "commit_promo mode user cid key discount gross margin i s =
     (let redeem = (mode = Redeem);
          typ = (if redeem then RedeemEntry else ReserveEntry);
          entry = \<lparr>bl_campaign = cid, bl_user = user, bl_order = pi_order i, bl_type = typ, bl_amount = discount,
            bl_key = key, bl_status = (if redeem then RedeemedEntry else ActiveEntry)\<rparr>;
          row = \<lparr>rd_campaign = cid, rd_user = user, rd_order = pi_order i, rd_key = key, rd_service = pi_service i,
            rd_discount = discount, rd_gross = gross, rd_margin = margin,
            rd_status = (if redeem then Redeemed else Reserved)\<rparr>;
          fresh = \<not> has_entry s cid key typ
      in case find_campaign s cid of
           None \<Rightarrow> Inl (500, ''Cannot read properties of undefined'')
         | Some c \<Rightarrow>
             if cp_total c > 0 \<and> fresh \<and> budget_left c < discount then Inl (409, ''Promo budget is no longer available'')
             else
               let s1 = (if fresh then upd_campaign cid (if redeem then redeem_budget discount else reserve_budget discount) (add_entry entry s) else s)
               in Inr (put_redemption row
                    (if redeem then (\<lambda>r. r\<lparr>rd_status := Redeemed, rd_order := (case pi_order i of None \<Rightarrow> rd_order r | Some o' \<Rightarrow> Some o')\<rparr>)
                     else (\<lambda>r. r)) s1))"

definition validatePromoForCheckout ::
  "instant \<Rightarrow> promo_mode \<Rightarrow> uuid \<Rightarrow> promo_input \<Rightarrow> promo_store \<Rightarrow> (promo_error + promo_result) \<times> promo_store" where
  "validatePromoForCheckout now mode user raw s =
     (if \<not> validation_ok raw then (Inl (400, ''Invalid promo payload''), s)
      else
        let i = trimmed raw; q = quote_promo now mode user i s in
        case (pr_campaign q, pr_economics q) of
          (Some c, Some e) \<Rightarrow>
            if \<not> pr_eligible q \<or> mode = Quote then (Inr q, s)
            else (case str_or (pi_key i) [] of
                [] \<Rightarrow> (Inl (400, ''idempotency_key is required for promo reservation or redemption''), s)
              | k # ks \<Rightarrow>
                  (case commit_promo mode user (cp_id c) (k # ks) (pr_discount q) (pi_gross i) (ec_margin e) i s of
                     Inl err \<Rightarrow> (Inl err, s)
                   | Inr s' \<Rightarrow> (Inr q, s')))
        | _ \<Rightarrow> (Inr q, s))"

section \<open>Releasing a reservation\<close>

definition free_reserved :: "int \<Rightarrow> campaign \<Rightarrow> campaign" where
  "free_reserved d c = c\<lparr>cp_reserved := max 0 (cp_reserved c - d)\<rparr>"

definition upd_entries :: "(budget_row \<Rightarrow> bool) \<Rightarrow> (budget_row \<Rightarrow> budget_row) \<Rightarrow> promo_store \<Rightarrow> promo_store" where
  "upd_entries P f s = s\<lparr>budget := map (\<lambda>b. if P b then f b else b) (budget s)\<rparr>"

definition upd_redemptions :: "(redemption \<Rightarrow> bool) \<Rightarrow> (redemption \<Rightarrow> redemption) \<Rightarrow> promo_store \<Rightarrow> promo_store" where
  "upd_redemptions P f s = s\<lparr>redemptions := map (\<lambda>r. if P r then f r else r) (redemptions s)\<rparr>"

definition active_reservation :: "uuid \<Rightarrow> string \<Rightarrow> budget_row \<Rightarrow> bool" where
  "active_reservation user key b \<longleftrightarrow> bl_user b = user \<and> bl_key b = key \<and> bl_type b = ReserveEntry \<and> bl_status b = ActiveEntry"

definition release_entry :: "budget_row \<Rightarrow> promo_store \<Rightarrow> promo_store" where
  "release_entry b s =
     upd_redemptions (\<lambda>r. redemption_is (bl_campaign b) (bl_key b) r \<and> rd_user r = bl_user b \<and> rd_status r = Reserved)
       (\<lambda>r. r\<lparr>rd_status := Released\<rparr>)
       (upd_campaign (bl_campaign b) (free_reserved (bl_amount b))
         (upd_entries (entry_is (bl_campaign b) (bl_key b) ReserveEntry) (\<lambda>x. x\<lparr>bl_status := ReleasedEntry\<rparr>) s))"

definition releasePromoReservation :: "uuid \<Rightarrow> string \<Rightarrow> promo_store \<Rightarrow> (promo_error + bool \<times> int) \<times> promo_store" where
  "releasePromoReservation user key s =
     (if length key < 8 then (Inl (400, ''idempotency_key is required''), s)
      else (case find (active_reservation user key) (budget s) of
          None \<Rightarrow> (Inr (False, 0), s)
        | Some b \<Rightarrow> (Inr (True, bl_amount b), release_entry b s)))"

section \<open>Combining campaigns\<close>

text \<open>The \<open>stack_priority\<close> column is not selected, so the configured rule decides.\<close>

definition stackPriority :: "campaign \<Rightarrow> rat" where
  "stackPriority c = (case finite_value (json_number (json_field ''stack_priority'' (cp_eligibility c))) of None \<Rightarrow> 0 | Some p \<Rightarrow> p)"

record stack_candidate =
  sc_campaign :: campaign
  sc_discount :: int
  sc_economics :: "economics option"

record stack_selection =
  ss_selected :: "stack_candidate list"
  ss_excluded :: "(string \<times> string \<times> string option) list"
  ss_keys :: "(string \<times> string) list"
  ss_total :: int

definition scope_text :: "component_scope \<Rightarrow> string" where
  "scope_text sc = (case sc of Shipping \<Rightarrow> ''shipping'' | Insurance \<Rightarrow> ''insurance'' | ServiceFee \<Rightarrow> ''service_fee'' | Referral \<Rightarrow> ''referral'')"

definition stack_code :: "campaign \<Rightarrow> string" where
  "stack_code c = str_or (Some (cp_code c)) (str_or (Some (cp_id c)) ''unknown'')"

definition stack_key :: "campaign \<Rightarrow> string" where
  "stack_key c = str_or (Some (cp_stacking_key c)) (''scope:'' @ scope_text (cp_scope c))"

text \<open>The order of the candidates; \<open>collate\<close> gives the sort key \<open>localeCompare\<close> compares.\<close>

definition stack_order :: "(string \<Rightarrow> string) \<Rightarrow> stack_candidate \<Rightarrow> rat \<times> int \<times> string" where
  "stack_order collate x = (- stackPriority (sc_campaign x), - sc_discount x, collate (cp_code (sc_campaign x)))"

text \<open>The margin before any discount, and its floor, from the first candidate that has economics.\<close>

definition margin_bounds :: "stack_candidate list \<Rightarrow> (int \<times> rat) option" where
  "margin_bounds xs =
     (case find (\<lambda>x. sc_economics x \<noteq> None) xs of
        None \<Rightarrow> None
      | Some x \<Rightarrow> (case sc_economics x of None \<Rightarrow> None
          | Some e \<Rightarrow> Some (ec_margin e + sc_discount x,
              max (of_int (ec_min_amount e)) (dbl (of_int (ec_gross e) * dbl (ec_min_percent e / 100))))))"

definition stack_step :: "(int \<times> rat) option \<Rightarrow> stack_candidate \<Rightarrow> stack_selection \<Rightarrow> stack_selection" where
  "stack_step bounds x a =
     (let c = sc_campaign x; key = stack_key c; proposed = ss_total a + max 0 (sc_discount x);
          drop = (\<lambda>reason winner. a\<lparr>ss_excluded := ss_excluded a @ [(stack_code c, reason, winner)]\<rparr>)
      in case map_of (ss_keys a) key of
           Some w \<Rightarrow> drop ''STACKING_KEY_CONFLICT'' (Some w)
         | None \<Rightarrow>
             if cp_total c > 0 \<and> budget_left c < sc_discount x then drop ''BUDGET_UNAVAILABLE'' None
             else if (case bounds of None \<Rightarrow> False | Some (base, floor') \<Rightarrow> of_int (base - proposed) < floor')
               then drop ''MARGIN_FLOOR'' None
             else a\<lparr>ss_keys := (key, stack_code c) # ss_keys a, ss_selected := ss_selected a @ [x], ss_total := proposed\<rparr>)"

definition selectCanonicalPromoStack :: "(string \<Rightarrow> string) \<Rightarrow> stack_candidate list \<Rightarrow> stack_selection" where
  "selectCanonicalPromoStack collate xs =
     (let ordered = sort_key (stack_order collate) xs
      in fold (stack_step (margin_bounds ordered)) ordered
           \<lparr>ss_selected = [], ss_excluded = [], ss_keys = [], ss_total = 0\<rparr>)"


section \<open>Reserving a combination\<close>

record stack_reservation =
  sv_campaign :: campaign
  sv_discount :: int
  sv_key :: string

record stack_result =
  sr_eligible :: bool
  sr_reason :: "string option"
  sr_discount :: int
  sr_promotions :: "stack_reservation list"
  sr_excluded :: "(string \<times> string \<times> string option) list"

definition buildPromoStackReservationKey :: "(string \<Rightarrow> string) \<Rightarrow> string \<Rightarrow> uuid \<Rightarrow> string" where
  "buildPromoStackReservationKey sha base cid = sha (''customer-order-promo-stack:'' @ base @ '':'' @ cid)"

definition requested_codes :: "promo_input \<Rightarrow> string list" where
  "requested_codes i =
     filter (\<lambda>c. c \<noteq> []) (map (\<lambda>c. toUpperCase (js_trim c))
       (case pi_codes i of None \<Rightarrow> [str_or (pi_code i) []] | Some [] \<Rightarrow> [str_or (pi_code i) []] | Some cs \<Rightarrow> cs))"

text \<open>The first refusal, with its code, or the quoted candidates.\<close>

fun stack_quotes ::
  "instant \<Rightarrow> uuid \<Rightarrow> promo_input \<Rightarrow> promo_store \<Rightarrow> string list \<Rightarrow> promo_error + (string \<times> promo_result) + stack_candidate list" where
  "stack_quotes now user i s [] = Inr (Inr [])"
| "stack_quotes now user i s (c # cs) =
     (case fst (validatePromoForCheckout now Quote user (i\<lparr>pi_code := Some c, pi_codes := None\<rparr>) s) of
        Inl e \<Rightarrow> Inl e
      | Inr r \<Rightarrow>
          (case (pr_eligible r, pr_campaign r) of
             (True, Some cp) \<Rightarrow>
               (case stack_quotes now user i s cs of
                  Inl e \<Rightarrow> Inl e
                | Inr (Inl no) \<Rightarrow> Inr (Inl no)
                | Inr (Inr xs) \<Rightarrow> Inr (Inr (\<lparr>sc_campaign = cp, sc_discount = pr_discount r, sc_economics = pr_economics r\<rparr> # xs)))
           | _ \<Rightarrow> Inr (Inl (c, r))))"

definition release_all :: "uuid \<Rightarrow> stack_reservation list \<Rightarrow> promo_store \<Rightarrow> promo_store" where
  "release_all user vs s = foldl (\<lambda>s v. snd (releasePromoReservation user (sv_key v) s)) s vs"

fun stack_reserve ::
  "(string \<Rightarrow> string) \<Rightarrow> instant \<Rightarrow> promo_mode \<Rightarrow> uuid \<Rightarrow> string \<Rightarrow> promo_input \<Rightarrow> stack_candidate list
     \<Rightarrow> stack_reservation list \<Rightarrow> promo_store \<Rightarrow> (promo_error + stack_reservation list) \<times> promo_store" where
  "stack_reserve sha now mode user base i [] done s = (Inr done, s)"
| "stack_reserve sha now mode user base i (x # xs) done s =
     (let c = sc_campaign x; key = buildPromoStackReservationKey sha base (cp_id c) in
      case validatePromoForCheckout now mode user (i\<lparr>pi_code := Some (cp_code c), pi_codes := None, pi_key := Some key\<rparr>) s of
        (Inl e, s') \<Rightarrow> (Inl e, release_all user done s')
      | (Inr r, s') \<Rightarrow>
          stack_reserve sha now mode user base i xs
            (done @ [\<lparr>sv_campaign = (case pr_campaign r of None \<Rightarrow> c | Some c' \<Rightarrow> c'),
               sv_discount = (if pr_discount r \<noteq> 0 then pr_discount r else sc_discount x), sv_key = key\<rparr>]) s')"

definition refuse_stack :: "string \<Rightarrow> (string \<times> string \<times> string option) list \<Rightarrow> stack_result" where
  "refuse_stack reason ex = \<lparr>sr_eligible = False, sr_reason = Some reason, sr_discount = 0, sr_promotions = [], sr_excluded = ex\<rparr>"

text \<open>\<open>quoted\<close> are the tables the quotes read, \<open>s\<close> those the reservations find.\<close>

definition stack_commit ::
  "(string \<Rightarrow> string) \<Rightarrow> instant \<Rightarrow> promo_mode \<Rightarrow> uuid \<Rightarrow> promo_input \<Rightarrow> stack_selection \<Rightarrow> promo_store
     \<Rightarrow> (promo_error + stack_result) \<times> promo_store" where
  "stack_commit sha now mode user i sel s =
     (case str_or (pi_key i) [] of
        [] \<Rightarrow> (Inl (400, ''idempotency_key is required for promo reservation or redemption''), s)
      | k # ks \<Rightarrow>
          (case stack_reserve sha now mode user (k # ks) i (ss_selected sel) [] s of
             (Inl e, s') \<Rightarrow> (Inl e, s')
           | (Inr vs, s') \<Rightarrow>
               (Inr \<lparr>sr_eligible = True, sr_reason = None, sr_discount = sum_list (map sv_discount vs), sr_promotions = vs,
                  sr_excluded = ss_excluded sel\<rparr>, s')))"

definition validatePromoStackForCheckout ::
  "(string \<Rightarrow> string) \<Rightarrow> (string \<Rightarrow> string) \<Rightarrow> instant \<Rightarrow> promo_mode \<Rightarrow> uuid \<Rightarrow> promo_input \<Rightarrow> promo_store
     \<Rightarrow> (promo_error + stack_result) \<times> promo_store" where
  "validatePromoStackForCheckout sha collate now mode user raw s =
     (if \<not> validation_ok raw then (Inl (400, ''Invalid promo payload''), s)
      else
        let i = trimmed raw; codes = requested_codes i in
        if codes = [] then (Inl (400, ''At least one promo code is required''), s)
        else if \<not> distinct codes then (Inl (409, ''Promo code cannot be repeated in one stack''), s)
        else (case stack_quotes now user i s codes of
            Inl e \<Rightarrow> (Inl e, s)
          | Inr (Inl (c, r)) \<Rightarrow>
              (Inr (refuse_stack (str_or (pr_reason r) (''Promo '' @ c @ '' tidak dapat digunakan.'')) [(c, ''CAMPAIGN_INELIGIBLE'', None)]), s)
          | Inr (Inr xs) \<Rightarrow>
              (let sel = selectCanonicalPromoStack collate xs in
               if length (ss_selected sel) \<noteq> length xs
               then (Inr (refuse_stack ''Promo yang dipilih tidak dapat digabung sesuai prioritas dan budget.'' (ss_excluded sel)), s)
               else if mode = Quote
               then (Inr \<lparr>sr_eligible = True, sr_reason = None, sr_discount = ss_total sel,
                  sr_promotions = map (\<lambda>x. \<lparr>sv_campaign = sc_campaign x, sv_discount = sc_discount x, sv_key = []\<rparr>) (ss_selected sel),
                  sr_excluded = ss_excluded sel\<rparr>, s)
               else stack_commit sha now mode user i sel s)))"

section \<open>What the selection guarantees\<close>

definition stack_ok :: "(int \<times> rat) option \<Rightarrow> stack_candidate list \<Rightarrow> stack_selection \<Rightarrow> bool" where
  "stack_ok bounds xs a \<longleftrightarrow>
     distinct (map (\<lambda>x. stack_key (sc_campaign x)) (ss_selected a))
     \<and> set (map fst (ss_keys a)) = set (map (\<lambda>x. stack_key (sc_campaign x)) (ss_selected a))
     \<and> ss_total a = sum_list (map (\<lambda>x. max 0 (sc_discount x)) (ss_selected a))
     \<and> (\<forall>x \<in> set (ss_selected a). cp_total (sc_campaign x) > 0 \<longrightarrow> sc_discount x \<le> budget_left (sc_campaign x))
     \<and> (ss_selected a \<noteq> [] \<longrightarrow> (\<forall>base floor'. bounds = Some (base, floor') \<longrightarrow> floor' \<le> of_int (base - ss_total a)))
     \<and> length (ss_selected a) + length (ss_excluded a) = length xs \<and> set (ss_selected a) \<subseteq> set xs"

lemma stack_step_ok: "stack_ok bounds xs a \<Longrightarrow> stack_ok bounds (xs @ [x]) (stack_step bounds x a)"
  by (cases "map_of (ss_keys a) (stack_key (sc_campaign x))")
    (auto simp: stack_ok_def stack_step_def Let_def map_of_eq_None_iff split: option.splits)

lemma stack_fold_ok: "stack_ok bounds xs a \<Longrightarrow> stack_ok bounds (xs @ ys) (fold (stack_step bounds) ys a)"
proof (induction ys arbitrary: xs a)
  case (Cons y ys)
  from Cons.IH [OF stack_step_ok [OF Cons.prems]] show ?case by simp
qed simp

lemma stack_start: "stack_ok bounds [] \<lparr>ss_selected = [], ss_excluded = [], ss_keys = [], ss_total = 0\<rparr>"
  by (simp add: stack_ok_def)


definition demo_candidates :: "stack_candidate list" where
  "demo_candidates =
     [\<lparr>sc_campaign = demo_campaign, sc_discount = 5000, sc_economics = None\<rparr>,
      \<lparr>sc_campaign = demo_campaign\<lparr>cp_id := ''c2'', cp_code := ''LEBIH''\<rparr>, sc_discount = 7000, sc_economics = None\<rparr>]"


text \<open>
  C24.  The combination does not depend on the order in which the codes were given: the same candidates in
  any order, with codes that the collation tells apart, give the same selection.
\<close>

theorem stack_order_independent:
  assumes "mset xs = mset ys" and "distinct (map (\<lambda>x. collate (cp_code (sc_campaign x))) xs)"
  shows "selectCanonicalPromoStack collate xs = selectCanonicalPromoStack collate ys"
proof -
  have inj: "inj_on (stack_order collate) (set xs)"
    using assms(2) by (auto simp: stack_order_def distinct_map inj_on_def)
  have "distinct xs" using assms(2) by (simp add: distinct_map)
  then have "distinct ys" using assms(1) mset_eq_imp_distinct_iff by blast
  have same: "filter (\<lambda>x. stack_order collate k = stack_order collate x) zs = [k]" if "k \<in> set zs" "distinct zs" "set zs = set xs" for k zs
  proof -
    have "filter (\<lambda>x. stack_order collate k = stack_order collate x) zs = filter (\<lambda>x. x = k) zs"
      using inj that by (intro filter_cong) (auto dest: inj_onD)
    moreover have "k \<in> set zs \<Longrightarrow> distinct zs \<Longrightarrow> filter (\<lambda>x. x = k) zs = [k]"
      by (induction zs) (auto simp: filter_empty_conv)
    ultimately show ?thesis using that by simp
  qed
  have "sort_key (stack_order collate) ys = sort_key (stack_order collate) xs"
  proof (rule properties_for_sort_key)
    show "mset (sort_key (stack_order collate) xs) = mset ys" using assms(1) by simp
    fix k assume "k \<in> set (sort_key (stack_order collate) xs)"
    then have k: "k \<in> set xs" by simp
    have "set ys = set xs" using assms(1) mset_eq_setD by metis
    then show "filter (\<lambda>x. stack_order collate k = stack_order collate x) (sort_key (stack_order collate) xs)
        = filter (\<lambda>x. stack_order collate k = stack_order collate x) ys"
      using same [of k ys] same [of k "sort_key (stack_order collate) xs"] k \<open>distinct xs\<close> \<open>distinct ys\<close> by simp
  qed simp
  then show ?thesis by (simp add: selectCanonicalPromoStack_def)
qed

theorem stack_order_independent_witness:
  "selectCanonicalPromoStack id demo_candidates = selectCanonicalPromoStack id (rev demo_candidates)"
  by (rule stack_order_independent) (simp_all add: demo_candidates_def demo_campaign_def)

end
