(* ===== verification/PromoOrders.thy ===== *)
theory PromoOrders
  imports PromoCheckout
begin

text \<open>
  Promotions over the life of an order (\<open>controllers/order/_shared.ts\<close> and
  \<open>controllers/order/customerOrder.controller.ts\<close>): attaching reservations to the order, redeeming them
  when it is paid, releasing them when it is not, and reversing them when it is cancelled or refunded.

  \<open>promo_inv\<close> ties the budget counters of every campaign to its redemptions; every operation keeps it
  (locale \<open>promo_operation\<close> and its interpretations), in any order and for quotes that are out of date by
  the time they are committed.
\<close>

section \<open>Operations\<close>

definition attach_order :: "uuid \<Rightarrow> uuid \<Rightarrow> uuid \<Rightarrow> string \<Rightarrow> promo_store \<Rightarrow> promo_store" where
  "attach_order user order cid key s =
     upd_entries (\<lambda>b. entry_is cid key ReserveEntry b \<and> bl_user b = user \<and> bl_status b = ActiveEntry) (\<lambda>b. b\<lparr>bl_order := Some order\<rparr>)
       (upd_redemptions (\<lambda>r. redemption_is cid key r \<and> rd_user r = user \<and> rd_status r = Reserved) (\<lambda>r. r\<lparr>rd_order := Some order\<rparr>) s)"

definition this_row :: "redemption \<Rightarrow> redemption_status \<Rightarrow> redemption \<Rightarrow> bool" where
  "this_row r0 st r \<longleftrightarrow> redemption_is (rd_campaign r0) (rd_key r0) r \<and> rd_user r = rd_user r0 \<and> rd_order r = rd_order r0 \<and> rd_status r = st"

definition this_entry :: "redemption \<Rightarrow> budget_row \<Rightarrow> bool" where
  "this_entry r0 b \<longleftrightarrow> entry_is (rd_campaign r0) (rd_key r0) ReserveEntry b \<and> bl_user b = rd_user r0 \<and> bl_order b = rd_order r0
     \<and> bl_status b = ActiveEntry"

definition pay_budget :: "int \<Rightarrow> campaign \<Rightarrow> campaign" where
  "pay_budget d c = c\<lparr>cp_reserved := max 0 (cp_reserved c - d), cp_redeemed := cp_redeemed c + d\<rparr>"

definition free_redeemed :: "int \<Rightarrow> campaign \<Rightarrow> campaign" where
  "free_redeemed d c = c\<lparr>cp_redeemed := max 0 (cp_redeemed c - d)\<rparr>"

definition add_if_new :: "budget_row \<Rightarrow> promo_store \<Rightarrow> promo_store" where
  "add_if_new b s = (if has_entry s (bl_campaign b) (bl_key b) (bl_type b) then s else add_entry b s)"

definition redeem_row :: "redemption \<Rightarrow> promo_store \<Rightarrow> promo_store" where
  "redeem_row r s =
     (if rd_discount r \<le> 0 then s
      else upd_campaign (rd_campaign r) (pay_budget (rd_discount r))
        (add_if_new \<lparr>bl_campaign = rd_campaign r, bl_user = rd_user r, bl_order = rd_order r, bl_type = RedeemEntry,
            bl_amount = rd_discount r, bl_key = rd_key r, bl_status = RedeemedEntry\<rparr>
          (upd_entries (this_entry r) (\<lambda>b. b\<lparr>bl_status := RedeemedEntry\<rparr>)
            (upd_redemptions (this_row r Reserved) (\<lambda>x. x\<lparr>rd_status := Redeemed\<rparr>) s))))"

definition redeemReservedPromosForPaidOrder :: "uuid \<Rightarrow> uuid \<Rightarrow> promo_store \<Rightarrow> promo_store" where
  "redeemReservedPromosForPaidOrder user order s =
     fold redeem_row (filter (\<lambda>r. rd_order r = Some order \<and> rd_user r = user \<and> rd_status r = Reserved) (redemptions s)) s"

definition release_row :: "redemption \<Rightarrow> promo_store \<Rightarrow> promo_store" where
  "release_row r s =
     (if rd_discount r \<le> 0 then s
      else upd_campaign (rd_campaign r) (free_reserved (rd_discount r))
        (upd_entries (this_entry r) (\<lambda>b. b\<lparr>bl_status := ReleasedEntry\<rparr>)
          (upd_redemptions (this_row r Reserved) (\<lambda>x. x\<lparr>rd_status := Released\<rparr>) s)))"

definition releaseReservedPromosForOrders :: "uuid list \<Rightarrow> promo_store \<Rightarrow> promo_store" where
  "releaseReservedPromosForOrders orders s =
     fold release_row (filter (\<lambda>r. rd_order r \<in> Some ` set orders \<and> rd_status r = Reserved) (redemptions s)) s"

definition refund_key :: "string \<Rightarrow> string" where
  "refund_key k = k @ '':refund''"

definition reverse_row :: "redemption \<Rightarrow> promo_store \<Rightarrow> promo_store" where
  "reverse_row r s =
     (if rd_discount r \<le> 0 then s
      else
        let entry = \<lparr>bl_campaign = rd_campaign r, bl_user = rd_user r, bl_order = rd_order r, bl_type = ReleaseEntry,
              bl_amount = rd_discount r, bl_key = refund_key (rd_key r), bl_status = ReleasedEntry\<rparr>;
            s1 = (if has_entry s (rd_campaign r) (refund_key (rd_key r)) ReleaseEntry then s
              else upd_campaign (rd_campaign r) (free_redeemed (rd_discount r)) (add_entry entry s))
        in upd_redemptions (this_row r Redeemed) (\<lambda>x. x\<lparr>rd_status := Released\<rparr>) s1)"

definition reverseRedeemedPromosForOrders :: "uuid list \<Rightarrow> promo_store \<Rightarrow> promo_store" where
  "reverseRedeemedPromosForOrders orders s =
     fold reverse_row (filter (\<lambda>r. rd_order r \<in> Some ` set orders \<and> rd_status r = Redeemed) (redemptions s)) s"

section \<open>The books of a campaign\<close>

definition status_sum :: "redemption_status \<Rightarrow> uuid \<Rightarrow> redemption list \<Rightarrow> int" where
  "status_sum st cid rs = (\<Sum>r \<leftarrow> rs. if rd_campaign r = cid \<and> rd_status r = st then rd_discount r else 0)"

text \<open>A redemption and the ledger entry of its reservation.\<close>

definition paired :: "redemption \<Rightarrow> budget_row \<Rightarrow> bool" where
  "paired r b \<longleftrightarrow> entry_is (rd_campaign r) (rd_key r) ReserveEntry b \<and> bl_user b = rd_user r \<and> bl_amount b = rd_discount r
     \<and> bl_order b = rd_order r \<and> (bl_status b = ActiveEntry \<longleftrightarrow> rd_status r = Reserved)"

definition within_budget :: "campaign \<Rightarrow> bool" where
  "within_budget c \<longleftrightarrow> (0 < cp_total c \<longrightarrow> cp_reserved c + cp_redeemed c \<le> cp_total c)"

definition booked :: "redemption list \<Rightarrow> campaign \<Rightarrow> bool" where
  "booked rs c \<longleftrightarrow> cp_reserved c = status_sum Reserved (cp_id c) rs \<and> cp_redeemed c = status_sum Redeemed (cp_id c) rs"

definition promo_keys :: "promo_store \<Rightarrow> bool" where
  "promo_keys s \<longleftrightarrow> distinct (map cp_id (campaigns s)) \<and> distinct (map (\<lambda>r. (rd_campaign r, rd_key r)) (redemptions s))
     \<and> distinct (map (\<lambda>b. (bl_campaign b, bl_key b, bl_type b)) (budget s))"

definition promo_inv :: "promo_store \<Rightarrow> bool" where
  "promo_inv s \<longleftrightarrow> promo_keys s
     \<and> (\<forall>r \<in> set (redemptions s). 0 \<le> rd_discount r \<and> (\<exists>b \<in> set (budget s). paired r b))
     \<and> (\<forall>b \<in> set (budget s). bl_type b = ReserveEntry \<longrightarrow> (\<exists>r \<in> set (redemptions s). redemption_is (bl_campaign b) (bl_key b) r))
     \<and> (\<forall>b \<in> set (budget s). bl_type b = ReleaseEntry \<longrightarrow>
          (\<exists>r \<in> set (redemptions s). rd_campaign r = bl_campaign b \<and> refund_key (rd_key r) = bl_key b \<and> rd_status r = Released))
     \<and> (\<forall>c \<in> set (campaigns s). booked (redemptions s) c \<and> within_budget c)"

section \<open>Updating one row\<close>

lemma sum_one_change:
  assumes "distinct rs" "r0 \<in> set rs" "\<And>r. r \<in> set rs \<Longrightarrow> P r \<longleftrightarrow> r = r0"
  shows "(\<Sum>r \<leftarrow> map (\<lambda>r. if P r then f r else r) rs. w r) = (\<Sum>r \<leftarrow> rs. w r) - w r0 + (w (f r0) :: int)"
  using assms
proof (induction rs)
  case (Cons r rs)
  show ?case
  proof (cases "r = r0")
    case True
    with Cons.prems have "map (\<lambda>r. if P r then f r else r) rs = rs" by (intro map_idI) auto
    with True Cons.prems show ?thesis by (simp add: comp_def)
  next
    case False
    with Cons.prems Cons.IH show ?thesis by simp
  qed
qed simp

lemma keys_rows: "promo_keys s \<Longrightarrow> r \<in> set (redemptions s) \<Longrightarrow> r' \<in> set (redemptions s) \<Longrightarrow>
    rd_campaign r = rd_campaign r' \<Longrightarrow> rd_key r = rd_key r' \<Longrightarrow> r = r'"
  by (auto simp: promo_keys_def distinct_map dest: inj_onD)

lemma keys_entries: "promo_keys s \<Longrightarrow> b \<in> set (budget s) \<Longrightarrow> b' \<in> set (budget s) \<Longrightarrow>
    bl_campaign b = bl_campaign b' \<Longrightarrow> bl_key b = bl_key b' \<Longrightarrow> bl_type b = bl_type b' \<Longrightarrow> b = b'"
  by (auto simp: promo_keys_def distinct_map dest: inj_onD)

lemma this_row_only:
  assumes "promo_keys s" "r0 \<in> set (redemptions s)" "rd_status r0 = st" "r \<in> set (redemptions s)"
  shows "this_row r0 st r \<longleftrightarrow> r = r0"
  using keys_rows [OF assms(1,4,2)] assms(3) by (auto simp: this_row_def redemption_is_def)

lemma status_nonneg: "(\<And>r. r \<in> set rs \<Longrightarrow> 0 \<le> rd_discount r) \<Longrightarrow> 0 \<le> status_sum st cid rs"
  unfolding status_sum_def by (intro sum_list_nonneg) auto

lemma status_member:
  "(\<And>r. r \<in> set rs \<Longrightarrow> 0 \<le> rd_discount r) \<Longrightarrow> r0 \<in> set rs \<Longrightarrow> rd_discount r0 \<le> status_sum (rd_status r0) (rd_campaign r0) rs"
proof (induction rs)
  case (Cons r rs)
  have "0 \<le> rd_discount r" "0 \<le> status_sum (rd_status r0) (rd_campaign r0) rs"
    using Cons.prems(1) by (simp_all add: status_nonneg)
  moreover have "r0 \<in> set rs \<Longrightarrow> rd_discount r0 \<le> status_sum (rd_status r0) (rd_campaign r0) rs"
    using Cons.IH Cons.prems(1) by simp
  ultimately show ?case using Cons.prems(2) by (auto simp: status_sum_def)
qed simp

lemma status_change:
  assumes "promo_keys s" "r0 \<in> set (redemptions s)" "rd_status r0 = st0" "st0 \<noteq> st1"
  shows "status_sum st cid (redemptions (upd_redemptions (this_row r0 st0) (\<lambda>x. x\<lparr>rd_status := st1\<rparr>) s))
     = status_sum st cid (redemptions s)
       - (if rd_campaign r0 = cid \<and> st0 = st then rd_discount r0 else 0)
       + (if rd_campaign r0 = cid \<and> st1 = st then rd_discount r0 else 0)"
proof -
  have "distinct (redemptions s)" using assms(1) by (auto simp: promo_keys_def distinct_map)
  from sum_one_change [OF this assms(2) this_row_only [OF assms(1-3)], where f = "\<lambda>x. x\<lparr>rd_status := st1\<rparr>"
      and w = "\<lambda>r. if rd_campaign r = cid \<and> rd_status r = st then rd_discount r else 0"] assms(3)
  show ?thesis by (simp add: status_sum_def upd_redemptions_def)
qed

section \<open>Every operation keeps the books\<close>

lemma upd_sel [simp]:
  "campaigns (upd_redemptions P f s) = campaigns s" "budget (upd_redemptions P f s) = budget s"
  "campaigns (upd_entries Q g s) = campaigns s" "redemptions (upd_entries Q g s) = redemptions s"
  "redemptions (upd_campaign i h s) = redemptions s" "budget (upd_campaign i h s) = budget s"
  "redemptions (upd_redemptions P f s) = map (\<lambda>r. if P r then f r else r) (redemptions s)"
  "budget (upd_entries Q g s) = map (\<lambda>b. if Q b then g b else b) (budget s)"
  "campaigns (upd_campaign i h s) = map (\<lambda>c. if cp_id c = i then h c else c) (campaigns s)"
  "campaigns (add_entry b s) = campaigns s" "redemptions (add_entry b s) = redemptions s" "budget (add_entry b s) = budget s @ [b]"
  by (simp_all add: upd_redemptions_def upd_entries_def upd_campaign_def add_entry_def)

lemma promo_invD:
  assumes "promo_inv s"
  shows "promo_keys s"
    and "r \<in> set (redemptions s) \<Longrightarrow> 0 \<le> rd_discount r"
    and "r \<in> set (redemptions s) \<Longrightarrow> \<exists>b \<in> set (budget s). paired r b"
    and "b \<in> set (budget s) \<Longrightarrow> bl_type b = ReserveEntry \<Longrightarrow> \<exists>r \<in> set (redemptions s). redemption_is (bl_campaign b) (bl_key b) r"
    and "b \<in> set (budget s) \<Longrightarrow> bl_type b = ReleaseEntry \<Longrightarrow>
      \<exists>r \<in> set (redemptions s). rd_campaign r = bl_campaign b \<and> refund_key (rd_key r) = bl_key b \<and> rd_status r = Released"
    and "c \<in> set (campaigns s) \<Longrightarrow> booked (redemptions s) c"
    and "c \<in> set (campaigns s) \<Longrightarrow> within_budget c"
  using assms by (auto simp: promo_inv_def)

text \<open>Closing a reserved row: the row and its entry change status, the budget moves.\<close>

definition close_row :: "redemption \<Rightarrow> redemption_status \<Rightarrow> (budget_row \<Rightarrow> bool) \<Rightarrow> ledger_status \<Rightarrow> (campaign \<Rightarrow> campaign) \<Rightarrow> promo_store \<Rightarrow> promo_store" where
  "close_row r st Q ls g s =
     upd_campaign (rd_campaign r) g (upd_entries Q (\<lambda>b. b\<lparr>bl_status := ls\<rparr>) (upd_redemptions (this_row r Reserved) (\<lambda>x. x\<lparr>rd_status := st\<rparr>) s))"

lemma close_row_inv:
  assumes inv: "promo_inv s" and r0: "r0 \<in> set (redemptions s)" "rd_status r0 = Reserved"
    and st: "st = Redeemed \<or> st = Released" and ls: "ls \<noteq> ActiveEntry"
    and Q: "\<And>b. b \<in> set (budget s) \<Longrightarrow> Q b \<longleftrightarrow> paired r0 b"
    and g: "\<And>c. rd_discount r0 \<le> cp_reserved c \<Longrightarrow> cp_id (g c) = cp_id c \<and> cp_total (g c) = cp_total c \<and> cp_reserved (g c) = cp_reserved c - rd_discount r0
      \<and> cp_redeemed (g c) = cp_redeemed c + (if st = Redeemed then rd_discount r0 else 0)"
  shows "promo_inv (close_row r0 st Q ls g s)"
proof -
  note keys = promo_invD(1) [OF inv]
  let ?rs = "map (\<lambda>r. if this_row r0 Reserved r then r\<lparr>rd_status := st\<rparr> else r) (redemptions s)"
  have only: "this_row r0 Reserved r \<longleftrightarrow> r = r0" if "r \<in> set (redemptions s)" for r
    using this_row_only [OF keys r0 that] .
  have rows: "redemptions (close_row r0 st Q ls g s) = ?rs" by (simp add: close_row_def)
  have entries: "budget (close_row r0 st Q ls g s) = map (\<lambda>b. if Q b then b\<lparr>bl_status := ls\<rparr> else b) (budget s)"
    by (simp add: close_row_def)
  have sums: "status_sum x cid ?rs = status_sum x cid (redemptions s)
      - (if rd_campaign r0 = cid \<and> Reserved = x then rd_discount r0 else 0)
      + (if rd_campaign r0 = cid \<and> st = x then rd_discount r0 else 0)" for x cid
    using status_change [OF keys r0, of st x cid] st by auto
  have enough: "rd_discount r0 \<le> cp_reserved c" if "c \<in> set (campaigns s)" "cp_id c = rd_campaign r0" for c
    using status_member [of "redemptions s" r0] promo_invD(2) [OF inv] r0 promo_invD(6) [OF inv that(1)] that(2)
    by (simp add: booked_def)
  have camps: "\<exists>c \<in> set (campaigns s). c' = (if cp_id c = rd_campaign r0 then g c else c)" if "c' \<in> set (campaigns (close_row r0 st Q ls g s))" for c'
    using that by (auto simp: close_row_def)
  have same_id: "cp_id (if cp_id c = rd_campaign r0 then g c else c) = cp_id c" if "c \<in> set (campaigns s)" for c
    using g enough that by auto
  have k: "promo_keys (close_row r0 st Q ls g s)"
  proof -
    have "map cp_id (campaigns (close_row r0 st Q ls g s)) = map cp_id (campaigns s)"
      using same_id by (simp add: close_row_def)
    moreover have "map (\<lambda>r. (rd_campaign r, rd_key r)) ?rs = map (\<lambda>r. (rd_campaign r, rd_key r)) (redemptions s)"
      by simp
    moreover have "map (\<lambda>b. (bl_campaign b, bl_key b, bl_type b)) (map (\<lambda>b. if Q b then b\<lparr>bl_status := ls\<rparr> else b) (budget s))
        = map (\<lambda>b. (bl_campaign b, bl_key b, bl_type b)) (budget s)"
      by simp
    ultimately show ?thesis using keys unfolding promo_keys_def rows entries by metis
  qed
  show ?thesis
    unfolding promo_inv_def rows entries
  proof (intro conjI ballI impI)
    show "promo_keys (close_row r0 st Q ls g s)" by (rule k)
  next
    fix r' assume "r' \<in> set ?rs"
    then obtain r where r: "r \<in> set (redemptions s)" "r' = (if this_row r0 Reserved r then r\<lparr>rd_status := st\<rparr> else r)" by auto
    then show "0 \<le> rd_discount r'" using promo_invD(2) [OF inv] by simp
    obtain b where b: "b \<in> set (budget s)" "paired r b" using promo_invD(3) [OF inv r(1)] by blast
    have "paired r' (if Q b then b\<lparr>bl_status := ls\<rparr> else b)"
    proof (cases "r = r0")
      case True
      then show ?thesis using r only Q [OF b(1)] b(2) st ls by (auto simp: paired_def entry_is_def)
    next
      case False
      then have "\<not> paired r0 b" using keys_rows [OF keys r(1) r0(1)] b(2) by (auto simp: paired_def entry_is_def)
      then show ?thesis using r only False Q [OF b(1)] b(2) by simp
    qed
    then show "\<exists>b \<in> set (map (\<lambda>b. if Q b then b\<lparr>bl_status := ls\<rparr> else b) (budget s)). paired r' b"
      using b(1) unfolding set_map by blast
  next
    fix b' assume "b' \<in> set (map (\<lambda>b. if Q b then b\<lparr>bl_status := ls\<rparr> else b) (budget s))" "bl_type b' = ReserveEntry"
    then obtain b where b: "b \<in> set (budget s)" "bl_type b = ReserveEntry" "bl_campaign b' = bl_campaign b" "bl_key b' = bl_key b" by auto
    then obtain r where "r \<in> set (redemptions s)" "redemption_is (bl_campaign b) (bl_key b) r" using promo_invD(4) [OF inv] by blast
    then show "\<exists>r \<in> set ?rs. redemption_is (bl_campaign b') (bl_key b') r" 
      using b by (intro bexI [of _ "if this_row r0 Reserved r then r\<lparr>rd_status := st\<rparr> else r"]) (auto simp: redemption_is_def)
  next
    fix b' assume "b' \<in> set (map (\<lambda>b. if Q b then b\<lparr>bl_status := ls\<rparr> else b) (budget s))" "bl_type b' = ReleaseEntry"
    then obtain b where b: "b \<in> set (budget s)" "bl_type b = ReleaseEntry" "bl_campaign b' = bl_campaign b" "bl_key b' = bl_key b" by auto
    then obtain r where "r \<in> set (redemptions s)" "rd_campaign r = bl_campaign b" "refund_key (rd_key r) = bl_key b" "rd_status r = Released"
      using promo_invD(5) [OF inv] by blast
    then show "\<exists>r \<in> set ?rs. rd_campaign r = bl_campaign b' \<and> refund_key (rd_key r) = bl_key b' \<and> rd_status r = Released"
      using b only r0(2) by (intro bexI [of _ "if this_row r0 Reserved r then r\<lparr>rd_status := st\<rparr> else r"]) auto
  next
    fix c' assume "c' \<in> set (campaigns (close_row r0 st Q ls g s))"
    then obtain c where c: "c \<in> set (campaigns s)" "c' = (if cp_id c = rd_campaign r0 then g c else c)" using camps by blast
    show "booked ?rs c'" "within_budget c'"
      using promo_invD(6,7) [OF inv c(1)] c(2) g [of c] enough [OF c(1)] st promo_invD(2) [OF inv r0(1)]
      by (auto simp: booked_def within_budget_def sums)
  qed
qed

text \<open>
  The contract of an operation on one redemption of a given status: it keeps the invariant and every
  other redemption.  A loop over redemptions that were read before then keeps the invariant.
\<close>

locale row_operation =
  fixes st :: redemption_status and act :: "redemption \<Rightarrow> promo_store \<Rightarrow> promo_store"
  assumes keeps: "promo_inv s \<Longrightarrow> r \<in> set (redemptions s) \<Longrightarrow> rd_status r = st \<Longrightarrow> promo_inv (act r s)"
    and others: "promo_inv s \<Longrightarrow> r \<in> set (redemptions s) \<Longrightarrow> rd_status r = st \<Longrightarrow> x \<in> set (redemptions s) \<Longrightarrow> x \<noteq> r \<Longrightarrow>
      x \<in> set (redemptions (act r s))"
begin

lemma fold_keeps:
  "promo_inv s \<Longrightarrow> distinct rows \<Longrightarrow> set rows \<subseteq> set (redemptions s) \<Longrightarrow> (\<And>r. r \<in> set rows \<Longrightarrow> rd_status r = st) \<Longrightarrow>
     promo_inv (fold act rows s)"
proof (induction rows arbitrary: s)
  case (Cons r rows)
  have "promo_inv (act r s)" using keeps Cons.prems by simp
  moreover have "set rows \<subseteq> set (redemptions (act r s))" using others [of s r] Cons.prems by auto
  ultimately show ?case using Cons by simp
qed simp

lemma loop_keeps:
  assumes "promo_inv s"
  shows "promo_inv (fold act (filter (\<lambda>r. P r \<and> rd_status r = st) (redemptions s)) s)"
proof (rule fold_keeps [OF assms])
  have "distinct (redemptions s)" using promo_invD(1) [OF assms] by (auto simp: promo_keys_def distinct_map)
  then show "distinct (filter (\<lambda>r. P r \<and> rd_status r = st) (redemptions s))" by simp
qed auto

end

lemma paired_unique: "promo_keys s \<Longrightarrow> b \<in> set (budget s) \<Longrightarrow> b' \<in> set (budget s) \<Longrightarrow> paired r b \<Longrightarrow>
    entry_is (rd_campaign r) (rd_key r) ReserveEntry b' \<Longrightarrow> b' = b"
  by (rule keys_entries) (auto simp: paired_def entry_is_def)

lemma this_entry_paired:
  assumes inv: "promo_inv s" and r: "r \<in> set (redemptions s)" "rd_status r = Reserved" and b: "b \<in> set (budget s)"
  shows "this_entry r b \<longleftrightarrow> paired r b"
proof -
  obtain b0 where b0: "b0 \<in> set (budget s)" "paired r b0" using promo_invD(3) [OF inv r(1)] by blast
  have "this_entry r b \<Longrightarrow> b = b0" by (rule paired_unique [OF promo_invD(1) [OF inv] b0(1) b b0(2)]) (simp add: this_entry_def)
  then show ?thesis using b0 r(2) by (auto simp: this_entry_def paired_def)
qed

lemma close_row_others:
  assumes "promo_inv s" "r \<in> set (redemptions s)" "rd_status r = Reserved" "x \<in> set (redemptions s)" "x \<noteq> r"
  shows "x \<in> set (redemptions (close_row r st Q ls g s))"
  using this_row_only [OF promo_invD(1) [OF assms(1)] assms(2,3,4)] assms(4,5) by (force simp: close_row_def)

text \<open>An entry of another kind than a reservation or a release does not concern the books.\<close>

lemma add_if_new_inv:
  assumes inv: "promo_inv s" and "bl_type b = RedeemEntry"
  shows "promo_inv (add_if_new b s)"
proof (cases "has_entry s (bl_campaign b) (bl_key b) (bl_type b)")
  case False
  then have "promo_keys (add_entry b s)"
    using promo_invD(1) [OF inv] by (auto simp: promo_keys_def has_entry_def list_ex_iff entry_is_def)
  then show ?thesis using inv assms(2) False unfolding add_if_new_def promo_inv_def by auto
qed (simp add: add_if_new_def inv)

lemma add_if_new_commute: "add_if_new b (upd_campaign i f s) = upd_campaign i f (add_if_new b s)"
  by (simp add: add_if_new_def has_entry_def add_entry_def upd_campaign_def)

lemma add_if_new_rows [simp]: "redemptions (add_if_new b s) = redemptions s"
  by (simp add: add_if_new_def)

lemma redeem_row_close:
  "0 < rd_discount r \<Longrightarrow> redeem_row r s =
     add_if_new \<lparr>bl_campaign = rd_campaign r, bl_user = rd_user r, bl_order = rd_order r, bl_type = RedeemEntry,
            bl_amount = rd_discount r, bl_key = rd_key r, bl_status = RedeemedEntry\<rparr>
       (close_row r Redeemed (this_entry r) RedeemedEntry (pay_budget (rd_discount r)) s)"
  by (simp add: redeem_row_def close_row_def add_if_new_commute)

lemma release_row_close:
  "0 < rd_discount r \<Longrightarrow> release_row r s = close_row r Released (this_entry r) ReleasedEntry (free_reserved (rd_discount r)) s"
  by (simp add: release_row_def close_row_def)

interpretation paid: row_operation Reserved redeem_row
proof
  fix s r x assume r: "promo_inv s" "r \<in> set (redemptions s)" "rd_status r = Reserved"
  show "promo_inv (redeem_row r s)"
  proof (cases "0 < rd_discount r")
    case True
    have "promo_inv (close_row r Redeemed (this_entry r) RedeemedEntry (pay_budget (rd_discount r)) s)"
      by (rule close_row_inv [OF r]) (simp_all add: this_entry_paired [OF r] pay_budget_def)
    then show ?thesis by (simp add: redeem_row_close [OF True] add_if_new_inv)
  qed (simp add: redeem_row_def r(1))
  assume "x \<in> set (redemptions s)" "x \<noteq> r"
  then show "x \<in> set (redemptions (redeem_row r s))"
    using close_row_others [OF r]
    by (cases "0 < rd_discount r") (simp add: redeem_row_close, simp add: redeem_row_def)
qed

interpretation unpaid: row_operation Reserved release_row
proof
  fix s r x assume r: "promo_inv s" "r \<in> set (redemptions s)" "rd_status r = Reserved"
  show "promo_inv (release_row r s)"
  proof (cases "0 < rd_discount r")
    case True
    have "promo_inv (close_row r Released (this_entry r) ReleasedEntry (free_reserved (rd_discount r)) s)"
      by (rule close_row_inv [OF r]) (simp_all add: this_entry_paired [OF r] free_reserved_def)
    then show ?thesis by (simp add: release_row_close [OF True])
  qed (simp add: release_row_def r(1))
  assume "x \<in> set (redemptions s)" "x \<noteq> r"
  then show "x \<in> set (redemptions (release_row r s))"
    using close_row_others [OF r]
    by (cases "0 < rd_discount r") (simp add: release_row_close, simp add: release_row_def)
qed

lemma refund_key_inj: "refund_key k = refund_key k' \<longleftrightarrow> k = k'"
  by (simp add: refund_key_def)

lemma reverse_row_new:
  assumes inv: "promo_inv s" and r: "r \<in> set (redemptions s)" "rd_status r = Redeemed"
  shows "\<not> has_entry s (rd_campaign r) (refund_key (rd_key r)) ReleaseEntry"
proof
  assume "has_entry s (rd_campaign r) (refund_key (rd_key r)) ReleaseEntry"
  then obtain b where "b \<in> set (budget s)" "entry_is (rd_campaign r) (refund_key (rd_key r)) ReleaseEntry b"
    by (auto simp: has_entry_def list_ex_iff)
  then obtain r' where "r' \<in> set (redemptions s)" "rd_campaign r' = rd_campaign r" "rd_key r' = rd_key r" "rd_status r' = Released"
    using promo_invD(5) [OF inv, of b] by (auto simp: entry_is_def refund_key_inj)
  then show False using keys_rows [OF promo_invD(1) [OF inv] _ r(1)] r(2) by force
qed

lemma reverse_row_inv:
  assumes inv: "promo_inv s" and r0: "r0 \<in> set (redemptions s)" "rd_status r0 = Redeemed" and pos: "0 < rd_discount r0"
  shows "promo_inv (reverse_row r0 s)"
proof -
  note keys = promo_invD(1) [OF inv] and new = reverse_row_new [OF inv r0]
  let ?entry = "\<lparr>bl_campaign = rd_campaign r0, bl_user = rd_user r0, bl_order = rd_order r0, bl_type = ReleaseEntry,
      bl_amount = rd_discount r0, bl_key = refund_key (rd_key r0), bl_status = ReleasedEntry\<rparr>"
  let ?s = "reverse_row r0 s"
  let ?rs = "map (\<lambda>r. if this_row r0 Redeemed r then r\<lparr>rd_status := Released\<rparr> else r) (redemptions s)"
  have parts: "redemptions ?s = ?rs" "budget ?s = budget s @ [?entry]"
    "campaigns ?s = map (\<lambda>c. if cp_id c = rd_campaign r0 then free_redeemed (rd_discount r0) c else c) (campaigns s)"
    using new pos by (simp_all add: reverse_row_def Let_def)
  have only: "this_row r0 Redeemed r \<longleftrightarrow> r = r0" if "r \<in> set (redemptions s)" for r
    using this_row_only [OF keys r0 that] .
  have sums: "status_sum x cid ?rs = status_sum x cid (redemptions s)
      - (if rd_campaign r0 = cid \<and> Redeemed = x then rd_discount r0 else 0)
      + (if rd_campaign r0 = cid \<and> Released = x then rd_discount r0 else 0)" for x cid
    using status_change [OF keys r0, of Released x cid] by auto
  have enough: "rd_discount r0 \<le> cp_redeemed c" if "c \<in> set (campaigns s)" "cp_id c = rd_campaign r0" for c
    using status_member [of "redemptions s" r0] promo_invD(2) [OF inv] r0 promo_invD(6) [OF inv that(1)] that(2)
    by (simp add: booked_def)
  have k: "promo_keys ?s"
  proof -
    have "map cp_id (campaigns ?s) = map cp_id (campaigns s)" by (simp add: parts free_redeemed_def)
    moreover have "map (\<lambda>r. (rd_campaign r, rd_key r)) ?rs = map (\<lambda>r. (rd_campaign r, rd_key r)) (redemptions s)" by simp
    moreover have "distinct (map (\<lambda>b. (bl_campaign b, bl_key b, bl_type b)) (budget s @ [?entry]))"
      using keys new by (auto simp: promo_keys_def has_entry_def list_ex_iff entry_is_def)
    ultimately show ?thesis using keys unfolding promo_keys_def parts(1,2) by metis
  qed
  show ?thesis
    unfolding promo_inv_def parts
  proof (intro conjI ballI impI)
    show "promo_keys ?s" by (rule k)
  next
    fix r' assume "r' \<in> set ?rs"
    then obtain r where r: "r \<in> set (redemptions s)" "r' = (if this_row r0 Redeemed r then r\<lparr>rd_status := Released\<rparr> else r)" by auto
    then show "0 \<le> rd_discount r'" using promo_invD(2) [OF inv] by simp
    obtain b where "b \<in> set (budget s)" "paired r b" using promo_invD(3) [OF inv r(1)] by blast
    then show "\<exists>b \<in> set (budget s @ [?entry]). paired r' b"
      using r only r0(2) by (intro bexI [of _ b]) (auto simp: paired_def)
  next
    fix b assume "b \<in> set (budget s @ [?entry])" "bl_type b = ReserveEntry"
    then have "b \<in> set (budget s)" "bl_type b = ReserveEntry" by auto
    then obtain r where "r \<in> set (redemptions s)" "redemption_is (bl_campaign b) (bl_key b) r" using promo_invD(4) [OF inv] by blast
    then show "\<exists>r \<in> set ?rs. redemption_is (bl_campaign b) (bl_key b) r"
      by (intro bexI [of _ "if this_row r0 Redeemed r then r\<lparr>rd_status := Released\<rparr> else r"]) (auto simp: redemption_is_def)
  next
    fix b assume b: "b \<in> set (budget s @ [?entry])" "bl_type b = ReleaseEntry"
    have "\<exists>r \<in> set (redemptions s). rd_campaign r = bl_campaign b \<and> refund_key (rd_key r) = bl_key b \<and> (r = r0 \<or> rd_status r = Released)"
      using b promo_invD(5) [OF inv, of b] r0(1) by auto
    then obtain r where "r \<in> set (redemptions s)" "rd_campaign r = bl_campaign b" "refund_key (rd_key r) = bl_key b" "r = r0 \<or> rd_status r = Released"
      by blast
    then show "\<exists>r \<in> set ?rs. rd_campaign r = bl_campaign b \<and> refund_key (rd_key r) = bl_key b \<and> rd_status r = Released"
      using only by (intro bexI [of _ "if this_row r0 Redeemed r then r\<lparr>rd_status := Released\<rparr> else r"]) auto
  next
    fix c' assume "c' \<in> set (map (\<lambda>c. if cp_id c = rd_campaign r0 then free_redeemed (rd_discount r0) c else c) (campaigns s))"
    then obtain c where c: "c \<in> set (campaigns s)" "c' = (if cp_id c = rd_campaign r0 then free_redeemed (rd_discount r0) c else c)" by auto
    show "booked ?rs c'" "within_budget c'"
      using promo_invD(6,7) [OF inv c(1)] c(2) enough [OF c(1)] pos
      by (auto simp: booked_def within_budget_def sums free_redeemed_def)
  qed
qed

interpretation reversed: row_operation Redeemed reverse_row
proof
  fix s r x assume r: "promo_inv s" "r \<in> set (redemptions s)" "rd_status r = Redeemed"
  show "promo_inv (reverse_row r s)"
    using reverse_row_inv [OF r] r(1) by (cases "0 < rd_discount r") (simp, simp add: reverse_row_def)
  assume x: "x \<in> set (redemptions s)" "x \<noteq> r"
  then have "\<not> this_row r Redeemed x" using this_row_only [OF promo_invD(1) [OF r(1)] r(2,3)] by blast
  then show "x \<in> set (redemptions (reverse_row r s))" using x(1) by (force simp: reverse_row_def Let_def)
qed

text \<open>Operations that are not loops: the contract of an operation on the whole store.\<close>

locale promo_operation =
  fixes guard :: "'a \<Rightarrow> promo_store \<Rightarrow> bool" and act :: "'a \<Rightarrow> promo_store \<Rightarrow> promo_store"
  assumes keeps: "promo_inv s \<Longrightarrow> guard a s \<Longrightarrow> promo_inv (act a s)"
begin

lemma never_over_budget: "promo_inv s \<Longrightarrow> guard a s \<Longrightarrow> c \<in> set (campaigns (act a s)) \<Longrightarrow> within_budget c"
  using keeps promo_invD(7) by blast

end

lemma upd_redemptions_cong: "(\<And>r. r \<in> set (redemptions s) \<Longrightarrow> P r \<longleftrightarrow> P' r) \<Longrightarrow> upd_redemptions P f s = upd_redemptions P' f s"
  by (simp add: upd_redemptions_def cong: map_cong)

lemma commute_campaign: "upd_redemptions P f (upd_campaign i h s) = upd_campaign i h (upd_redemptions P f s)"
  by (simp add: upd_redemptions_def upd_campaign_def)

lemma commute_entries: "upd_redemptions P f (upd_entries Q g s) = upd_entries Q g (upd_redemptions P f s)"
  by (simp add: upd_redemptions_def upd_entries_def)

lemma release_entry_close:
  assumes inv: "promo_inv s" and b: "b \<in> set (budget s)" "bl_type b = ReserveEntry" "bl_status b = ActiveEntry"
  obtains r where "r \<in> set (redemptions s)" "rd_status r = Reserved" "paired r b"
    "release_entry b s = close_row r Released (entry_is (bl_campaign b) (bl_key b) ReserveEntry) ReleasedEntry (free_reserved (rd_discount r)) s"
proof -
  obtain r where r: "r \<in> set (redemptions s)" "redemption_is (bl_campaign b) (bl_key b) r"
    using promo_invD(4) [OF inv b(1,2)] by blast
  obtain b' where b': "b' \<in> set (budget s)" "paired r b'" using promo_invD(3) [OF inv r(1)] by blast
  have "b = b'" by (rule paired_unique [OF promo_invD(1) [OF inv] b'(1) b(1) b'(2)]) (use r b(2) in \<open>auto simp: entry_is_def redemption_is_def\<close>)
  then have p: "paired r b" "rd_status r = Reserved" using b' b(3) by (auto simp: paired_def)
  have "(redemption_is (bl_campaign b) (bl_key b) x \<and> rd_user x = bl_user b \<and> rd_status x = Reserved) \<longleftrightarrow> this_row r Reserved x"
    if "x \<in> set (redemptions s)" for x
    using keys_rows [OF promo_invD(1) [OF inv] that r(1)] p r(2) by (auto simp: this_row_def redemption_is_def paired_def entry_is_def)
  from upd_redemptions_cong [where s = s and f = "\<lambda>x. x\<lparr>rd_status := Released\<rparr>", OF this]
  have "release_entry b s = close_row r Released (entry_is (bl_campaign b) (bl_key b) ReserveEntry) ReleasedEntry (free_reserved (rd_discount r)) s"
    using p(1) by (simp only: release_entry_def close_row_def commute_campaign commute_entries) (simp add: paired_def entry_is_def)
  with r p show ?thesis by (intro that)
qed

lemma entry_is_paired:
  assumes "promo_inv s" "b \<in> set (budget s)" "paired r b" "b' \<in> set (budget s)"
  shows "entry_is (bl_campaign b) (bl_key b) ReserveEntry b' \<longleftrightarrow> paired r b'"
  using keys_entries [OF promo_invD(1) [OF assms(1)] assms(4,2)] assms(3) by (auto simp: paired_def entry_is_def)

interpretation release: promo_operation "\<lambda>_ _. True" "\<lambda>(user, key) s. snd (releasePromoReservation user key s)"
proof
  fix s :: promo_store and a :: "uuid \<times> string" assume inv: "promo_inv s"
  obtain user key where a: "a = (user, key)" by (cases a)
  show "promo_inv ((\<lambda>(user, key) s. snd (releasePromoReservation user key s)) a s)"
  proof (cases "find (active_reservation user key) (budget s)")
    case None
    then show ?thesis using inv a by (simp add: releasePromoReservation_def)
  next
    case (Some b)
    then have b: "b \<in> set (budget s)" "bl_type b = ReserveEntry" "bl_status b = ActiveEntry"
      by (auto simp: find_Some_iff active_reservation_def)
    obtain r where r: "r \<in> set (redemptions s)" "rd_status r = Reserved" "paired r b"
      and close: "release_entry b s = close_row r Released (entry_is (bl_campaign b) (bl_key b) ReserveEntry) ReleasedEntry (free_reserved (rd_discount r)) s"
      by (rule release_entry_close [OF inv b])
    have "promo_inv (release_entry b s)"
      unfolding close by (rule close_row_inv [OF inv r(1,2)]) (simp_all add: entry_is_paired [OF inv b(1) r(3)] free_reserved_def)
    then show ?thesis using inv a Some by (simp add: releasePromoReservation_def)
  qed
qed

text \<open>Changing what the books do not look at.\<close>

lemma relabel_inv:
  assumes inv: "promo_inv s"
    and f: "\<And>r. rd_campaign (f r) = rd_campaign r \<and> rd_key (f r) = rd_key r \<and> rd_discount (f r) = rd_discount r \<and> rd_status (f r) = rd_status r"
    and g: "\<And>b. bl_campaign (g b) = bl_campaign b \<and> bl_key (g b) = bl_key b \<and> bl_type (g b) = bl_type b"
    and pq: "\<And>r b. paired r b \<Longrightarrow> paired (f r) (g b)"
    and s': "redemptions s' = map f (redemptions s)" "budget s' = map g (budget s)" "campaigns s' = campaigns s"
  shows "promo_inv s'"
proof -
  have "map (\<lambda>r. (rd_campaign r, rd_key r)) (map f (redemptions s)) = map (\<lambda>r. (rd_campaign r, rd_key r)) (redemptions s)"
    "map (\<lambda>b. (bl_campaign b, bl_key b, bl_type b)) (map g (budget s)) = map (\<lambda>b. (bl_campaign b, bl_key b, bl_type b)) (budget s)"
    by (simp_all add: f g)
  then have "promo_keys s'" using promo_invD(1) [OF inv] unfolding promo_keys_def s' by metis
  moreover have "status_sum st c (map f (redemptions s)) = status_sum st c (redemptions s)" for st c
    by (simp add: status_sum_def comp_def f cong: if_cong)
  ultimately show ?thesis
    using inv pq unfolding promo_inv_def s' booked_def by (simp add: f g redemption_is_def) blast
qed

interpretation attach: promo_operation "\<lambda>_ _. True" "\<lambda>(user, order, cid, key). attach_order user order cid key"
proof
  fix s :: promo_store and a :: "uuid \<times> uuid \<times> uuid \<times> string" assume inv: "promo_inv s"
  obtain user order cid key where a: "a = (user, order, cid, key)" by (cases a)
  let ?P = "\<lambda>r. redemption_is cid key r \<and> rd_user r = user \<and> rd_status r = Reserved"
  let ?Q = "\<lambda>b. entry_is cid key ReserveEntry b \<and> bl_user b = user \<and> bl_status b = ActiveEntry"
  have "promo_inv (attach_order user order cid key s)"
  proof (rule relabel_inv [OF inv])
    show "redemptions (attach_order user order cid key s) = map (\<lambda>r. if ?P r then r\<lparr>rd_order := Some order\<rparr> else r) (redemptions s)"
      "budget (attach_order user order cid key s) = map (\<lambda>b. if ?Q b then b\<lparr>bl_order := Some order\<rparr> else b) (budget s)"
      by (simp_all add: attach_order_def)
    fix r b assume "paired r b"
    then show "paired (if ?P r then r\<lparr>rd_order := Some order\<rparr> else r) (if ?Q b then b\<lparr>bl_order := Some order\<rparr> else b)"
      by (auto simp: paired_def entry_is_def redemption_is_def)
  qed (simp_all add: attach_order_def)
  then show "promo_inv ((case a of (user, order, cid, key) \<Rightarrow> attach_order user order cid key) s)" using a by simp
qed

text \<open>Committing a reservation, for any quote.\<close>

definition commit_reserve :: "uuid \<times> uuid \<times> string \<times> int \<times> int \<times> int \<times> promo_input \<Rightarrow> promo_store \<Rightarrow> promo_store" where
  "commit_reserve = (\<lambda>(user, cid, key, discount, gross, margin, i) s.
     (case commit_promo Reserve user cid key discount gross margin i s of Inl _ \<Rightarrow> s | Inr s' \<Rightarrow> s'))"

lemma put_same: "put_redemption r (\<lambda>x. x) s = (if list_ex (redemption_is (rd_campaign r) (rd_key r)) (redemptions s) then s
    else s\<lparr>redemptions := redemptions s @ [r]\<rparr>)"
  by (simp add: put_redemption_def)

lemma entry_row:
  assumes "promo_inv s"
  shows "has_entry s cid key ReserveEntry \<longleftrightarrow> list_ex (redemption_is cid key) (redemptions s)"
proof
  assume "has_entry s cid key ReserveEntry"
  then obtain b where "b \<in> set (budget s)" "entry_is cid key ReserveEntry b" by (auto simp: has_entry_def list_ex_iff)
  then show "list_ex (redemption_is cid key) (redemptions s)"
    using promo_invD(4) [OF assms, of b] by (auto simp: entry_is_def list_ex_iff)
next
  assume "list_ex (redemption_is cid key) (redemptions s)"
  then obtain r where r: "r \<in> set (redemptions s)" "redemption_is cid key r" by (auto simp: list_ex_iff)
  obtain b where "b \<in> set (budget s)" "paired r b" using promo_invD(3) [OF assms r(1)] by blast
  then show "has_entry s cid key ReserveEntry"
    using r(2) by (auto simp: has_entry_def list_ex_iff paired_def redemption_is_def)
qed

lemma commit_reserve_new:
  assumes inv: "promo_inv s" and new: "\<not> has_entry s cid key ReserveEntry" and d: "0 \<le> discount"
    and room: "find_campaign s cid = Some c" "0 < cp_total c \<longrightarrow> discount \<le> budget_left c"
    and b: "entry_is cid key ReserveEntry b" "bl_user b = user" "bl_amount b = discount" "bl_order b = ord" "bl_status b = ActiveEntry"
    and r: "redemption_is cid key r" "rd_user r = user" "rd_discount r = discount" "rd_order r = ord" "rd_status r = Reserved"
    and s': "redemptions s' = redemptions s @ [r]" "budget s' = budget s @ [b]"
      "campaigns s' = map (\<lambda>c. if cp_id c = cid then reserve_budget discount c else c) (campaigns s)"
  shows "promo_inv s'"
proof -
  have no_row: "\<not> list_ex (redemption_is cid key) (redemptions s)" using new entry_row [OF inv] by simp
  have keys: "promo_keys s'"
  proof -
    have "map cp_id (campaigns s') = map cp_id (campaigns s)" by (simp add: s' reserve_budget_def)
    moreover have "distinct (map (\<lambda>r. (rd_campaign r, rd_key r)) (redemptions s'))"
      using promo_invD(1) [OF inv] no_row r(1) by (auto simp: s' promo_keys_def list_ex_iff redemption_is_def)
    moreover have "distinct (map (\<lambda>b. (bl_campaign b, bl_key b, bl_type b)) (budget s'))"
      using promo_invD(1) [OF inv] new b(1) by (auto simp: s' promo_keys_def has_entry_def list_ex_iff entry_is_def)
    ultimately show ?thesis using promo_invD(1) [OF inv] by (simp add: promo_keys_def)
  qed
  have sums: "status_sum st i (redemptions s') = status_sum st i (redemptions s) + (if cid = i \<and> st = Reserved then discount else 0)" for st i
    using r by (auto simp: status_sum_def s' redemption_is_def)
  have cid: "c' = c" if "c' \<in> set (campaigns s)" "cp_id c' = cid" for c'
    using room(1) that promo_invD(1) [OF inv]
    by (auto simp: find_campaign_def find_Some_iff promo_keys_def distinct_map dest: inj_onD [of cp_id _ c' c])
  have pair: "paired r b" using b r by (simp add: paired_def redemption_is_def)
  have camps: "booked (redemptions s') c' \<and> within_budget c'" if "c' \<in> set (campaigns s')" for c'
  proof -
    from that obtain c0 where c0: "c0 \<in> set (campaigns s)" "c' = (if cp_id c0 = cid then reserve_budget discount c0 else c0)"
      by (auto simp: s')
    then show ?thesis
      using promo_invD(6,7) [OF inv c0(1)] cid [OF c0(1)] room(2)
      by (auto simp: booked_def within_budget_def sums reserve_budget_def budget_left_def)
  qed
  show ?thesis
    unfolding promo_inv_def
  proof (intro conjI ballI impI)
    show "promo_keys s'" by (rule keys)
    fix x assume "x \<in> set (redemptions s')"
    then have "x \<in> set (redemptions s) \<or> x = r" by (auto simp: s')
    then show "0 \<le> rd_discount x" "\<exists>b \<in> set (budget s'). paired x b"
      using promo_invD(2,3) [OF inv] pair r(3) d by (auto simp: s')
  next
    fix x assume "x \<in> set (budget s')" "bl_type x = ReserveEntry"
    then show "\<exists>r \<in> set (redemptions s'). redemption_is (bl_campaign x) (bl_key x) r"
      using promo_invD(4) [OF inv] r(1) b(1) by (auto simp: s' entry_is_def)
  next
    fix x assume "x \<in> set (budget s')" "bl_type x = ReleaseEntry"
    then show "\<exists>r \<in> set (redemptions s'). rd_campaign r = bl_campaign x \<and> refund_key (rd_key r) = bl_key x \<and> rd_status r = Released"
      using promo_invD(5) [OF inv] b(1) by (auto simp: s' entry_is_def)
  qed (use camps in auto)
qed

interpretation reserve: promo_operation "\<lambda>(user, cid, key, discount, gross, margin, i) _. 0 \<le> discount" commit_reserve
proof
  fix s :: promo_store and a :: "uuid \<times> uuid \<times> string \<times> int \<times> int \<times> int \<times> promo_input"
  assume inv: "promo_inv s" and "(\<lambda>(user, cid, key, discount, gross, margin, i) _. 0 \<le> discount) a s"
  moreover obtain user cid key discount gross margin i where a: "a = (user, cid, key, discount, gross, margin, i)" by (cases a)
  ultimately have d: "0 \<le> discount" by simp
  show "promo_inv (commit_reserve a s)"
  proof (cases "commit_promo Reserve user cid key discount gross margin i s")
    case (Inl e)
    then show ?thesis using inv a by (simp add: commit_reserve_def)
  next
    case (Inr s')
    then obtain c where c: "find_campaign s cid = Some c" by (auto simp: commit_promo_def Let_def split: option.splits)
    show ?thesis
    proof (cases "has_entry s cid key ReserveEntry")
      case True
      then have "s' = s" using Inr c entry_row [OF inv] by (simp add: commit_promo_def Let_def put_same)
      then show ?thesis using inv a Inr by (simp add: commit_reserve_def)
    next
      case False
      have room: "0 < cp_total c \<longrightarrow> discount \<le> budget_left c"
        using Inr c False by (auto simp: commit_promo_def Let_def split: if_splits)
      from Inr c False room entry_row [OF inv] have "promo_inv s'"
        by (intro commit_reserve_new [OF inv False d c room]) (auto simp: commit_promo_def Let_def put_same entry_is_def redemption_is_def split: if_splits)
      then show ?thesis using a Inr by (simp add: commit_reserve_def)
    qed
  qed
qed

end
