(* ===== verification/PromoCampaign.thy ===== *)
theory PromoCampaign
  imports PromoCheckout
begin

text \<open>
  The life of a campaign under administration (\<open>services/promoEngine.ts\<close>): create, update, submit, approve,
  publish and pause.  Every operation answers with an error, leaving the tables alone, or with the
  campaign as it was written.  The random suffixes of a generated code and the new id are parameters.
\<close>

section \<open>Requests\<close>

record promo_actor =
  ac_id :: "uuid option"
  ac_role :: "string option"

record campaign_change =
  ch_code :: "string option"
  ch_name :: "string option"
  ch_description :: "string option"
  ch_type :: "discount_type option"
  ch_value :: "int option"
  ch_percent :: "rat option"
  ch_max :: "int option"
  ch_min :: "int option"
  ch_services :: "string list option"
  ch_scope :: "component_scope option"
  ch_stacking :: "string option"
  ch_stack_other :: "bool option"
  ch_total :: "int option"
  ch_daily :: "int option"
  ch_redemptions :: "int option"
  ch_user_limit :: "int option"
  ch_starts :: "instant option"
  ch_ends :: "instant option"
  ch_audience :: "json option"
  ch_eligibility :: "json option"
  ch_copy :: "json option"
  ch_risk :: "bool option"
  ch_risk_reason :: "string option"

definition between :: "int \<Rightarrow> int \<Rightarrow> int \<Rightarrow> bool" where
  "between low high n \<longleftrightarrow> low \<le> n \<and> n \<le> high"

definition code_char :: "char \<Rightarrow> bool" where
  "code_char c = (is_digit c \<or> c \<in> set ''ABCDEFGHIJKLMNOPQRSTUVWXYZ_-'')"

definition key_char :: "char \<Rightarrow> bool" where
  "key_char c = (service_char c \<or> c \<in> set ''.:'')"

text \<open>\<open>campaignMutationSchema\<close>; a blank code counts as absent.\<close>

definition clean_change :: "campaign_change \<Rightarrow> campaign_change" where
  "clean_change ch = ch\<lparr>
     ch_code := (case ch_code ch of None \<Rightarrow> None | Some c \<Rightarrow> if js_trim c = [] then None else Some (js_trim c)),
     ch_name := map_option js_trim (ch_name ch), ch_description := map_option js_trim (ch_description ch),
     ch_services := map_option (map js_trim) (ch_services ch), ch_stacking := map_option js_trim (ch_stacking ch),
     ch_risk_reason := map_option js_trim (ch_risk_reason ch)\<rparr>"

definition change_ok :: "campaign_change \<Rightarrow> bool" where
  "change_ok ch \<longleftrightarrow>
     given (\<lambda>c. text_ok 3 40 c \<and> list_all code_char c) (ch_code ch)
     \<and> given (text_ok 3 120) (ch_name ch) \<and> given (text_ok 0 1000) (ch_description ch)
     \<and> given (between 0 100000000) (ch_value ch) \<and> given (\<lambda>p. 0 \<le> p \<and> p \<le> 100) (ch_percent ch)
     \<and> given (between 0 100000000) (ch_max ch) \<and> given (between 0 100000000) (ch_min ch)
     \<and> given (\<lambda>ss. 1 \<le> length ss \<and> length ss \<le> 20 \<and> list_all (\<lambda>t. text_ok 2 50 t \<and> list_all service_char t) ss) (ch_services ch)
     \<and> given (\<lambda>k. text_ok 2 80 k \<and> list_all key_char k) (ch_stacking ch)
     \<and> given (between 0 10000000000) (ch_total ch) \<and> given (between 0 1000000000) (ch_daily ch)
     \<and> given (between 0 10000000) (ch_redemptions ch) \<and> given (between 1 100) (ch_user_limit ch)
     \<and> given (text_ok 0 500) (ch_risk_reason ch)"

section \<open>Checks\<close>

definition assertActor :: "promo_actor \<Rightarrow> promo_error option" where
  "assertActor actor = (if str_or (ac_id actor) [] = [] then Some (401, ''Authenticated actor is required'') else None)"

definition assertSuperAdmin :: "promo_actor \<Rightarrow> promo_error option" where
  "assertSuperAdmin actor = (if ac_role actor \<noteq> Some ''super_admin'' then Some (403, ''Only superadmin can approve risk campaigns'') else None)"

definition assertCampaignEconomics :: "campaign \<Rightarrow> promo_error option" where
  "assertCampaignEconomics c =
     (if cp_ends c \<le> cp_starts c then Some (400, ''Campaign schedule is invalid'')
      else if cp_total c \<le> 0 then Some (400, ''Campaign total budget must be configured before activation'')
      else if cp_services c = [] then Some (400, ''Campaign must target at least one delivery service'')
      else None)"

definition missing_policies :: "campaign \<Rightarrow> promo_store \<Rightarrow> string list" where
  "missing_policies c s = filter (\<lambda>sv. \<not> list_ex (\<lambda>mp. mp_active mp \<and> mp_service mp = sv) (policies s)) (cp_services c)"

definition requirePoliciesForCampaign :: "campaign \<Rightarrow> promo_store \<Rightarrow> promo_error option" where
  "requirePoliciesForCampaign c s =
     (case missing_policies c s of [] \<Rightarrow> None
      | m # ms \<Rightarrow> Some (409, ''Margin policy missing for service: '' @ m @ concat (map (\<lambda>x. '', '' @ x) ms)))"

definition getPromoCampaignById :: "uuid \<Rightarrow> promo_store \<Rightarrow> campaign option" where
  "getPromoCampaignById i s = find (\<lambda>c. cp_is_promo c \<and> cp_id c = i) (campaigns s)"

text \<open>The first check that fails, else the operation.\<close>

fun first_error :: "promo_error option list \<Rightarrow> promo_error option" where
  "first_error [] = None"
| "first_error (None # es) = first_error es"
| "first_error (Some e # _) = Some e"

definition not_found :: promo_error where
  "not_found = (404, ''Promo campaign not found'')"

section \<open>Operations\<close>

text \<open>The row is rewritten and the event audited in one transaction.\<close>

definition write_campaign ::
  "promo_actor \<Rightarrow> uuid \<Rightarrow> string \<Rightarrow> string \<Rightarrow> (campaign \<Rightarrow> campaign) \<Rightarrow> promo_store \<Rightarrow> promo_store" where
  "write_campaign actor i action reason f s =
     promo_audit_event i (ac_id actor) (ac_role actor) action reason
       (upd_campaign i (\<lambda>c. (f c)\<lparr>cp_updated_by := ac_id actor\<rparr>) s)"

definition merge_change :: "campaign_change \<Rightarrow> campaign \<Rightarrow> campaign" where
  "merge_change ch c =
     (let pick = (\<lambda>v d. case v of None \<Rightarrow> d | Some x \<Rightarrow> x);
          services = (case ch_services ch of None \<Rightarrow> cp_services c | Some ss \<Rightarrow> ss);
          stacking = (case ch_stacking ch of None \<Rightarrow> cp_stacking_key c | Some k \<Rightarrow> k)
      in c\<lparr>cp_name := (case ch_name ch of None \<Rightarrow> cp_name c | Some n \<Rightarrow> n),
        cp_description := (case ch_description ch of None \<Rightarrow> cp_description c | Some d \<Rightarrow> d),
        cp_type := (case ch_type ch of None \<Rightarrow> cp_type c | Some t \<Rightarrow> t),
        cp_value := pick (ch_value ch) (cp_value c), cp_percent := (case ch_percent ch of None \<Rightarrow> cp_percent c | Some p \<Rightarrow> p),
        cp_max_discount := pick (ch_max ch) (cp_max_discount c), cp_min_order := pick (ch_min ch) (cp_min_order c),
        cp_services := services,
        cp_scope := (case ch_scope ch of None \<Rightarrow> cp_scope c | Some x \<Rightarrow> x),
        cp_stacking_key := (if stacking \<noteq> [] then stacking else case services of [] \<Rightarrow> [] | sv # _ \<Rightarrow> sv),
        cp_stack_other := (case ch_stack_other ch of None \<Rightarrow> cp_stack_other c | Some b \<Rightarrow> b),
        cp_total := pick (ch_total ch) (cp_total c), cp_daily := pick (ch_daily ch) (cp_daily c),
        cp_max_redemptions := pick (ch_redemptions ch) (cp_max_redemptions c),
        cp_user_limit := pick (ch_user_limit ch) (cp_user_limit c),
        cp_starts := pick (ch_starts ch) (cp_starts c), cp_ends := pick (ch_ends ch) (cp_ends c),
        cp_audience := (case ch_audience ch of None \<Rightarrow> cp_audience c | Some j \<Rightarrow> j),
        cp_eligibility := (case ch_eligibility ch of None \<Rightarrow> cp_eligibility c | Some j \<Rightarrow> j),
        cp_copy := (case ch_copy ch of None \<Rightarrow> cp_copy c | Some j \<Rightarrow> j),
        cp_risk := (case ch_risk ch of None \<Rightarrow> cp_risk c | Some b \<Rightarrow> b),
        cp_risk_reason := (case ch_risk_reason ch of None \<Rightarrow> cp_risk_reason c | Some r \<Rightarrow> if r = [] then None else Some r)\<rparr>)"

definition new_campaign :: "promo_actor \<Rightarrow> instant \<Rightarrow> uuid \<Rightarrow> string \<Rightarrow> campaign_change \<Rightarrow> campaign" where
  "new_campaign actor now i code ch =
     (let num = (\<lambda>v. case v of None \<Rightarrow> 0 | Some x \<Rightarrow> x); services = (case ch_services ch of None \<Rightarrow> [] | Some ss \<Rightarrow> ss) in
      \<lparr>cp_id = i, cp_code = code, cp_name = str_or (ch_name ch) [], cp_description = str_or (ch_description ch) [],
       cp_status = Draft, cp_type = (case ch_type ch of None \<Rightarrow> Fixed | Some t \<Rightarrow> t), cp_value = num (ch_value ch),
       cp_percent = (case ch_percent ch of None \<Rightarrow> 0 | Some p \<Rightarrow> p), cp_max_discount = num (ch_max ch), cp_min_order = num (ch_min ch),
       cp_services = services, cp_scope = (case ch_scope ch of None \<Rightarrow> Shipping | Some x \<Rightarrow> x),
       cp_stacking_key = str_or (ch_stacking ch) (case services of [] \<Rightarrow> [] | sv # _ \<Rightarrow> sv),
       cp_stack_other = (ch_stack_other ch \<noteq> Some False), cp_total = num (ch_total ch), cp_daily = num (ch_daily ch),
       cp_reserved = 0, cp_redeemed = 0, cp_max_redemptions = num (ch_redemptions ch),
       cp_user_limit = (case ch_user_limit ch of None \<Rightarrow> 1 | Some n \<Rightarrow> n),
       cp_starts = num (ch_starts ch), cp_ends = num (ch_ends ch),
       cp_audience = (case ch_audience ch of None \<Rightarrow> JObj [] | Some j \<Rightarrow> j),
       cp_eligibility = (case ch_eligibility ch of None \<Rightarrow> JObj [] | Some j \<Rightarrow> j),
       cp_copy = (case ch_copy ch of None \<Rightarrow> JObj [] | Some j \<Rightarrow> j),
       cp_risk = (ch_risk ch = Some True), cp_risk_reason = (case ch_risk_reason ch of Some (x # xs) \<Rightarrow> Some (x # xs) | _ \<Rightarrow> None),
       cp_approved = None, cp_published = None, cp_paused = None, cp_created_by = ac_id actor, cp_updated_by = ac_id actor,
       cp_created = now, cp_is_promo = True\<rparr>)"

text \<open>
  The constraints of the table, beside unique codes: a window that ends after it starts, and a total
  budget that fits its 32-bit column, which the schema does not ask for.
\<close>

definition row_ok :: "campaign \<Rightarrow> bool" where
  "row_ok c \<longleftrightarrow> cp_starts c < cp_ends c \<and> cp_total c < 2147483648"

definition constraint_error :: promo_error where
  "constraint_error = (500, ''Promo service failed'')"

text \<open>The prefix, and the first of twelve random codes that no campaign has; \<open>draws\<close> are the random suffixes.\<close>

definition code_prefix :: "string option \<Rightarrow> string" where
  "code_prefix requested =
     (case take 12 (filter (\<lambda>c. is_digit c \<or> c \<in> set ''ABCDEFGHIJKLMNOPQRSTUVWXYZ'')
         (toUpperCase (js_trim (str_or requested ''TEMBUS'')))) of
        [] \<Rightarrow> ''TEMBUS'' | p # ps \<Rightarrow> p # ps)"

definition generatePromoCode :: "string option \<Rightarrow> string list \<Rightarrow> promo_store \<Rightarrow> promo_error + string" where
  "generatePromoCode requested draws s =
     (case find (\<lambda>code. \<not> list_ex (\<lambda>c. cp_code c = code) (campaigns s))
         (map (\<lambda>suffix. code_prefix requested @ ''-'' @ suffix) (take 12 draws)) of
        None \<Rightarrow> Inl (503, ''Unable to generate a unique promo code'')
      | Some code \<Rightarrow> Inr code)"

definition campaign_code :: "campaign_change \<Rightarrow> string list \<Rightarrow> promo_store \<Rightarrow> promo_error + string" where
  "campaign_code ch draws s = (case ch_code ch of None \<Rightarrow> generatePromoCode None draws s | Some code \<Rightarrow> Inr code)"

definition createPromoCampaign ::
  "promo_actor \<Rightarrow> instant \<Rightarrow> uuid \<Rightarrow> string list \<Rightarrow> campaign_change \<Rightarrow> promo_store \<Rightarrow> (promo_error + campaign) \<times> promo_store" where
  "createPromoCampaign actor now i draws raw s =
     (let ch = clean_change raw in
      case assertActor actor of Some e \<Rightarrow> (Inl e, s) | None \<Rightarrow>
        if \<not> change_ok ch \<or> ch_name ch = None \<or> ch_services ch = None \<or> ch_starts ch = None \<or> ch_ends ch = None
        then (Inl (400, ''Invalid promo payload''), s)
        else (case campaign_code ch draws s of
            Inl e \<Rightarrow> (Inl e, s)
          | Inr code \<Rightarrow>
              (let c = new_campaign actor now i code ch in
               if list_ex (\<lambda>x. cp_code x = cp_code c \<or> cp_id x = i) (campaigns s) \<or> \<not> row_ok c then (Inl constraint_error, s)
               else (Inr c, promo_audit_event i (ac_id actor) (ac_role actor) ''promo_campaign_created'' ''Promo campaign draft created''
                       (s\<lparr>campaigns := campaigns s @ [c]\<rparr>)))))"

definition updatePromoCampaign ::
  "promo_actor \<Rightarrow> uuid \<Rightarrow> campaign_change \<Rightarrow> promo_store \<Rightarrow> promo_error option \<times> promo_store" where
  "updatePromoCampaign actor i raw s =
     (let ch = clean_change raw in
      case first_error [assertActor actor, if change_ok ch then None else Some (400, ''Invalid promo payload'')] of
        Some e \<Rightarrow> (Some e, s)
      | None \<Rightarrow>
          (case getPromoCampaignById i s of
             None \<Rightarrow> (Some not_found, s)
           | Some c \<Rightarrow>
               if cp_status c \<notin> {Draft, PendingApproval, Paused, Scheduled}
               then (Some (409, ''Only draft, pending, scheduled, or paused campaigns can be edited''), s)
               else if \<not> row_ok (merge_change ch c) then (Some constraint_error, s)
               else (None, write_campaign actor i ''promo_campaign_updated'' ''Promo campaign updated'' (\<lambda>_. merge_change ch c) s)))"

definition submitPromoCampaignForApproval :: "promo_actor \<Rightarrow> uuid \<Rightarrow> promo_store \<Rightarrow> promo_error option \<times> promo_store" where
  "submitPromoCampaignForApproval actor i s =
     (case assertActor actor of Some e \<Rightarrow> (Some e, s) | None \<Rightarrow>
       (case getPromoCampaignById i s of None \<Rightarrow> (Some not_found, s) | Some c \<Rightarrow>
         (case first_error [assertCampaignEconomics c, requirePoliciesForCampaign c s] of Some e \<Rightarrow> (Some e, s) | None \<Rightarrow>
            (None, write_campaign actor i ''promo_campaign_submitted'' ''Promo campaign submitted for activation''
               (\<lambda>x. x\<lparr>cp_status := (if cp_risk c then PendingApproval else Scheduled)\<rparr>) s))))"

definition approvePromoCampaign :: "promo_actor \<Rightarrow> instant \<Rightarrow> uuid \<Rightarrow> promo_store \<Rightarrow> promo_error option \<times> promo_store" where
  "approvePromoCampaign actor now i s =
     (case first_error [assertActor actor, assertSuperAdmin actor] of Some e \<Rightarrow> (Some e, s) | None \<Rightarrow>
       (case getPromoCampaignById i s of None \<Rightarrow> (Some not_found, s) | Some c \<Rightarrow>
         (case first_error [assertCampaignEconomics c, requirePoliciesForCampaign c s] of Some e \<Rightarrow> (Some e, s) | None \<Rightarrow>
            (None, write_campaign actor i ''promo_campaign_approved'' ''Risk campaign approved by superadmin''
               (\<lambda>x. x\<lparr>cp_status := Scheduled, cp_approved := map_option (\<lambda>u. (u, now)) (ac_id actor)\<rparr>) s))))"

definition publishPromoCampaign :: "promo_actor \<Rightarrow> instant \<Rightarrow> uuid \<Rightarrow> promo_store \<Rightarrow> promo_error option \<times> promo_store" where
  "publishPromoCampaign actor now i s =
     (case assertActor actor of Some e \<Rightarrow> (Some e, s) | None \<Rightarrow>
       (case getPromoCampaignById i s of None \<Rightarrow> (Some not_found, s) | Some c \<Rightarrow>
         (case first_error [assertCampaignEconomics c, requirePoliciesForCampaign c s,
             if cp_risk c \<and> cp_approved c = None then Some (403, ''Risk campaign requires superadmin approval before publish'') else None] of
            Some e \<Rightarrow> (Some e, s)
          | None \<Rightarrow>
              (None, write_campaign actor i ''promo_campaign_published'' ''Promo campaign published''
                 (\<lambda>x. x\<lparr>cp_status := (if cp_starts c \<le> now \<and> now < cp_ends c then Active else Scheduled),
                    cp_published := map_option (\<lambda>u. (u, now)) (ac_id actor)\<rparr>) s))))"

definition pausePromoCampaign :: "promo_actor \<Rightarrow> instant \<Rightarrow> uuid \<Rightarrow> string \<Rightarrow> promo_store \<Rightarrow> promo_error option \<times> promo_store" where
  "pausePromoCampaign actor now i reason s =
     (case assertActor actor of Some e \<Rightarrow> (Some e, s) | None \<Rightarrow>
       if \<not> list_ex (\<lambda>c. cp_id c = i \<and> cp_status c \<in> {Active, Scheduled, PendingApproval}) (campaigns s)
       then (Some (404, ''Promo campaign not found or cannot be paused''), s)
       else (None, write_campaign actor i ''promo_campaign_paused'' (if reason = [] then ''Promo campaign paused'' else reason)
          (\<lambda>x. x\<lparr>cp_status := Paused, cp_paused := map_option (\<lambda>u. (u, now)) (ac_id actor)\<rparr>) s))"

section \<open>Approval\<close>

lemma write_campaigns [simp]:
  "campaigns (write_campaign actor i a r f s) = map (\<lambda>c. if cp_id c = i then (f c)\<lparr>cp_updated_by := ac_id actor\<rparr> else c) (campaigns s)"
  "policies (write_campaign actor i a r f s) = policies s"
  "redemptions (write_campaign actor i a r f s) = redemptions s" "budget (write_campaign actor i a r f s) = budget s"
  by (simp_all add: write_campaign_def promo_audit_event_def upd_campaign_def)

lemma get_campaign: "getPromoCampaignById i s = Some c \<Longrightarrow> c \<in> set (campaigns s) \<and> cp_id c = i \<and> cp_is_promo c"
  by (auto simp: getPromoCampaignById_def find_Some_iff)

text \<open>An active risk campaign has been approved.\<close>

definition risk_approved :: "promo_store \<Rightarrow> bool" where
  "risk_approved s \<longleftrightarrow> distinct (map cp_id (campaigns s))
     \<and> (\<forall>c \<in> set (campaigns s). cp_status c = Active \<and> cp_risk c \<longrightarrow> cp_approved c \<noteq> None)"

lemma write_risk_approved:
  assumes "risk_approved s" "c \<in> set (campaigns s)" "cp_id c = i" "cp_id (f c) = i"
    and "cp_status (f c) = Active \<and> cp_risk (f c) \<longrightarrow> cp_approved (f c) \<noteq> None"
  shows "risk_approved (write_campaign actor i a r f s)"
proof -
  have only: "x = c" if "x \<in> set (campaigns s)" "cp_id x = i" for x
    using assms(1-3) that by (auto simp: risk_approved_def distinct_map dest: inj_onD)
  have "map cp_id (campaigns (write_campaign actor i a r f s)) = map cp_id (campaigns s)"
    using only assms(3,4) by auto
  moreover have "cp_status x = Active \<and> cp_risk x \<longrightarrow> cp_approved x \<noteq> None"
    if x: "x \<in> set (campaigns (write_campaign actor i a r f s))" for x
  proof -
    obtain y where y: "y \<in> set (campaigns s)" "x = (if cp_id y = i then (f y)\<lparr>cp_updated_by := ac_id actor\<rparr> else y)"
      using x by auto
    show ?thesis
    proof (cases "cp_id y = i")
      case True
      then show ?thesis using only [OF y(1)] y(2) assms(5) by simp
    next
      case False
      then show ?thesis using y assms(1) by (simp add: risk_approved_def)
    qed
  qed
  ultimately show ?thesis using assms(1) unfolding risk_approved_def by metis
qed

inductive campaign_step :: "promo_store \<Rightarrow> promo_store \<Rightarrow> bool" where
  create: "createPromoCampaign actor now i draws ch s = (Inr c, s') \<Longrightarrow> campaign_step s s'"
| update: "updatePromoCampaign actor i ch s = (None, s') \<Longrightarrow> campaign_step s s'"
| submit: "submitPromoCampaignForApproval actor i s = (None, s') \<Longrightarrow> campaign_step s s'"
| approve: "approvePromoCampaign actor now i s = (None, s') \<Longrightarrow> campaign_step s s'"
| publish: "publishPromoCampaign actor now i s = (None, s') \<Longrightarrow> campaign_step s s'"
| pause: "pausePromoCampaign actor now i reason s = (None, s') \<Longrightarrow> campaign_step s s'"

text \<open>What an operation that succeeds has checked and done.\<close>

lemma first_error_None: "first_error es = None \<longleftrightarrow> (\<forall>e \<in> set es. e = None)"
  by (induction es rule: first_error.induct) auto

lemma update_cases:
  assumes "updatePromoCampaign actor i raw s = (None, s')"
  obtains c where "getPromoCampaignById i s = Some c" "cp_status c \<in> {Draft, PendingApproval, Paused, Scheduled}"
    "row_ok (merge_change (clean_change raw) c)"
    "s' = write_campaign actor i ''promo_campaign_updated'' ''Promo campaign updated'' (\<lambda>_. merge_change (clean_change raw) c) s"
  using assms by (auto simp: updatePromoCampaign_def Let_def split: option.splits if_splits)

lemma submit_cases:
  assumes "submitPromoCampaignForApproval actor i s = (None, s')"
  obtains c where "getPromoCampaignById i s = Some c"
    "s' = write_campaign actor i ''promo_campaign_submitted'' ''Promo campaign submitted for activation''
      (\<lambda>x. x\<lparr>cp_status := (if cp_risk c then PendingApproval else Scheduled)\<rparr>) s"
  using assms by (auto simp: submitPromoCampaignForApproval_def split: option.splits if_splits)

lemma approve_cases:
  assumes "approvePromoCampaign actor now i s = (None, s')"
  obtains c where "getPromoCampaignById i s = Some c" "ac_role actor = Some ''super_admin''" "str_or (ac_id actor) [] \<noteq> []"
    "s' = write_campaign actor i ''promo_campaign_approved'' ''Risk campaign approved by superadmin''
      (\<lambda>x. x\<lparr>cp_status := Scheduled, cp_approved := map_option (\<lambda>u. (u, now)) (ac_id actor)\<rparr>) s"
proof -
  from assms have ok: "first_error [assertActor actor, assertSuperAdmin actor] = None"
    by (simp add: approvePromoCampaign_def split: option.splits)
  then have "ac_role actor = Some ''super_admin''" "str_or (ac_id actor) [] \<noteq> []"
    unfolding first_error_None by (simp_all add: assertActor_def assertSuperAdmin_def split: if_splits)
  then show ?thesis using assms ok that by (simp add: approvePromoCampaign_def split: option.splits)
qed

lemma publish_cases:
  assumes "publishPromoCampaign actor now i s = (None, s')"
  obtains c where "getPromoCampaignById i s = Some c" "assertCampaignEconomics c = None" "requirePoliciesForCampaign c s = None"
    "cp_risk c \<longrightarrow> cp_approved c \<noteq> None"
    "s' = write_campaign actor i ''promo_campaign_published'' ''Promo campaign published''
      (\<lambda>x. x\<lparr>cp_status := (if cp_starts c \<le> now \<and> now < cp_ends c then Active else Scheduled),
         cp_published := map_option (\<lambda>u. (u, now)) (ac_id actor)\<rparr>) s"
  using assms by (auto simp: publishPromoCampaign_def first_error_None split: option.splits if_splits)

lemma merge_keeps [simp]:
  "cp_id (merge_change ch c) = cp_id c" "cp_status (merge_change ch c) = cp_status c" "cp_approved (merge_change ch c) = cp_approved c"
  "cp_reserved (merge_change ch c) = cp_reserved c" "cp_redeemed (merge_change ch c) = cp_redeemed c" "cp_is_promo (merge_change ch c) = cp_is_promo c"
  by (simp_all add: merge_change_def Let_def)

lemma new_campaign_sel [simp]:
  "cp_id (new_campaign actor now i code ch) = i" "cp_status (new_campaign actor now i code ch) = Draft"
  "cp_reserved (new_campaign actor now i code ch) = 0" "cp_redeemed (new_campaign actor now i code ch) = 0"
  by (simp_all add: new_campaign_def Let_def)

lemma create_cases:
  assumes "createPromoCampaign actor now i draws raw s = (Inr c, s')"
  obtains "\<forall>x \<in> set (campaigns s). cp_id x \<noteq> i" "cp_id c = i" "cp_status c = Draft" "cp_reserved c = 0" "cp_redeemed c = 0"
    "s' = promo_audit_event i (ac_id actor) (ac_role actor) ''promo_campaign_created'' ''Promo campaign draft created''
       (s\<lparr>campaigns := campaigns s @ [c]\<rparr>)"
proof -
  obtain code where "c = new_campaign actor now i code (clean_change raw)" "\<not> list_ex (\<lambda>x. cp_code x = cp_code c \<or> cp_id x = i) (campaigns s)"
      "s' = promo_audit_event i (ac_id actor) (ac_role actor) ''promo_campaign_created'' ''Promo campaign draft created''
       (s\<lparr>campaigns := campaigns s @ [c]\<rparr>)"
    using assms unfolding createPromoCampaign_def Let_def
    by (cases "assertActor actor"; cases "campaign_code (clean_change raw) draws s") (auto split: if_splits)
  then show ?thesis using that by (simp add: list_ex_iff)
qed

lemma audit_sel [simp]:
  "campaigns (promo_audit_event i a r x y s) = campaigns s" "redemptions (promo_audit_event i a r x y s) = redemptions s"
  "budget (promo_audit_event i a r x y s) = budget s"
  by (simp_all add: promo_audit_event_def)



text \<open>The row an operation has written is the one it finds next.\<close>

lemma get_after_write:
  assumes "distinct (map cp_id (campaigns s))" "getPromoCampaignById i s = Some c" "cp_id (f c) = i" "cp_is_promo (f c)"
  shows "getPromoCampaignById i (write_campaign actor i a r f s) = Some ((f c)\<lparr>cp_updated_by := ac_id actor\<rparr>)"
proof -
  from get_campaign [OF assms(2)] have c: "c \<in> set (campaigns s)" "cp_id c = i" by blast+
  have only: "x = c" if "x \<in> set (campaigns s)" "cp_id x = i" for x
    using assms(1) c that by (auto simp: distinct_map dest: inj_onD)
  have "find (\<lambda>x. cp_is_promo x \<and> cp_id x = i) (map (\<lambda>x. if cp_id x = i then (f x)\<lparr>cp_updated_by := ac_id actor\<rparr> else x) cs)
      = Some ((f c)\<lparr>cp_updated_by := ac_id actor\<rparr>)"
    if "c \<in> set cs" "set cs \<subseteq> set (campaigns s)" for cs
    using that
  proof (induction cs)
    case (Cons x cs)
    show ?case
    proof (cases "cp_id x = i")
      case True
      then have "x = c" using only Cons.prems(2) by simp
      then show ?thesis using assms(3,4) c(2) by simp
    next
      case False
      then show ?thesis using Cons c(2) by auto
    qed
  qed simp
  from this [OF c(1)] show ?thesis by (simp add: getPromoCampaignById_def)
qed

text \<open>
  An approval survives a change of the campaign.  An approved risk campaign that is scheduled can be
  edited, whatever the role of the actor, and then published with the new discount, budget and
  window: the edit does not withdraw the approval and publishing only asks whether there is one.
\<close>

theorem approval_survives_edit:
  assumes "distinct (map cp_id (campaigns s))" and "getPromoCampaignById i s = Some c"
    and "cp_status c = Scheduled" and "cp_risk c" and "cp_approved c = Some ap" and "str_or (ac_id actor) [] \<noteq> []"
    and "change_ok (clean_change ch)" and "d = merge_change (clean_change ch) c" and "row_ok d"
    and "assertCampaignEconomics d = None" and "requirePoliciesForCampaign d s = None" and "cp_starts d \<le> now" and "now < cp_ends d"
  shows "\<exists>s1 s2. updatePromoCampaign actor i ch s = (None, s1) \<and> publishPromoCampaign actor now i s1 = (None, s2)
     \<and> (\<exists>x. getPromoCampaignById i s2 = Some x \<and> cp_status x = Active \<and> cp_approved x = Some ap
          \<and> cp_value x = cp_value d \<and> cp_total x = cp_total d)"
proof -
  note c = get_campaign [OF assms(2)]
  let ?s1 = "write_campaign actor i ''promo_campaign_updated'' ''Promo campaign updated'' (\<lambda>_. d) s"
  let ?d = "d\<lparr>cp_updated_by := ac_id actor\<rparr>"
  have "updatePromoCampaign actor i ch s = (None, ?s1)"
    using assms(2,3,6-9) by (simp add: updatePromoCampaign_def assertActor_def)
  moreover have get1: "getPromoCampaignById i ?s1 = Some ?d"
    by (rule get_after_write [OF assms(1,2)]) (use c assms(8) in simp_all)
  have "distinct (map cp_id (campaigns ?s1))"
  proof -
    have "map cp_id (campaigns ?s1) = map cp_id (campaigns s)" using c assms(8) by (auto simp: if_distrib [of cp_id])
    then show ?thesis using assms(1) by metis
  qed
  then have get2: "getPromoCampaignById i (write_campaign actor i a r (\<lambda>x. x\<lparr>cp_status := Active, cp_published := p\<rparr>) ?s1)
      = Some (?d\<lparr>cp_status := Active, cp_published := p, cp_updated_by := ac_id actor\<rparr>)" for a r p
    by (subst get_after_write [OF _ get1]) (use c assms(8) in simp_all)
  have "assertCampaignEconomics ?d = None" "requirePoliciesForCampaign ?d ?s1 = None"
    using assms(10,11) by (simp_all add: assertCampaignEconomics_def requirePoliciesForCampaign_def missing_policies_def split: if_splits)
  then have "publishPromoCampaign actor now i ?s1 = (None, write_campaign actor i ''promo_campaign_published'' ''Promo campaign published''
      (\<lambda>x. x\<lparr>cp_status := Active, cp_published := map_option (\<lambda>u. (u, now)) (ac_id actor)\<rparr>) ?s1)"
    using assms(5,6,8,12,13) get1 by (simp add: publishPromoCampaign_def assertActor_def)
  ultimately show ?thesis using get2 assms(5,8) by simp
qed

definition no_change :: campaign_change where
  "no_change = \<lparr>ch_code = None, ch_name = None, ch_description = None, ch_type = None, ch_value = None, ch_percent = None,
     ch_max = None, ch_min = None, ch_services = None, ch_scope = None, ch_stacking = None, ch_stack_other = None, ch_total = None,
     ch_daily = None, ch_redemptions = None, ch_user_limit = None, ch_starts = None, ch_ends = None, ch_audience = None,
     ch_eligibility = None, ch_copy = None, ch_risk = None, ch_risk_reason = None\<rparr>"

theorem approval_survives_edit_witness:
  "\<exists>s1 s2 x. updatePromoCampaign \<lparr>ac_id = Some ''u1'', ac_role = Some ''ops_admin''\<rparr> ''c1'' (no_change\<lparr>ch_value := Some 90000000\<rparr>)
       (demo_promos\<lparr>campaigns := [demo_campaign\<lparr>cp_status := Scheduled\<rparr>]\<rparr>) = (None, s1)
     \<and> publishPromoCampaign \<lparr>ac_id = Some ''u1'', ac_role = Some ''ops_admin''\<rparr> 5 ''c1'' s1 = (None, s2)
     \<and> getPromoCampaignById ''c1'' s2 = Some x \<and> cp_status x = Active \<and> cp_approved x = Some (''boss'', 0) \<and> cp_value x = 90000000"
proof -
  let ?ch = "no_change\<lparr>ch_value := Some 90000000\<rparr>" and ?c = "demo_campaign\<lparr>cp_status := Scheduled\<rparr>"
  let ?d = "merge_change (clean_change ?ch) ?c"
  have ch: "clean_change ?ch = ?ch" by (simp add: clean_change_def no_change_def)
  have d: "merge_change ?ch ?c = ?c\<lparr>cp_value := 90000000\<rparr>" by (simp add: merge_change_def no_change_def demo_campaign_def)
  have ok: "change_ok ?ch" by (simp add: change_ok_def no_change_def between_def)
  let ?s = "demo_promos\<lparr>campaigns := [?c]\<rparr>" and ?a = "\<lparr>ac_id = Some ''u1'', ac_role = Some ''ops_admin''\<rparr>"
  have "distinct (map cp_id (campaigns ?s))" "getPromoCampaignById ''c1'' ?s = Some ?c" "cp_status ?c = Scheduled" "cp_risk ?c"
    "cp_approved ?c = Some (''boss'', 0)" "str_or (ac_id ?a) [] \<noteq> []" "change_ok (clean_change ?ch)" "row_ok ?d"
    "assertCampaignEconomics ?d = None" "requirePoliciesForCampaign ?d ?s = None" "cp_starts ?d \<le> 5" "5 < cp_ends ?d" "cp_value ?d = 90000000"
    unfolding ch d
    by (simp_all add: ok getPromoCampaignById_def str_or_def row_ok_def assertCampaignEconomics_def requirePoliciesForCampaign_def
        missing_policies_def demo_promos_def demo_campaign_def)
  from approval_survives_edit [OF this(1-7) refl this(8-12)] this(13) show ?thesis by metis
qed

text \<open>
  Publishing does not ask for the status: a campaign in any status, archived and expired ones included,
  becomes active again when its checks pass.
\<close>

lemma archived_campaign_republished:
  assumes "distinct (map cp_id (campaigns s))" and "getPromoCampaignById i s = Some c" and "cp_status c = Archived"
    and "str_or (ac_id actor) [] \<noteq> []" and "assertCampaignEconomics c = None" and "requirePoliciesForCampaign c s = None"
    and "cp_risk c \<longrightarrow> cp_approved c \<noteq> None" and "cp_starts c \<le> now" and "now < cp_ends c"
  shows "\<exists>s' x. publishPromoCampaign actor now i s = (None, s') \<and> getPromoCampaignById i s' = Some x \<and> cp_status x = Active"
  using assms get_campaign [OF assms(2)]
  by (simp add: publishPromoCampaign_def assertActor_def) (simp add: get_after_write)

end
