(* ===== verification/PromoLifecycle.thy ===== *)
theory PromoLifecycle
  imports PromoOrders PromoCampaign
begin

text \<open>
  The promotion subsystem as a whole: customers reserve, orders are paid, released and reversed, and
  administrators change campaigns, in any order.  The direct redemption of a campaign (mode
  \<open>Redeem\<close> of \<open>validatePromoForCheckout\<close>) is kept apart: \<open>redeem_charges_twice\<close> shows that it breaks the
  books the other operations keep.
\<close>

section \<open>Administration keeps the books\<close>

text \<open>A campaign keeps its books when its identity and its counters stay and its budget still holds them.\<close>

lemma campaigns_inv:
  assumes inv: "promo_inv s" and rows: "redemptions s' = redemptions s" "budget s' = budget s"
    and ids: "map cp_id (campaigns s') = map cp_id (campaigns s)"
    and each: "\<And>c'. c' \<in> set (campaigns s') \<Longrightarrow> \<exists>c \<in> set (campaigns s). cp_id c' = cp_id c \<and> cp_reserved c' = cp_reserved c
      \<and> cp_redeemed c' = cp_redeemed c \<and> (cp_total c' = cp_total c \<or> within_budget c')"
  shows "promo_inv s'"
proof -
  have "promo_keys s'" using promo_invD(1) [OF inv] ids unfolding promo_keys_def rows by metis
  moreover have "booked (redemptions s) c' \<and> within_budget c'" if c': "c' \<in> set (campaigns s')" for c'
  proof -
    obtain c where c: "c \<in> set (campaigns s)" "cp_id c' = cp_id c" "cp_reserved c' = cp_reserved c" "cp_redeemed c' = cp_redeemed c"
      "cp_total c' = cp_total c \<or> within_budget c'" using each [OF c'] by blast
    then show ?thesis using promo_invD(6,7) [OF inv c(1)] by (auto simp: booked_def within_budget_def)
  qed
  ultimately show ?thesis using inv unfolding promo_inv_def rows by blast
qed

lemma write_inv:
  assumes "promo_inv s"
    and "\<And>x. x \<in> set (campaigns s) \<Longrightarrow> cp_id x = i \<Longrightarrow> cp_id (f x) = i \<and> cp_reserved (f x) = cp_reserved x \<and> cp_redeemed (f x) = cp_redeemed x
      \<and> (cp_total (f x) = cp_total x \<or> within_budget (f x))"
  shows "promo_inv (write_campaign actor i a r f s)"
proof (rule campaigns_inv [OF assms(1)])
  show "map cp_id (campaigns (write_campaign actor i a r f s)) = map cp_id (campaigns s)"
    using assms(2) by (auto simp: if_distrib [of cp_id])
  fix c' assume "c' \<in> set (campaigns (write_campaign actor i a r f s))"
  then obtain x where x: "x \<in> set (campaigns s)" "c' = (if cp_id x = i then (f x)\<lparr>cp_updated_by := ac_id actor\<rparr> else x)" by auto
  then show "\<exists>c \<in> set (campaigns s). cp_id c' = cp_id c \<and> cp_reserved c' = cp_reserved c \<and> cp_redeemed c' = cp_redeemed c
      \<and> (cp_total c' = cp_total c \<or> within_budget c')"
    using assms(2) [OF x(1)] by (intro bexI [OF _ x(1)]) (auto simp: within_budget_def)
qed simp_all

lemma campaign_unique:
  "promo_inv s \<Longrightarrow> getPromoCampaignById i s = Some c \<Longrightarrow> x \<in> set (campaigns s) \<Longrightarrow> cp_id x = i \<Longrightarrow> x = c"
  using get_campaign [of i s c] promo_invD(1) [of s] by (auto simp: promo_keys_def distinct_map dest: inj_onD)

text \<open>
  An edit can lower a budget below what is already reserved and redeemed; the guard excludes that
  edit, which the code does not.
\<close>

lemma campaign_step_inv:
  assumes "campaign_step s s'" and inv: "promo_inv s" and "\<And>c. c \<in> set (campaigns s') \<Longrightarrow> within_budget c"
    and "\<And>c. c \<in> set (campaigns s') \<Longrightarrow> cp_id c \<notin> cp_id ` set (campaigns s) \<Longrightarrow> \<forall>r \<in> set (redemptions s). rd_campaign r \<noteq> cp_id c"
  shows "promo_inv s'"
  using assms(1)
proof (cases rule: campaign_step.cases)
  case (create actor now i draws ch c)
  then obtain parts: "\<forall>x \<in> set (campaigns s). cp_id x \<noteq> i" "cp_id c = i" "cp_reserved c = 0" "cp_redeemed c = 0"
    "s' = promo_audit_event i (ac_id actor) (ac_role actor) ''promo_campaign_created'' ''Promo campaign draft created''
       (s\<lparr>campaigns := campaigns s @ [c]\<rparr>)"
    by (rule create_cases)
  have sel: "campaigns s' = campaigns s @ [c]" "redemptions s' = redemptions s" "budget s' = budget s" by (simp_all add: parts(5))
  have "\<forall>r \<in> set (redemptions s). rd_campaign r \<noteq> i" using assms(4) [of c] parts(1,2) sel by force
  then have "status_sum st i (redemptions s) = 0" for st
    unfolding status_sum_def by (induction "redemptions s") (auto intro: sum_list_nonneg simp: sum_list_0 cong: map_cong)
  moreover have "promo_keys s'" using promo_invD(1) [OF inv] parts(1,2) by (auto simp: promo_keys_def sel)
  ultimately show ?thesis using inv parts(2-4) assms(3) unfolding promo_inv_def sel by (auto simp: booked_def)
next
  case (update actor i ch)
  then obtain c where c: "getPromoCampaignById i s = Some c"
    "s' = write_campaign actor i ''promo_campaign_updated'' ''Promo campaign updated'' (\<lambda>_. merge_change (clean_change ch) c) s"
    by (rule update_cases)
  have "within_budget (merge_change (clean_change ch) c)"
    using assms(3) [of "(merge_change (clean_change ch) c)\<lparr>cp_updated_by := ac_id actor\<rparr>"] get_campaign [OF c(1)]
    by (force simp: c(2) within_budget_def)
  then show ?thesis unfolding c(2) using get_campaign [OF c(1)] campaign_unique [OF inv c(1)] by (intro write_inv [OF inv]) auto
next
  case (submit actor i)
  then obtain c where "getPromoCampaignById i s = Some c" "s' = write_campaign actor i ''promo_campaign_submitted'' ''Promo campaign submitted for activation''
      (\<lambda>x. x\<lparr>cp_status := (if cp_risk c then PendingApproval else Scheduled)\<rparr>) s"
    by (rule submit_cases)
  then show ?thesis by (auto intro!: write_inv [OF inv])
next
  case (approve actor now i)
  then obtain c where "getPromoCampaignById i s = Some c"
    "s' = write_campaign actor i ''promo_campaign_approved'' ''Risk campaign approved by superadmin''
      (\<lambda>x. x\<lparr>cp_status := Scheduled, cp_approved := map_option (\<lambda>u. (u, now)) (ac_id actor)\<rparr>) s"
    by (rule approve_cases)
  then show ?thesis by (auto intro!: write_inv [OF inv])
next
  case (publish actor now i)
  then obtain c where "getPromoCampaignById i s = Some c"
    "s' = write_campaign actor i ''promo_campaign_published'' ''Promo campaign published''
      (\<lambda>x. x\<lparr>cp_status := (if cp_starts c \<le> now \<and> now < cp_ends c then Active else Scheduled),
         cp_published := map_option (\<lambda>u. (u, now)) (ac_id actor)\<rparr>) s"
    by (rule publish_cases)
  then show ?thesis by (auto intro!: write_inv [OF inv])
next
  case (pause actor now i reason)
  then obtain r where "s' = write_campaign actor i ''promo_campaign_paused'' r (\<lambda>x. x\<lparr>cp_status := Paused, cp_paused := map_option (\<lambda>u. (u, now)) (ac_id actor)\<rparr>) s"
    by (auto simp: pausePromoCampaign_def split: option.splits if_splits)
  then show ?thesis by (auto intro!: write_inv [OF inv])
qed

section \<open>All operations\<close>

text \<open>
  One step of the subsystem.  A reservation commits a quote that was computed on an earlier state
  \<open>t\<close> of the tables, since the quote is read before the transaction.  Administration steps leave
  every budget large enough for what is charged to it, and new campaigns have unused ids.
\<close>

inductive promo_step :: "promo_store \<Rightarrow> promo_store \<Rightarrow> bool" where
  reserve: "validation_ok raw \<Longrightarrow> q = quote_promo now Reserve user (trimmed raw) t \<Longrightarrow> pr_eligible q \<Longrightarrow>
    pr_campaign q = Some c \<Longrightarrow> pr_economics q = Some e \<Longrightarrow> str_or (pi_key (trimmed raw)) [] = key \<Longrightarrow> key \<noteq> [] \<Longrightarrow>
    commit_promo Reserve user (cp_id c) key (pr_discount q) (pi_gross (trimmed raw)) (ec_margin e) (trimmed raw) s = Inr s' \<Longrightarrow>
    promo_step s s'"
| release: "promo_step s (snd (releasePromoReservation user key s))"
| attach: "promo_step s (attach_order user order cid key s)"
| paid: "promo_step s (redeemReservedPromosForPaidOrder user order s)"
| unpaid: "promo_step s (releaseReservedPromosForOrders orders s)"
| refunded: "promo_step s (reverseRedeemedPromosForOrders orders s)"
| admin: "campaign_step s s' \<Longrightarrow> (\<And>c. c \<in> set (campaigns s') \<Longrightarrow> within_budget c) \<Longrightarrow>
    (\<And>c. c \<in> set (campaigns s') \<Longrightarrow> cp_id c \<notin> cp_id ` set (campaigns s) \<Longrightarrow> \<forall>r \<in> set (redemptions s). rd_campaign r \<noteq> cp_id c) \<Longrightarrow>
    promo_step s s'"

lemma quote_cases:
  "pr_discount (quote_promo now mode user i s) = 0
     \<or> (\<exists>c. findCampaignForValidation now i s = Some c \<and> pr_discount (quote_promo now mode user i s) = calculateDiscount c i)"
proof (cases "findCampaignForValidation now i s")
  case None
  then show ?thesis by (simp add: quote_promo_def refuse_promo_def)
next
  case c: (Some c)
  show ?thesis
  proof (cases "fetchServiceAndPolicy i s")
    case None
    then show ?thesis by (simp add: quote_promo_def refuse_promo_def c)
  next
    case (Some p)
    then show ?thesis by (cases p) (simp add: quote_promo_def refuse_promo_def c Let_def)
  qed
qed

lemma quote_discount:
  "0 \<le> pi_gross i \<Longrightarrow> 0 \<le> pr_discount (quote_promo now mode user i s)"
  using quote_cases [of now mode user i s] discount_bounds [of i] by auto

lemma trimmed_gross: "validation_ok raw \<Longrightarrow> 0 \<le> pi_gross (trimmed raw)"
  by (simp add: validation_ok_def amount_ok_def trimmed_def)

lemma commit_keeps:
  assumes "promo_inv s" "0 \<le> discount" "commit_promo Reserve user cid key discount gross margin i s = Inr s'"
  shows "promo_inv s'"
  using reserve.keeps [OF assms(1), of "(user, cid, key, discount, gross, margin, i)"] assms(2,3) by (simp add: commit_reserve_def)

lemma order_steps_keep:
  assumes "promo_inv s"
  shows "promo_inv (snd (releasePromoReservation user key s))" and "promo_inv (attach_order user order cid key s)"
    and "promo_inv (redeemReservedPromosForPaidOrder user order s)" and "promo_inv (releaseReservedPromosForOrders orders s)"
    and "promo_inv (reverseRedeemedPromosForOrders orders s)"
proof -
  show "promo_inv (snd (releasePromoReservation user key s))" using release.keeps [OF assms, of "(user, key)"] by simp
  show "promo_inv (attach_order user order cid key s)" using attach.keeps [OF assms, of "(user, order, cid, key)"] by simp
  show "promo_inv (redeemReservedPromosForPaidOrder user order s)"
    using paid.loop_keeps [OF assms, of "\<lambda>r. rd_order r = Some order \<and> rd_user r = user"]
    by (simp add: redeemReservedPromosForPaidOrder_def conj_assoc)
  show "promo_inv (releaseReservedPromosForOrders orders s)"
    using unpaid.loop_keeps [OF assms, of "\<lambda>r. rd_order r \<in> Some ` set orders"] by (simp add: releaseReservedPromosForOrders_def)
  show "promo_inv (reverseRedeemedPromosForOrders orders s)"
    using reversed.loop_keeps [OF assms, of "\<lambda>r. rd_order r \<in> Some ` set orders"] by (simp add: reverseRedeemedPromosForOrders_def)
qed

lemma promo_step_inv:
  assumes "promo_step s s'" "promo_inv s"
  shows "promo_inv s'"
  using assms(1)
proof cases
  case (reserve raw q now user t c e key)
  have "0 \<le> pr_discount q" unfolding reserve(2) by (rule quote_discount [OF trimmed_gross [OF reserve(1)]])
  then show ?thesis by (rule commit_keeps [OF assms(2) _ reserve(8)])
next
  case admin
  show ?thesis by (rule campaign_step_inv [OF admin(1) assms(2) admin(2,3)])
qed (simp_all only: order_steps_keep [OF assms(2)])

lemma promo_steps_inv: "promo_step\<^sup>*\<^sup>* s s' \<Longrightarrow> promo_inv s \<Longrightarrow> promo_inv s'"
  by (induction rule: rtranclp_induct) (auto dest: promo_step_inv)

text \<open>A reservation of one campaign, or of a combination, is made of these steps.\<close>

lemma validate_steps: "promo_step\<^sup>*\<^sup>* s (snd (validatePromoForCheckout now Reserve user raw s))"
proof (cases "validation_ok raw")
  case True
  let ?q = "quote_promo now Reserve user (trimmed raw) s"
  show ?thesis
  proof (cases "pr_campaign ?q = None \<or> pr_economics ?q = None \<or> \<not> pr_eligible ?q \<or> str_or (pi_key (trimmed raw)) [] = []")
    case True
    then show ?thesis by (auto simp: validatePromoForCheckout_def Let_def split: option.splits list.splits)
  next
    case False
    then obtain c e where q: "pr_campaign ?q = Some c" "pr_economics ?q = Some e" "pr_eligible ?q" "str_or (pi_key (trimmed raw)) [] \<noteq> []" by auto
    let ?commit = "commit_promo Reserve user (cp_id c) (str_or (pi_key (trimmed raw)) []) (pr_discount ?q) (pi_gross (trimmed raw)) (ec_margin e) (trimmed raw) s"
    have "snd (validatePromoForCheckout now Reserve user raw s) = (case ?commit of Inl _ \<Rightarrow> s | Inr s' \<Rightarrow> s')"
      using q \<open>validation_ok raw\<close> by (auto simp: validatePromoForCheckout_def Let_def split: list.splits sum.splits)
    then show ?thesis
      using promo_step.reserve [OF \<open>validation_ok raw\<close> refl q(3,1,2) refl q(4)] by (cases ?commit) auto
  qed
qed (simp add: validatePromoForCheckout_def)

lemma release_all_steps: "promo_step\<^sup>*\<^sup>* s (release_all user vs s)"
  unfolding release_all_def
proof (induction vs arbitrary: s)
  case (Cons v vs)
  have "promo_step s (snd (releasePromoReservation user (sv_key v) s))" by (rule promo_step.release)
  with Cons [of "snd (releasePromoReservation user (sv_key v) s)"] show ?case by (simp add: converse_rtranclp_into_rtranclp)
qed simp

lemma stack_reserve_steps: "promo_step\<^sup>*\<^sup>* s (snd (stack_reserve sha now Reserve user base i xs done s))"
proof (induction xs arbitrary: "done" s)
  case (Cons x xs)
  let ?raw = "i\<lparr>pi_code := Some (cp_code (sc_campaign x)), pi_codes := None,
      pi_key := Some (buildPromoStackReservationKey sha base (cp_id (sc_campaign x)))\<rparr>"
  obtain r s' where v: "validatePromoForCheckout now Reserve user ?raw s = (r, s')" by fastforce
  have "promo_step\<^sup>*\<^sup>* s s'" using validate_steps [of s now user ?raw] v by simp
  then show ?case
    using Cons release_all_steps [of s' user "done"] v by (cases r) (auto simp: Let_def intro: rtranclp_trans)
qed simp

lemma stack_steps: "promo_step\<^sup>*\<^sup>* s (snd (validatePromoStackForCheckout sha collate now Reserve user raw s))"
proof -
  have commit: "promo_step\<^sup>*\<^sup>* s (snd (stack_commit sha now Reserve user i sel s))" for i sel
  proof (cases "str_or (pi_key i) []")
    case (Cons k ks)
    obtain r s' where "stack_reserve sha now Reserve user (k # ks) i (ss_selected sel) [] s = (r, s')" by fastforce
    then show ?thesis using stack_reserve_steps [of s sha now user "k # ks" i "ss_selected sel" "[]"] Cons
      by (cases r) (simp_all add: stack_commit_def)
  qed (simp add: stack_commit_def)
  then show ?thesis by (simp add: validatePromoStackForCheckout_def Let_def split: sum.splits prod.splits)
qed

section \<open>The books balance\<close>

definition fresh_store :: "promo_store \<Rightarrow> bool" where
  "fresh_store s \<longleftrightarrow> redemptions s = [] \<and> budget s = [] \<and> distinct (map cp_id (campaigns s))
     \<and> list_all (\<lambda>c. cp_reserved c = 0 \<and> cp_redeemed c = 0) (campaigns s)"

lemma fresh_inv: "fresh_store s \<Longrightarrow> promo_inv s"
  by (auto simp: fresh_store_def promo_inv_def promo_keys_def booked_def within_budget_def status_sum_def list_all_iff)



section \<open>One reservation\<close>

text \<open>What an eligible quote, and an eligible reservation, went through.\<close>

lemma quote_eligible:
  assumes "pr_eligible (quote_promo now mode user i s)"
  shows "\<exists>c sp mp. findCampaignForValidation now i s = Some c \<and> fetchServiceAndPolicy i s = Some (sp, mp)
    \<and> cp_min_order c \<le> pi_gross i \<and> other_uses s (cp_id c) user (pi_key i) < cp_user_limit c
    \<and> \<not> margin_too_low (promo_economics sp mp i (calculateDiscount c i))
    \<and> quote_promo now mode user i s = \<lparr>pr_eligible = True, pr_reason = None, pr_campaign = Some c,
        pr_discount = calculateDiscount c i, pr_economics = Some (promo_economics sp mp i (calculateDiscount c i))\<rparr>"
proof (cases "findCampaignForValidation now i s")
  case None
  then show ?thesis using assms by (simp add: quote_promo_def refuse_promo_def)
next
  case c: (Some c)
  show ?thesis
  proof (cases "fetchServiceAndPolicy i s")
    case None
    then show ?thesis using assms by (simp add: quote_promo_def refuse_promo_def c split: if_splits)
  next
    case (Some p)
    then show ?thesis using assms
      by (cases p) (simp add: quote_promo_def refuse_promo_def c Let_def not_le not_less split: if_splits)
  qed
qed

lemma reserve_parts:
  assumes v: "validatePromoForCheckout now Reserve user raw s = (Inr q, s')" and el: "pr_eligible q"
  shows "q = quote_promo now Reserve user (trimmed raw) s \<and> (\<exists>c e key. pr_campaign q = Some c \<and> pr_economics q = Some e
    \<and> pi_key (trimmed raw) = Some key \<and> key \<noteq> []
    \<and> commit_promo Reserve user (cp_id c) key (pr_discount q) (pi_gross (trimmed raw)) (ec_margin e) (trimmed raw) s = Inr s')"
proof -
  let ?q = "quote_promo now Reserve user (trimmed raw) s"
  have ok: "validation_ok raw" using v by (auto simp: validatePromoForCheckout_def split: if_splits)
  have q: "q = ?q" using v ok
    by (auto simp: validatePromoForCheckout_def Let_def split: option.splits if_splits list.splits sum.splits)
  obtain c e where ce: "pr_campaign ?q = Some c" "pr_economics ?q = Some e" using quote_eligible [of now Reserve user "trimmed raw" s] el q by auto
  have "\<exists>key. pi_key (trimmed raw) = Some key \<and> key \<noteq> []
      \<and> commit_promo Reserve user (cp_id c) key (pr_discount q) (pi_gross (trimmed raw)) (ec_margin e) (trimmed raw) s = Inr s'"
    using v ok ce el q
    by (auto simp: validatePromoForCheckout_def Let_def str_or_def split: option.splits if_splits list.splits sum.splits)
  with q ce show ?thesis by auto
qed

lemma commit_redemptions:
  "commit_promo Reserve user cid key discount gross margin i s = Inr s' \<Longrightarrow>
     redemptions s' = redemptions s \<or> (\<exists>r. redemption_is cid key r \<and> redemptions s' = redemptions s @ [r]
       \<and> \<not> list_ex (redemption_is cid key) (redemptions s))"
  by (auto simp: commit_promo_def Let_def put_same redemption_is_def upd_campaign_def add_entry_def split: option.splits if_splits)

definition uses_campaign :: "uuid \<Rightarrow> uuid \<Rightarrow> redemption \<Rightarrow> bool" where
  "uses_campaign cid user r \<longleftrightarrow> rd_campaign r = cid \<and> rd_user r = user \<and> live r"

lemma other_uses_all: "other_uses s cid user None = int (length (filter (uses_campaign cid user) (redemptions s)))"
  by (simp add: other_uses_def null_or_def uses_campaign_def cong: filter_cong)

lemma other_uses_without: "k \<noteq> [] \<Longrightarrow>
    other_uses s cid user (Some k) = int (length (filter (\<lambda>r. uses_campaign cid user r \<and> rd_key r \<noteq> k) (redemptions s)))"
  by (simp add: other_uses_def null_or_def uses_campaign_def conj_assoc)

lemma one_row_per_key:
  "distinct (map (\<lambda>r. (rd_campaign r, rd_key r)) rs) \<Longrightarrow>
     length (filter (uses_campaign cid user) rs) \<le> length (filter (\<lambda>r. uses_campaign cid user r \<and> rd_key r \<noteq> k) rs)
       + (if list_ex (redemption_is cid k) rs then 1 else 0)"
proof (induction rs)
  case (Cons r rs)
  have "\<not> list_ex (redemption_is cid k) rs" if "rd_campaign r = cid" "rd_key r = k"
    using Cons.prems that by (auto simp: list_ex_iff redemption_is_def image_iff)
  then show ?case using Cons by (cases "rd_campaign r = cid \<and> rd_key r = k") (auto simp: uses_campaign_def redemption_is_def [of cid k r])
qed simp

text \<open>
  C22.  Reservations that do not overlap respect the limit per user: after an eligible reservation the
  user's live redemptions of the campaign are not more than it allows.  The first premise is the unique index of
  \<open>promo_redemptions\<close>.
\<close>

theorem user_limit_respected:
  assumes "distinct (map (\<lambda>r. (rd_campaign r, rd_key r)) (redemptions s))"
    and v: "validatePromoForCheckout now Reserve user raw s = (Inr q, s')" and el: "pr_eligible q" "pr_campaign q = Some c"
  shows "other_uses s' (cp_id c) user None \<le> cp_user_limit c"
proof -
  let ?i = "trimmed raw"
  obtain e :: economics and key where q: "q = quote_promo now Reserve user ?i s" and key: "pi_key ?i = Some key" "key \<noteq> []"
    and com: "commit_promo Reserve user (cp_id c) key (pr_discount q) (pi_gross ?i) (ec_margin e) ?i s = Inr s'"
    using reserve_parts [OF v el(1)] el(2) by (elim conjE exE) simp
  have "other_uses s (cp_id c) user (Some key) < cp_user_limit c"
    using quote_eligible [of now Reserve user ?i s] el q key by auto
  then have low: "int (length (filter (\<lambda>r. uses_campaign (cp_id c) user r \<and> rd_key r \<noteq> key) (redemptions s))) < cp_user_limit c"
    by (simp add: other_uses_without [OF key(2)])
  note rows = one_row_per_key [OF assms(1), of "cp_id c" user key]
  from commit_redemptions [OF com] show ?thesis
  proof
    assume "redemptions s' = redemptions s"
    with rows low show ?thesis by (simp add: other_uses_all split: if_splits)
  next
    assume "\<exists>r. redemption_is (cp_id c) key r \<and> redemptions s' = redemptions s @ [r] \<and> \<not> list_ex (redemption_is (cp_id c) key) (redemptions s)"
    with rows low show ?thesis by (auto simp: other_uses_all)
  qed
qed

text \<open>
  Reserving again with the same key books nothing: the answer is the quote, and the tables stay.
\<close>

theorem replay_books_nothing:
  assumes "validation_ok raw" and q: "q = quote_promo now Reserve user (trimmed raw) s" "pr_eligible q" "pr_campaign q = Some c"
    and key: "pi_key (trimmed raw) = Some key" "key \<noteq> []"
    and rows: "has_entry s (cp_id c) key ReserveEntry" "list_ex (redemption_is (cp_id c) key) (redemptions s)"
  shows "validatePromoForCheckout now Reserve user raw s = (Inr q, s)"
proof -
  have "c \<in> set (campaigns s)" using quote_eligible [of now Reserve user "trimmed raw" s] q
    by (auto simp: findCampaignForValidation_def split: list.splits dest!: arg_cong [where f = set])
  then obtain c' where "find_campaign s (cp_id c) = Some c'"
    by (cases "find_campaign s (cp_id c)") (auto simp: find_campaign_def find_None_iff)
  moreover obtain e where "pr_economics q = Some e" using quote_eligible [of now Reserve user "trimmed raw" s] q by auto
  moreover have "s\<lparr>redemptions := map (\<lambda>x. x) (redemptions s)\<rparr> = s" by simp
  ultimately show ?thesis using assms
    by (cases key) (simp_all add: validatePromoForCheckout_def Let_def commit_promo_def put_same str_or_def)
qed

section \<open>Concrete histories\<close>

definition reserved_promos :: promo_store where
  "reserved_promos = snd (validatePromoForCheckout 10 Reserve ''u'' demo_checkout demo_promos)"

definition released_promos :: promo_store where
  "released_promos = snd (releasePromoReservation ''u'' ''key-0001'' reserved_promos)"

lemma reserved_reach: "promo_step\<^sup>*\<^sup>* demo_promos reserved_promos"
  unfolding reserved_promos_def by (rule validate_steps)

lemma demo_fresh: "fresh_store demo_promos"
  by (simp add: fresh_store_def demo_promos_def demo_campaign_def)

lemma reserved_campaigns: "campaigns reserved_promos = [demo_campaign\<lparr>cp_reserved := 5000\<rparr>]"
  by code_simp



lemma reserve_answers: "fst (validatePromoForCheckout 10 Reserve ''u'' demo_checkout demo_promos)
    = Inr (quote_promo 10 Reserve ''u'' (trimmed demo_checkout) demo_promos)"
  by code_simp

lemma quote_facts:
  "pr_eligible (quote_promo 10 Reserve ''u'' (trimmed demo_checkout) demo_promos)"
  "pr_campaign (quote_promo 10 Reserve ''u'' (trimmed demo_checkout) demo_promos) = Some demo_campaign"
  by code_simp+

theorem user_limit_respected_witness:
  "other_uses reserved_promos ''c1'' ''u'' None \<le> 1 \<and> other_uses reserved_promos ''c1'' ''u'' None = 1"
proof
  have "validatePromoForCheckout 10 Reserve ''u'' demo_checkout demo_promos
      = (Inr (quote_promo 10 Reserve ''u'' (trimmed demo_checkout) demo_promos), reserved_promos)"
    using reserve_answers by (simp add: reserved_promos_def prod_eq_iff)
  from user_limit_respected [OF _ this quote_facts]
  show "other_uses reserved_promos ''c1'' ''u'' None \<le> 1" by (simp add: demo_promos_def demo_campaign_def)
  show "other_uses reserved_promos ''c1'' ''u'' None = 1" by code_simp
qed

text \<open>
  A released reservation still answers its key with the discount, and books nothing for it: the
  order is sold at a discount that no budget carries.
\<close>

theorem replay_books_nothing_witness:
  "map rd_status (redemptions released_promos) = [Released] \<and> map cp_reserved (campaigns released_promos) = [0]
   \<and> (\<exists>q. validatePromoForCheckout 20 Reserve ''u'' demo_checkout released_promos = (Inr q, released_promos) \<and> pr_discount q = 5000)"
proof (intro conjI exI)
  let ?q = "quote_promo 20 Reserve ''u'' (trimmed demo_checkout) released_promos"
  have "pr_eligible ?q" "pr_campaign ?q = Some demo_campaign" "pi_key (trimmed demo_checkout) = Some ''key-0001''"
    "has_entry released_promos (cp_id demo_campaign) ''key-0001'' ReserveEntry"
    "list_ex (redemption_is (cp_id demo_campaign) ''key-0001'') (redemptions released_promos)" "validation_ok demo_checkout"
    by code_simp+
  then show "validatePromoForCheckout 20 Reserve ''u'' demo_checkout released_promos = (Inr ?q, released_promos)"
    by (intro replay_books_nothing [OF _ refl]) auto
  show "pr_discount ?q = 5000" "map rd_status (redemptions released_promos) = [Released]" "map cp_reserved (campaigns released_promos) = [0]"
    by code_simp+
qed

text \<open>
  Two reservations whose quotes both came before either transaction exceed the limit per user, since
  only the quote counts the user's redemptions.
\<close>

definition second_checkout :: promo_input where
  "second_checkout = demo_checkout\<lparr>pi_key := Some ''key-0002''\<rparr>"

definition overlapped_promos :: promo_store where
  "overlapped_promos =
     (case commit_promo Reserve ''u'' ''c1'' ''key-0002'' 5000 20000 15000 (trimmed second_checkout) reserved_promos of
        Inl _ \<Rightarrow> reserved_promos | Inr s \<Rightarrow> s)"

theorem overlapping_reservations_exceed_limit:
  "\<exists>s. promo_step\<^sup>*\<^sup>* demo_promos s \<and> map cp_user_limit (campaigns s) = [1] \<and> other_uses s ''c1'' ''u'' None = 2"
proof (intro exI conjI)
  let ?q = "quote_promo 10 Reserve ''u'' (trimmed second_checkout) demo_promos"
  have "validation_ok second_checkout" "pr_eligible ?q" "pr_campaign ?q = Some demo_campaign" "map_option ec_margin (pr_economics ?q) = Some 15000"
    "str_or (pi_key (trimmed second_checkout)) [] = ''key-0002''" "pr_discount ?q = 5000" "pi_gross (trimmed second_checkout) = 20000"
    "commit_promo Reserve ''u'' (cp_id demo_campaign) ''key-0002'' 5000 20000 15000 (trimmed second_checkout) reserved_promos = Inr overlapped_promos"
    by code_simp+
  then have "promo_step reserved_promos overlapped_promos"
    by (auto intro: promo_step.reserve [where t = demo_promos and now = 10 and raw = second_checkout])
  with reserved_reach show "promo_step\<^sup>*\<^sup>* demo_promos overlapped_promos" by simp
  show "map cp_user_limit (campaigns overlapped_promos) = [1]" "other_uses overlapped_promos ''c1'' ''u'' None = 2" by code_simp+
qed

text \<open>An edit of a paused campaign can take the budget below what is already promised.\<close>

definition demo_admin :: promo_actor where
  "demo_admin = \<lparr>ac_id = Some ''u1'', ac_role = Some ''ops_admin''\<rparr>"

definition cut_promos :: promo_store where
  "cut_promos = snd (updatePromoCampaign demo_admin ''c1'' (no_change\<lparr>ch_total := Some 1000\<rparr>)
     (snd (pausePromoCampaign demo_admin 10 ''c1'' [] reserved_promos)))"

theorem budget_cut_below_use: "map (\<lambda>c. (cp_total c, cp_reserved c)) (campaigns cut_promos) = [(1000, 5000)]"
  by code_simp

text \<open>
  Redeeming a reserved key directly charges the budget a second time and leaves the reservation
  charged for good.
\<close>

theorem redeem_charges_twice:
  "let s = snd (validatePromoForCheckout 20 Redeem ''u'' demo_checkout reserved_promos)
   in map (\<lambda>r. (rd_status r, rd_discount r)) (redemptions s) = [(Redeemed, 5000)]
      \<and> map (\<lambda>c. (cp_reserved c, cp_redeemed c)) (campaigns s) = [(5000, 5000)]"
  by code_simp

end
