(* ===== verification/CanonicalEvent.thy ===== *)
theory CanonicalEvent
  imports JsonText
begin

text \<open>
  The canonical event envelope (\<open>services/canonicalEvent.ts\<close>): what an event must look like, and the
  metadata derived from its input.  Payload and headers are JSON objects; SHA-256, the clock, the
  random correlation id and the configured service name are parameters.
\<close>

section \<open>Formats\<close>

definition lower_letter :: "char \<Rightarrow> bool" where
  "lower_letter c \<longleftrightarrow> (let n = of_char c :: nat in 97 \<le> n \<and> n \<le> 122)"

definition upper_letter :: "char \<Rightarrow> bool" where
  "upper_letter c \<longleftrightarrow> (let n = of_char c :: nat in 65 \<le> n \<and> n \<le> 90)"

definition lower_alnum :: "char \<Rightarrow> bool" where
  "lower_alnum c \<longleftrightarrow> lower_letter c \<or> is_digit c"

text \<open>
  Segments of lower case letters and digits separated by one of \<open>. _ -\<close>; \<open>two\<close> asks for at least two of
  them, \<open>inside\<close> is whether the current segment has a character.
\<close>

fun dotted :: "bool \<Rightarrow> bool \<Rightarrow> string \<Rightarrow> bool" where
  "dotted two inside [] = (inside \<and> \<not> two)"
| "dotted two inside (c # cs) =
     (if lower_alnum c then dotted two True cs else inside \<and> c \<in> set ''._-'' \<and> dotted False False cs)"

definition event_type_ok :: "string \<Rightarrow> bool" where
  "event_type_ok s = dotted True False s"

definition service_name_ok :: "string \<Rightarrow> bool" where
  "service_name_ok s = dotted False False s"

definition market_code_ok :: "string \<Rightarrow> bool" where
  "market_code_ok s =
     (case s of a # b # c # d # ds \<Rightarrow>
        lower_letter a \<and> lower_letter b \<and> c = CHR ''-'' \<and> list_all (\<lambda>x. lower_alnum x \<or> x = CHR ''-'') (d # ds)
      | _ \<Rightarrow> False)"

definition pseudonym_tail :: "string \<Rightarrow> bool" where
  "pseudonym_tail s \<longleftrightarrow> 16 \<le> length s \<and> length s \<le> 128
     \<and> list_all (\<lambda>c. lower_alnum c \<or> upper_letter c \<or> c \<in> set ''_-'') s"

definition actor_ok :: "string \<Rightarrow> bool" where
  "actor_ok s \<longleftrightarrow> s = ''system'' \<or> starts_with ''actor_'' s \<and> pseudonym_tail (drop 6 s)
     \<or> starts_with ''anon_'' s \<and> pseudonym_tail (drop 5 s)"

definition PII_CLASSIFICATIONS :: "string list" where
  "PII_CLASSIFICATIONS = [''public'', ''internal'', ''confidential'', ''restricted'']"

definition RETENTION_CLASSES :: "string list" where
  "RETENTION_CLASSES = [''short'', ''standard'', ''financial'', ''legal_hold'']"

section \<open>Events\<close>

record event_input =
  ev_aggregate_type :: string
  ev_aggregate_id :: "uuid option"
  ev_type :: string
  ev_version :: "int option"
  ev_payload :: "(string \<times> json) list"
  ev_headers :: "(string \<times> json) list"
  ev_available :: "instant option"
  ev_occurred :: "instant option"
  ev_produced :: "instant option"
  ev_market :: "string option"
  ev_service :: "string option"
  ev_actor :: "string option"
  ev_entity :: "string option"
  ev_correlation :: "string option"
  ev_trace :: "string option"
  ev_pii :: "string option"
  ev_field_pii :: "(string \<times> string) list option"
  ev_retention :: "string option"
  ev_dedupe :: "string option"

record event_metadata =
  em_version :: int
  em_occurred :: instant
  em_produced :: instant
  em_market :: string
  em_service :: string
  em_actor :: string
  em_entity :: string
  em_correlation :: string
  em_trace :: string
  em_pii :: string
  em_field_pii :: "(string \<times> string) list"
  em_retention :: string
  em_dedupe :: string

definition stringValue :: "json option \<Rightarrow> string option" where
  "stringValue v = (case v of Some (JStr s) \<Rightarrow> if js_trim s = [] then None else Some (js_trim s) | _ \<Rightarrow> None)"

fun headerString :: "(string \<times> json) list \<Rightarrow> string list \<Rightarrow> string option" where
  "headerString h [] = None"
| "headerString h (n # ns) = (case stringValue (map_of h n) of Some v \<Rightarrow> Some v | None \<Rightarrow> headerString h ns)"

definition event_version :: "event_input \<Rightarrow> int" where
  "event_version e = (case ev_version e of None \<Rightarrow> 1 | Some v \<Rightarrow> if v = 0 then 1 else v)"

definition event_service :: "string option \<Rightarrow> event_input \<Rightarrow> string" where
  "event_service env e = str_or (ev_service e) (str_or env ''admin-service'')"

text \<open>The first violated rule.\<close>

definition validateCanonicalEventInput :: "string option \<Rightarrow> event_input \<Rightarrow> string option" where
  "validateCanonicalEventInput env e =
     (if stringValue (Some (JStr (ev_aggregate_type e))) = None then Some ''canonical event aggregateType is required''
      else if \<not> event_type_ok (ev_type e) then Some (''canonical event type is invalid: '' @ ev_type e)
      else if event_version e < 1 then Some ''canonical event schema version must be positive''
      else
        let market = toLowerCase (str_or (ev_market e) (str_or (stringValue (map_of (ev_headers e) ''market_code'')) ''id-jk'')) in
        if \<not> market_code_ok market then Some (''canonical event market is invalid: '' @ market)
        else if \<not> actor_ok (str_or (ev_actor e) ''system'') then Some ''canonical event actor must be a pseudonymous identifier''
        else if \<not> service_name_ok (event_service env e) then Some (''canonical event service is invalid: '' @ event_service env e)
        else if str_or (ev_pii e) [] \<noteq> [] \<and> str_or (ev_pii e) [] \<notin> set PII_CLASSIFICATIONS
          then Some (''canonical event PII classification is invalid: '' @ str_or (ev_pii e) [])
        else if str_or (ev_retention e) [] \<noteq> [] \<and> str_or (ev_retention e) [] \<notin> set RETENTION_CLASSES
          then Some (''canonical event retention class is invalid: '' @ str_or (ev_retention e) [])
        else (case find (\<lambda>kv. snd kv \<notin> set PII_CLASSIFICATIONS) (case ev_field_pii e of None \<Rightarrow> [] | Some kvs \<Rightarrow> kvs) of
            None \<Rightarrow> None
          | Some kv \<Rightarrow> Some (''canonical event field PII classification is invalid: '' @ snd kv)))"

definition dedupe_source :: "event_input \<Rightarrow> string \<Rightarrow> string \<Rightarrow> string" where
  "dedupe_source e entity correlation =
     str_or (ev_dedupe e) (str_or (headerString (ev_headers e) [''idempotency_key''])
       (ev_type e @ ''|'' @ entity @ ''|'' @ show_int (event_version e) @ ''|'' @ correlation))"

definition buildCanonicalEventMetadata ::
  "(string \<Rightarrow> string) \<Rightarrow> string option \<Rightarrow> instant \<Rightarrow> uuid \<Rightarrow> event_input \<Rightarrow> string + event_metadata" where
  "buildCanonicalEventMetadata sha env now random e =
     (case validateCanonicalEventInput env e of Some m \<Rightarrow> Inl m | None \<Rightarrow>
        let h = ev_headers e;
            entity = str_or (ev_entity e) (str_or (ev_aggregate_id e) (ev_type e));
            correlation = str_or (ev_correlation e) (str_or (headerString h [''correlation_id'', ''request_id'']) random)
        in Inr \<lparr>em_version = event_version e,
             em_occurred = (case ev_occurred e of None \<Rightarrow> now | Some t \<Rightarrow> t),
             em_produced = (case ev_produced e of None \<Rightarrow> now | Some t \<Rightarrow> t),
             em_market = toLowerCase (str_or (ev_market e) (str_or (headerString h [''market_code''])
               (str_or (stringValue (map_of (ev_payload e) ''market_code'')) ''id-jk''))),
             em_service = event_service env e,
             em_actor = str_or (ev_actor e) ''system'',
             em_entity = entity, em_correlation = correlation,
             em_trace = str_or (ev_trace e) (str_or (headerString h [''trace_id'']) correlation),
             em_pii = str_or (ev_pii e) ''restricted'',
             em_field_pii = (case ev_field_pii e of None \<Rightarrow> [(''payload'', ''restricted'')] | Some kvs \<Rightarrow> kvs),
             em_retention = str_or (ev_retention e) ''standard'',
             em_dedupe = sha (dedupe_source e entity correlation)\<rparr>)"

text \<open>The headers that may be published.\<close>

definition allowed_headers :: "string list" where
  "allowed_headers = [''request_id'', ''correlation_id'', ''trace_id'', ''market_code'', ''app_version'', ''source'']"

definition canonicalEventHeaders :: "(string \<times> json) list \<Rightarrow> (string \<times> json) list" where
  "canonicalEventHeaders h =
     [(k, v). k \<leftarrow> allowed_headers, v \<leftarrow> (case map_of h k of None \<Rightarrow> [] | Some v \<Rightarrow> if v = JNull \<or> v = JStr [] then [] else [v])]"

section \<open>What validation gives\<close>

lemma str_or_cases: "str_or v d = d \<or> v = Some (str_or v d) \<and> str_or v d \<noteq> []"
  by (cases v) (auto simp: str_or_def)

lemma header_one: "headerString h [n] = stringValue (map_of h n)"
  by (simp split: option.splits)

text \<open>
  Metadata is well formed, whatever the input, but for the market: a market that only the payload names is
  taken over unchecked.
\<close>

definition metadata_ok :: "event_metadata \<Rightarrow> bool" where
  "metadata_ok m \<longleftrightarrow> 1 \<le> em_version m \<and> actor_ok (em_actor m) \<and> service_name_ok (em_service m)
     \<and> em_pii m \<in> set PII_CLASSIFICATIONS \<and> em_retention m \<in> set RETENTION_CLASSES
     \<and> (\<forall>kv \<in> set (em_field_pii m). snd kv \<in> set PII_CLASSIFICATIONS)"

lemma validated:
  assumes "validateCanonicalEventInput env e = None"
  shows "event_type_ok (ev_type e)" "1 \<le> event_version e" "actor_ok (str_or (ev_actor e) ''system'')" "service_name_ok (event_service env e)"
    "str_or (ev_pii e) [] \<noteq> [] \<Longrightarrow> str_or (ev_pii e) [] \<in> set PII_CLASSIFICATIONS"
    "str_or (ev_retention e) [] \<noteq> [] \<Longrightarrow> str_or (ev_retention e) [] \<in> set RETENTION_CLASSES"
    "ev_field_pii e = Some kvs \<Longrightarrow> \<forall>kv \<in> set kvs. snd kv \<in> set PII_CLASSIFICATIONS"
    "market_code_ok (toLowerCase (str_or (ev_market e) (str_or (stringValue (map_of (ev_headers e) ''market_code'')) ''id-jk'')))"
  using assms unfolding validateCanonicalEventInput_def Let_def
  by (auto simp: find_None_iff split: if_splits option.splits)

lemma metadata_validated:
  "buildCanonicalEventMetadata sha env now random e = Inr m \<Longrightarrow> validateCanonicalEventInput env e = None"
  by (auto simp: buildCanonicalEventMetadata_def split: option.splits)

lemma metadata_well_formed:
  assumes "buildCanonicalEventMetadata sha env now random e = Inr m"
  shows "metadata_ok m"
proof -
  note v = metadata_validated [OF assms]
  note ok = validated [OF v]
  have pii: "str_or (ev_pii e) ''restricted'' \<in> set PII_CLASSIFICATIONS"
    using ok(5) by (cases "ev_pii e") (auto simp: str_or_def PII_CLASSIFICATIONS_def)
  have ret: "str_or (ev_retention e) ''standard'' \<in> set RETENTION_CLASSES"
    using ok(6) by (cases "ev_retention e") (auto simp: str_or_def RETENTION_CLASSES_def)
  have "\<forall>kv \<in> set (case ev_field_pii e of None \<Rightarrow> [(''payload'', ''restricted'')] | Some kvs \<Rightarrow> kvs). snd kv \<in> set PII_CLASSIFICATIONS"
    using ok(7) by (cases "ev_field_pii e") (auto simp: PII_CLASSIFICATIONS_def)
  with assms v ok(2-4) pii ret show ?thesis
    by (auto simp: buildCanonicalEventMetadata_def Let_def metadata_ok_def)
qed

text \<open>
  Two events of one request share their dedupe key when the request carries an idempotency key,
  whatever they tell of: type, entity and version do not enter.
\<close>

lemma dedupe_of:
  assumes "buildCanonicalEventMetadata sha env now random e = Inr m"
  shows "\<exists>entity correlation. em_dedupe m = sha (dedupe_source e entity correlation)"
proof -
  note v = metadata_validated [OF assms]
  show ?thesis using assms unfolding buildCanonicalEventMetadata_def v Let_def option.case sum.inject
    by (intro exI) (erule subst, simp)
qed

lemma dedupe_by_key:
  "str_or (ev_dedupe e) [] = [] \<Longrightarrow> headerString (ev_headers e) [''idempotency_key''] = Some k \<Longrightarrow> k \<noteq> []
     \<Longrightarrow> dedupe_source e entity correlation = k"
  by (simp add: dedupe_source_def str_or_def del: headerString.simps split: option.splits if_splits)

lemma request_events_share_dedupe_key:
  assumes "buildCanonicalEventMetadata sha env now random e = Inr m" "buildCanonicalEventMetadata sha env now' random' e' = Inr m'"
    and "str_or (ev_dedupe e) [] = []" "str_or (ev_dedupe e') [] = []"
    and "headerString (ev_headers e) [''idempotency_key''] = Some k" "headerString (ev_headers e') [''idempotency_key''] = Some k" "k \<noteq> []"
  shows "em_dedupe m = em_dedupe m'"
  using dedupe_of [OF assms(1)] dedupe_of [OF assms(2)] dedupe_by_key [OF assms(3,5,7)] dedupe_by_key [OF assms(4,6,7)] by auto

text \<open>A market named by the payload is not validated: it is refused only by the table.\<close>

definition payload_market_event :: event_input where
  "payload_market_event =
     \<lparr>ev_aggregate_type = ''order'', ev_aggregate_id = None, ev_type = ''order.paid'', ev_version = None,
      ev_payload = [(''market_code'', JStr ''JAKARTA'')], ev_headers = [], ev_available = None, ev_occurred = None, ev_produced = None,
      ev_market = None, ev_service = None, ev_actor = None, ev_entity = None, ev_correlation = None, ev_trace = None, ev_pii = None,
      ev_field_pii = None, ev_retention = None, ev_dedupe = None\<rparr>"

lemma payload_market_unchecked:
  "\<exists>m. buildCanonicalEventMetadata id None 0 ''x'' payload_market_event = Inr m \<and> \<not> market_code_ok (em_market m)"
proof -
  have "case buildCanonicalEventMetadata id None 0 ''x'' payload_market_event of Inl _ \<Rightarrow> False | Inr m \<Rightarrow> \<not> market_code_ok (em_market m)"
    by code_simp
  then show ?thesis by (auto split: sum.splits)
qed

end
