(* ===== verification/EventOutbox.thy ===== *)
theory EventOutbox
  imports CanonicalEvent "HOL-Library.Product_Lexorder"
begin

text \<open>
  The transactional outbox (\<open>services/eventOutbox.ts\<close>, \<open>workers/event-outbox-worker.ts\<close> and the
  publishing of \<open>services/rabbitMqPublisher.ts\<close>): events are stored with the change they tell of, and
  workers on every replica lock them, hand them to the broker and mark them.

  Each statement is a database query of its own, so \<open>outbox_step\<close> interleaves the statements of several
  workers, which may also stop at any point.  \<open>sent\<close> is the sequence of messages handed to the broker;
  what the broker does with them is not part of the model, nor is the switch that turns publishing into
  a log line.  Times are milliseconds.
\<close>

section \<open>Rows\<close>

datatype outbox_status = Pending | Published | Retry | Dead

record outbox_row =
  ob_id :: uuid
  ob_aggregate_type :: string
  ob_aggregate_id :: "uuid option"
  ob_type :: string
  ob_payload :: "(string \<times> json) list"
  ob_headers :: "(string \<times> json) list"
  ob_meta :: event_metadata
  ob_status :: outbox_status
  ob_attempts :: int
  ob_available :: instant
  ob_locked :: "(instant \<times> string) option"
  ob_error :: "string option"
  ob_published :: "instant option"
  ob_created :: instant

text \<open>Column widths and constraints of the table.\<close>

definition outbox_row_ok :: "outbox_row \<Rightarrow> bool" where
  "outbox_row_ok r \<longleftrightarrow> (let m = ob_meta r in
     length (ob_aggregate_type r) \<le> 80 \<and> length (ob_type r) \<le> 120 \<and> length (em_market m) \<le> 80 \<and> length (em_service m) \<le> 120
     \<and> length (em_actor m) \<le> 160 \<and> length (em_correlation m) \<le> 160 \<and> length (em_trace m) \<le> 160 \<and> length (em_dedupe m) \<le> 240
     \<and> 1 \<le> em_version m \<and> market_code_ok (em_market m) \<and> em_pii m \<in> set PII_CLASSIFICATIONS \<and> em_retention m \<in> set RETENTION_CLASSES)"

definition enqueueOutboxEvent ::
  "(string \<Rightarrow> string) \<Rightarrow> string option \<Rightarrow> instant \<Rightarrow> uuid \<Rightarrow> uuid \<Rightarrow> event_input \<Rightarrow> outbox_row list \<Rightarrow> string + outbox_row list" where
  "enqueueOutboxEvent sha env now random new_id e rows =
     (case buildCanonicalEventMetadata sha env now random e of
        Inl m \<Rightarrow> Inl m
      | Inr m \<Rightarrow>
          (let r = \<lparr>ob_id = new_id, ob_aggregate_type = ev_aggregate_type e,
             ob_aggregate_id = (if str_or (ev_aggregate_id e) [] = [] then None else ev_aggregate_id e),
             ob_type = ev_type e, ob_payload = ev_payload e, ob_headers = canonicalEventHeaders (ev_headers e), ob_meta = m,
             ob_status = Pending, ob_attempts = 0, ob_available = (case ev_available e of None \<Rightarrow> now | Some t \<Rightarrow> t),
             ob_locked = None, ob_error = None, ob_published = None, ob_created = now\<rparr>
           in if outbox_row_ok r then Inr (rows @ [r]) else Inl ''constraint violation''))"

section \<open>Locking and marking\<close>

definition lock_time :: int where
  "lock_time = 120000"

definition ready :: "instant \<Rightarrow> outbox_row \<Rightarrow> bool" where
  "ready now r \<longleftrightarrow> (ob_status r = Pending \<or> ob_status r = Retry) \<and> ob_available r \<le> now
     \<and> (case ob_locked r of None \<Rightarrow> True | Some (t, w) \<Rightarrow> t < now - lock_time)"

definition lock_row :: "instant \<Rightarrow> string \<Rightarrow> outbox_row \<Rightarrow> outbox_row" where
  "lock_row now worker r = r\<lparr>ob_locked := Some (now, worker), ob_attempts := ob_attempts r + 1\<rparr>"

definition batch_limit :: "int \<Rightarrow> nat" where
  "batch_limit limit = nat (max 1 (min limit 500))"

definition chosen :: "instant \<Rightarrow> int \<Rightarrow> outbox_row list \<Rightarrow> outbox_row list" where
  "chosen now limit rows = take (batch_limit limit) (sort_key (\<lambda>r. (ob_available r, ob_created r)) (filter (ready now) rows))"

text \<open>The rows that were locked, as they are afterwards, and the table.\<close>

definition lockReadyOutboxEvents :: "instant \<Rightarrow> string \<Rightarrow> int \<Rightarrow> outbox_row list \<Rightarrow> outbox_row list \<times> outbox_row list" where
  "lockReadyOutboxEvents now worker limit rows =
     (let ids = map ob_id (chosen now limit rows) in
      (map (lock_row now worker) (chosen now limit rows), map (\<lambda>r. if ob_id r \<in> set ids then lock_row now worker r else r) rows))"

definition upd_row :: "uuid \<Rightarrow> (outbox_row \<Rightarrow> outbox_row) \<Rightarrow> outbox_row list \<Rightarrow> outbox_row list" where
  "upd_row i f rows = map (\<lambda>r. if ob_id r = i then f r else r) rows"

definition published_row :: "instant \<Rightarrow> outbox_row \<Rightarrow> outbox_row" where
  "published_row now r = r\<lparr>ob_status := Published, ob_published := Some now, ob_locked := None, ob_error := None\<rparr>"

definition markOutboxPublished :: "instant \<Rightarrow> uuid \<Rightarrow> outbox_row list \<Rightarrow> outbox_row list" where
  "markOutboxPublished now i rows = upd_row i (published_row now) rows"

text \<open>\<open>env\<close> is the parsed \<open>OUTBOX_MAX_ATTEMPTS\<close>.\<close>

definition bounded_attempts :: "int option \<Rightarrow> int" where
  "bounded_attempts env = (case env of None \<Rightarrow> 8 | Some m \<Rightarrow> if m > 0 then m else 8)"

definition backoff_seconds :: "int \<Rightarrow> int" where
  "backoff_seconds attempts = min 900 (max 5 (2 ^ nat (min attempts 8)))"

definition retry_row :: "int option \<Rightarrow> instant \<Rightarrow> string \<Rightarrow> int \<Rightarrow> outbox_row \<Rightarrow> outbox_row" where
  "retry_row env now err attempts r =
     (let dead = attempts \<ge> bounded_attempts env in
      r\<lparr>ob_status := (if dead then Dead else Retry),
        ob_available := (if dead then ob_available r else now + 1000 * backoff_seconds attempts),
        ob_locked := None, ob_error := Some (take 1000 err)\<rparr>)"

definition markOutboxRetry :: "int option \<Rightarrow> instant \<Rightarrow> uuid \<Rightarrow> string \<Rightarrow> int \<Rightarrow> outbox_row list \<Rightarrow> outbox_row list" where
  "markOutboxRetry env now i err attempts rows = upd_row i (retry_row env now err attempts) rows"

section \<open>The workers\<close>

text \<open>What a worker does with the first of its rows; a row is its id and the attempts it was returned with.\<close>

datatype phase = ToPublish | Accepted | Failed string

datatype worker = Idle | Working phase "(uuid \<times> int) list"

definition next_row :: "(uuid \<times> int) list \<Rightarrow> worker" where
  "next_row q = (if q = [] then Idle else Working ToPublish q)"

record outbox_system =
  os_now :: instant
  os_rows :: "outbox_row list"
  os_workers :: "string \<Rightarrow> worker"
  os_sent :: "uuid list"

definition worker_at :: "outbox_system \<Rightarrow> string \<Rightarrow> worker \<Rightarrow> outbox_row list \<Rightarrow> outbox_system" where
  "worker_at S w p rows = S\<lparr>os_workers := (os_workers S)(w := p), os_rows := rows\<rparr>"

inductive outbox_step :: "int option \<Rightarrow> outbox_system \<Rightarrow> outbox_system \<Rightarrow> bool" for env where
  clock: "os_now S \<le> t \<Longrightarrow> outbox_step env S (S\<lparr>os_now := t\<rparr>)"
| enqueue: "enqueueOutboxEvent sha svc (os_now S) random new_id e (os_rows S) = Inr rows \<Longrightarrow> new_id \<notin> ob_id ` set (os_rows S) \<Longrightarrow>
    outbox_step env S (S\<lparr>os_rows := rows\<rparr>)"
| tick: "os_workers S w = Idle \<Longrightarrow> lockReadyOutboxEvents (os_now S) w limit (os_rows S) = (locked, rows) \<Longrightarrow>
    outbox_step env S (worker_at S w (next_row (map (\<lambda>r. (ob_id r, ob_attempts r)) locked)) rows)"
| publish: "os_workers S w = Working ToPublish ((i, n) # q) \<Longrightarrow>
    outbox_step env S ((worker_at S w (Working Accepted ((i, n) # q)) (os_rows S))\<lparr>os_sent := os_sent S @ [i]\<rparr>)"
| refuse: "os_workers S w = Working ToPublish q \<Longrightarrow> outbox_step env S (worker_at S w (Working (Failed err) q) (os_rows S))"
| mark: "os_workers S w = Working Accepted ((i, n) # q) \<Longrightarrow>
    outbox_step env S (worker_at S w (next_row q) (markOutboxPublished (os_now S) i (os_rows S)))"
| mark_fails: "os_workers S w = Working Accepted q \<Longrightarrow> outbox_step env S (worker_at S w (Working (Failed err) q) (os_rows S))"
| again: "os_workers S w = Working (Failed err) ((i, n) # q) \<Longrightarrow>
    outbox_step env S (worker_at S w (next_row q) (markOutboxRetry env (os_now S) i err n (os_rows S)))"
| stop: "outbox_step env S (worker_at S w Idle (os_rows S))"

definition outbox_start :: "instant \<Rightarrow> outbox_system" where
  "outbox_start t = \<lparr>os_now = t, os_rows = [], os_workers = (\<lambda>_. Idle), os_sent = []\<rparr>"

definition outbox_reachable :: "int option \<Rightarrow> outbox_system \<Rightarrow> bool" where
  "outbox_reachable env S \<longleftrightarrow> (\<exists>t. (outbox_step env)\<^sup>*\<^sup>* (outbox_start t) S)"

section \<open>No event is lost\<close>

definition row_inv :: "int option \<Rightarrow> uuid list \<Rightarrow> outbox_row \<Rightarrow> bool" where
  "row_inv env sent r \<longleftrightarrow> (ob_status r = Published \<or> ob_published r \<noteq> None \<longrightarrow> ob_id r \<in> set sent)
     \<and> (ob_status r = Dead \<longrightarrow> bounded_attempts env \<le> ob_attempts r)"

definition held_row :: "outbox_row list \<Rightarrow> uuid \<times> int \<Rightarrow> bool" where
  "held_row rows x \<longleftrightarrow> (\<exists>r \<in> set rows. ob_id r = fst x \<and> snd x \<le> ob_attempts r)"

fun worker_inv :: "outbox_row list \<Rightarrow> uuid list \<Rightarrow> worker \<Rightarrow> bool" where
  "worker_inv rows sent Idle = True"
| "worker_inv rows sent (Working p q) = (q \<noteq> [] \<and> (p = Accepted \<longrightarrow> fst (hd q) \<in> set sent) \<and> list_all (held_row rows) q)"

definition outbox_inv :: "int option \<Rightarrow> outbox_system \<Rightarrow> bool" where
  "outbox_inv env S \<longleftrightarrow> distinct (map ob_id (os_rows S)) \<and> set (os_sent S) \<subseteq> ob_id ` set (os_rows S)
     \<and> (\<forall>r \<in> set (os_rows S). row_inv env (os_sent S) r) \<and> (\<forall>w. worker_inv (os_rows S) (os_sent S) (os_workers S w))"

text \<open>An update of the rows that keeps their ids and never lowers their attempts.\<close>

definition kept :: "outbox_row list \<Rightarrow> outbox_row list \<Rightarrow> bool" where
  "kept rows rows' \<longleftrightarrow> map ob_id rows' = map ob_id rows \<and> list_all2 (\<lambda>r r'. ob_attempts r \<le> ob_attempts r') rows rows'"

lemma kept_map: "(\<And>r. r \<in> set rows \<Longrightarrow> ob_id (f r) = ob_id r \<and> ob_attempts r \<le> ob_attempts (f r)) \<Longrightarrow> kept rows (map f rows)"
  by (simp add: kept_def list.rel_map list.rel_refl_strong)

lemma held_kept: "kept rows rows' \<Longrightarrow> held_row rows x \<Longrightarrow> held_row rows' x"
proof -
  assume k: "kept rows rows'" and "held_row rows x"
  then obtain j where j: "j < length rows" "ob_id (rows ! j) = fst x" "snd x \<le> ob_attempts (rows ! j)"
    by (auto simp: held_row_def in_set_conv_nth)
  have len: "length rows' = length rows" using k by (auto simp: kept_def dest: list_all2_lengthD)
  have "ob_id (rows' ! j) = ob_id (rows ! j)" using k j(1) len unfolding kept_def by (metis nth_map)
  moreover have "ob_attempts (rows ! j) \<le> ob_attempts (rows' ! j)" using k j(1) by (auto simp: kept_def dest: list_all2_nthD)
  ultimately show ?thesis using j len unfolding held_row_def by (metis nth_mem order_trans)
qed

lemma worker_kept: "worker_inv rows sent w \<Longrightarrow> kept rows rows' \<Longrightarrow> set sent \<subseteq> set sent' \<Longrightarrow> worker_inv rows' sent' w"
  by (cases w) (auto simp: list_all_iff dest: held_kept)

lemma row_inv_sent: "row_inv env sent r \<Longrightarrow> set sent \<subseteq> set sent' \<Longrightarrow> row_inv env sent' r"
  by (auto simp: row_inv_def)

lemma next_row_inv: "list_all (held_row rows) q \<Longrightarrow> worker_inv rows sent (next_row q)"
  by (simp add: next_row_def)

text \<open>One worker moves on and rewrites the rows.\<close>

lemma worker_at_inv:
  assumes inv: "outbox_inv env S" and k: "kept (os_rows S) rows" and "\<forall>r \<in> set rows. row_inv env (os_sent S) r"
    and "worker_inv rows (os_sent S) p"
  shows "outbox_inv env (worker_at S w p rows)"
proof -
  have "ob_id ` set rows = ob_id ` set (os_rows S)" using k unfolding kept_def by (metis list.set_map)
  then show ?thesis using assms worker_kept [OF _ k, of "os_sent S" _ "os_sent S"]
    by (auto simp: outbox_inv_def worker_at_def kept_def)
qed

lemma chosen_subset: "set (chosen now limit rows) \<subseteq> set rows"
  by (auto simp: chosen_def dest: in_set_takeD)

lemma lock_kept: "kept rows (snd (lockReadyOutboxEvents now w limit rows))"
  by (auto simp: lockReadyOutboxEvents_def Let_def lock_row_def intro!: kept_map)

lemma lock_rows_inv:
  assumes "\<forall>r \<in> set rows. row_inv env sent r"
  shows "\<forall>r \<in> set (snd (lockReadyOutboxEvents now w limit rows)). row_inv env sent r"
  using assms by (auto simp: lockReadyOutboxEvents_def Let_def lock_row_def row_inv_def)

lemma lock_held:
  "x \<in> set (map (\<lambda>r. (ob_id r, ob_attempts r)) (fst (lockReadyOutboxEvents now w limit rows))) \<Longrightarrow>
     held_row (snd (lockReadyOutboxEvents now w limit rows)) x"
proof -
  assume "x \<in> set (map (\<lambda>r. (ob_id r, ob_attempts r)) (fst (lockReadyOutboxEvents now w limit rows)))"
  then obtain r where r: "r \<in> set (chosen now limit rows)" "x = (ob_id r, ob_attempts r + 1)"
    by (auto simp: lockReadyOutboxEvents_def Let_def lock_row_def)
  then have "lock_row now w r \<in> set (snd (lockReadyOutboxEvents now w limit rows))"
    using chosen_subset by (force simp: lockReadyOutboxEvents_def Let_def)
  moreover have "ob_id (lock_row now w r) = fst x \<and> snd x \<le> ob_attempts (lock_row now w r)" using r by (simp add: lock_row_def)
  ultimately show ?thesis unfolding held_row_def by blast
qed

lemma upd_kept: "(\<And>r. ob_id (f r) = ob_id r \<and> ob_attempts (f r) = ob_attempts r) \<Longrightarrow> kept rows (upd_row i f rows)"
  by (auto simp: upd_row_def intro!: kept_map)

lemma enqueue_rows:
  "enqueueOutboxEvent sha svc now random new_id e rows = Inr rows' \<Longrightarrow>
     \<exists>r. rows' = rows @ [r] \<and> ob_id r = new_id \<and> ob_status r = Pending \<and> ob_published r = None \<and> ob_attempts r = 0
       \<and> outbox_row_ok r \<and> metadata_ok (ob_meta r) \<and> event_type_ok (ob_type r)"
proof -
  assume e: "enqueueOutboxEvent sha svc now random new_id e rows = Inr rows'"
  then obtain m where m: "buildCanonicalEventMetadata sha svc now random e = Inr m" by (auto simp: enqueueOutboxEvent_def split: sum.splits)
  from e show ?thesis using metadata_well_formed [OF m] validated(1) [OF metadata_validated [OF m]]
    by (auto simp: enqueueOutboxEvent_def m Let_def split: if_splits)
qed

text \<open>
  What is stored is well formed: an enqueued event has a valid type, market, actor and
  classifications, and starts pending with no attempt.
\<close>

theorem enqueued_event_valid:
  assumes "enqueueOutboxEvent sha svc now random new_id e rows = Inr rows'"
  shows "\<exists>r. rows' = rows @ [r] \<and> ob_id r = new_id \<and> ob_status r = Pending \<and> ob_attempts r = 0 \<and> event_type_ok (ob_type r)
     \<and> metadata_ok (ob_meta r) \<and> market_code_ok (em_market (ob_meta r)) \<and> length (em_dedupe (ob_meta r)) \<le> 240"
  using enqueue_rows [OF assms] by (auto simp: outbox_row_ok_def Let_def)

lemma upd_row_inv:
  assumes "\<forall>r \<in> set rows. row_inv env sent r" "\<And>r. r \<in> set rows \<Longrightarrow> ob_id r = i \<Longrightarrow> row_inv env sent (f r)"
  shows "\<forall>r \<in> set (upd_row i f rows). row_inv env sent r"
  using assms by (auto simp: upd_row_def)

lemma list_held_kept: "kept rows rows' \<Longrightarrow> list_all (held_row rows) q \<Longrightarrow> list_all (held_row rows') q"
  by (auto simp: list_all_iff dest: held_kept)

lemma worker_more: "worker_inv rows sent w \<Longrightarrow> set rows \<subseteq> set rows' \<Longrightarrow> worker_inv rows' sent w"
proof -
  assume "worker_inv rows sent w" "set rows \<subseteq> set rows'"
  moreover from this have "held_row rows x \<Longrightarrow> held_row rows' x" for x unfolding held_row_def by blast
  ultimately show ?thesis by (cases w) (auto simp: list_all_iff)
qed

lemma kept_refl: "kept rows rows"
  by (simp add: kept_def list.rel_refl)

lemma inv_parts:
  assumes "outbox_inv env S"
  shows "distinct (map ob_id (os_rows S))" "\<forall>r \<in> set (os_rows S). row_inv env (os_sent S) r"
    "worker_inv (os_rows S) (os_sent S) (os_workers S w)"
  using assms by (simp_all add: outbox_inv_def)

lemma outbox_step_inv:
  assumes "outbox_step env S T" and inv: "outbox_inv env S"
  shows "outbox_inv env T"
  using assms(1)
proof cases
  case (clock t)
  then show ?thesis using inv by (simp add: outbox_inv_def)
next
  case (enqueue sha svc random new_id e rows)
  obtain r where r: "rows = os_rows S @ [r]" "ob_id r = new_id" "ob_status r = Pending" "ob_published r = None"
    using enqueue_rows [OF enqueue(2)] by auto
  have "worker_inv rows (os_sent S) (os_workers S w)" for w
    by (rule worker_more [OF inv_parts(3) [OF inv]]) (auto simp: r)
  moreover have "row_inv env (os_sent S) r" using r by (simp add: row_inv_def)
  ultimately show ?thesis using inv enqueue(3) r(1,2) unfolding enqueue(1) outbox_inv_def by auto
next
  case (tick w limit locked rows)
  have rows: "rows = snd (lockReadyOutboxEvents (os_now S) w limit (os_rows S))"
    and locked: "locked = fst (lockReadyOutboxEvents (os_now S) w limit (os_rows S))" using tick(3) by simp_all
  show ?thesis unfolding tick(1) rows locked
  proof (rule worker_at_inv [OF inv lock_kept lock_rows_inv [OF inv_parts(2) [OF inv]] next_row_inv])
    show "list_all (held_row (snd (lockReadyOutboxEvents (os_now S) w limit (os_rows S))))
        (map (\<lambda>r. (ob_id r, ob_attempts r)) (fst (lockReadyOutboxEvents (os_now S) w limit (os_rows S))))"
      unfolding list_all_iff using lock_held by blast
  qed
next
  case (publish w i n q)
  have w: "list_all (held_row (os_rows S)) ((i, n) # q)" using inv_parts(3) [OF inv, of w] publish(2) by simp
  have "i \<in> ob_id ` set (os_rows S)" using w by (auto simp: held_row_def)
  moreover have "worker_inv (os_rows S) (os_sent S @ [i]) (os_workers S v)" for v
    by (rule worker_kept [OF inv_parts(3) [OF inv] kept_refl]) auto
  ultimately show ?thesis using inv w unfolding publish(1) outbox_inv_def worker_at_def by (simp add: row_inv_def)
next
  case (refuse w q err)
  have "worker_inv (os_rows S) (os_sent S) (Working (Failed err) q)" using inv_parts(3) [OF inv, of w] refuse(2) by simp
  then show ?thesis unfolding refuse(1) by (rule worker_at_inv [OF inv kept_refl inv_parts(2) [OF inv]])
next
  case (mark w i n q)
  have w: "i \<in> set (os_sent S)" "list_all (held_row (os_rows S)) q" using inv_parts(3) [OF inv, of w] mark(2) by simp_all
  have k: "kept (os_rows S) (markOutboxPublished (os_now S) i (os_rows S))"
    unfolding markOutboxPublished_def by (intro upd_kept) (simp add: published_row_def)
  show ?thesis unfolding mark(1)
  proof (rule worker_at_inv [OF inv k])
    show "\<forall>r \<in> set (markOutboxPublished (os_now S) i (os_rows S)). row_inv env (os_sent S) r"
      unfolding markOutboxPublished_def by (rule upd_row_inv [OF inv_parts(2) [OF inv]]) (simp add: row_inv_def published_row_def w(1))
    show "worker_inv (markOutboxPublished (os_now S) i (os_rows S)) (os_sent S) (next_row q)"
      by (rule next_row_inv [OF list_held_kept [OF k w(2)]])
  qed
next
  case (mark_fails w q err)
  have "worker_inv (os_rows S) (os_sent S) (Working (Failed err) q)" using inv_parts(3) [OF inv, of w] mark_fails(2) by simp
  then show ?thesis unfolding mark_fails(1) by (rule worker_at_inv [OF inv kept_refl inv_parts(2) [OF inv]])
next
  case (again w err i n q)
  let ?rows = "markOutboxRetry env (os_now S) i err n (os_rows S)"
  have w: "held_row (os_rows S) (i, n)" "list_all (held_row (os_rows S)) q" using inv_parts(3) [OF inv, of w] again(2) by simp_all
  have k: "kept (os_rows S) ?rows" unfolding markOutboxRetry_def by (intro upd_kept) (simp add: retry_row_def Let_def)
  have n: "n \<le> ob_attempts r" if "r \<in> set (os_rows S)" "ob_id r = i" for r
    using w(1) inv_parts(1) [OF inv] that by (auto simp: held_row_def distinct_map dest: inj_onD)
  show ?thesis unfolding again(1)
  proof (rule worker_at_inv [OF inv k])
    have "row_inv env (os_sent S) (retry_row env (os_now S) err n r)" if "r \<in> set (os_rows S)" "ob_id r = i" for r
      using inv_parts(2) [OF inv] that n [OF that] by (auto simp: row_inv_def retry_row_def Let_def split: if_splits)
    then show "\<forall>r \<in> set ?rows. row_inv env (os_sent S) r"
      unfolding markOutboxRetry_def by (intro upd_row_inv [OF inv_parts(2) [OF inv]])
    show "worker_inv ?rows (os_sent S) (next_row q)" by (rule next_row_inv [OF list_held_kept [OF k w(2)]])
  qed
next
  case (stop w)
  show ?thesis unfolding stop by (rule worker_at_inv [OF inv kept_refl inv_parts(2) [OF inv]]) simp
qed

lemma outbox_reachable_inv: "outbox_reachable env S \<Longrightarrow> outbox_inv env S"
proof -
  have "outbox_inv env (outbox_start t)" for t by (simp add: outbox_inv_def outbox_start_def)
  moreover have "(outbox_step env)\<^sup>*\<^sup>* S0 S \<Longrightarrow> outbox_inv env S0 \<Longrightarrow> outbox_inv env S" for S0
    by (induction rule: rtranclp_induct) (auto dest: outbox_step_inv)
  ultimately show "outbox_reachable env S \<Longrightarrow> outbox_inv env S" unfolding outbox_reachable_def by blast
qed


section \<open>Every event is sent\<close>

text \<open>One tick of a worker whose broker and database answer: everything it locks is published.\<close>

definition tick_ok :: "instant \<Rightarrow> string \<Rightarrow> int \<Rightarrow> outbox_row list \<Rightarrow> outbox_row list" where
  "tick_ok now w limit rows =
     (case lockReadyOutboxEvents now w limit rows of (locked, rows') \<Rightarrow>
        fold (markOutboxPublished now) (map ob_id locked) rows')"

definition all_published :: "instant \<Rightarrow> string \<Rightarrow> outbox_row list \<Rightarrow> outbox_row list" where
  "all_published now w rows = map (\<lambda>r. if ready now r then published_row now (lock_row now w r) else r) rows"

lemma fold_mark: "fold (markOutboxPublished now) is rows = map (\<lambda>r. if ob_id r \<in> set is then published_row now r else r) rows"
proof (induction "is" arbitrary: rows)
  case (Cons i "is")
  have "published_row now (published_row now r) = published_row now r" "ob_id (published_row now r) = ob_id r" for r
    by (simp_all add: published_row_def)
  with Cons show ?case by (auto simp: markOutboxPublished_def upd_row_def)
qed (simp add: map_idI)

definition now_published :: "instant \<Rightarrow> string \<Rightarrow> (outbox_row \<Rightarrow> bool) \<Rightarrow> outbox_row list \<Rightarrow> outbox_row list" where
  "now_published now w P rows = map (\<lambda>r. if P r then published_row now (lock_row now w r) else r) rows"

lemma tick_rows:
  assumes "distinct (map ob_id rows)"
  shows "tick_ok now w limit rows = now_published now w (\<lambda>r. r \<in> set (chosen now limit rows)) rows"
proof -
  have "tick_ok now w limit rows = map (\<lambda>r. if ob_id r \<in> ob_id ` set (chosen now limit rows) then published_row now (lock_row now w r) else r) rows"
    by (simp add: tick_ok_def lockReadyOutboxEvents_def Let_def fold_mark lock_row_def image_image cong: if_cong)
  moreover have "ob_id r \<in> ob_id ` set (chosen now limit rows) \<longleftrightarrow> r \<in> set (chosen now limit rows)" if "r \<in> set rows" for r
    using that chosen_subset [of now limit rows] assms by (auto simp: distinct_map dest: inj_onD)
  ultimately show ?thesis by (simp add: now_published_def cong: map_cong)
qed

lemma chosen_ready: "r \<in> set (chosen now limit rows) \<Longrightarrow> ready now r"
  by (auto simp: chosen_def dest: in_set_takeD)

lemma published_not_ready: "\<not> ready now' (published_row now r)"
  by (simp add: ready_def published_row_def)

lemma tick_ids: "distinct (map ob_id rows) \<Longrightarrow> map ob_id (tick_ok now w limit rows) = map ob_id rows"
  by (simp add: tick_rows now_published_def published_row_def lock_row_def)

lemma tick_progress:
  assumes "distinct (map ob_id rows)"
  shows "length (filter (ready now) (tick_ok now w limit rows)) = length (filter (ready now) rows) - batch_limit limit"
proof -
  have d: "distinct rows" using assms by (simp add: distinct_map)
  have same: "now_published now w P rows = map (\<lambda>r. if P r then published_row now (lock_row now w r) else r) rows" for P
    by (simp add: now_published_def)
  have "length (filter (ready now) (tick_ok now w limit rows)) = length (filter (\<lambda>r. ready now r \<and> r \<notin> set (chosen now limit rows)) rows)"
    unfolding tick_rows [OF assms] same by (simp add: filter_map comp_def published_not_ready if_distrib [of "ready now"] cong: if_cong)
      (meson filter_cong)
  also have "\<dots> = card ({r \<in> set rows. ready now r} - set (chosen now limit rows))"
    using d by (simp add: distinct_length_filter) (rule arg_cong [of _ _ card], auto)
  also have "\<dots> = card {r \<in> set rows. ready now r} - card (set (chosen now limit rows))"
    by (rule card_Diff_subset) (use chosen_subset [of now limit rows] chosen_ready in auto)
  also have "card (set (chosen now limit rows)) = length (chosen now limit rows)"
    using d by (intro distinct_card) (simp add: chosen_def)
  also have "card {r \<in> set rows. ready now r} = length (filter (ready now) rows)"
    using d by (simp add: distinct_length_filter Collect_conj_eq Int_commute)
  also have "length (chosen now limit rows) = min (length (filter (ready now) rows)) (batch_limit limit)"
    by (simp add: chosen_def)
  finally show ?thesis by simp
qed

text \<open>
  C29.  A working broker drains the outbox.  Ticks of a worker that is not disturbed publish every event
  that is ready, once there are enough of them for the batch size, and leave all other rows as they are.
\<close>

theorem ticks_drain_outbox:
  assumes "distinct (map ob_id rows)" and "length (filter (ready now) rows) \<le> k * batch_limit limit"
  shows "(tick_ok now w limit ^^ k) rows
     = map (\<lambda>r. if ready now r then published_row now (lock_row now w r) else r) rows"
  using assms
proof (induction k arbitrary: rows)
  case 0
  then show ?case by (simp add: filter_empty_conv map_idI)
next
  case (Suc k)
  let ?next = "tick_ok now w limit rows"
  have "distinct (map ob_id ?next)" using tick_ids [OF Suc.prems(1)] Suc.prems(1) by metis
  moreover have "length (filter (ready now) ?next) \<le> k * batch_limit limit"
    using Suc.prems(2) by (simp add: tick_progress [OF Suc.prems(1)])
  ultimately have "(tick_ok now w limit ^^ k) ?next = map (\<lambda>r. if ready now r then published_row now (lock_row now w r) else r) ?next"
    by (rule Suc.IH)
  also have "\<dots> = map (\<lambda>r. if ready now r then published_row now (lock_row now w r) else r) rows"
    unfolding tick_rows [OF Suc.prems(1)] now_published_def by (auto simp: published_not_ready dest: chosen_ready)
  finally show ?case by (simp add: funpow_swap1)
qed

section \<open>Failures\<close>

text \<open>The row after an attempt at time \<open>t\<close> that fails: locked, refused by the broker, marked.\<close>

definition attempt_fails :: "int option \<Rightarrow> string \<Rightarrow> string \<Rightarrow> outbox_row \<Rightarrow> instant \<Rightarrow> outbox_row" where
  "attempt_fails env w err r t = retry_row env t err (ob_attempts (lock_row t w r)) (lock_row t w r)"

lemma bounded_pos: "0 < bounded_attempts env"
  by (simp add: bounded_attempts_def split: option.splits)

lemma backoff_bounds: "5 \<le> backoff_seconds n \<and> backoff_seconds n \<le> 256"
proof -
  have "(2 :: int) ^ nat (min n 8) \<le> 2 ^ 8" by (intro power_increasing) auto
  then show ?thesis by (simp add: backoff_seconds_def)
qed

lemma failed_attempts_counted: "ob_attempts (foldl (attempt_fails env w err) r ts) = ob_attempts r + int (length ts)"
  by (induction ts arbitrary: r) (simp_all add: attempt_fails_def retry_row_def lock_row_def Let_def)

text \<open>
  C30.  An event the broker refuses every time is tried again after between 5 and 256 seconds, and is given
  up with exactly the configured number of attempts, unlocked each time.
\<close>

theorem refused_event_backs_off:
  assumes "ob_attempts r = 0" and s: "s = foldl (attempt_fails env w err) r (ts @ [t])"
  shows "ob_attempts s = int (length ts) + 1 \<and> ob_locked s = None
     \<and> (int (length ts) + 1 < bounded_attempts env \<longrightarrow> ob_status s = Retry \<and> t + 5000 \<le> ob_available s \<and> ob_available s \<le> t + 256000)
     \<and> (bounded_attempts env \<le> int (length ts) + 1 \<longrightarrow> ob_status s = Dead \<and> \<not> ready t' s)"
proof -
  have "ob_attempts (foldl (attempt_fails env w err) r ts) = int (length ts)" by (simp add: failed_attempts_counted assms(1))
  then show ?thesis using backoff_bounds [of "int (length ts) + 1"]
    by (simp add: s attempt_fails_def retry_row_def lock_row_def Let_def ready_def)
qed

section \<open>A concrete run\<close>

definition demo_event :: event_input where
  "demo_event =
     \<lparr>ev_aggregate_type = ''order'', ev_aggregate_id = Some ''o1'', ev_type = ''order.paid'', ev_version = None, ev_payload = [],
      ev_headers = [(''request_id'', JStr ''r1'')], ev_available = None, ev_occurred = None, ev_produced = None, ev_market = None,
      ev_service = None, ev_actor = None, ev_entity = None, ev_correlation = None, ev_trace = None, ev_pii = None,
      ev_field_pii = None, ev_retention = None, ev_dedupe = None\<rparr>"

definition demo_rows :: "outbox_row list" where
  "demo_rows = (case enqueueOutboxEvent (take 64) None 0 ''x'' ''e1'' demo_event [] of Inl _ \<Rightarrow> [] | Inr rows \<Rightarrow> rows)"

lemma demo_enqueued: "enqueueOutboxEvent (take 64) None 0 ''x'' ''e1'' demo_event [] = Inr demo_rows"
  by code_simp

theorem enqueued_event_valid_witness:
  "\<exists>r. demo_rows = [] @ [r] \<and> event_type_ok (ob_type r) \<and> market_code_ok (em_market (ob_meta r))"
  using enqueued_event_valid [OF demo_enqueued] by blast

definition demo_outbox :: "instant \<Rightarrow> outbox_row list \<Rightarrow> worker \<Rightarrow> worker \<Rightarrow> uuid list \<Rightarrow> outbox_system" where
  "demo_outbox now rows a b sent = \<lparr>os_now = now, os_rows = rows, os_workers = (\<lambda>_. Idle)(''a'' := a, ''b'' := b), os_sent = sent\<rparr>"

definition demo_locked :: "outbox_row list" where
  "demo_locked = snd (lockReadyOutboxEvents 0 ''a'' 10 demo_rows)"

definition demo_relocked :: "outbox_row list" where
  "demo_relocked = snd (lockReadyOutboxEvents 130000 ''b'' 10 demo_locked)"

definition demo_marked :: "outbox_row list" where
  "demo_marked = markOutboxPublished 130000 ''e1'' demo_relocked"

lemma demo_locks:
  "map (\<lambda>r. (ob_id r, ob_attempts r)) (fst (lockReadyOutboxEvents 0 ''a'' 10 demo_rows)) = [(''e1'', 1)]"
  "map (\<lambda>r. (ob_id r, ob_attempts r)) (fst (lockReadyOutboxEvents 130000 ''b'' 10 demo_locked)) = [(''e1'', 2)]"
  by code_simp+

lemma demo_next:
  "next_row (map (\<lambda>r. (ob_id r, ob_attempts r)) (fst (lockReadyOutboxEvents 0 ''a'' 10 demo_rows))) = Working ToPublish [(''e1'', 1)]"
  "next_row (map (\<lambda>r. (ob_id r, ob_attempts r)) (fst (lockReadyOutboxEvents 130000 ''b'' 10 demo_locked))) = Working ToPublish [(''e1'', 2)]"
  unfolding demo_locks by (simp_all add: next_row_def)

lemma demo_published: "outbox_reachable None (demo_outbox 130000 demo_marked (Working ToPublish [(''e1'', 1)]) Idle [''e1''])"
proof -
  let ?a = "Working ToPublish [(''e1'', 1)]" and ?b = "Working ToPublish [(''e1'', 2)]"
  have "outbox_step None (outbox_start 0) (demo_outbox 0 demo_rows Idle Idle [])"
    using outbox_step.enqueue [of "take 64" None "outbox_start 0" "''x''" "''e1''" demo_event demo_rows None] demo_enqueued
    by (simp add: outbox_start_def demo_outbox_def fun_upd_def)
  moreover have "outbox_step None (demo_outbox 0 demo_rows Idle Idle []) (demo_outbox 0 demo_locked ?a Idle [])"
    using outbox_step.tick [of "demo_outbox 0 demo_rows Idle Idle []" "''a''" 10 _ demo_locked None, OF _ prod_eqI] demo_next(1)
    by (simp add: demo_outbox_def worker_at_def demo_locked_def fun_upd_twist)
  moreover have "outbox_step None (demo_outbox 0 demo_locked ?a Idle []) (demo_outbox 130000 demo_locked ?a Idle [])"
    using outbox_step.clock [of "demo_outbox 0 demo_locked ?a Idle []" 130000] by (simp add: demo_outbox_def)
  moreover have "outbox_step None (demo_outbox 130000 demo_locked ?a Idle []) (demo_outbox 130000 demo_relocked ?a ?b [])"
    using outbox_step.tick [of "demo_outbox 130000 demo_locked ?a Idle []" "''b''" 10 _ demo_relocked None, OF _ prod_eqI] demo_next(2)
    by (simp add: demo_outbox_def worker_at_def demo_relocked_def)
  moreover have "outbox_step None (demo_outbox 130000 demo_relocked ?a ?b []) (demo_outbox 130000 demo_relocked ?a (Working Accepted [(''e1'', 2)]) [''e1''])"
    using outbox_step.publish [of "demo_outbox 130000 demo_relocked ?a ?b []" "''b''" "''e1''" 2 "[]" None]
    by (simp add: demo_outbox_def worker_at_def)
  moreover have "outbox_step None (demo_outbox 130000 demo_relocked ?a (Working Accepted [(''e1'', 2)]) [''e1'']) (demo_outbox 130000 demo_marked ?a Idle [''e1''])"
    using outbox_step.mark [of "demo_outbox 130000 demo_relocked ?a (Working Accepted [(''e1'', 2)]) [''e1'']" "''b''" "''e1''" 2 "[]" None]
    by (simp add: demo_outbox_def worker_at_def demo_marked_def next_row_def)
  ultimately have "(outbox_step None)\<^sup>*\<^sup>* (outbox_start 0) (demo_outbox 130000 demo_marked ?a Idle [''e1''])"
    by (meson rtranclp.rtrancl_into_rtrancl rtranclp.rtrancl_refl)
  then show ?thesis unfolding outbox_reachable_def by blast
qed


text \<open>
  A published event can go back to be sent again: a worker whose lock ended while it was slow marks its own
  failure over the row another worker has published since, because the update asks neither for
  the status nor for the lock.
\<close>

theorem published_event_retried:
  "\<exists>S r. outbox_reachable None S \<and> r \<in> set (os_rows S) \<and> ob_published r = Some 130000 \<and> ob_id r \<in> set (os_sent S)
     \<and> ob_status r = Retry \<and> ready 135000 r"
proof -
  let ?S = "demo_outbox 130000 demo_marked (Working ToPublish [(''e1'', 1)]) Idle [''e1'']"
  let ?F = "demo_outbox 130000 demo_marked (Working (Failed ''timeout'') [(''e1'', 1)]) Idle [''e1'']"
  let ?rows = "markOutboxRetry None 130000 ''e1'' ''timeout'' 1 demo_marked"
  have "outbox_step None ?S ?F"
    using outbox_step.refuse [of ?S "''a''" "[(''e1'', 1)]" None "''timeout''"] by (simp add: demo_outbox_def worker_at_def fun_upd_twist)
  moreover have "outbox_step None ?F (demo_outbox 130000 ?rows Idle Idle [''e1''])"
    using outbox_step.again [of ?F "''a''" "''timeout''" "''e1''" 1 "[]" None] by (simp add: demo_outbox_def worker_at_def next_row_def fun_upd_twist)
  ultimately have "outbox_reachable None (demo_outbox 130000 ?rows Idle Idle [''e1''])"
    using demo_published unfolding outbox_reachable_def by (meson rtranclp.rtrancl_into_rtrancl)
  moreover have "list_all (\<lambda>r. ob_published r = Some 130000 \<and> ob_id r = ''e1'' \<and> ob_status r = Retry \<and> ready 135000 r) ?rows \<and> ?rows \<noteq> []"
    by code_simp
  then obtain r where "r \<in> set ?rows" "ob_published r = Some 130000" "ob_id r = ''e1''" "ob_status r = Retry" "ready 135000 r"
    by (cases ?rows) auto
  ultimately show ?thesis by (intro exI [of _ "demo_outbox 130000 ?rows Idle Idle [''e1'']"] exI [of _ r]) (simp add: demo_outbox_def)
qed

theorem ticks_drain_outbox_witness:
  "map ob_status ((tick_ok 0 ''a'' 1 ^^ 1) demo_rows) = [Published]"
  using ticks_drain_outbox [of demo_rows 0 1 1 "''a''"] by code_simp

theorem refused_event_backs_off_witness:
  "ob_status (foldl (attempt_fails None ''a'' ''down'') (hd demo_rows) (replicate 7 0 @ [0])) = Dead"
  using refused_event_backs_off [of "hd demo_rows" _ None "''a''" "''down''" "replicate 7 0" 0] by code_simp

end
