(* ===== verification/BroadcastTarget.thy ===== *)
theory BroadcastTarget
  imports JsonText
begin

text \<open>
  The audience of a broadcast (\<open>services/broadcastTarget.service.ts\<close>): the WHERE clauses built from a
  target type and a filter.

  A clause is a list of pieces: SQL text, a bound parameter \<open>$n\<close>, or a \<open>?\<close> that PostgreSQL does not
  bind.  The texts name the subquery they stand for.  A thrown error is its message, with status 400.
\<close>

datatype target_type = AllUsers | Online | Filtered | Manual

datatype piece = Sql string | Bound nat | Hole

datatype sql_param = TextParam string | ArrayParam "string list"

section \<open>Normalising\<close>

definition hex_char :: "char \<Rightarrow> bool" where
  "hex_char c \<longleftrightarrow> c \<in> set ''0123456789abcdefABCDEF''"

definition is_uuid :: "string \<Rightarrow> bool" where
  "is_uuid s \<longleftrightarrow> length s = 36
     \<and> list_all (\<lambda>(j, c). if j \<in> {8, 13, 18, 23} then c = CHR ''-''
         else if j = 14 then c \<in> set ''12345'' else if j = 19 then c \<in> set ''89abAB'' else hex_char c) (enumerate 0 s)"

fun array_items :: "json option \<Rightarrow> json list" where
  "array_items (Some (JArr vs)) = vs"
| "array_items _ = []"

definition normalizeUuidArray :: "json option \<Rightarrow> string \<Rightarrow> string + string list" where
  "normalizeUuidArray v label =
     (let items = array_items v;
          seen = rev (remdups (rev [toLowerCase (js_trim s). JStr s \<leftarrow> items, is_uuid (js_trim s)]))
      in if seen = [] \<and> items \<noteq> [] then Inl (label @ '' does not contain any valid uuid'') else Inr seen)"

fun string_items :: "string list option \<Rightarrow> string \<Rightarrow> json list \<Rightarrow> string list \<Rightarrow> string + string list" where
  "string_items allowed label [] done = Inr done"
| "string_items allowed label (JStr s # vs) done =
     (let t = toLowerCase (js_trim s) in
      if t = [] then string_items allowed label vs done
      else if (case allowed of None \<Rightarrow> False | Some ok \<Rightarrow> t \<notin> set ok) then Inl (''Invalid '' @ label @ '' value: '' @ t)
      else string_items allowed label vs (if t \<in> set done then done else done @ [t]))"
| "string_items allowed label (v # vs) done = string_items allowed label vs done"

definition normalizeStringArray :: "json option \<Rightarrow> string list option \<Rightarrow> string \<Rightarrow> string + string list" where
  "normalizeStringArray v allowed label = string_items allowed label (array_items v) []"

definition ALLOWED_ACCOUNT_STATUS :: "string list" where
  "ALLOWED_ACCOUNT_STATUS = [''active'', ''inactive'', ''suspended'', ''pending_verification'']"

definition ALLOWED_TARGET_ROLES :: "string list" where
  "ALLOWED_TARGET_ROLES = [''customer'', ''courier'']"

section \<open>The clauses\<close>

record predicate_parts =
  pp_clauses :: "piece list list"
  pp_params :: "sql_param list"

text \<open>\<open>clause.replace('?', '$n')\<close>: the first one.\<close>

fun bind_hole :: "nat \<Rightarrow> piece list \<Rightarrow> piece list" where
  "bind_hole n [] = []"
| "bind_hole n (Hole # ps) = Bound n # ps"
| "bind_hole n (p # ps) = p # bind_hole n ps"

definition push_bound :: "piece list \<Rightarrow> sql_param \<Rightarrow> predicate_parts \<Rightarrow> predicate_parts" where
  "push_bound clause v p =
     (let params = pp_params p @ [v] in
      p\<lparr>pp_params := params, pp_clauses := pp_clauses p @ [bind_hole (length params) clause]\<rparr>)"

definition push_clause :: "piece list \<Rightarrow> predicate_parts \<Rightarrow> predicate_parts" where
  "push_clause clause p = p\<lparr>pp_clauses := pp_clauses p @ [clause]\<rparr>"

definition push_param :: "sql_param \<Rightarrow> predicate_parts \<Rightarrow> predicate_parts" where
  "push_param v p = p\<lparr>pp_params := pp_params p @ [v]\<rparr>"

definition filter_field :: "json option \<Rightarrow> string \<Rightarrow> json option" where
  "filter_field raw k = (case raw of Some (JObj kvs) \<Rightarrow> map_of kvs k | _ \<Rightarrow> None)"

definition status_clause :: "json option \<Rightarrow> predicate_parts \<Rightarrow> predicate_parts" where
  "status_clause raw p =
     (case filter_field raw ''account_status'' of
        Some (JStr s) \<Rightarrow> if s \<in> set ALLOWED_ACCOUNT_STATUS then push_bound [Sql ''u.status = '', Hole] (TextParam s) p else p
      | _ \<Rightarrow> p)"

definition roles_clause :: "string list \<Rightarrow> predicate_parts \<Rightarrow> predicate_parts" where
  "roles_clause roles p = (if roles = [] then p else push_bound [Sql ''u.role = ANY('', Hole, Sql ''::text[])''] (ArrayParam roles) p)"

definition online_clause :: "target_type \<Rightarrow> json option \<Rightarrow> predicate_parts \<Rightarrow> predicate_parts" where
  "online_clause typ raw p =
     (if typ = Online \<or> filter_field raw ''online_now'' = Some (JBool True)
      then push_clause [Sql ''EXISTS courier_profiles online, matchable, active, documents eligible''] p else p)"

definition zones_clause :: "string list \<Rightarrow> predicate_parts \<Rightarrow> predicate_parts" where
  "zones_clause zones p =
     (if zones = [] then p
      else push_param (ArrayParam zones) (push_clause [Sql ''EXISTS courier_zones with zone_id = ANY('', Hole, Sql ''::uuid[])''] p))"

definition capabilities_clause :: "string list \<Rightarrow> predicate_parts \<Rightarrow> predicate_parts" where
  "capabilities_clause caps p =
     (if caps = [] then p
      else push_param (ArrayParam caps)
        (push_clause [Sql ''EXISTS courier_service_capabilities with service_code = ANY('', Hole, Sql ''::text[])''] p))"

definition manual_clause :: "target_type \<Rightarrow> string list \<Rightarrow> predicate_parts \<Rightarrow> predicate_parts" where
  "manual_clause typ ids p =
     (if typ \<noteq> Manual then p
      else if ids = [] then push_clause [Sql ''FALSE''] p
      else push_param (ArrayParam ids) (push_clause [Sql ''u.id = ANY('', Hole, Sql ''::uuid[])''] p))"

definition manual_ids :: "target_type \<Rightarrow> json option \<Rightarrow> string + string list" where
  "manual_ids typ raw = (if typ = Manual then normalizeUuidArray (filter_field raw ''user_ids'') ''user_ids'' else Inr [])"

definition base_clauses :: predicate_parts where
  "base_clauses = \<lparr>pp_clauses = [[Sql ''u.deleted_at IS NULL'']], pp_params = []\<rparr>"

definition buildPredicate :: "target_type \<Rightarrow> json option \<Rightarrow> string + predicate_parts" where
  "buildPredicate typ raw =
     (let p0 = status_clause raw base_clauses in
      case normalizeStringArray (filter_field raw ''roles'') (Some ALLOWED_TARGET_ROLES) ''roles'' of Inl e \<Rightarrow> Inl e | Inr roles \<Rightarrow>
      (case normalizeUuidArray (filter_field raw ''zone_ids'') ''zone_ids'' of Inl e \<Rightarrow> Inl e | Inr zones \<Rightarrow>
      (case normalizeStringArray (filter_field raw ''capabilities'') None ''capabilities'' of Inl e \<Rightarrow> Inl e | Inr caps \<Rightarrow>
      (case manual_ids typ raw of Inl e \<Rightarrow> Inl e | Inr ids \<Rightarrow>
         Inr (manual_clause typ ids (capabilities_clause caps (zones_clause zones (online_clause typ raw (roles_clause roles p0)))))))))"

section \<open>What a filter is turned into\<close>

text \<open>The statement runs when no clause keeps a \<open>?\<close> and every bound parameter has a value.\<close>

definition runnable :: "predicate_parts \<Rightarrow> bool" where
  "runnable p \<longleftrightarrow> (\<forall>c \<in> set (pp_clauses p). Hole \<notin> set c \<and> (\<forall>n. Bound n \<in> set c \<longrightarrow> 1 \<le> n \<and> n \<le> length (pp_params p)))"

lemma runnable_push_bound:
  "runnable p \<Longrightarrow> runnable (push_bound [Sql a, Hole] v p)"
  "runnable p \<Longrightarrow> runnable (push_bound [Sql a, Hole, Sql b] v p)"
  by (force simp: runnable_def push_bound_def Let_def)+

lemma runnable_push_clause: "runnable (push_clause [Sql a] p) = runnable p"
  by (auto simp: runnable_def push_clause_def)

lemma hole_not_runnable: "[Sql a, Hole, Sql b] \<in> set (pp_clauses p) \<Longrightarrow> \<not> runnable p"
  by (force simp: runnable_def)

lemma clauses_kept:
  "set (pp_clauses p) \<subseteq> set (pp_clauses (zones_clause zs p))"
  "set (pp_clauses p) \<subseteq> set (pp_clauses (capabilities_clause cs p))"
  "set (pp_clauses p) \<subseteq> set (pp_clauses (manual_clause typ is p))"
  by (auto simp: zones_clause_def capabilities_clause_def manual_clause_def push_clause_def push_param_def)

lemma status_runnable:
  assumes "runnable p"
  shows "runnable (status_clause raw p)"
proof (cases "\<exists>s. filter_field raw ''account_status'' = Some (JStr s)")
  case True
  then show ?thesis using assms by (auto simp: status_clause_def runnable_push_bound)
next
  case False
  then have "status_clause raw p = p" by (auto simp: status_clause_def split: option.split json.split)
  with assms show ?thesis by simp
qed

lemma roles_runnable: "runnable p \<Longrightarrow> runnable (roles_clause roles p)"
  by (simp add: roles_clause_def runnable_push_bound)

lemma online_runnable: "runnable (online_clause typ raw p) = runnable p"
  by (simp add: online_clause_def runnable_push_clause)

lemma start_runnable: "runnable (online_clause typ raw (roles_clause roles (status_clause raw base_clauses)))"
  unfolding online_runnable by (intro roles_runnable status_runnable) (simp add: runnable_def base_clauses_def)

text \<open>
  Which audiences can be computed: exactly those without zones, capabilities or listed users.  For these three the
  placeholder stays in the text, because the clause is added beside the function that numbers the
  placeholders, so the query is refused by the database.
\<close>

theorem target_query_runs:
  assumes "buildPredicate typ raw = Inr p"
  shows "runnable p \<longleftrightarrow> normalizeUuidArray (filter_field raw ''zone_ids'') ''zone_ids'' = Inr []
     \<and> normalizeStringArray (filter_field raw ''capabilities'') None ''capabilities'' = Inr []
     \<and> (typ = Manual \<longrightarrow> normalizeUuidArray (filter_field raw ''user_ids'') ''user_ids'' = Inr [])"
proof -
  obtain roles zones caps ids where n: "normalizeUuidArray (filter_field raw ''zone_ids'') ''zone_ids'' = Inr zones"
    "normalizeStringArray (filter_field raw ''capabilities'') None ''capabilities'' = Inr caps" "manual_ids typ raw = Inr ids"
    and p: "p = manual_clause typ ids (capabilities_clause caps (zones_clause zones (online_clause typ raw (roles_clause roles
        (status_clause raw base_clauses)))))"
    using assms by (auto simp: buildPredicate_def Let_def split: sum.splits)
  let ?start = "online_clause typ raw (roles_clause roles (status_clause raw base_clauses))"
  have "\<not> runnable p" if "zones \<noteq> []"
  proof -
    have "[Sql ''EXISTS courier_zones with zone_id = ANY('', Hole, Sql ''::uuid[])''] \<in> set (pp_clauses (zones_clause zones ?start))"
      using that by (simp add: zones_clause_def push_clause_def push_param_def)
    then show ?thesis unfolding p by (rule hole_not_runnable [OF subsetD [OF clauses_kept(3) subsetD [OF clauses_kept(2)]]])
  qed
  moreover have "\<not> runnable p" if "caps \<noteq> []"
  proof -
    have "[Sql ''EXISTS courier_service_capabilities with service_code = ANY('', Hole, Sql ''::text[])'']
        \<in> set (pp_clauses (capabilities_clause caps (zones_clause zones ?start)))"
      using that by (simp add: capabilities_clause_def push_clause_def push_param_def)
    then show ?thesis unfolding p by (rule hole_not_runnable [OF subsetD [OF clauses_kept(3)]])
  qed
  moreover have "\<not> runnable p" if "typ = Manual" "ids \<noteq> []"
    using that by (intro hole_not_runnable [of "''u.id = ANY(''" "''::uuid[])''"]) (simp add: p manual_clause_def push_clause_def push_param_def)
  moreover have "runnable p" if "zones = []" "caps = []" "typ = Manual \<longrightarrow> ids = []"
    using that start_runnable by (auto simp: p zones_clause_def capabilities_clause_def manual_clause_def runnable_push_clause)
  ultimately show ?thesis using n by (auto simp: manual_ids_def split: if_splits)
qed

theorem target_query_runs_witness:
  "\<exists>p. buildPredicate Filtered (Some (JObj [(''capabilities'', JArr [JStr ''food_delivery''])])) = Inr p \<and> \<not> runnable p"
proof -
  let ?raw = "Some (JObj [(''capabilities'', JArr [JStr ''food_delivery''])])"
  have "normalizeStringArray (filter_field ?raw ''capabilities'') None ''capabilities'' = Inr [''food_delivery'']" by code_simp
  moreover obtain p where "buildPredicate Filtered ?raw = Inr p"
  proof -
    have "case buildPredicate Filtered ?raw of Inl _ \<Rightarrow> False | Inr _ \<Rightarrow> True" by code_simp
    with that show ?thesis by (cases "buildPredicate Filtered ?raw") auto
  qed
  ultimately show ?thesis using target_query_runs [of Filtered ?raw p] by auto
qed

end
