(* ===== verification/Broadcasts.thy ===== *)
theory Broadcasts
  imports BroadcastTarget
begin

text \<open>
  Broadcasts (\<open>services/broadcast.service.ts\<close>, the claim of \<open>broadcastDelivery.service.ts\<close> and the
  recovery of \<open>workers/broadcast-scheduler-worker.ts\<close>): what may be created and edited, and the life of a broadcast.

  A request body is a JSON object; parsing a date is a parameter.  An error is its HTTP status with its
  message.  The edit reads the status and writes in two statements without a transaction, so that both are
  definitions of their own.
\<close>

type_synonym http_error = "nat \<times> string"

datatype broadcast_status = BDraft | BScheduled | BSending | BSent | BCancelled | BFailed

record broadcast =
  bc_id :: uuid
  bc_title :: string
  bc_body :: string
  bc_image :: "string option"
  bc_link :: "string option"
  bc_category :: string
  bc_priority :: string
  bc_channels :: "string list"
  bc_target :: string
  bc_filter :: "json option"
  bc_status :: broadcast_status
  bc_total :: nat
  bc_sent :: nat
  bc_failed :: nat
  bc_scheduled :: "instant option"
  bc_sent_at :: "instant option"
  bc_created_by :: "uuid option"
  bc_updated :: instant

section \<open>Reading a request\<close>

definition BROADCAST_CATEGORIES :: "string list" where
  "BROADCAST_CATEGORIES = [''system'', ''promo'', ''support'', ''activity'', ''message'']"

definition BROADCAST_PRIORITIES :: "string list" where
  "BROADCAST_PRIORITIES = [''low'', ''normal'', ''high'', ''urgent'']"

definition BROADCAST_TARGET_TYPES :: "string list" where
  "BROADCAST_TARGET_TYPES = [''all'', ''online'', ''filter'', ''manual'']"

definition BROADCAST_CHANNELS :: "string list" where
  "BROADCAST_CHANNELS = [''push'', ''in_app'']"

definition text_field :: "(string \<times> json) list \<Rightarrow> string \<Rightarrow> string option" where
  "text_field body k = (case map_of body k of Some (JStr s) \<Rightarrow> Some s | _ \<Rightarrow> None)"

definition or_default :: "string option \<Rightarrow> string \<Rightarrow> string" where
  "or_default v d = (case v of None \<Rightarrow> d | Some s \<Rightarrow> s)"

definition trimmed_text :: "(string \<times> json) list \<Rightarrow> string \<Rightarrow> string" where
  "trimmed_text body k = js_trim (or_default (text_field body k) [])"

definition bad_text :: "nat \<Rightarrow> string \<Rightarrow> bool" where
  "bad_text n s \<longleftrightarrow> s = [] \<or> length s > n"

definition bad :: "string \<Rightarrow> http_error" where
  "bad m = (400, m)"

definition validateUrlField :: "json option \<Rightarrow> string \<Rightarrow> http_error + string option" where
  "validateUrlField v label =
     (case v of None \<Rightarrow> Inr None | Some JNull \<Rightarrow> Inr None | Some (JStr []) \<Rightarrow> Inr None
      | Some (JStr s) \<Rightarrow>
          if length s > 2048 \<or> \<not> (starts_with ''http://'' (toLowerCase s) \<or> starts_with ''https://'' (toLowerCase s))
          then Inl (bad (label @ '' must be an http(s) URL of at most 2048 chars'')) else Inr (Some s)
      | Some _ \<Rightarrow> Inl (bad (label @ '' must be an http(s) URL of at most 2048 chars'')))"

definition validateTargetFilter :: "string \<Rightarrow> json option \<Rightarrow> http_error + json option" where
  "validateTargetFilter typ raw =
     (if typ \<noteq> ''filter'' \<and> typ \<noteq> ''manual'' then
        Inr (case raw of None \<Rightarrow> None | Some v \<Rightarrow> if js_truthy v then Some v else None)
      else (case raw of Some (JObj kvs) \<Rightarrow> Inr raw
            | _ \<Rightarrow> Inl (bad (''target_filter object is required for target_type '' @ typ))))"

fun channel_set :: "json list \<Rightarrow> http_error + string list" where
  "channel_set [] = Inr []"
| "channel_set (v # vs) =
     (let c = toLowerCase (js_trim (json_text v)) in
      if c = ''fcm'' then (case channel_set vs of Inl e \<Rightarrow> Inl e | Inr cs \<Rightarrow> Inr (''push'' # cs))
      else if c \<in> set BROADCAST_CHANNELS then (case channel_set vs of Inl e \<Rightarrow> Inl e | Inr cs \<Rightarrow> Inr (c # cs))
      else Inl (bad (''Invalid channel '' @ c)))"

text \<open>The set as a sorted array.\<close>

definition normalizeChannels :: "json option \<Rightarrow> http_error + string list" where
  "normalizeChannels v =
     (case array_items v of [] \<Rightarrow> Inr BROADCAST_CHANNELS
      | vs \<Rightarrow> (case channel_set vs of Inl e \<Rightarrow> Inl e | Inr cs \<Rightarrow> Inr (filter (\<lambda>c. c \<in> set cs) [''in_app'', ''push''])))"

text \<open>The listed users of a manual audience, when they are not acceptable: at most \<open>cap\<close> ids.\<close>

definition manual_error :: "nat \<Rightarrow> string \<Rightarrow> json option \<Rightarrow> http_error option" where
  "manual_error cap typ raw =
     (if typ \<noteq> ''manual'' then None
      else (case filter_field raw ''user_ids'' of
          Some (JArr (v # vs)) \<Rightarrow>
            if \<not> list_all (\<lambda>x. case x of JStr s \<Rightarrow> is_uuid (js_trim s) | _ \<Rightarrow> False) (v # vs)
            then Some (bad ''target_filter.user_ids must be a non-empty uuid array for manual targeting'')
            else if length (v # vs) > cap then Some (bad ''Manual audience exceeds recipient cap'') else None
        | _ \<Rightarrow> Some (bad ''target_filter.user_ids must be a non-empty uuid array for manual targeting'')))"

fun first_failure :: "http_error option list \<Rightarrow> http_error option" where
  "first_failure [] = None"
| "first_failure (None # es) = first_failure es"
| "first_failure (Some e # es) = Some e"

fun sum_error :: "'a + 'b \<Rightarrow> 'a option" where
  "sum_error (Inl e) = Some e"
| "sum_error (Inr _) = None"

definition error_if :: "bool \<Rightarrow> string \<Rightarrow> http_error option" where
  "error_if b m = (if b then Some (bad m) else None)"

text \<open>The status and the time of a new broadcast.\<close>

definition requested_start :: "(string \<Rightarrow> instant option) \<Rightarrow> instant \<Rightarrow> (string \<times> json) list \<Rightarrow> http_error + broadcast_status \<times> instant option" where
  "requested_start parse now body =
     (let st = toLowerCase (or_default (text_field body ''status'') ''draft'');
          time = (case map_of body ''scheduled_at'' of None \<Rightarrow> None | Some v \<Rightarrow> if js_truthy v then parse (json_text v) else None)
      in if st = ''scheduled'' then
           (case time of None \<Rightarrow> Inl (bad ''scheduled_at must be a future ISO timestamp when status=scheduled'')
            | Some t \<Rightarrow> if t \<le> now then Inl (bad ''scheduled_at must be a future ISO timestamp when status=scheduled'') else Inr (BScheduled, Some t))
         else if st = ''draft'' then Inr (BDraft, None) else Inl (bad ''status must be draft or scheduled on create''))"

definition the_right :: "'b \<Rightarrow> 'a + 'b \<Rightarrow> 'b" where
  "the_right d v = (case v of Inl _ \<Rightarrow> d | Inr x \<Rightarrow> x)"

text \<open>\<open>validateBroadcastInput\<close> and the row that is inserted.\<close>

definition new_broadcast ::
  "(string \<Rightarrow> instant option) \<Rightarrow> nat \<Rightarrow> instant \<Rightarrow> uuid \<Rightarrow> uuid option \<Rightarrow> (string \<times> json) list \<Rightarrow> http_error + broadcast" where
  "new_broadcast parse cap now i actor body =
     (let title = trimmed_text body ''title''; text = trimmed_text body ''body'';
          category = or_default (text_field body ''category'') ''system''; priority = or_default (text_field body ''priority'') ''normal'';
          typ = or_default (text_field body ''target_type'') ''all''; raw = map_of body ''target_filter'';
          flt = validateTargetFilter typ raw; start = requested_start parse now body;
          image = validateUrlField (map_of body ''image_url'') ''image_url''; link = validateUrlField (map_of body ''deep_link'') ''deep_link'';
          channels = normalizeChannels (map_of body ''channels'')
      in case first_failure
          [error_if (bad_text 60 title) ''title is required and must be at most 60 characters'',
           error_if (bad_text 500 text) ''body is required and must be at most 500 characters'',
           error_if (category \<notin> set BROADCAST_CATEGORIES) ''category must be one of system, promo, support, activity, message'',
           error_if (priority \<notin> set BROADCAST_PRIORITIES) ''priority must be one of low, normal, high, urgent'',
           error_if (typ \<notin> set BROADCAST_TARGET_TYPES) ''target_type must be one of all, online, filter, manual'',
           manual_error cap typ raw, sum_error flt, sum_error start, sum_error image, sum_error link, sum_error channels] of
           Some e \<Rightarrow> Inl e
         | None \<Rightarrow> Inr \<lparr>bc_id = i, bc_title = title, bc_body = text, bc_image = the_right None image, bc_link = the_right None link,
              bc_category = category, bc_priority = priority, bc_channels = the_right [] channels, bc_target = typ,
              bc_filter = the_right None flt, bc_status = fst (the_right (BDraft, None) start), bc_total = 0, bc_sent = 0, bc_failed = 0,
              bc_scheduled = snd (the_right (BDraft, None) start), bc_sent_at = None, bc_created_by = actor, bc_updated = now\<rparr>)"

section \<open>Editing\<close>

datatype patch_status = ToDraft | ToScheduled | ToCancelled

record broadcast_patch =
  pt_title :: "string option"
  pt_body :: "string option"
  pt_image :: "string option option"
  pt_link :: "string option option"
  pt_category :: "string option"
  pt_priority :: "string option"
  pt_channels :: "string list option"
  pt_target :: "string option"
  pt_filter :: "json option option"
  pt_status :: "patch_status option"
  pt_scheduled :: "instant option"

definition given_field :: "(string \<times> json) list \<Rightarrow> string \<Rightarrow> bool" where
  "given_field body k \<longleftrightarrow> map_of body k \<noteq> None"

definition field_text :: "(string \<times> json) list \<Rightarrow> string \<Rightarrow> string option" where
  "field_text body k = map_option json_text (map_of body k)"

definition patch_start :: "(string \<Rightarrow> instant option) \<Rightarrow> (string \<times> json) list \<Rightarrow> http_error + patch_status option \<times> instant option" where
  "patch_start parse body =
     (case map_option toLowerCase (text_field body ''status'') of
        None \<Rightarrow> Inr (None, None)
      | Some st \<Rightarrow>
          if st \<notin> {''draft'', ''scheduled'', ''cancelled''} then Inl (bad ''status must be draft, scheduled or cancelled'')
          else if st = ''cancelled'' then Inr (Some ToCancelled, None)
          else (let new = (if st = ''draft'' then ToDraft else ToScheduled) in
             case field_text body ''scheduled_at'' of
               None \<Rightarrow> Inr (Some new, None)
             | Some t \<Rightarrow> (case parse t of None \<Rightarrow> Inl (bad ''scheduled_at must be a valid ISO timestamp'')
                 | Some time \<Rightarrow> Inr (Some new, Some time))))"

definition validateBroadcastPatch ::
  "(string \<Rightarrow> instant option) \<Rightarrow> nat \<Rightarrow> (string \<times> json) list \<Rightarrow> http_error + broadcast_patch" where
  "validateBroadcastPatch parse cap body =
     (let has = given_field body; title = trimmed_text body ''title''; text = trimmed_text body ''body'';
          image = validateUrlField (map_of body ''image_url'') ''image_url''; link = validateUrlField (map_of body ''deep_link'') ''deep_link'';
          category = field_text body ''category''; priority = field_text body ''priority''; typ = field_text body ''target_type'';
          raw = map_of body ''target_filter''; channels = normalizeChannels (map_of body ''channels'');
          flt = (case typ of None \<Rightarrow> Inr (case raw of None \<Rightarrow> None | Some v \<Rightarrow> if js_truthy v then Some v else None)
            | Some t \<Rightarrow> validateTargetFilter t raw);
          start = patch_start parse body
      in case first_failure
          [error_if (has ''title'' \<and> bad_text 60 title) ''title must be 1-60 characters'',
           error_if (has ''body'' \<and> bad_text 500 text) ''body must be 1-500 characters'',
           sum_error image, sum_error link,
           error_if (case category of None \<Rightarrow> False | Some c \<Rightarrow> c \<notin> set BROADCAST_CATEGORIES) ''category is not allowed'',
           error_if (case priority of None \<Rightarrow> False | Some c \<Rightarrow> c \<notin> set BROADCAST_PRIORITIES) ''priority is not allowed'',
           (if has ''channels'' then sum_error channels else None),
           error_if (case typ of None \<Rightarrow> False | Some t \<Rightarrow> t \<notin> set BROADCAST_TARGET_TYPES) ''target_type is not allowed'',
           (case typ of None \<Rightarrow> None | Some t \<Rightarrow> manual_error cap t raw), sum_error flt, sum_error start,
           error_if (\<not> list_ex has [''title'', ''body'', ''image_url'', ''deep_link'', ''category'', ''priority'', ''channels'', ''target_type'', ''target_filter'']
             \<and> fst (the_right (None, None) start) = None) ''No updatable fields provided''] of
           Some e \<Rightarrow> Inl e
         | None \<Rightarrow> Inr \<lparr>pt_title = (if has ''title'' then Some title else None), pt_body = (if has ''body'' then Some text else None),
              pt_image = (if has ''image_url'' then Some (the_right None image) else None),
              pt_link = (if has ''deep_link'' then Some (the_right None link) else None),
              pt_category = category, pt_priority = priority,
              pt_channels = (if has ''channels'' then Some (the_right [] channels) else None), pt_target = typ,
              pt_filter = (if typ \<noteq> None \<or> raw \<noteq> None then Some (the_right None flt) else None),
              pt_status = fst (the_right (None, None) start), pt_scheduled = snd (the_right (None, None) start)\<rparr>)"

text \<open>The assignments of an edit, for the row as it was read.\<close>

definition patch_row :: "broadcast_patch \<Rightarrow> broadcast \<Rightarrow> broadcast" where
  "patch_row p b = b\<lparr>bc_title := or_default (pt_title p) (bc_title b), bc_body := or_default (pt_body p) (bc_body b),
     bc_image := (case pt_image p of None \<Rightarrow> bc_image b | Some v \<Rightarrow> v), bc_link := (case pt_link p of None \<Rightarrow> bc_link b | Some v \<Rightarrow> v),
     bc_category := or_default (pt_category p) (bc_category b), bc_priority := or_default (pt_priority p) (bc_priority b),
     bc_channels := (case pt_channels p of None \<Rightarrow> bc_channels b | Some v \<Rightarrow> v), bc_target := or_default (pt_target p) (bc_target b),
     bc_filter := (case pt_filter p of None \<Rightarrow> bc_filter b | Some v \<Rightarrow> v)\<rparr>"

definition patch_status_row :: "patch_status option \<Rightarrow> instant option \<Rightarrow> broadcast \<Rightarrow> broadcast" where
  "patch_status_row st time b =
     (case st of None \<Rightarrow> b
      | Some ToScheduled \<Rightarrow> b\<lparr>bc_status := BScheduled, bc_scheduled := time\<rparr>
      | Some ToDraft \<Rightarrow> b\<lparr>bc_status := BDraft, bc_scheduled := None\<rparr>
      | Some ToCancelled \<Rightarrow> b\<lparr>bc_status := BCancelled, bc_scheduled := None\<rparr>)"

definition set_broadcast :: "instant \<Rightarrow> uuid \<Rightarrow> (broadcast \<Rightarrow> broadcast) \<Rightarrow> broadcast list \<Rightarrow> broadcast list" where
  "set_broadcast now i f bs = map (\<lambda>b. if bc_id b = i then (f b)\<lparr>bc_updated := now\<rparr> else b) bs"

definition find_broadcast :: "uuid \<Rightarrow> broadcast list \<Rightarrow> broadcast option" where
  "find_broadcast i bs = find (\<lambda>b. bc_id b = i) bs"

text \<open>The first statement of \<open>updateBroadcast\<close> and its checks: the time to schedule for, if any.\<close>

definition edit_check :: "instant \<Rightarrow> uuid \<Rightarrow> broadcast_patch \<Rightarrow> broadcast list \<Rightarrow> http_error + instant option" where
  "edit_check now i p bs =
     (case find_broadcast i bs of None \<Rightarrow> Inl (404, ''Broadcast not found'')
      | Some b \<Rightarrow>
          if bc_status b \<noteq> BDraft \<and> bc_status b \<noteq> BScheduled then Inl (409, ''Broadcast cannot be edited or cancelled'')
          else (let time = (if pt_scheduled p \<noteq> None then pt_scheduled p else bc_scheduled b) in
             if pt_status p = Some ToScheduled \<and> (case time of None \<Rightarrow> True | Some t \<Rightarrow> t \<le> now)
             then Inl (400, ''A future scheduled_at is required to schedule this broadcast'') else Inr time))"

definition edit_write :: "instant \<Rightarrow> uuid \<Rightarrow> broadcast_patch \<Rightarrow> instant option \<Rightarrow> broadcast list \<Rightarrow> broadcast list" where
  "edit_write now i p time bs = set_broadcast now i (\<lambda>b. patch_status_row (pt_status p) time (patch_row p b)) bs"

definition updateBroadcast :: "instant \<Rightarrow> uuid \<Rightarrow> broadcast_patch \<Rightarrow> broadcast list \<Rightarrow> http_error option \<times> broadcast list" where
  "updateBroadcast now i p bs =
     (case edit_check now i p bs of Inl e \<Rightarrow> (Some e, bs) | Inr time \<Rightarrow> (None, edit_write now i p time bs))"

section \<open>The life of a broadcast\<close>

definition sendable :: "broadcast \<Rightarrow> bool" where
  "sendable b \<longleftrightarrow> bc_status b = BDraft \<or> bc_status b = BScheduled"

definition claimBroadcastForSending :: "instant \<Rightarrow> uuid \<Rightarrow> broadcast list \<Rightarrow> bool \<times> broadcast list" where
  "claimBroadcastForSending now i bs =
     (case find_broadcast i bs of None \<Rightarrow> (False, bs)
      | Some b \<Rightarrow> if sendable b then (True, set_broadcast now i (\<lambda>b. b\<lparr>bc_status := BSending\<rparr>) bs) else (False, bs))"

definition failBroadcast :: "instant \<Rightarrow> uuid \<Rightarrow> broadcast list \<Rightarrow> broadcast list" where
  "failBroadcast now i bs =
     map (\<lambda>b. if bc_id b = i \<and> bc_status b = BSending then b\<lparr>bc_status := BFailed, bc_updated := now\<rparr> else b) bs"

definition finish_broadcast :: "instant \<Rightarrow> uuid \<Rightarrow> nat \<Rightarrow> nat \<Rightarrow> nat \<Rightarrow> broadcast list \<Rightarrow> broadcast list" where
  "finish_broadcast now i targets sent failed bs =
     map (\<lambda>b. if bc_id b = i \<and> bc_status b = BSending
         then b\<lparr>bc_status := BSent, bc_sent_at := Some now, bc_total := targets, bc_sent := sent, bc_failed := failed, bc_updated := now\<rparr>
         else b) bs"

definition recover_stuck :: "int \<Rightarrow> instant \<Rightarrow> broadcast list \<Rightarrow> broadcast list" where
  "recover_stuck minutes now bs =
     map (\<lambda>b. if bc_status b = BSending \<and> bc_updated b < now - minutes * 60000 then b\<lparr>bc_status := BFailed, bc_updated := now\<rparr> else b) bs"

definition due_broadcasts :: "int \<Rightarrow> instant \<Rightarrow> broadcast list \<Rightarrow> uuid list" where
  "due_broadcasts limit now bs =
     map bc_id (take (nat limit) (sort_key (\<lambda>b. case bc_scheduled b of None \<Rightarrow> 0 | Some t \<Rightarrow> t)
       (filter (\<lambda>b. bc_status b = BScheduled \<and> (case bc_scheduled b of None \<Rightarrow> False | Some t \<Rightarrow> t \<le> now)) bs)))"

text \<open>Events of one broadcast whose edits are not interrupted between check and write.\<close>

datatype broadcast_event = Claim instant | Edit instant broadcast_patch | Finish instant nat nat nat | Fail instant | Recover int instant

fun event_step :: "uuid \<Rightarrow> broadcast_event \<Rightarrow> broadcast list \<times> nat \<Rightarrow> broadcast list \<times> nat" where
  "event_step i (Claim t) (bs, n) = (case claimBroadcastForSending t i bs of (won, bs') \<Rightarrow> (bs', if won then n + 1 else n))"
| "event_step i (Edit t p) (bs, n) = (snd (updateBroadcast t i p bs), n)"
| "event_step i (Finish t a b c) (bs, n) = (finish_broadcast t i a b c bs, n)"
| "event_step i (Fail t) (bs, n) = (failBroadcast t i bs, n)"
| "event_step i (Recover m t) (bs, n) = (recover_stuck m t bs, n)"

definition run_events :: "uuid \<Rightarrow> broadcast_event list \<Rightarrow> broadcast list \<Rightarrow> broadcast list \<times> nat" where
  "run_events i es bs = foldl (\<lambda>p e. event_step i e p) (bs, 0) es"

section \<open>What is stored\<close>

lemma first_failure_None: "first_failure es = None \<longleftrightarrow> (\<forall>e \<in> set es. e = None)"
  by (induction es rule: first_failure.induct) auto

lemma error_if_None [simp]: "error_if b m = None \<longleftrightarrow> \<not> b"
  by (simp add: error_if_def)

text \<open>The constraints of the table, and a scheduled broadcast has a time.\<close>

definition broadcast_ok :: "broadcast \<Rightarrow> bool" where
  "broadcast_ok b \<longleftrightarrow> bc_title b \<noteq> [] \<and> length (bc_title b) \<le> 60 \<and> bc_body b \<noteq> [] \<and> length (bc_body b) \<le> 500
     \<and> bc_category b \<in> set BROADCAST_CATEGORIES \<and> bc_priority b \<in> set BROADCAST_PRIORITIES \<and> bc_target b \<in> set BROADCAST_TARGET_TYPES
     \<and> (bc_status b = BScheduled \<longrightarrow> bc_scheduled b \<noteq> None)"

lemma requested_start_ok: "requested_start parse now body = Inr (st, time) \<Longrightarrow>
    (st = BDraft \<and> time = None) \<or> (st = BScheduled \<and> (\<exists>t. time = Some t \<and> now < t))"
  by (auto simp: requested_start_def Let_def split: if_splits option.splits)

lemma new_broadcast_ok:
  assumes "new_broadcast parse cap now i actor body = Inr b"
  shows "broadcast_ok b \<and> sendable b \<and> bc_id b = i"
proof -
  let ?start = "requested_start parse now body"
  have all: "\<not> bad_text 60 (trimmed_text body ''title'')" "\<not> bad_text 500 (trimmed_text body ''body'')"
    "or_default (text_field body ''category'') ''system'' \<in> set BROADCAST_CATEGORIES"
    "or_default (text_field body ''priority'') ''normal'' \<in> set BROADCAST_PRIORITIES"
    "or_default (text_field body ''target_type'') ''all'' \<in> set BROADCAST_TARGET_TYPES" "sum_error ?start = None"
    and b: "bc_title b = trimmed_text body ''title''" "bc_body b = trimmed_text body ''body''"
      "bc_category b = or_default (text_field body ''category'') ''system''" "bc_priority b = or_default (text_field body ''priority'') ''normal''"
      "bc_target b = or_default (text_field body ''target_type'') ''all''" "bc_id b = i"
      "bc_status b = fst (the_right (BDraft, None) ?start)" "bc_scheduled b = snd (the_right (BDraft, None) ?start)"
    using assms unfolding new_broadcast_def Let_def
    by (auto simp: first_failure_None simp del: first_failure.simps split: option.splits)
  obtain st time where start: "?start = Inr (st, time)" using all(6) by (cases ?start) auto
  from requested_start_ok [OF this] show ?thesis using all b start
    by (auto simp: broadcast_ok_def sendable_def bad_text_def the_right_def)
qed

section \<open>One sending\<close>

definition once_inv :: "uuid \<Rightarrow> broadcast list \<times> nat \<Rightarrow> bool" where
  "once_inv i p \<longleftrightarrow> distinct (map bc_id (fst p)) \<and> snd p \<le> 1 \<and> (snd p = 1 \<longrightarrow> (\<forall>b \<in> set (fst p). bc_id b = i \<longrightarrow> \<not> sendable b))"

lemma row_ids [simp]: "bc_id (patch_row p b) = bc_id b" "bc_id (patch_status_row st time b) = bc_id b"
  by (simp_all add: patch_row_def patch_status_row_def split: option.splits patch_status.splits)

lemma write_ids:
  "(\<And>b. bc_id (f b) = bc_id b) \<Longrightarrow> map bc_id (set_broadcast now i f bs) = map bc_id bs"
  "map bc_id (failBroadcast now i bs) = map bc_id bs" "map bc_id (finish_broadcast now i x y z bs) = map bc_id bs"
  "map bc_id (recover_stuck m now bs) = map bc_id bs"
  by (auto simp: set_broadcast_def failBroadcast_def finish_broadcast_def recover_stuck_def)

lemma found_broadcast: "find_broadcast i bs = Some b \<Longrightarrow> b \<in> set bs \<and> bc_id b = i"
  by (auto simp: find_broadcast_def find_Some_iff)

lemma ball_map: "(\<forall>y \<in> set (map f xs). P y) \<longleftrightarrow> (\<forall>x \<in> set xs. P (f x))"
  by simp

text \<open>Failing, finishing and recovering make no broadcast sendable.\<close>

lemma end_not_sendable:
  assumes "\<forall>b \<in> set bs. bc_id b = i \<longrightarrow> \<not> sendable b"
  shows "\<forall>b \<in> set (failBroadcast now j bs). bc_id b = i \<longrightarrow> \<not> sendable b"
    "\<forall>b \<in> set (finish_broadcast now j x y z bs). bc_id b = i \<longrightarrow> \<not> sendable b"
    "\<forall>b \<in> set (recover_stuck m now bs). bc_id b = i \<longrightarrow> \<not> sendable b"
  using assms unfolding failBroadcast_def finish_broadcast_def recover_stuck_def ball_map by (simp_all add: sendable_def)

lemma edit_keeps:
  assumes "once_inv i (bs, n)"
  shows "once_inv i (snd (updateBroadcast t i p bs), n)"
proof (cases "edit_check t i p bs")
  case (Inr time)
  then obtain b where b: "find_broadcast i bs = Some b" "sendable b"
    by (auto simp: edit_check_def sendable_def split: option.splits if_splits)
  then have "n \<noteq> 1" using assms found_broadcast [OF b(1)] by (auto simp: once_inv_def)
  then show ?thesis using assms by (simp add: once_inv_def updateBroadcast_def Inr edit_write_def write_ids)
qed (use assms in \<open>simp add: updateBroadcast_def\<close>)

lemma claim_keeps:
  assumes "once_inv i (bs, n)"
  shows "once_inv i (event_step i (Claim t) (bs, n))"
proof (cases "fst (claimBroadcastForSending t i bs)")
  case True
  then obtain b where b: "find_broadcast i bs = Some b" "sendable b"
    by (auto simp: claimBroadcastForSending_def split: option.splits if_splits)
  then have "n = 0" using assms found_broadcast [OF b(1)] by (auto simp: once_inv_def le_Suc_eq)
  moreover have "claimBroadcastForSending t i bs = (True, set_broadcast t i (\<lambda>b. b\<lparr>bc_status := BSending\<rparr>) bs)"
    using b by (simp add: claimBroadcastForSending_def)
  moreover have "\<forall>b \<in> set (set_broadcast t i (\<lambda>b. b\<lparr>bc_status := BSending\<rparr>) bs). bc_id b = i \<longrightarrow> \<not> sendable b"
    unfolding set_broadcast_def ball_map by (simp add: sendable_def)
  ultimately show ?thesis using assms by (simp add: once_inv_def write_ids)
next
  case False
  then have "claimBroadcastForSending t i bs = (False, bs)" by (auto simp: claimBroadcastForSending_def split: option.splits if_splits)
  then show ?thesis using assms by simp
qed

lemma event_keeps: "once_inv i p \<Longrightarrow> once_inv i (event_step i e p)"
proof -
  assume inv: "once_inv i p"
  obtain bs n where p: "p = (bs, n)" by (cases p)
  show ?thesis
  proof (cases e)
    case (Claim t)
    then show ?thesis using claim_keeps inv p by simp
  next
    case (Edit t pt)
    then show ?thesis using edit_keeps inv p by simp
  next
    case (Finish t a b c)
    then show ?thesis using inv end_not_sendable(2) [of bs i t i a b c] by (simp add: p once_inv_def write_ids)
  next
    case (Fail t)
    then show ?thesis using inv end_not_sendable(1) [of bs i t i] by (simp add: p once_inv_def write_ids)
  next
    case (Recover m t)
    then show ?thesis using inv end_not_sendable(3) [of bs i m t] by (simp add: p once_inv_def write_ids)
  qed
qed

text \<open>
  C28.  A broadcast is sent at most once.  Of all the claims of a broadcast, by double clicks and
  schedulers on several replicas, between edits, failures and recoveries in any order, at most
  one wins.
\<close>

theorem broadcast_claimed_once:
  assumes "distinct (map bc_id bs)"
  shows "snd (run_events i es bs) \<le> 1"
proof -
  have "once_inv i p \<Longrightarrow> once_inv i (foldl (\<lambda>p e. event_step i e p) p es)" for p
    by (induction es arbitrary: p) (simp_all add: event_keeps)
  moreover have "once_inv i (bs, 0)" using assms by (simp add: once_inv_def)
  ultimately show ?thesis unfolding run_events_def once_inv_def by blast
qed

definition demo_broadcast :: broadcast where
  "demo_broadcast = \<lparr>bc_id = ''b1'', bc_title = ''Info'', bc_body = ''Isi'', bc_image = None, bc_link = None, bc_category = ''system'',
     bc_priority = ''normal'', bc_channels = [''push''], bc_target = ''all'', bc_filter = None, bc_status = BScheduled, bc_total = 0,
     bc_sent = 0, bc_failed = 0, bc_scheduled = Some 100, bc_sent_at = None, bc_created_by = None, bc_updated = 0\<rparr>"

definition no_patch :: broadcast_patch where
  "no_patch = \<lparr>pt_title = None, pt_body = None, pt_image = None, pt_link = None, pt_category = None, pt_priority = None,
     pt_channels = None, pt_target = None, pt_filter = None, pt_status = None, pt_scheduled = None\<rparr>"

theorem broadcast_claimed_once_witness:
  "snd (run_events ''b1'' [Claim 100, Claim 101, Edit 102 (no_patch\<lparr>pt_status := Some ToDraft\<rparr>), Claim 103] [demo_broadcast]) = 1"
proof -
  have "distinct (map bc_id [demo_broadcast])" by simp
  from broadcast_claimed_once [OF this, of "''b1''" "[Claim 100, Claim 101, Edit 102 (no_patch\<lparr>pt_status := Some ToDraft\<rparr>), Claim 103]"]
  show ?thesis by code_simp
qed

text \<open>
  An edit whose write comes after a claim reopens the broadcast: the edit checked the status before the
  claim, and its write asks for nothing.  The broadcast is then sent a second time.
\<close>

theorem late_edit_sends_twice:
  "edit_check 99 ''b1'' (no_patch\<lparr>pt_status := Some ToScheduled, pt_scheduled := Some 200\<rparr>) [demo_broadcast] = Inr (Some 200)
   \<and> (let first = claimBroadcastForSending 100 ''b1'' [demo_broadcast];
          edited = edit_write 101 ''b1'' (no_patch\<lparr>pt_status := Some ToScheduled, pt_scheduled := Some 200\<rparr>) (Some 200) (snd first)
      in fst first \<and> due_broadcasts 10 200 edited = [''b1''] \<and> fst (claimBroadcastForSending 200 ''b1'' edited))"
  by code_simp

end
