(* ===== verification/BroadcastDelivery.thy ===== *)
theory BroadcastDelivery
  imports Broadcasts
begin

text \<open>
  Sending a broadcast (\<open>services/broadcastDelivery.service.ts\<close>): the audience becomes recipient rows, the
  pending rows are scanned in batches by id, each recipient is notified, and the counters are
  computed from the rows.

  Who exists, the audience queries and the outcome of a notification are parameters of a sending
  (\<open>delivery_env\<close>).  \<open>ds_notified\<close> is the sequence of notifications that were created.
\<close>

datatype recipient_status = RPending | RSent | RFailed | ROpened

record recipient =
  rc_id :: nat
  rc_broadcast :: uuid
  rc_user :: uuid
  rc_channel :: string
  rc_status :: recipient_status
  rc_error :: "string option"

record delivery_store =
  ds_broadcasts :: "broadcast list"
  ds_recipients :: "recipient list"
  ds_next :: nat
  ds_notified :: "(uuid \<times> uuid) list"

record delivery_env =
  de_now :: instant
  de_cap :: nat
  de_known :: "uuid \<Rightarrow> bool"
  de_estimate :: "string + nat"
  de_batches :: "uuid list list"
  de_send :: "uuid \<Rightarrow> string option"

section \<open>Recipients\<close>

definition delivery_channel :: "string list \<Rightarrow> string" where
  "delivery_channel channels =
     (let list = map (\<lambda>c. toLowerCase (js_trim c)) channels;
          push = (''push'' \<in> set list \<or> ''fcm'' \<in> set list);
          remaining = (if ''fcm'' \<in> set list \<and> ''push'' \<notin> set list then filter (\<lambda>c. c \<noteq> ''fcm'') list @ [''push''] else list);
          in_app = (remaining = [] \<or> ''in_app'' \<in> set remaining)
      in if push \<and> in_app then ''push_and_in_app'' else if push then ''push'' else ''in_app'')"

text \<open>ON CONFLICT DO NOTHING; the sequence advances in either case.\<close>

definition insert_recipient :: "uuid \<Rightarrow> string \<Rightarrow> uuid \<Rightarrow> delivery_store \<Rightarrow> delivery_store" where
  "insert_recipient b channel u s =
     (if list_ex (\<lambda>r. rc_broadcast r = b \<and> rc_user r = u) (ds_recipients s) then s\<lparr>ds_next := ds_next s + 1\<rparr>
      else s\<lparr>ds_next := ds_next s + 1, ds_recipients := ds_recipients s
        @ [\<lparr>rc_id = ds_next s, rc_broadcast = b, rc_user = u, rc_channel = channel, rc_status = RPending, rc_error = None\<rparr>]\<rparr>)"

text \<open>A user that does not exist violates the foreign key, and nothing is inserted.\<close>

definition insertRecipientBatch :: "delivery_env \<Rightarrow> uuid \<Rightarrow> string \<Rightarrow> uuid list \<Rightarrow> delivery_store \<Rightarrow> (nat \<times> delivery_store) option" where
  "insertRecipientBatch env b channel us s =
     (if list_all (de_known env) us then
        (let s' = fold (insert_recipient b channel) us s in Some (length (ds_recipients s') - length (ds_recipients s), s'))
      else None)"

fun insert_batches ::
  "delivery_env \<Rightarrow> bool \<Rightarrow> uuid \<Rightarrow> string \<Rightarrow> uuid list list \<Rightarrow> nat \<Rightarrow> delivery_store \<Rightarrow> (string + nat) \<times> delivery_store" where
  "insert_batches env capped b channel [] n s = (Inr n, s)"
| "insert_batches env capped b channel (us # uss) n s =
     (case insertRecipientBatch env b channel us s of
        None \<Rightarrow> (Inl ''violates foreign key constraint'', s)
      | Some (k, s') \<Rightarrow>
          if capped \<and> n + k > de_cap env then (Inl ''Resolved audience exceeded recipient cap mid-flight'', s')
          else insert_batches env capped b channel uss (n + k) s')"

function chunks :: "nat \<Rightarrow> 'a list \<Rightarrow> 'a list list" where
  "chunks n xs = (if xs = [] \<or> n = 0 then [] else take n xs # chunks n (drop n xs))"
  by pat_completeness auto
termination by (relation "measure (\<lambda>(n, xs). length xs)") auto

declare chunks.simps [simp del]

definition manual_users :: "broadcast \<Rightarrow> uuid list" where
  "manual_users b = rev (remdups (rev (map json_text (array_items (filter_field (bc_filter b) ''user_ids'')))))"

definition resolve_targets :: "delivery_env \<Rightarrow> broadcast \<Rightarrow> delivery_store \<Rightarrow> (string + nat) \<times> delivery_store" where
  "resolve_targets env b s =
     (let channel = delivery_channel (bc_channels b) in
      if bc_target b = ''manual'' then
        (if length (manual_users b) > de_cap env then (Inl ''Manual audience exceeds recipient cap'', s)
         else insert_batches env False (bc_id b) channel (chunks 500 (manual_users b)) 0 s)
      else (case de_estimate env of
          Inl e \<Rightarrow> (Inl e, s)
        | Inr n \<Rightarrow> if n > de_cap env then (Inl ''Estimated audience exceeds recipient cap'', s)
            else insert_batches env True (bc_id b) channel (de_batches env) 0 s))"

section \<open>Notifying\<close>

definition pending_after :: "uuid \<Rightarrow> nat \<Rightarrow> recipient \<Rightarrow> bool" where
  "pending_after b cur r \<longleftrightarrow> rc_broadcast r = b \<and> rc_status r = RPending \<and> cur < rc_id r"

definition scan :: "uuid \<Rightarrow> nat \<Rightarrow> recipient list \<Rightarrow> recipient list" where
  "scan b cur rs = take 500 (sort_key rc_id (filter (pending_after b cur) rs))"

definition mark_row :: "delivery_env \<Rightarrow> recipient \<Rightarrow> recipient" where
  "mark_row env r = (case de_send env (rc_user r) of
     None \<Rightarrow> r\<lparr>rc_status := RSent\<rparr> | Some e \<Rightarrow> r\<lparr>rc_status := RFailed, rc_error := Some (take 250 e)\<rparr>)"

text \<open>\<open>markRecipientStatuses\<close> addresses the rows by their user.\<close>

definition markRecipientStatuses :: "delivery_env \<Rightarrow> uuid \<Rightarrow> uuid list \<Rightarrow> recipient list \<Rightarrow> recipient list" where
  "markRecipientStatuses env b us rs =
     map (\<lambda>r. if rc_broadcast r = b \<and> rc_status r = RPending \<and> rc_user r \<in> set us then mark_row env r else r) rs"

definition notify_all :: "delivery_env \<Rightarrow> uuid \<Rightarrow> uuid list \<Rightarrow> (uuid \<times> uuid) list" where
  "notify_all env b us = map (\<lambda>u. (b, u)) (filter (\<lambda>u. de_send env u = None) us)"

lemma scan_rows: "r \<in> set (scan b cur rs) \<Longrightarrow> r \<in> set rs \<and> pending_after b cur r"
  by (auto simp: scan_def dest!: in_set_takeD)

lemma sorted_le_last: "sorted (map f xs) \<Longrightarrow> x \<in> set xs \<Longrightarrow> f x \<le> f (last xs)"
  by (induction xs rule: rev_induct) (auto simp: sorted_append)

lemma scan_last: "r \<in> set (scan b cur rs) \<Longrightarrow> rc_id r \<le> rc_id (last (scan b cur rs))"
  by (rule sorted_le_last [of rc_id]) (simp_all add: scan_def take_map [symmetric] sorted_wrt_take)

lemma mark_pending:
  "filter (pending_after b cur') (markRecipientStatuses env b us rs) = filter (\<lambda>r. pending_after b cur' r \<and> rc_user r \<notin> set us) rs"
proof -
  have "\<not> pending_after b cur' (mark_row env r)" for r by (simp add: pending_after_def mark_row_def split: option.split)
  then show ?thesis unfolding markRecipientStatuses_def
    by (induction rs) (auto simp: pending_after_def)
qed

lemma scan_shrinks:
  assumes "scan b cur rs \<noteq> []"
  shows "length (filter (pending_after b (rc_id (last (scan b cur rs)))) (markRecipientStatuses env b (map rc_user (scan b cur rs)) rs))
     < length (filter (pending_after b cur) rs)"
proof -
  let ?l = "rc_id (last (scan b cur rs))"
  obtain r where r: "r \<in> set (scan b cur rs)" using assms by (cases "scan b cur rs") auto
  have "cur < ?l" using scan_rows [OF last_in_set [OF assms]] by (simp add: pending_after_def)
  then have "filter (\<lambda>r. pending_after b ?l r \<and> rc_user r \<notin> rc_user ` set (scan b cur rs)) rs
      = filter (\<lambda>r. pending_after b ?l r \<and> rc_user r \<notin> rc_user ` set (scan b cur rs)) (filter (pending_after b cur) rs)"
    by (auto simp: pending_after_def intro!: filter_cong)
  moreover have "length (filter (\<lambda>r. pending_after b ?l r \<and> rc_user r \<notin> rc_user ` set (scan b cur rs)) (filter (pending_after b cur) rs))
      < length (filter (pending_after b cur) rs)"
    using r scan_rows [OF r] by (intro length_filter_less [of r]) auto
  ultimately show ?thesis by (simp add: mark_pending)
qed

function deliver :: "delivery_env \<Rightarrow> uuid \<Rightarrow> nat \<Rightarrow> recipient list \<Rightarrow> (uuid \<times> uuid) list \<Rightarrow> recipient list \<times> (uuid \<times> uuid) list" where
  "deliver env b cur rs sent =
     (let rows = scan b cur rs; us = map rc_user rows in
      if rows = [] then (rs, sent)
      else deliver env b (rc_id (last rows)) (markRecipientStatuses env b us rs) (sent @ notify_all env b us))"
  by pat_completeness auto
termination by (relation "measure (\<lambda>(env, b, cur, rs, sent). length (filter (pending_after b cur) rs))") (auto simp: scan_shrinks Let_def)

declare deliver.simps [simp del]

section \<open>The whole sending\<close>

definition delivered :: "uuid \<Rightarrow> recipient_status set \<Rightarrow> recipient list \<Rightarrow> nat" where
  "delivered b sts rs = length (filter (\<lambda>r. rc_broadcast r = b \<and> rc_status r \<in> sts) rs)"

definition runDeliveryLoop :: "delivery_env \<Rightarrow> broadcast \<Rightarrow> delivery_store \<Rightarrow> string option \<times> delivery_store" where
  "runDeliveryLoop env row s =
     (case resolve_targets env row s of
        (Inl e, s1) \<Rightarrow> (Some e, s1)
      | (Inr n, s1) \<Rightarrow>
          (let b = bc_id row;
               s2 = s1\<lparr>ds_broadcasts := set_broadcast (de_now env) b (\<lambda>x. x\<lparr>bc_total := n\<rparr>) (ds_broadcasts s1)\<rparr>;
               out = deliver env b 0 (ds_recipients s2) (ds_notified s2)
           in (None, s2\<lparr>ds_recipients := fst out, ds_notified := snd out,
                ds_broadcasts := finish_broadcast (de_now env) b (delivered b UNIV (fst out)) (delivered b {RSent, ROpened} (fst out))
                  (delivered b {RFailed} (fst out)) (ds_broadcasts s2)\<rparr>)))"

definition sendBroadcast :: "delivery_env \<Rightarrow> uuid \<Rightarrow> delivery_store \<Rightarrow> bool \<times> delivery_store" where
  "sendBroadcast env i s =
     (case claimBroadcastForSending (de_now env) i (ds_broadcasts s) of
        (False, _) \<Rightarrow> (False, s)
      | (True, bs) \<Rightarrow>
          (case find_broadcast i bs of None \<Rightarrow> (False, s\<lparr>ds_broadcasts := bs\<rparr>)
           | Some row \<Rightarrow>
               (case runDeliveryLoop env row (s\<lparr>ds_broadcasts := bs\<rparr>) of
                  (None, s') \<Rightarrow> (True, s')
                | (Some _, s') \<Rightarrow> (False, s'\<lparr>ds_broadcasts := failBroadcast (de_now env) i (ds_broadcasts s')\<rparr>))))"

section \<open>What a sending does\<close>

definition unique_recipients :: "uuid \<Rightarrow> recipient list \<Rightarrow> bool" where
  "unique_recipients b rs \<longleftrightarrow> distinct (map rc_user (filter (\<lambda>r. rc_broadcast r = b) rs)) \<and> distinct (map rc_id rs)"

lemma mark_row_fields [simp]: "rc_id (mark_row env r) = rc_id r" "rc_user (mark_row env r) = rc_user r" "rc_broadcast (mark_row env r) = rc_broadcast r"
  by (simp_all add: mark_row_def split: option.split)

lemma mark_row_settled: "\<not> pending_after b cur (mark_row env r)"
  by (simp add: pending_after_def mark_row_def split: option.split)

lemma mark_unique: "unique_recipients b (markRecipientStatuses env b us rs) = unique_recipients b rs"
proof -
  have "map rc_id (markRecipientStatuses env b us rs) = map rc_id rs" by (simp add: markRecipientStatuses_def)
  moreover have "map rc_user (filter (\<lambda>r. rc_broadcast r = b) (markRecipientStatuses env b us rs)) = map rc_user (filter (\<lambda>r. rc_broadcast r = b) rs)"
    unfolding markRecipientStatuses_def by (induction rs) auto
  ultimately show ?thesis by (simp add: unique_recipients_def)
qed

lemma same_user: "unique_recipients b rs \<Longrightarrow> r \<in> set rs \<Longrightarrow> x \<in> set rs \<Longrightarrow> rc_broadcast r = b \<Longrightarrow> rc_broadcast x = b \<Longrightarrow> rc_user r = rc_user x \<Longrightarrow> r = x"
  by (auto simp: unique_recipients_def distinct_map dest: inj_onD)

lemma same_id: "unique_recipients b rs \<Longrightarrow> r \<in> set rs \<Longrightarrow> x \<in> set rs \<Longrightarrow> rc_id r = rc_id x \<Longrightarrow> r = x"
  by (auto simp: unique_recipients_def distinct_map dest: inj_onD)

text \<open>The pending rows in the order of their ids: one batch and the rest.\<close>

definition pending_rows :: "uuid \<Rightarrow> nat \<Rightarrow> recipient list \<Rightarrow> recipient list" where
  "pending_rows b cur rs = sort_key rc_id (filter (pending_after b cur) rs)"

lemma pending_rows_split: "pending_rows b cur rs = scan b cur rs @ drop 500 (pending_rows b cur rs)"
  by (simp add: pending_rows_def scan_def)

lemma rest_rows:
  assumes u: "unique_recipients b rs" and ne: "scan b cur rs \<noteq> []" and r: "r \<in> set (drop 500 (pending_rows b cur rs))"
  shows "rc_id (last (scan b cur rs)) < rc_id r \<and> rc_user r \<notin> rc_user ` set (scan b cur rs)"
proof -
  let ?P = "pending_rows b cur rs"
  have d: "distinct ?P" using u by (auto simp: pending_rows_def unique_recipients_def distinct_map)
  have P: "x \<in> set ?P \<Longrightarrow> x \<in> set rs \<and> rc_broadcast x = b" for x by (auto simp: pending_rows_def pending_after_def)
  have disj: "x \<noteq> r" if "x \<in> set (scan b cur rs)" for x
    using d that r by (subst (asm) pending_rows_split) (auto simp: distinct_append)
  have rP: "r \<in> set ?P" using r by (rule in_set_dropD)
  have xP: "x \<in> set ?P" if "x \<in> set (scan b cur rs)" for x using that by (subst pending_rows_split) simp
  have "sorted (map rc_id ?P)" by (simp add: pending_rows_def)
  then have "sorted (map rc_id (scan b cur rs) @ map rc_id (drop 500 ?P))" by (metis pending_rows_split map_append)
  then have "rc_id (last (scan b cur rs)) \<le> rc_id r" using ne r by (simp add: sorted_append)
  moreover have "rc_id (last (scan b cur rs)) \<noteq> rc_id r"
    using same_id [OF u] P [OF rP] P [OF xP [OF last_in_set [OF ne]]] disj [OF last_in_set [OF ne]] by metis
  moreover have "rc_user r \<noteq> rc_user x" if "x \<in> set (scan b cur rs)" for x
    using same_user [OF u] P [OF rP] P [OF xP [OF that]] disj [OF that] by metis
  ultimately show ?thesis by auto
qed

lemma pending_next:
  assumes u: "unique_recipients b rs" and ne: "scan b cur rs \<noteq> []"
  shows "pending_rows b (rc_id (last (scan b cur rs))) (markRecipientStatuses env b (map rc_user (scan b cur rs)) rs) = drop 500 (pending_rows b cur rs)"
proof -
  let ?l = "rc_id (last (scan b cur rs))"
  let ?Q = "\<lambda>r. pending_after b ?l r \<and> rc_user r \<notin> rc_user ` set (scan b cur rs)"
  have "cur < ?l" using scan_rows [OF last_in_set [OF ne]] by (simp add: pending_after_def)
  then have "filter ?Q rs = filter ?Q (filter (pending_after b cur) rs)" by (auto simp: pending_after_def intro!: filter_cong)
  then have "pending_rows b ?l (markRecipientStatuses env b (map rc_user (scan b cur rs)) rs) = filter ?Q (pending_rows b cur rs)"
    unfolding pending_rows_def mark_pending by (simp add: filter_sort)
  also have "\<dots> = filter ?Q (scan b cur rs) @ filter ?Q (drop 500 (pending_rows b cur rs))"
    by (subst pending_rows_split) simp
  also have "filter ?Q (scan b cur rs) = []" by (simp add: filter_empty_conv)
  also have "filter ?Q (drop 500 (pending_rows b cur rs)) = drop 500 (pending_rows b cur rs)"
    using rest_rows [OF u ne] by (auto simp: filter_id_conv pending_rows_def pending_after_def dest: in_set_dropD)
  finally show ?thesis by simp
qed

lemma marked_next:
  assumes u: "unique_recipients b rs" and ne: "scan b cur rs \<noteq> []" and r: "r \<in> set rs"
    and m_def: "m = (if rc_broadcast r = b \<and> rc_status r = RPending \<and> rc_user r \<in> set (map rc_user (scan b cur rs)) then mark_row env r else r)"
  shows "(if pending_after b (rc_id (last (scan b cur rs))) m then mark_row env m else m) = (if pending_after b cur r then mark_row env r else r)"
proof -
  let ?l = "rc_id (last (scan b cur rs))"
  have lt: "cur < ?l" using scan_rows [OF last_in_set [OF ne]] by (simp add: pending_after_def)
  show ?thesis
  proof (cases "rc_broadcast r = b \<and> rc_status r = RPending \<and> rc_user r \<in> set (map rc_user (scan b cur rs))")
    case True
    then obtain x where x: "x \<in> set (scan b cur rs)" "rc_user x = rc_user r" by auto
    have xr: "x \<in> set rs" "pending_after b cur x" using scan_rows [OF x(1)] by simp_all
    have "x = r" by (rule same_user [OF u xr(1) r _ _ x(2)]) (use True xr(2) in \<open>simp_all add: pending_after_def\<close>)
    with xr(2) have "pending_after b cur r" by simp
    then show ?thesis using True by (simp add: m_def mark_row_settled)
  next
    case False
    have "pending_after b ?l r" if p: "pending_after b cur r"
    proof -
      have "r \<in> set (pending_rows b cur rs)" using r p by (simp add: pending_rows_def)
      then have "r \<in> set (drop 500 (pending_rows b cur rs))"
        using False p by (subst (asm) pending_rows_split) (auto simp: pending_after_def)
      from rest_rows [OF u ne this] show ?thesis using p by (simp add: pending_after_def)
    qed
    moreover have "pending_after b ?l r \<Longrightarrow> pending_after b cur r" using lt by (simp add: pending_after_def)
    ultimately show ?thesis using False by (auto simp: m_def)
  qed
qed

lemma notify_append: "notify_all env b (us @ vs) = notify_all env b us @ notify_all env b vs"
  by (simp add: notify_all_def)

lemma deliver_spec:
  "unique_recipients b rs \<Longrightarrow> deliver env b cur rs sent
     = (map (\<lambda>r. if pending_after b cur r then mark_row env r else r) rs, sent @ notify_all env b (map rc_user (pending_rows b cur rs)))"
proof (induction env b cur rs sent rule: deliver.induct)
  case (1 env b cur rs sent)
  show ?case
  proof (cases "scan b cur rs = []")
    case True
    then have none: "filter (pending_after b cur) rs = []" by (simp add: scan_def) (metis sort_key_simps(1) length_0_conv length_sort)
    then have "map (\<lambda>r. if pending_after b cur r then mark_row env r else r) rs = rs" by (intro map_idI) (auto simp: filter_empty_conv)
    then show ?thesis using True none by (subst deliver.simps) (simp add: notify_all_def pending_rows_def)
  next
    case False
    let ?us = "map rc_user (scan b cur rs)" and ?l = "rc_id (last (scan b cur rs))"
    let ?rs = "markRecipientStatuses env b ?us rs"
    have "deliver env b cur rs sent = deliver env b ?l ?rs (sent @ notify_all env b ?us)"
      using False by (subst deliver.simps) (simp add: Let_def)
    moreover have "deliver env b ?l ?rs (sent @ notify_all env b ?us) = (map (\<lambda>r. if pending_after b ?l r then mark_row env r else r) ?rs,
        (sent @ notify_all env b ?us) @ notify_all env b (map rc_user (pending_rows b ?l ?rs)))"
      using 1(2) by (intro 1(1) [OF refl refl False]) (simp add: mark_unique)
    moreover have "map (\<lambda>r. if pending_after b ?l r then mark_row env r else r) ?rs
        = map (\<lambda>r. if pending_after b cur r then mark_row env r else r) rs"
      unfolding markRecipientStatuses_def map_map comp_def by (intro map_cong refl) (rule marked_next [OF 1(2) False _ refl])
    moreover have "notify_all env b ?us @ notify_all env b (map rc_user (pending_rows b ?l ?rs)) = notify_all env b (map rc_user (pending_rows b cur rs))"
      unfolding pending_next [OF 1(2) False] by (metis notify_append map_append pending_rows_split)
    ultimately show ?thesis by simp
  qed
qed

section \<open>The audience becomes rows\<close>

definition new_rows :: "uuid \<Rightarrow> string \<Rightarrow> nat \<Rightarrow> uuid list \<Rightarrow> recipient list" where
  "new_rows b channel n us =
     map (\<lambda>(j, u). \<lparr>rc_id = j, rc_broadcast = b, rc_user = u, rc_channel = channel, rc_status = RPending, rc_error = None\<rparr>) (enumerate n us)"

definition with_rows :: "uuid \<Rightarrow> string \<Rightarrow> uuid list \<Rightarrow> delivery_store \<Rightarrow> delivery_store" where
  "with_rows b channel us s = s\<lparr>ds_recipients := ds_recipients s @ new_rows b channel (ds_next s) us, ds_next := ds_next s + length us\<rparr>"

definition free_users :: "uuid \<Rightarrow> uuid list \<Rightarrow> delivery_store \<Rightarrow> bool" where
  "free_users b us s \<longleftrightarrow> distinct us \<and> (\<forall>r \<in> set (ds_recipients s). rc_broadcast r = b \<longrightarrow> rc_user r \<notin> set us)"

lemma new_rows_append: "new_rows b channel n (us @ vs) = new_rows b channel n us @ new_rows b channel (n + length us) vs"
  by (simp add: new_rows_def enumerate_append_eq)

lemma new_rows_fields: "map rc_user (new_rows b channel n us) = us" "map rc_id (new_rows b channel n us) = [n..<n + length us]"
  "r \<in> set (new_rows b channel n us) \<Longrightarrow> rc_broadcast r = b \<and> rc_status r = RPending \<and> n \<le> rc_id r \<and> rc_user r \<in> set us"
  by (auto simp: new_rows_def comp_def case_prod_unfold enumerate_eq_zip in_set_zip)

lemma insert_fold: "free_users b us s \<Longrightarrow> fold (insert_recipient b channel) us s = with_rows b channel us s"
proof (induction us arbitrary: s)
  case (Cons u us)
  have one: "insert_recipient b channel u s = with_rows b channel [u] s"
    using Cons.prems by (auto simp: insert_recipient_def with_rows_def new_rows_def free_users_def list_ex_iff)
  have "free_users b us (with_rows b channel [u] s)"
    using Cons.prems by (auto simp: free_users_def with_rows_def new_rows_def)
  from Cons.IH [OF this] show ?case unfolding fold.simps comp_def one
    by (simp add: with_rows_def) (simp add: new_rows_def)
qed (simp add: with_rows_def new_rows_def)

lemma insert_batches_rows:
  "free_users b (concat uss) s \<Longrightarrow> list_all (de_known env) (concat uss) \<Longrightarrow> n + length (concat uss) \<le> de_cap env \<Longrightarrow>
     insert_batches env capped b channel uss n s = (Inr (n + length (concat uss)), with_rows b channel (concat uss) s)"
proof (induction uss arbitrary: n s)
  case (Cons us uss)
  have us: "free_users b us s" "list_all (de_known env) us" using Cons.prems by (auto simp: free_users_def)
  have one: "insertRecipientBatch env b channel us s = Some (length us, with_rows b channel us s)"
    using us(2) by (simp add: insertRecipientBatch_def insert_fold [OF us(1)]) (simp add: with_rows_def new_rows_def)
  have "free_users b (concat uss) (with_rows b channel us s)"
    using Cons.prems(1) new_rows_fields(3) [of _ b channel "ds_next s" us] by (auto simp: free_users_def with_rows_def)
  then have "insert_batches env capped b channel uss (n + length us) (with_rows b channel us s)
      = (Inr (n + length us + length (concat uss)), with_rows b channel (concat uss) (with_rows b channel us s))"
    using Cons.prems by (intro Cons.IH) auto
  moreover have "with_rows b channel (concat uss) (with_rows b channel us s) = with_rows b channel (concat (us # uss)) s"
    by (simp add: with_rows_def new_rows_append)
  ultimately show ?case using Cons.prems(3) one by simp
qed (simp add: with_rows_def new_rows_def)

section \<open>Everyone is notified once\<close>

lemma fresh_deliver:
  assumes "\<forall>r \<in> set rs. rc_broadcast r \<noteq> b \<and> rc_id r < n" "distinct (map rc_id rs)" "distinct us" "0 < n"
  shows "deliver env b 0 (rs @ new_rows b channel n us) sent = (rs @ map (mark_row env) (new_rows b channel n us), sent @ notify_all env b us)"
proof -
  let ?new = "new_rows b channel n us"
  have none: "filter (\<lambda>r. rc_broadcast r = b) rs = []" "filter (pending_after b 0) rs = []"
    using assms(1) by (auto simp: filter_empty_conv pending_after_def)
  have pos: "0 < rc_id r" if "r \<in> set ?new" for r using new_rows_fields(3) [OF that] assms(4) by simp
  have all: "filter (\<lambda>r. rc_broadcast r = b) ?new = ?new" "filter (pending_after b 0) ?new = ?new"
    using pos new_rows_fields(3) [of _ b channel n us] by (auto simp: filter_id_conv pending_after_def)
  have "set (map rc_id rs) \<inter> set (map rc_id ?new) = {}" using assms(1) unfolding new_rows_fields(2) by auto
  then have u: "unique_recipients b (rs @ ?new)"
    using assms(2,3) none all by (simp add: unique_recipients_def new_rows_fields)
  have "sorted (map rc_id ?new)" unfolding new_rows_fields(2) by (rule sorted_upt)
  then have "pending_rows b 0 (rs @ ?new) = ?new" by (simp add: pending_rows_def none all sort_key_id_if_sorted)
  moreover have "map (\<lambda>r. if pending_after b 0 r then mark_row env r else r) rs = rs"
    using none(2) by (intro map_idI) (auto simp: filter_empty_conv)
  moreover have "map (\<lambda>r. if pending_after b 0 r then mark_row env r else r) ?new = map (mark_row env) ?new"
    using all(2) by (intro map_cong refl) (simp add: filter_id_conv)
  ultimately show ?thesis by (simp add: deliver_spec [OF u] new_rows_fields)
qed

lemma delivered_rows:
  assumes "\<forall>r \<in> set rs. rc_broadcast r \<noteq> b"
  shows "delivered b sts (rs @ map (mark_row env) (new_rows b channel n us))
    = length (filter (\<lambda>u. (if de_send env u = None then RSent else RFailed) \<in> sts) us)"
proof -
  have "filter (\<lambda>r. rc_broadcast r = b \<and> rc_status r \<in> sts) rs = []" using assms by (auto simp: filter_empty_conv)
  moreover have "length (filter (\<lambda>r. rc_broadcast r = b \<and> rc_status r \<in> sts) (map (mark_row env) (new_rows b channel n us)))
      = length (filter (\<lambda>u. (if de_send env u = None then RSent else RFailed) \<in> sts) us)"
    by (induction us arbitrary: n) (auto simp: new_rows_def mark_row_def split: option.splits)
  ultimately show ?thesis by (simp add: delivered_def)
qed

lemma loop_reaches_audience:
  assumes "bc_target row \<noteq> ''manual''" "de_estimate env = Inr n" "n \<le> de_cap env" "concat (de_batches env) = us" "distinct us"
    and "length us \<le> de_cap env" "list_all (de_known env) us"
    and "\<forall>r \<in> set (ds_recipients s). rc_broadcast r \<noteq> bc_id row \<and> rc_id r < ds_next s" "distinct (map rc_id (ds_recipients s))" "0 < ds_next s"
    and "ds_broadcasts s = [row]" "bc_status row = BSending"
  shows "\<exists>s' x. runDeliveryLoop env row s = (None, s') \<and> map rc_user (filter (\<lambda>r. rc_broadcast r = bc_id row) (ds_recipients s')) = us
     \<and> (\<forall>r \<in> set (ds_recipients s'). rc_broadcast r = bc_id row \<longrightarrow> rc_status r = (if de_send env (rc_user r) = None then RSent else RFailed))
     \<and> ds_notified s' = ds_notified s @ notify_all env (bc_id row) us
     \<and> ds_broadcasts s' = [x] \<and> bc_id x = bc_id row \<and> bc_status x = BSent \<and> bc_total x = length us
     \<and> bc_sent x = length (notify_all env (bc_id row) us) \<and> bc_sent x + bc_failed x = bc_total x"
proof -
  let ?b = "bc_id row" and ?c = "delivery_channel (bc_channels row)"
  let ?new = "new_rows ?b ?c (ds_next s) us"
  let ?rs = "ds_recipients s @ map (mark_row env) ?new"
  let ?x = "row\<lparr>bc_status := BSent, bc_sent_at := Some (de_now env), bc_total := delivered ?b UNIV ?rs, bc_sent := delivered ?b {RSent, ROpened} ?rs,
      bc_failed := delivered ?b {RFailed} ?rs, bc_updated := de_now env\<rparr>"
  have others: "\<forall>r \<in> set (ds_recipients s). rc_broadcast r \<noteq> ?b" using assms(8) by blast
  have "free_users ?b us s" using assms(5) others by (simp add: free_users_def)
  then have res: "resolve_targets env row s = (Inr (length us), with_rows ?b ?c us s)"
    using insert_batches_rows [of ?b "de_batches env" s env 0 True ?c] assms(1-4,6,7) by (simp add: resolve_targets_def Let_def)
  have "deliver env ?b 0 (ds_recipients (with_rows ?b ?c us s)) (ds_notified s) = (?rs, ds_notified s @ notify_all env ?b us)"
    using fresh_deliver [OF assms(8,9,5,10)] by (simp add: with_rows_def)
  then have run: "runDeliveryLoop env row s = (None, s\<lparr>ds_broadcasts := [?x], ds_recipients := ?rs, ds_next := ds_next s + length us,
      ds_notified := ds_notified s @ notify_all env ?b us\<rparr>)"
    using assms(11,12) by (simp add: runDeliveryLoop_def res Let_def with_rows_def set_broadcast_def finish_broadcast_def)
  have sent: "length (notify_all env ?b us) = delivered ?b {RSent, ROpened} ?rs"
    by (simp add: delivered_rows [OF others] notify_all_def cong: filter_cong)
  have total: "delivered ?b UNIV ?rs = length us" "delivered ?b {RSent, ROpened} ?rs + delivered ?b {RFailed} ?rs = length us"
    using sum_length_filter_compl [of "\<lambda>u. de_send env u = None" us] by (simp_all add: delivered_rows [OF others] cong: filter_cong)
  have users: "map rc_user (filter (\<lambda>r. rc_broadcast r = ?b) ?rs) = us"
  proof -
    have "filter (\<lambda>r. rc_broadcast r = ?b) (ds_recipients s) = []" using others by (simp add: filter_empty_conv)
    moreover have "filter (\<lambda>r. rc_broadcast r = ?b) (map (mark_row env) ?new) = map (mark_row env) ?new"
      by (auto simp: filter_id_conv dest: new_rows_fields(3))
    ultimately show ?thesis by (simp add: comp_def new_rows_fields(1))
  qed
  have "rc_status r = (if de_send env (rc_user r) = None then RSent else RFailed)" if "r \<in> set ?rs" "rc_broadcast r = ?b" for r
    using that others by (auto simp: mark_row_def split: option.splits)
  then show ?thesis
    using run users sent total by (intro exI [of _ "s\<lparr>ds_broadcasts := [?x], ds_recipients := ?rs, ds_next := ds_next s + length us,
      ds_notified := ds_notified s @ notify_all env ?b us\<rparr>"] exI [of _ ?x] conjI) simp_all
qed


text \<open>Three users, of whom the second cannot be notified; a row of another broadcast is left alone.\<close>

definition demo_env :: delivery_env where
  "demo_env = \<lparr>de_now = 100, de_cap = 50, de_known = (\<lambda>u. u \<in> {''u1'', ''u2'', ''u3''}), de_estimate = Inr 3,
     de_batches = [[''u1'', ''u2''], [''u3'']], de_send = (\<lambda>u. if u = ''u2'' then Some ''timeout'' else None)\<rparr>"

definition demo_sending :: broadcast where
  "demo_sending = demo_broadcast\<lparr>bc_target := ''all'', bc_status := BScheduled\<rparr>"

definition demo_store :: delivery_store where
  "demo_store = \<lparr>ds_broadcasts = [demo_sending],
     ds_recipients = [\<lparr>rc_id = 1, rc_broadcast = ''b0'', rc_user = ''u1'', rc_channel = ''in_app'', rc_status = RPending, rc_error = None\<rparr>],
     ds_next = 2, ds_notified = []\<rparr>"


end
