(* ===== verification/CourierEarnings.thy ===== *)
theory CourierEarnings
  imports JsonText
begin

text \<open>
  The earnings of a courier for one order (\<open>services/courierEarningsPolicy.ts\<close>) and the database trigger
  that books them (\<open>20260907000014_courier_earnings_model.sql\<close>, \<open>20260907000021_economics_concurrency_gate.sql\<close>).

  A policy is built once from the service product and stored with the order; the facts of a leg are
  integers.  What the app shows is computed by \<open>calculateCourierEarnings\<close>, what is paid by the trigger.
\<close>

section \<open>Numbers of a configuration\<close>

definition finiteNumber :: "json option \<Rightarrow> rat \<Rightarrow> rat" where
  "finiteNumber v fallback = (case finite_value (json_number v) of None \<Rightarrow> fallback | Some x \<Rightarrow> x)"

definition nonNegativeInteger :: "json option \<Rightarrow> rat \<Rightarrow> int" where
  "nonNegativeInteger v fallback = max 0 (js_round (finiteNumber v fallback))"

definition boundedPercent :: "json option \<Rightarrow> rat \<Rightarrow> rat" where
  "boundedPercent v fallback = min 100 (max 0 (finiteNumber v fallback))"

section \<open>The policy\<close>

record comp_rule =
  cr_enabled :: bool
  cr_cap :: int

record earning_policy =
  ep_version :: string
  ep_service :: string
  ep_percent :: rat
  ep_minimum :: int
  ep_waiting :: comp_rule
  ep_threshold :: int
  ep_rate :: int
  ep_toll :: comp_rule
  ep_return :: comp_rule
  ep_extra :: comp_rule
  ep_extra_percent :: rat
  ep_cancellation :: comp_rule

text \<open>The service product a policy is built from; a number that is absent is \<open>None\<close>.\<close>

record policy_source =
  ps_code :: "string option"
  ps_percent :: "rat option"
  ps_minimum :: "rat option"
  ps_metadata :: "json option"

definition COURIER_EARNINGS_POLICY_VERSION :: string where
  "COURIER_EARNINGS_POLICY_VERSION = ''courier-earnings-2026-v1''"

text \<open>Reading \<open>raw.k\<close> when \<open>raw\<close> is an object, and nothing otherwise.\<close>

definition sub_field :: "json option \<Rightarrow> string \<Rightarrow> json option" where
  "sub_field raw k = (case raw of None \<Rightarrow> None | Some v \<Rightarrow> json_field k v)"

text \<open>A configured rule over its defaults: a field that is given replaces the default.\<close>

definition merged_rule :: "json option \<Rightarrow> string \<Rightarrow> int \<Rightarrow> comp_rule" where
  "merged_rule compensation k cap =
     (let raw = sub_field compensation k;
          cap_field = (case sub_field raw ''cap_idr'' of None \<Rightarrow> cap | Some v \<Rightarrow> nonNegativeInteger (Some v) (of_int cap))
      in \<lparr>cr_enabled = (sub_field raw ''enabled'' \<noteq> Some (JBool False)), cr_cap = cap_field\<rparr>)"

definition merged_int :: "json option \<Rightarrow> string \<Rightarrow> string \<Rightarrow> int \<Rightarrow> int" where
  "merged_int compensation k f d =
     (case sub_field (sub_field compensation k) f of None \<Rightarrow> d | Some v \<Rightarrow> nonNegativeInteger (Some v) (of_int d))"

definition text_or :: "json option \<Rightarrow> string \<Rightarrow> string" where
  "text_or v d = (case v of None \<Rightarrow> d | Some x \<Rightarrow> if js_truthy x then json_text x else d)"

definition buildCourierEarningPolicy :: "policy_source \<Rightarrow> earning_policy" where
  "buildCourierEarningPolicy service =
     (let configured = sub_field (ps_metadata service) ''courier_earning_policy'';
          comp = sub_field configured ''compensation''
      in \<lparr>ep_version = text_or (sub_field configured ''version'') COURIER_EARNINGS_POLICY_VERSION,
          ep_service = (case ps_code service of
              Some (c # cs) \<Rightarrow> c # cs | _ \<Rightarrow> text_or (sub_field configured ''service_code'') ''unknown''),
          ep_percent = (case ps_percent service of Some x \<Rightarrow> min 100 (max 0 x) | None \<Rightarrow> boundedPercent (sub_field configured ''payout_percent'') 0),
          ep_minimum = (case ps_minimum service of Some x \<Rightarrow> max 0 (js_round x)
              | None \<Rightarrow> nonNegativeInteger (sub_field configured ''minimum_payout_idr'') 0),
          ep_waiting = merged_rule comp ''waiting'' 10000,
          ep_threshold = merged_int comp ''waiting'' ''threshold_minutes'' 10,
          ep_rate = merged_int comp ''waiting'' ''rate_idr_per_minute'' 500,
          ep_toll = merged_rule comp ''toll'' 50000,
          ep_return = merged_rule comp ''return'' 15000,
          ep_extra = merged_rule comp ''extra_service'' 50000,
          ep_extra_percent = (case sub_field (sub_field comp ''extra_service'') ''payout_percent'' of
              None \<Rightarrow> 80 | Some v \<Rightarrow> boundedPercent (Some v) 80),
          ep_cancellation = merged_rule comp ''cancellation'' 10000\<rparr>)"

section \<open>The estimate\<close>

record components =
  cm_base :: int
  cm_waiting :: int
  cm_toll :: int
  cm_return :: int
  cm_extra :: int
  cm_cancellation :: int
  cm_penalty :: int
  cm_total :: int

definition initialCourierEarningComponents :: "rat \<Rightarrow> components" where
  "initialCourierEarningComponents base =
     \<lparr>cm_base = max 0 (js_round base), cm_waiting = 0, cm_toll = 0, cm_return = 0, cm_extra = 0, cm_cancellation = 0,
      cm_penalty = 0, cm_total = max 0 (js_round base)\<rparr>"

definition capped :: "comp_rule \<Rightarrow> int \<Rightarrow> int" where
  "capped r x = (if cr_enabled r then min (cr_cap r) x else 0)"

definition with_total :: "int \<Rightarrow> int \<Rightarrow> int \<Rightarrow> int \<Rightarrow> int \<Rightarrow> int \<Rightarrow> int \<Rightarrow> components" where
  "with_total base waiting toll return extra cancellation penalty =
     \<lparr>cm_base = base, cm_waiting = waiting, cm_toll = toll, cm_return = return, cm_extra = extra, cm_cancellation = cancellation,
      cm_penalty = penalty, cm_total = max 0 (base + waiting + toll + return + extra + cancellation - penalty)\<rparr>"

definition calculateCourierEarnings :: "earning_policy \<Rightarrow> json \<Rightarrow> components" where
  "calculateCourierEarnings p facts =
     (let num = (\<lambda>k. nonNegativeInteger (json_field k facts) 0) in
      with_total (num ''base_earning_idr'')
        (capped (ep_waiting p) (num ''waiting_compensation_idr''))
        (capped (ep_toll p) (num ''toll_reimbursement_idr''))
        (capped (ep_return p) (num ''return_compensation_idr''))
        (capped (ep_extra p) (num ''extra_service_compensation_idr''))
        (capped (ep_cancellation p) (num ''cancellation_compensation_idr''))
        (num ''penalty_idr''))"

text \<open>The settlement snapshot of an order: its policy and its components, where it has them.\<close>

record snapshot =
  sn_policy :: "earning_policy option"
  sn_components :: "json option"
  sn_service :: "string option"

definition earningComponentsFromSnapshot :: "snapshot option \<Rightarrow> int \<Rightarrow> earning_policy \<times> components" where
  "earningComponentsFromSnapshot raw fallback =
     (let policy = (case raw of Some sn \<Rightarrow> (case sn_policy sn of Some p \<Rightarrow> p
              | None \<Rightarrow> buildCourierEarningPolicy \<lparr>ps_code = Some (case sn_service sn of Some (c # cs) \<Rightarrow> c # cs | _ \<Rightarrow> ''unknown''),
                  ps_percent = None, ps_minimum = None, ps_metadata = None\<rparr>)
            | None \<Rightarrow> buildCourierEarningPolicy \<lparr>ps_code = Some ''unknown'', ps_percent = None, ps_minimum = None, ps_metadata = None\<rparr>);
          facts = (case raw of Some sn \<Rightarrow> (case sn_components sn of Some (JObj kvs) \<Rightarrow> JObj kvs
              | Some (JArr vs) \<Rightarrow> JArr vs | _ \<Rightarrow> JObj [(''base_earning_idr'', JNum (show_int fallback))])
            | None \<Rightarrow> JObj [(''base_earning_idr'', JNum (show_int fallback))])
      in (policy, calculateCourierEarnings policy facts))"

section \<open>The trigger\<close>

text \<open>The columns of a leg that the triggers read.\<close>

record leg_facts =
  lf_fee :: int
  lf_idle :: int
  lf_toll :: int
  lf_return :: int
  lf_extra :: int
  lf_cancellation :: int
  lf_penalty :: int

definition rule_cap :: "(earning_policy \<Rightarrow> comp_rule) \<Rightarrow> earning_policy option \<Rightarrow> int \<Rightarrow> int" where
  "rule_cap sel p d = (case p of None \<Rightarrow> d | Some q \<Rightarrow> cr_cap (sel q))"

definition snapshot_courier_earning_components :: "earning_policy option \<Rightarrow> leg_facts \<Rightarrow> components" where
  "snapshot_courier_earning_components p f =
     with_total (max (lf_fee f) 0)
       (min (rule_cap ep_waiting p 10000) (max (lf_idle f) 0))
       (min (rule_cap ep_toll p 50000) (max (lf_toll f) 0))
       (min (rule_cap ep_return p 15000) (max (lf_return f) 0))
       (min (rule_cap ep_extra p 50000) (max (lf_extra f) 0))
       (min (rule_cap ep_cancellation p 10000) (max (lf_cancellation f) 0))
       (max (lf_penalty f) 0)"

text \<open>What the ledger trigger credits when a leg gets a status, 0 for nothing.\<close>

definition sync_courier_delivery_earning :: "earning_policy option \<Rightarrow> leg_facts \<Rightarrow> string \<Rightarrow> int" where
  "sync_courier_delivery_earning p f st =
     (let c = snapshot_courier_earning_components p f;
          rest = cm_waiting c + cm_toll c + cm_return c + cm_extra c + cm_cancellation c - cm_penalty c
      in if st = ''delivered'' then max (max (cm_base c) 0 + rest) 0
         else if st = ''cancelled'' \<and> (lf_cancellation f > 0 \<or> lf_idle f > 0 \<or> lf_toll f > 0 \<or> lf_return f > 0 \<or> lf_extra f > 0)
         then max rest 0 else 0)"

section \<open>What is shown and what is paid\<close>

lemma json_number_int: "nonNegativeInteger (Some (JNum (show_int i))) 0 = max 0 i"
  by (simp add: nonNegativeInteger_def finiteNumber_def)

definition fact_json :: "leg_facts \<Rightarrow> json" where
  "fact_json f = JObj (map (\<lambda>(k, i). (k, JNum (show_int i)))
     [(''base_earning_idr'', lf_fee f), (''waiting_compensation_idr'', lf_idle f), (''toll_reimbursement_idr'', lf_toll f),
      (''return_compensation_idr'', lf_return f), (''extra_service_compensation_idr'', lf_extra f),
      (''cancellation_compensation_idr'', lf_cancellation f), (''penalty_idr'', lf_penalty f)])"

lemma estimate_of_facts:
  "calculateCourierEarnings p (fact_json f) = with_total (max 0 (lf_fee f)) (capped (ep_waiting p) (max 0 (lf_idle f)))
     (capped (ep_toll p) (max 0 (lf_toll f))) (capped (ep_return p) (max 0 (lf_return f))) (capped (ep_extra p) (max 0 (lf_extra f)))
     (capped (ep_cancellation p) (max 0 (lf_cancellation f))) (max 0 (lf_penalty f))"
  by (simp add: calculateCourierEarnings_def fact_json_def json_number_int Let_def)

definition all_enabled :: "earning_policy \<Rightarrow> bool" where
  "all_enabled p \<longleftrightarrow> list_all cr_enabled [ep_waiting p, ep_toll p, ep_return p, ep_extra p, ep_cancellation p]"

text \<open>
  C25.  The trigger pays what the app shows.  For a policy with all compensations enabled, the components the
  trigger stores on a leg are those the app computes from the same facts, and a delivered leg is credited their total.
\<close>

theorem trigger_pays_estimate:
  assumes "all_enabled p"
  shows "snapshot_courier_earning_components (Some p) f = calculateCourierEarnings p (fact_json f)
     \<and> sync_courier_delivery_earning (Some p) f ''delivered'' = cm_total (calculateCourierEarnings p (fact_json f))"
  using assms by (simp add: estimate_of_facts all_enabled_def snapshot_courier_earning_components_def sync_courier_delivery_earning_def
      with_total_def capped_def rule_cap_def max.commute Let_def algebra_simps)

definition default_policy :: earning_policy where
  "default_policy = buildCourierEarningPolicy \<lparr>ps_code = Some ''bike'', ps_percent = Some 80, ps_minimum = Some 8000, ps_metadata = None\<rparr>"

definition demo_facts :: leg_facts where
  "demo_facts = \<lparr>lf_fee = 12000, lf_idle = 15000, lf_toll = 3000, lf_return = 0, lf_extra = 0, lf_cancellation = 0, lf_penalty = 500\<rparr>"

lemma default_rules:
  "ep_waiting default_policy = \<lparr>cr_enabled = True, cr_cap = 10000\<rparr>" "ep_toll default_policy = \<lparr>cr_enabled = True, cr_cap = 50000\<rparr>"
  "ep_return default_policy = \<lparr>cr_enabled = True, cr_cap = 15000\<rparr>" "ep_extra default_policy = \<lparr>cr_enabled = True, cr_cap = 50000\<rparr>"
  "ep_cancellation default_policy = \<lparr>cr_enabled = True, cr_cap = 10000\<rparr>"
  by (simp_all add: default_policy_def buildCourierEarningPolicy_def merged_rule_def sub_field_def Let_def)

theorem trigger_pays_estimate_witness:
  "sync_courier_delivery_earning (Some default_policy) demo_facts ''delivered'' = 24500"
proof -
  have "all_enabled default_policy" by (simp add: all_enabled_def default_rules)
  then have "sync_courier_delivery_earning (Some default_policy) demo_facts ''delivered''
      = cm_total (calculateCourierEarnings default_policy (fact_json demo_facts))"
    using trigger_pays_estimate by blast
  also have "\<dots> = 24500" by (simp add: estimate_of_facts default_rules demo_facts_def with_total_def capped_def)
  finally show ?thesis .
qed

text \<open>
  A compensation that is switched off in the policy is shown as nothing but paid up to its cap, because the
  trigger does not read the switch.
\<close>

definition no_waiting_policy :: earning_policy where
  "no_waiting_policy = buildCourierEarningPolicy \<lparr>ps_code = None, ps_percent = None, ps_minimum = None, ps_metadata = Some (JObj
     [(''courier_earning_policy'', JObj [(''compensation'', JObj [(''waiting'', JObj [(''enabled'', JBool False)])])])])\<rparr>"

theorem disabled_compensation_paid:
  "\<not> cr_enabled (ep_waiting no_waiting_policy) \<and> cm_waiting (calculateCourierEarnings no_waiting_policy (fact_json demo_facts)) = 0
     \<and> cm_waiting (snapshot_courier_earning_components (Some no_waiting_policy) demo_facts) = 10000"
proof -
  have "ep_waiting no_waiting_policy = \<lparr>cr_enabled = False, cr_cap = 10000\<rparr>"
    by (simp add: no_waiting_policy_def buildCourierEarningPolicy_def merged_rule_def sub_field_def Let_def)
  then show ?thesis
    by (simp add: estimate_of_facts snapshot_courier_earning_components_def with_total_def capped_def rule_cap_def demo_facts_def)
qed

text \<open>What is paid is bounded by the fee and the caps, whatever the facts are.\<close>

lemma earning_bounded:
  assumes "\<forall>r \<in> {ep_waiting p, ep_toll p, ep_return p, ep_extra p, ep_cancellation p}. 0 \<le> cr_cap r"
  shows "0 \<le> sync_courier_delivery_earning (Some p) f st \<and> sync_courier_delivery_earning (Some p) f st
     \<le> max (lf_fee f) 0 + cr_cap (ep_waiting p) + cr_cap (ep_toll p) + cr_cap (ep_return p) + cr_cap (ep_extra p) + cr_cap (ep_cancellation p)"
proof -
  let ?c = "snapshot_courier_earning_components (Some p) f"
  obtain m where m: "m = max (lf_fee f) 0" "0 \<le> m" by simp
  have "cm_waiting ?c \<le> cr_cap (ep_waiting p)" "cm_toll ?c \<le> cr_cap (ep_toll p)" "cm_return ?c \<le> cr_cap (ep_return p)"
    "cm_extra ?c \<le> cr_cap (ep_extra p)" "cm_cancellation ?c \<le> cr_cap (ep_cancellation p)" "cm_base ?c = m" "0 \<le> cm_penalty ?c"
    by (simp_all add: snapshot_courier_earning_components_def with_total_def rule_cap_def m(1))
  moreover have "0 \<le> cr_cap (ep_waiting p)" "0 \<le> cr_cap (ep_toll p)" "0 \<le> cr_cap (ep_return p)" "0 \<le> cr_cap (ep_extra p)" "0 \<le> cr_cap (ep_cancellation p)"
    using assms by auto
  ultimately show ?thesis unfolding sync_courier_delivery_earning_def Let_def m(1) [symmetric] using m(2) by auto
qed

end
