(* ===== verification/Fleet.thy ===== *)
theory Fleet
  imports CourierEarnings JsDouble
begin

text \<open>
  The tables of on-demand deliveries (\<open>database/migrations\<close>): orders, their legs, the offers made to
  couriers, the couriers with vehicles, capabilities and zones, and the proofs of pickup and delivery.

  Statuses of orders and legs are texts, as in the tables: the transition policies are rows, too.  What
  the database computes outside of this code is in \<open>match_env\<close>: geography, the eligibility functions, locks of other
  transactions and random ids.
\<close>

type_synonym point = "rat \<times> rat"

record order_row =
  od_id :: uuid
  od_customer :: uuid
  od_merchant :: "uuid option"
  od_model :: string
  od_status :: string
  od_service :: "string option"
  od_sub_type :: "string option"
  od_batch :: "uuid option"
  od_pickup :: point
  od_dropoff :: point
  od_total :: int
  od_commission :: int
  od_estimate :: "int option"
  od_token :: "string option"
  od_schedule_type :: string
  od_scheduled :: "instant option"
  od_created :: instant
  od_policy :: "earning_policy option"

record leg_row =
  lg_id :: uuid
  lg_order :: uuid
  lg_number :: nat
  lg_courier :: "uuid option"
  lg_vehicle :: "uuid option"
  lg_status :: string
  lg_facts :: leg_facts
  lg_assigned :: "instant option"
  lg_safety :: string

datatype dispatch_status = DOffered | DAccepted | DRejected | DExpired | DSkipped | DCancelled | DLost

record offer_row =
  dp_id :: uuid
  dp_order :: uuid
  dp_courier :: uuid
  dp_zone :: uuid
  dp_rank :: nat
  dp_score :: rat
  dp_status :: dispatch_status
  dp_expires :: instant
  dp_responded :: "instant option"
  dp_reason :: "string option"
  dp_vehicle :: "string option"
  dp_created :: instant

record courier_row =
  cu_user :: uuid
  cu_profile :: uuid
  cu_channel :: string
  cu_verification :: string
  cu_onboarding :: string
  cu_online :: bool
  cu_zone :: "uuid option"
  cu_location :: "point option"
  cu_located :: "instant option"
  cu_rating :: "rat option"
  cu_relay :: "rat option"
  cu_acceptance :: "int option"
  cu_completion :: "int option"
  cu_car :: "string option"

record vehicle_row =
  vh_id :: uuid
  vh_profile :: uuid
  vh_status :: string
  vh_type :: string
  vh_category :: "string option"

record capability_row =
  ca_profile :: uuid
  ca_service :: string
  ca_channel :: string
  ca_status :: string
  ca_vehicle :: "uuid option"

record service_row =
  sv_code :: string
  sv_enabled :: bool
  sv_category :: string
  sv_vehicles :: "string list"
  sv_max_active :: "int option"
  sv_same_customer :: "bool option"
  sv_while_pickup :: "bool option"
  sv_while_delivery :: "bool option"
  sv_radius_pickup :: "rat option"
  sv_radius_delivery :: "rat option"
  sv_geofence :: "int option"
  sv_accuracy :: "int option"
  sv_override :: "json option"
  sv_face :: "bool option"
  sv_failed_policy :: "string option"
  sv_reschedules :: "int option"

record package_row =
  pk_id :: uuid
  pk_order :: uuid
  pk_index :: nat
  pk_code :: string
  pk_status :: string
  pk_scanned :: "instant option"
  pk_photographed :: "instant option"
  pk_delivered :: "instant option"

record face_row =
  fc_id :: uuid
  fc_courier :: uuid
  fc_order :: "uuid option"
  fc_type :: string
  fc_status :: string

record policy_row =
  tp_role :: string
  tp_from :: string
  tp_to :: string
  tp_proof :: bool
  tp_admin :: bool
  tp_active :: bool

text \<open>A credit of source \<open>delivery\<close>: there is at most one per courier and order.\<close>

record earning_row =
  er_courier :: uuid
  er_order :: uuid
  er_amount :: int

record fleet =
  fl_orders :: "order_row list"
  fl_legs :: "leg_row list"
  fl_dispatches :: "offer_row list"
  fl_couriers :: "courier_row list"
  fl_vehicles :: "vehicle_row list"
  fl_capabilities :: "capability_row list"
  fl_services :: "service_row list"
  fl_zones :: "(uuid \<times> bool) list"
  fl_paid :: "uuid list"
  fl_packages :: "package_row list"
  fl_scans :: "(uuid \<times> string) list"
  fl_faces :: "face_row list"
  fl_attempts :: "(uuid \<times> uuid \<times> bool \<times> string) list"
  fl_policies :: "policy_row list"
  fl_earnings :: "earning_row list"
  fl_events :: "(uuid \<times> uuid \<times> string) list"

record match_env =
  me_now :: instant
  me_clock :: instant
  me_distance :: "point \<Rightarrow> point \<Rightarrow> rat"
  me_covers :: "uuid \<Rightarrow> point \<Rightarrow> bool"
  me_documents :: "uuid \<Rightarrow> string option \<Rightarrow> bool"
  me_presence :: "uuid \<Rightarrow> bool"
  me_capability :: "uuid \<Rightarrow> string \<Rightarrow> bool"
  me_service_on :: "uuid \<Rightarrow> string \<Rightarrow> bool"
  me_locked :: "uuid \<Rightarrow> bool"
  me_new_id :: "uuid \<Rightarrow> uuid"

section \<open>Reading\<close>

definition find_order :: "uuid \<Rightarrow> fleet \<Rightarrow> order_row option" where
  "find_order i s = find (\<lambda>o'. od_id o' = i) (fl_orders s)"

definition first_leg :: "uuid \<Rightarrow> fleet \<Rightarrow> leg_row option" where
  "first_leg i s = find (\<lambda>l. lg_order l = i \<and> lg_number l = 1) (fl_legs s)"

definition order_service :: "order_row \<Rightarrow> string option" where
  "order_service o' = (case od_service o' of Some (c # cs) \<Rightarrow> Some (c # cs) | _ \<Rightarrow> od_sub_type o')"

definition find_service :: "string option \<Rightarrow> fleet \<Rightarrow> service_row option" where
  "find_service code s = find (\<lambda>v. Some (sv_code v) = code) (fl_services s)"

definition on_demand_model :: "order_row \<Rightarrow> bool" where
  "on_demand_model o' \<longleftrightarrow> toLowerCase (od_model o') \<in> {''p2p'', ''on_demand'', ''ondemand''}"

definition or_else :: "'a option \<Rightarrow> 'a \<Rightarrow> 'a" where
  "or_else v d = (case v of None \<Rightarrow> d | Some x \<Rightarrow> x)"

section \<open>Writing\<close>

definition set_order :: "uuid \<Rightarrow> (order_row \<Rightarrow> order_row) \<Rightarrow> fleet \<Rightarrow> fleet" where
  "set_order i f s = s\<lparr>fl_orders := map (\<lambda>o'. if od_id o' = i then f o' else o') (fl_orders s)\<rparr>"

definition add_event :: "uuid \<Rightarrow> uuid \<Rightarrow> string \<Rightarrow> fleet \<Rightarrow> fleet" where
  "add_event i user typ s = s\<lparr>fl_events := fl_events s @ [(i, user, typ)]\<rparr>"

definition policy_of :: "uuid \<Rightarrow> fleet \<Rightarrow> earning_policy option" where
  "policy_of i s = (case find_order i s of None \<Rightarrow> None | Some o' \<Rightarrow> od_policy o')"

text \<open>The trigger after a write of a leg: a credit, unless the courier has one for the order.\<close>

definition credit_leg :: "leg_row \<Rightarrow> fleet \<Rightarrow> fleet" where
  "credit_leg l s =
     (case lg_courier l of None \<Rightarrow> s
      | Some c \<Rightarrow>
          (let amount = sync_courier_delivery_earning (policy_of (lg_order l) s) (lg_facts l) (lg_status l) in
           if amount > 0 \<and> \<not> list_ex (\<lambda>e. er_courier e = c \<and> er_order e = lg_order l) (fl_earnings s)
           then s\<lparr>fl_earnings := fl_earnings s @ [\<lparr>er_courier = c, er_order = lg_order l, er_amount = amount\<rparr>]\<rparr> else s))"

text \<open>Updating the legs that satisfy a condition, with the trigger for each in turn.\<close>

definition set_legs :: "(leg_row \<Rightarrow> bool) \<Rightarrow> (leg_row \<Rightarrow> leg_row) \<Rightarrow> fleet \<Rightarrow> fleet" where
  "set_legs P f s = fold credit_leg (map f (filter P (fl_legs s))) (s\<lparr>fl_legs := map (\<lambda>l. if P l then f l else l) (fl_legs s)\<rparr>)"

definition set_dispatches :: "(offer_row \<Rightarrow> bool) \<Rightarrow> (offer_row \<Rightarrow> offer_row) \<Rightarrow> fleet \<Rightarrow> fleet" where
  "set_dispatches P f s = s\<lparr>fl_dispatches := map (\<lambda>d. if P d then f d else d) (fl_dispatches s)\<rparr>"

section \<open>The jobs of a courier\<close>

definition ENDED :: "string list" where
  "ENDED = [''delivered'', ''completed'', ''failed'', ''cancelled'', ''rejected'', ''return_required'']"

record active_jobs =
  aj_count :: int
  aj_pickup :: bool
  aj_delivery :: bool
  aj_other_customer :: bool

text \<open>The active legs of a courier on other orders than \<open>o'\<close>, joined with their orders.\<close>

definition active_legs :: "uuid \<Rightarrow> uuid \<Rightarrow> fleet \<Rightarrow> (leg_row \<times> order_row) list" where
  "active_legs user i s =
     [(l, a). l \<leftarrow> fl_legs s, a \<leftarrow> fl_orders s, od_id a = lg_order l \<and> lg_courier l = Some user \<and> lg_order l \<noteq> i
        \<and> od_status a \<notin> set ENDED \<and> lg_status l \<notin> set ENDED]"

definition jobs_of :: "uuid \<Rightarrow> uuid \<Rightarrow> uuid \<Rightarrow> fleet \<Rightarrow> active_jobs" where
  "jobs_of user i customer s =
     (let legs = active_legs user i s in
      \<lparr>aj_count = int (length legs),
       aj_pickup = list_ex (\<lambda>(l, a). lg_status l \<in> {''accepted'', ''assigned'', ''going_to_pickup'', ''pickup_pending''}) legs,
       aj_delivery = list_ex (\<lambda>(l, a). lg_status l \<in> {''picked_up'', ''in_transit''}) legs,
       aj_other_customer = list_ex (\<lambda>(l, a). od_customer a \<noteq> customer) legs\<rparr>)"

text \<open>What a service product allows beside the jobs a courier has.\<close>

definition capacity_ok :: "service_row \<Rightarrow> active_jobs \<Rightarrow> bool" where
  "capacity_ok v j \<longleftrightarrow> aj_count j < or_else (sv_max_active v) 1"

definition batching_ok :: "service_row \<Rightarrow> active_jobs \<Rightarrow> bool" where
  "batching_ok v j \<longleftrightarrow> (\<not> aj_pickup j \<or> or_else (sv_while_pickup v) False) \<and> (\<not> aj_delivery j \<or> or_else (sv_while_delivery v) False)
     \<and> (\<not> or_else (sv_same_customer v) True \<or> \<not> aj_other_customer j)"

end
