(* ===== verification/OfferDispatch.thy ===== *)
theory OfferDispatch
  imports Fleet
begin

text \<open>
  Offering an order to couriers (\<open>controllers/courier/courierOnDemand.controller.ts\<close>,
  \<open>expireStaleOnDemandOffers\<close> of \<open>controllers/courier/_shared.ts\<close>, \<open>workers/customer-scheduled-order-worker.ts\<close>):
  candidates are ranked, the best one gets an offer for 90 seconds, offers expire, waiting orders are served.

  An operation answers \<open>None\<close> when a statement fails (a unique index), which aborts its transaction.  Among
  candidates that rank alike the database may choose any; the model takes the first.
\<close>

definition ON_DEMAND_OFFER_TTL_SECONDS :: int where
  "ON_DEMAND_OFFER_TTL_SECONDS = 90"

definition READY :: "string list" where
  "READY = [''pending'', ''matched'', ''offered'', ''dispatching'', ''pending_assignment'', ''searching'']"

section \<open>Candidates\<close>

record candidate =
  cd_courier :: uuid
  cd_vehicle :: uuid
  cd_zone :: uuid
  cd_distance :: int
  cd_rating :: rat
  cd_acceptance :: int
  cd_completion :: int

definition service_offers :: "service_row \<Rightarrow> order_row \<Rightarrow> bool" where
  "service_offers v o' \<longleftrightarrow> Some (sv_code v) = order_service o' \<and> sv_enabled v
     \<and> sv_category v \<in> {''on_demand'', ''food_delivery'', ''tambal_ban'', ''towing''}"

definition courier_matchable :: "match_env \<Rightarrow> courier_row \<Rightarrow> bool" where
  "courier_matchable env c \<longleftrightarrow> cu_channel c = ''on_demand'' \<and> cu_verification c = ''approved'' \<and> cu_onboarding c = ''ACTIVE''
     \<and> me_documents env (cu_profile c) None \<and> cu_online c \<and> me_presence env (cu_profile c) \<and> cu_zone c \<noteq> None \<and> cu_location c \<noteq> None
     \<and> (case cu_located c of None \<Rightarrow> False | Some t \<Rightarrow> t \<ge> me_now env - 600000)"

definition capability_serves :: "match_env \<Rightarrow> courier_row \<Rightarrow> service_row \<Rightarrow> capability_row \<Rightarrow> bool" where
  "capability_serves env c v a \<longleftrightarrow> ca_profile a = cu_profile c \<and> ca_service a = sv_code v \<and> ca_channel a = ''on_demand'' \<and> ca_status a = ''enabled''
     \<and> me_capability env (cu_profile c) (sv_code v) \<and> me_service_on env (cu_profile c) (sv_code v)"

text \<open>The size of a towing vehicle: its category, or the type on the profile.\<close>

definition vehicle_size :: "courier_row \<Rightarrow> vehicle_row \<Rightarrow> string" where
  "vehicle_size c h = toLowerCase (case vh_category h of Some (x # xs) \<Rightarrow> x # xs | _ \<Rightarrow> or_else (cu_car c) [])"

definition vehicle_serves :: "order_row \<Rightarrow> courier_row \<Rightarrow> service_row \<Rightarrow> capability_row \<Rightarrow> vehicle_row \<Rightarrow> bool" where
  "vehicle_serves o' c v a h \<longleftrightarrow> vh_profile h = cu_profile c \<and> vh_status h = ''approved'' \<and> (ca_vehicle a = None \<or> ca_vehicle a = Some (vh_id h))
     \<and> (if sv_category v = ''towing''
        then (or_else (od_service o') (or_else (od_sub_type o') []) = ''towing_motor'' \<and> vehicle_size c h \<in> {''pickup'', ''van''})
          \<or> (or_else (od_service o') (or_else (od_sub_type o') []) = ''towing_mobil'' \<and> vehicle_size c h \<in> {''towing_truck'', ''towing truck''})
        else sv_vehicles v = [] \<or> vh_type h \<in> set (sv_vehicles v) \<or> (vh_type h = ''motor'' \<and> ''bike'' \<in> set (sv_vehicles v))
          \<or> (vh_type h = ''car'' \<and> ''mobil'' \<in> set (sv_vehicles v)))"

definition courier_distance :: "match_env \<Rightarrow> courier_row \<Rightarrow> order_row \<Rightarrow> rat" where
  "courier_distance env c o' = (case cu_location c of None \<Rightarrow> 0 | Some p \<Rightarrow> me_distance env p (od_pickup o'))"

definition zone_covers :: "match_env \<Rightarrow> courier_row \<Rightarrow> order_row \<Rightarrow> fleet \<Rightarrow> bool" where
  "zone_covers env c o' s \<longleftrightarrow> (case cu_zone c of None \<Rightarrow> False | Some z \<Rightarrow> (z, True) \<in> set (fl_zones s) \<and> me_covers env z (od_pickup o'))"

text \<open>A courier with jobs must be close enough, too.\<close>

definition room_for :: "match_env \<Rightarrow> service_row \<Rightarrow> courier_row \<Rightarrow> order_row \<Rightarrow> fleet \<Rightarrow> bool" where
  "room_for env v c o' s \<longleftrightarrow>
     (let j = jobs_of (cu_user c) (od_id o') (od_customer o') s in
      capacity_ok v j \<and> (aj_count j = 0 \<or> (batching_ok v j
        \<and> courier_distance env c o' \<le> (if aj_delivery j then or_else (sv_radius_delivery v) 3 else or_else (sv_radius_pickup v) 2) * 1000)))"

definition has_open_offer :: "uuid \<Rightarrow> uuid \<Rightarrow> fleet \<Rightarrow> bool" where
  "has_open_offer i user s \<longleftrightarrow> list_ex (\<lambda>d. dp_order d = i \<and> dp_courier d = user \<and> (dp_status d = DOffered \<or> dp_status d = DAccepted)) (fl_dispatches s)"

definition eligible :: "match_env \<Rightarrow> fleet \<Rightarrow> order_row \<Rightarrow> service_row \<Rightarrow> courier_row \<Rightarrow> capability_row \<Rightarrow> vehicle_row \<Rightarrow> bool" where
  "eligible env s o' v c a h \<longleftrightarrow> service_offers v o' \<and> courier_matchable env c \<and> capability_serves env c v a \<and> vehicle_serves o' c v a h
     \<and> zone_covers env c o' s \<and> on_demand_model o' \<and> od_status o' \<in> set READY \<and> od_id o' \<in> set (fl_paid s) \<and> room_for env v c o' s
     \<and> \<not> has_open_offer (od_id o') (cu_user c) s"

definition candidate_of :: "match_env \<Rightarrow> order_row \<Rightarrow> courier_row \<Rightarrow> vehicle_row \<Rightarrow> candidate" where
  "candidate_of env o' c h =
     \<lparr>cd_courier = cu_user c, cd_vehicle = vh_id h, cd_zone = or_else (cu_zone c) [],
      cd_distance = round_half_even (courier_distance env c o'),
      cd_rating = (case cu_rating c of Some r \<Rightarrow> r | None \<Rightarrow> or_else (cu_relay c) 5),
      cd_acceptance = or_else (cu_acceptance c) 100, cd_completion = or_else (cu_completion c) 100\<rparr>"

definition candidates :: "match_env \<Rightarrow> fleet \<Rightarrow> order_row \<Rightarrow> candidate list" where
  "candidates env s o' =
     [candidate_of env o' c h. v \<leftarrow> fl_services s, c \<leftarrow> fl_couriers s, a \<leftarrow> fl_capabilities s, h \<leftarrow> fl_vehicles s, eligible env s o' v c a h]"

section \<open>Ranking\<close>

text \<open>\<open>numeric(10,4)\<close>; the quotient is exact where PostgreSQL keeps sixteen digits.\<close>

definition round4 :: "rat \<Rightarrow> rat" where
  "round4 x = of_int \<lfloor>x * 10000 + 1 / 2\<rfloor> / 10000"

definition score :: "candidate \<Rightarrow> rat" where
  "score c = round4 ((1000 / of_int (max (cd_distance c) 100)) * 60 + (cd_rating c / 5) * 25
     + of_int (cd_completion c) * (1 / 10) + of_int (cd_acceptance c) * (5 / 100))"

definition before :: "candidate \<Rightarrow> candidate \<Rightarrow> bool" where
  "before a b \<longleftrightarrow> score a > score b \<or> (score a = score b \<and> (cd_distance a < cd_distance b
     \<or> (cd_distance a = cd_distance b \<and> cd_rating a > cd_rating b)))"

fun best :: "candidate list \<Rightarrow> candidate option" where
  "best [] = None"
| "best (c # cs) = (case best cs of None \<Rightarrow> Some c | Some d \<Rightarrow> if before d c then Some d else Some c)"

section \<open>Offering\<close>

definition order_dispatches :: "uuid \<Rightarrow> fleet \<Rightarrow> offer_row list" where
  "order_dispatches i s = filter (\<lambda>d. dp_order d = i) (fl_dispatches s)"

definition next_rank :: "uuid \<Rightarrow> fleet \<Rightarrow> nat" where
  "next_rank i s = fold max (map dp_rank (order_dispatches i s)) 0 + 1"

text \<open>The insertion with its conflict clause, the primary key and the index of one offer per order.\<close>

definition put_offer :: "match_env \<Rightarrow> uuid \<Rightarrow> candidate \<Rightarrow> fleet \<Rightarrow> (offer_row \<times> fleet) option" where
  "put_offer env i c s =
     (let ds = fl_dispatches s; mine = (\<lambda>d. dp_order d = i \<and> dp_courier d = cd_courier c);
          expires = me_now env + 1000 * ON_DEMAND_OFFER_TTL_SECONDS in
      if list_ex (\<lambda>d. dp_order d = i \<and> dp_courier d \<noteq> cd_courier c \<and> dp_status d = DOffered) ds then None
      else case find mine ds of
          Some d \<Rightarrow>
            (let d' = d\<lparr>dp_status := DOffered, dp_responded := None, dp_reason := None, dp_rank := next_rank i s, dp_score := score c,
                 dp_expires := expires, dp_vehicle := Some (cd_vehicle c)\<rparr>
             in Some (d', s\<lparr>fl_dispatches := map (\<lambda>x. if mine x then d' else x) ds\<rparr>))
        | None \<Rightarrow>
            if me_new_id env i \<in> dp_id ` set ds then None
            else (let d' = \<lparr>dp_id = me_new_id env i, dp_order = i, dp_courier = cd_courier c, dp_zone = cd_zone c, dp_rank = next_rank i s,
                    dp_score = score c, dp_status = DOffered, dp_expires = expires, dp_responded = None, dp_reason = None,
                    dp_vehicle = Some (cd_vehicle c), dp_created = me_now env\<rparr>
                  in Some (d', s\<lparr>fl_dispatches := ds @ [d']\<rparr>)))"

definition offered_status :: "order_row \<Rightarrow> order_row" where
  "offered_status o' = (if od_status o' \<in> {''pending'', ''matched'', ''dispatching'', ''offered''} then o'\<lparr>od_status := ''offered''\<rparr> else o')"

definition offer_to :: "match_env \<Rightarrow> uuid \<Rightarrow> candidate \<Rightarrow> fleet \<Rightarrow> (offer_row option \<times> fleet) option" where
  "offer_to env i c s =
     (case put_offer env i c s of None \<Rightarrow> None
      | Some (d, s') \<Rightarrow> Some (Some d, add_event i (cd_courier c) ''offer_dispatched'' (set_order i offered_status s')))"

definition offer_pending :: "match_env \<Rightarrow> uuid \<Rightarrow> fleet \<Rightarrow> bool" where
  "offer_pending env i s \<longleftrightarrow> list_ex (\<lambda>d. (dp_status d = DOffered \<and> dp_expires d > me_now env) \<or> dp_status d = DAccepted) (order_dispatches i s)"

definition dispatchNextOnDemandCourier :: "match_env \<Rightarrow> uuid \<Rightarrow> fleet \<Rightarrow> (offer_row option \<times> fleet) option" where
  "dispatchNextOnDemandCourier env i s =
     (if offer_pending env i s then Some (None, s)
      else case find_order i s of None \<Rightarrow> Some (None, s)
      | Some o' \<Rightarrow> (case best (candidates env s o') of None \<Rightarrow> Some (None, s) | Some c \<Rightarrow> offer_to env i c s))"

fun dispatch_each :: "match_env \<Rightarrow> uuid list \<Rightarrow> fleet \<Rightarrow> (offer_row list \<times> fleet) option" where
  "dispatch_each env [] s = Some ([], s)"
| "dispatch_each env (i # is) s =
     (case dispatchNextOnDemandCourier env i s of None \<Rightarrow> None
      | Some (d, s1) \<Rightarrow> (case dispatch_each env is s1 of None \<Rightarrow> None
          | Some (ds, s2) \<Rightarrow> Some ((case d of None \<Rightarrow> ds | Some x \<Rightarrow> x # ds), s2)))"

definition expire_row :: "instant \<Rightarrow> offer_row \<Rightarrow> offer_row" where
  "expire_row now d = d\<lparr>dp_status := DExpired, dp_responded := Some (or_else (dp_responded d) now),
     dp_reason := Some (or_else (dp_reason d) ''ttl_expired'')\<rparr>"

definition stale :: "instant \<Rightarrow> offer_row \<Rightarrow> bool" where
  "stale now d \<longleftrightarrow> dp_status d = DOffered \<and> dp_expires d \<le> now"

definition expireStaleOnDemandOffers :: "match_env \<Rightarrow> fleet \<Rightarrow> (offer_row list \<times> fleet) option" where
  "expireStaleOnDemandOffers env s =
     dispatch_each env (remdups (map dp_order (filter (stale (me_now env)) (fl_dispatches s))))
       (set_dispatches (stale (me_now env)) (expire_row (me_now env)) s)"

section \<open>The queue\<close>

definition status_rank :: "string \<Rightarrow> nat" where
  "status_rank st = (if st = ''searching'' then 0 else if st = ''pending_assignment'' then 1 else if st = ''dispatching'' then 2
     else if st = ''matched'' then 3 else if st = ''offered'' then 4 else if st = ''pending'' then 5 else 6)"

definition waiting :: "fleet \<Rightarrow> order_row \<Rightarrow> bool" where
  "waiting s o' \<longleftrightarrow> on_demand_model o' \<and> od_status o' \<in> set READY \<and> od_id o' \<in> set (fl_paid s)
     \<and> \<not> list_ex (\<lambda>d. dp_status d = DOffered \<or> dp_status d = DAccepted) (order_dispatches (od_id o') s)"

definition queue :: "match_env \<Rightarrow> nat \<Rightarrow> fleet \<Rightarrow> uuid list" where
  "queue env limit s = map od_id (take limit (filter (\<lambda>o'. \<not> me_locked env (od_id o'))
     (sort_key (\<lambda>o'. status_rank (od_status o')) (sort_key od_created (filter (waiting s) (fl_orders s))))))"

definition advanceOnDemandDispatchQueue :: "match_env \<Rightarrow> nat \<Rightarrow> fleet \<Rightarrow> (offer_row list \<times> fleet) option" where
  "advanceOnDemandDispatchQueue env limit s =
     (case expireStaleOnDemandOffers env s of None \<Rightarrow> None
      | Some (ds, s1) \<Rightarrow> (case dispatch_each env (queue env limit s1) s1 of None \<Rightarrow> None | Some (ds', s2) \<Rightarrow> Some (ds @ ds', s2)))"

text \<open>
  The courier a customer has chosen.  Once no offer is open the statement joins \<open>active_jobs\<close>, which is
  neither a table nor defined in the statement, so it fails whatever the courier is.
\<close>

definition dispatchToPreferredCourier :: "match_env \<Rightarrow> uuid \<Rightarrow> uuid \<Rightarrow> fleet \<Rightarrow> (offer_row option \<times> fleet) option" where
  "dispatchToPreferredCourier env i user s = (if offer_pending env i s then Some (None, s) else None)"

section \<open>Scheduled orders\<close>

definition schedule_due :: "match_env \<Rightarrow> fleet \<Rightarrow> order_row \<Rightarrow> bool" where
  "schedule_due env s o' \<longleftrightarrow> od_status o' = ''scheduled'' \<and> od_schedule_type o' = ''scheduled''
     \<and> (case od_scheduled o' of None \<Rightarrow> False | Some t \<Rightarrow> t \<le> me_now env) \<and> od_merchant o' = None
     \<and> or_else (od_sub_type o') [] \<noteq> ''food_delivery'' \<and> on_demand_model o' \<and> od_id o' \<in> set (fl_paid s)"

definition due_orders :: "match_env \<Rightarrow> nat \<Rightarrow> fleet \<Rightarrow> order_row list" where
  "due_orders env batch s = take batch (filter (\<lambda>o'. \<not> me_locked env (od_id o'))
     (sort_key (\<lambda>o'. or_else (od_scheduled o') 0) (filter (schedule_due env s) (fl_orders s))))"

definition activate :: "order_row \<Rightarrow> fleet \<Rightarrow> fleet" where
  "activate o' s = add_event (od_id o') (od_customer o') ''scheduled_activated''
     (set_order (od_id o') (\<lambda>x. if od_status x = ''scheduled'' then x\<lparr>od_status := ''pending''\<rparr> else x) s)"

definition processDueCustomerScheduledOrders :: "match_env \<Rightarrow> nat \<Rightarrow> fleet \<Rightarrow> (nat \<times> offer_row list \<times> fleet) option" where
  "processDueCustomerScheduledOrders env batch s =
     (let due = due_orders env batch s; s1 = fold activate due s in
      if due = [] then Some (0, [], s1)
      else (case advanceOnDemandDispatchQueue env (length due) s1 of None \<Rightarrow> None
        | Some (ds, s2) \<Rightarrow> Some (length due, ds, s2)))"

section \<open>The invariant\<close>

definition AWAITING :: "string list" where
  "AWAITING = ''pending_payment'' # ''scheduled'' # READY"

definition awaits :: "uuid \<Rightarrow> fleet \<Rightarrow> bool" where
  "awaits i s \<longleftrightarrow> (\<exists>o' \<in> set (fl_orders s). od_id o' = i \<and> (od_status o' \<in> set READY \<or> od_batch o' \<noteq> None))"

definition led_by :: "uuid \<Rightarrow> uuid \<Rightarrow> fleet \<Rightarrow> bool" where
  "led_by i user s \<longleftrightarrow> (\<exists>l \<in> set (fl_legs s). lg_order l = i \<and> lg_number l = 1 \<and> lg_courier l = Some user)"

definition held :: "uuid \<Rightarrow> fleet \<Rightarrow> bool" where
  "held i s \<longleftrightarrow> (\<exists>l \<in> set (fl_legs s). lg_order l = i \<and> lg_courier l \<noteq> None)"

definition accepted :: "uuid \<Rightarrow> fleet \<Rightarrow> bool" where
  "accepted i s \<longleftrightarrow> (\<exists>d \<in> set (fl_dispatches s). dp_order d = i \<and> dp_status d = DAccepted)"

definition keys_ok :: "fleet \<Rightarrow> bool" where
  "keys_ok s \<longleftrightarrow> distinct (map od_id (fl_orders s)) \<and> distinct (map lg_id (fl_legs s)) \<and> distinct (map (\<lambda>l. (lg_order l, lg_number l)) (fl_legs s))
     \<and> distinct (map dp_id (fl_dispatches s)) \<and> distinct (map (\<lambda>d. (dp_order d, dp_courier d)) (fl_dispatches s))
     \<and> distinct (map (\<lambda>e. (er_courier e, er_order e)) (fl_earnings s))"

definition dispatch_ok :: "fleet \<Rightarrow> offer_row \<Rightarrow> bool" where
  "dispatch_ok s d \<longleftrightarrow>
     (dp_status d = DOffered \<longrightarrow> awaits (dp_order d) s \<and> \<not> held (dp_order d) s
        \<and> (\<forall>e \<in> set (fl_dispatches s). dp_order e = dp_order d \<and> dp_courier e \<noteq> dp_courier d \<longrightarrow> dp_status e \<noteq> DOffered \<and> dp_status e \<noteq> DAccepted))
     \<and> (dp_status d = DAccepted \<longrightarrow> led_by (dp_order d) (dp_courier d) s)"

definition order_ok :: "fleet \<Rightarrow> order_row \<Rightarrow> bool" where
  "order_ok s o' \<longleftrightarrow> (on_demand_model o' \<and> od_status o' \<in> set AWAITING \<and> held (od_id o') s \<longrightarrow> accepted (od_id o') s)"

definition policy_ok :: "policy_row \<Rightarrow> bool" where
  "policy_ok p \<longleftrightarrow> (tp_active p \<and> \<not> tp_admin p \<longrightarrow> tp_to p \<notin> set AWAITING)"

text \<open>
  Keys are unique.  An offer is the only open one of its order, which awaits a courier (or belongs to a batch) and has none
  on a leg; the courier of an accepted offer leads the first leg.  An on-demand order that awaits a courier and has one on a leg is
  accepted.  No configured transition of a courier leads back to a status that awaits one.
\<close>

definition fleet_inv :: "fleet \<Rightarrow> bool" where
  "fleet_inv s \<longleftrightarrow> keys_ok s \<and> (\<forall>d \<in> set (fl_dispatches s). dispatch_ok s d) \<and> (\<forall>o' \<in> set (fl_orders s). order_ok s o')
     \<and> (\<forall>p \<in> set (fl_policies s). policy_ok p)"

definition FINAL :: "string list" where
  "FINAL = [''delivered'', ''completed'', ''cancelled'']"

text \<open>No order that is there already becomes unpaid.\<close>

definition unpaid_kept :: "order_row list \<Rightarrow> order_row list \<Rightarrow> bool" where
  "unpaid_kept os os' \<longleftrightarrow> od_id ` set os \<subseteq> od_id ` set os' \<and>
     (\<forall>x \<in> set os'. od_status x = ''pending_payment'' \<and> od_id x \<in> od_id ` set os \<longrightarrow> (\<exists>y \<in> set os. od_id y = od_id x \<and> od_status y = ''pending_payment''))"

text \<open>An order that has ended stays as it is, unless it is part of a batch.\<close>

definition final_kept :: "fleet \<Rightarrow> fleet \<Rightarrow> bool" where
  "final_kept s s' \<longleftrightarrow> (\<forall>o' \<in> set (fl_orders s). od_status o' \<in> set FINAL \<and> od_batch o' = None \<longrightarrow> o' \<in> set (fl_orders s'))
     \<and> unpaid_kept (fl_orders s) (fl_orders s')"

lemma unpaid_kept_refl [simp]: "unpaid_kept os os"
  by (auto simp: unpaid_kept_def)

lemma unpaid_kept_trans:
  assumes a: "unpaid_kept os os'" and b: "unpaid_kept os' os''"
  shows "unpaid_kept os os''"
  unfolding unpaid_kept_def
proof (intro conjI ballI impI)
  show "od_id ` set os \<subseteq> od_id ` set os''" by (rule subset_trans [OF conjunct1 [OF a [unfolded unpaid_kept_def]] conjunct1 [OF b [unfolded unpaid_kept_def]]])
next
  fix x assume x: "x \<in> set os''" "od_status x = ''pending_payment'' \<and> od_id x \<in> od_id ` set os"
  then have "od_id x \<in> od_id ` set os'" using a by (auto simp: unpaid_kept_def)
  then obtain y where y: "y \<in> set os'" "od_id y = od_id x" "od_status y = ''pending_payment''" using b x by (auto simp: unpaid_kept_def)
  have "od_status y = ''pending_payment'' \<and> od_id y \<in> od_id ` set os \<longrightarrow> (\<exists>z \<in> set os. od_id z = od_id y \<and> od_status z = ''pending_payment'')"
    by (rule bspec [OF conjunct2 [OF a [unfolded unpaid_kept_def]] y(1)])
  then show "\<exists>y \<in> set os. od_id y = od_id x \<and> od_status y = ''pending_payment''" using x y by simp
qed

lemma unpaid_kept_map:
  assumes "\<And>x. x \<in> set os \<Longrightarrow> od_id (f x) = od_id x" and "\<And>x. x \<in> set os \<Longrightarrow> od_status (f x) = ''pending_payment'' \<Longrightarrow> od_status x = ''pending_payment''"
  shows "unpaid_kept os (map f os)"
  unfolding unpaid_kept_def
proof (intro conjI ballI impI)
  show "od_id ` set os \<subseteq> od_id ` set (map f os)" using assms(1) by (force simp: image_iff)
next
  fix x assume "x \<in> set (map f os)" "od_status x = ''pending_payment'' \<and> od_id x \<in> od_id ` set os"
  then obtain y where "y \<in> set os" "x = f y" "od_status (f y) = ''pending_payment''" by auto
  then show "\<exists>y \<in> set os. od_id y = od_id x \<and> od_status y = ''pending_payment''" using assms by metis
qed

lemma final_kept_refl [simp]: "final_kept s s"
  by (simp add: final_kept_def)

lemma final_kept_trans: "final_kept s s' \<Longrightarrow> final_kept s' s'' \<Longrightarrow> final_kept s s''"
  unfolding final_kept_def using unpaid_kept_trans by blast

lemma fleet_inv_cong:
  "fl_orders s' = fl_orders s \<Longrightarrow> fl_legs s' = fl_legs s \<Longrightarrow> fl_dispatches s' = fl_dispatches s \<Longrightarrow> fl_earnings s' = fl_earnings s
     \<Longrightarrow> fl_policies s' = fl_policies s \<Longrightarrow> fleet_inv s' = fleet_inv s"
  by (simp add: fleet_inv_def keys_ok_def dispatch_ok_def order_ok_def awaits_def led_by_def held_def accepted_def)

lemma add_event_sel [simp]: "fl_orders (add_event i u t s) = fl_orders s" "fl_legs (add_event i u t s) = fl_legs s"
  "fl_dispatches (add_event i u t s) = fl_dispatches s" "fl_earnings (add_event i u t s) = fl_earnings s"
  "fl_paid (add_event i u t s) = fl_paid s" "fl_policies (add_event i u t s) = fl_policies s"
  by (simp_all add: add_event_def)

lemma set_order_sel [simp]: "fl_legs (set_order i f s) = fl_legs s" "fl_dispatches (set_order i f s) = fl_dispatches s"
  "fl_earnings (set_order i f s) = fl_earnings s" "fl_paid (set_order i f s) = fl_paid s" "fl_policies (set_order i f s) = fl_policies s"
  by (simp_all add: set_order_def)

lemma set_dispatches_sel [simp]: "fl_legs (set_dispatches P f s) = fl_legs s" "fl_orders (set_dispatches P f s) = fl_orders s"
  "fl_earnings (set_dispatches P f s) = fl_earnings s" "fl_paid (set_dispatches P f s) = fl_paid s"
  "fl_policies (set_dispatches P f s) = fl_policies s"
  by (simp_all add: set_dispatches_def)

lemma event_inv [simp]: "fleet_inv (add_event i u t s) = fleet_inv s"
  by (rule fleet_inv_cong) simp_all

lemma event_final [simp]: "final_kept s (add_event i u t s') = final_kept s s'"
  by (simp add: final_kept_def)

text \<open>A change of order rows that keeps their ids.\<close>

definition change_orders :: "(order_row \<Rightarrow> order_row) \<Rightarrow> fleet \<Rightarrow> fleet" where
  "change_orders f s = s\<lparr>fl_orders := map f (fl_orders s)\<rparr>"

lemma set_order_change: "set_order i f = change_orders (\<lambda>o'. if od_id o' = i then f o' else o')"
  by (simp add: set_order_def change_orders_def fun_eq_iff)

lemma set_order_ids: "(\<And>o'. od_id (f o') = od_id o') \<Longrightarrow> map od_id (fl_orders (set_order i f s)) = map od_id (fl_orders s)"
  by (simp add: set_order_def comp_def cong: map_cong)

lemma change_orders_inv:
  assumes inv: "fleet_inv s" and ids: "\<And>o'. od_id (f o') = od_id o' \<and> od_batch (f o') = od_batch o' \<and> od_model (f o') = od_model o'"
    and ready: "\<And>o' d. o' \<in> set (fl_orders s) \<Longrightarrow> d \<in> set (fl_dispatches s) \<Longrightarrow> dp_order d = od_id o' \<Longrightarrow> dp_status d = DOffered
       \<Longrightarrow> od_status o' \<in> set READY \<Longrightarrow> od_status (f o') \<in> set READY \<or> od_batch o' \<noteq> None"
    and stays: "\<And>o'. o' \<in> set (fl_orders s) \<Longrightarrow> od_status (f o') \<in> set AWAITING \<Longrightarrow> od_status o' \<in> set AWAITING"
  shows "fleet_inv (change_orders f s)"
proof -
  have "awaits (dp_order d) (change_orders f s)" if p: "d \<in> set (fl_dispatches s)" "dp_status d = DOffered" "awaits (dp_order d) s" for d
  proof -
    obtain o' where o': "o' \<in> set (fl_orders s)" "od_id o' = dp_order d" "od_status o' \<in> set READY \<or> od_batch o' \<noteq> None"
      using p(3) by (auto simp: awaits_def)
    have "od_status (f o') \<in> set READY \<or> od_batch (f o') \<noteq> None" using ready [OF o'(1) p(1) _ p(2)] o'(2,3) ids by auto
    moreover have "f o' \<in> set (fl_orders (change_orders f s))" using o'(1) by (simp add: change_orders_def)
    moreover have "od_id (f o') = dp_order d" using ids o'(2) by simp
    ultimately show ?thesis unfolding awaits_def by blast
  qed
  moreover have "keys_ok (change_orders f s)" using inv ids by (simp add: fleet_inv_def keys_ok_def change_orders_def comp_def)
  moreover have "order_ok (change_orders f s) (f o')" if "o' \<in> set (fl_orders s)" for o'
    using inv that stays [OF that] ids by (simp add: fleet_inv_def order_ok_def held_def accepted_def on_demand_model_def change_orders_def)
  ultimately show ?thesis using inv
    by (simp add: fleet_inv_def dispatch_ok_def led_by_def held_def change_orders_def)
qed

text \<open>Changing the status of an order, as long as an offered one still awaits a courier.\<close>

lemma order_inv:
  assumes inv: "fleet_inv s" and ids: "\<And>o'. od_id (f o') = od_id o' \<and> od_batch (f o') = od_batch o' \<and> od_model (f o') = od_model o'"
    and ready: "\<And>o' d. d \<in> set (fl_dispatches s) \<Longrightarrow> dp_order d = i \<Longrightarrow> dp_status d = DOffered \<Longrightarrow> od_status o' \<in> set READY
       \<Longrightarrow> od_status (f o') \<in> set READY"
    and stays: "\<And>o'. od_status (f o') \<in> set AWAITING \<Longrightarrow> od_status o' \<in> set AWAITING"
  shows "fleet_inv (set_order i f s)"
  unfolding set_order_change
proof (rule change_orders_inv [OF inv])
  fix o' d
  assume "o' \<in> set (fl_orders s)" "d \<in> set (fl_dispatches s)" "dp_order d = od_id o'" "dp_status d = DOffered" "od_status o' \<in> set READY"
  then show "od_status (if od_id o' = i then f o' else o') \<in> set READY \<or> od_batch o' \<noteq> None" using ready [of d o'] by simp
qed (use ids stays in \<open>auto split: if_splits\<close>)

lemma order_final:
  assumes "\<And>o'. o' \<in> set (fl_orders s) \<Longrightarrow> od_id o' = i \<Longrightarrow> od_status o' \<in> set FINAL \<Longrightarrow> od_batch o' = None \<Longrightarrow> f o' = o'"
    and "\<And>o'. od_id (f o') = od_id o'" and "\<And>o'. od_status (f o') = ''pending_payment'' \<Longrightarrow> od_status o' = ''pending_payment''"
  shows "final_kept s (set_order i f s)"
proof -
  have "unpaid_kept (fl_orders s) (fl_orders (set_order i f s))"
    unfolding set_order_def by (simp, rule unpaid_kept_map) (use assms(2,3) in \<open>auto split: if_splits\<close>)
  then show ?thesis using assms(1) by (force simp: final_kept_def set_order_def)
qed

text \<open>Closing offers.\<close>

lemma dispatch_close:
  assumes inv: "fleet_inv s" and keep: "\<And>d. dp_id (f d) = dp_id d \<and> dp_order (f d) = dp_order d \<and> dp_courier (f d) = dp_courier d"
    and close: "\<And>d. d \<in> set (fl_dispatches s) \<Longrightarrow> P d \<Longrightarrow> dp_status (f d) \<noteq> DOffered"
    and acc: "\<And>d. P d \<Longrightarrow> dp_status (f d) = DAccepted \<Longrightarrow> dp_status d = DAccepted"
    and gone: "\<And>o' d. d \<in> set (fl_dispatches s) \<Longrightarrow> P d \<Longrightarrow> dp_status d = DAccepted \<Longrightarrow> dp_status (f d) = DAccepted
       \<or> (o' \<in> set (fl_orders s) \<longrightarrow> od_id o' = dp_order d \<longrightarrow> od_status o' \<notin> set AWAITING)"
  shows "fleet_inv (set_dispatches P f s)"
proof -
  have m: "map g (fl_dispatches (set_dispatches P f s)) = map g (fl_dispatches s)" if "\<And>d. g (f d) = g d" for g :: "offer_row \<Rightarrow> 'b"
    using that by (simp add: set_dispatches_def comp_def cong: map_cong)
  have keys: "keys_ok (set_dispatches P f s)"
    using inv m [of dp_id] m [of "\<lambda>d. (dp_order d, dp_courier d)"] keep by (simp add: fleet_inv_def keys_ok_def)
  have old: "\<exists>e' \<in> set (fl_dispatches s). dp_order e' = dp_order e \<and> dp_courier e' = dp_courier e \<and> dp_status e' = dp_status e"
    if "e \<in> set (fl_dispatches (set_dispatches P f s))" "dp_status e = DOffered \<or> dp_status e = DAccepted" for e
  proof -
    from that(1) obtain x where x: "x \<in> set (fl_dispatches s)" "e = (if P x then f x else x)" by (auto simp: set_dispatches_def)
    then have "dp_status x = dp_status e" using that(2) close [of x] acc [of x] by (auto split: if_splits)
    then show ?thesis using x keep by (intro bexI [of _ x]) simp_all
  qed
  have disp: "dispatch_ok (set_dispatches P f s) d" if d: "d \<in> set (fl_dispatches (set_dispatches P f s))" for d
  proof (cases "dp_status d = DOffered \<or> dp_status d = DAccepted")
    case True
    from old [OF d True] obtain d' where d': "d' \<in> set (fl_dispatches s)" "dp_order d' = dp_order d" "dp_courier d' = dp_courier d"
      "dp_status d' = dp_status d" by blast
    then have ok: "dispatch_ok s d'" using inv by (simp add: fleet_inv_def)
    have "dp_status e \<noteq> DOffered \<and> dp_status e \<noteq> DAccepted" if o': "dp_status d = DOffered"
      and e: "e \<in> set (fl_dispatches (set_dispatches P f s))" "dp_order e = dp_order d" "dp_courier e \<noteq> dp_courier d" for e
    proof (rule ccontr)
      assume n: "\<not> (dp_status e \<noteq> DOffered \<and> dp_status e \<noteq> DAccepted)"
      then obtain e' where e': "e' \<in> set (fl_dispatches s)" "dp_order e' = dp_order e" "dp_courier e' = dp_courier e" "dp_status e' = dp_status e"
        using old [OF e(1)] by blast
      have "\<forall>x \<in> set (fl_dispatches s). dp_order x = dp_order d \<and> dp_courier x \<noteq> dp_courier d \<longrightarrow> dp_status x \<noteq> DOffered \<and> dp_status x \<noteq> DAccepted"
        using ok o' d' by (simp add: dispatch_ok_def)
      from bspec [OF this e'(1)] e' e(2,3) n show False by simp
    qed
    then have alone: "dp_status d = DOffered \<Longrightarrow> \<forall>e \<in> set (fl_dispatches (set_dispatches P f s)).
        dp_order e = dp_order d \<and> dp_courier e \<noteq> dp_courier d \<longrightarrow> dp_status e \<noteq> DOffered \<and> dp_status e \<noteq> DAccepted" by blast
    have same: "awaits i (set_dispatches P f s) = awaits i s" "held i (set_dispatches P f s) = held i s" "led_by i u (set_dispatches P f s) = led_by i u s" for i u
      by (simp_all add: awaits_def led_by_def held_def)
    have "dp_status d = DOffered \<Longrightarrow> awaits (dp_order d) s \<and> \<not> held (dp_order d) s" "dp_status d = DAccepted \<Longrightarrow> led_by (dp_order d) (dp_courier d) s"
      using ok d' by (simp_all add: dispatch_ok_def)
    with alone show ?thesis unfolding dispatch_ok_def same by blast
  qed (simp add: dispatch_ok_def)
  have "order_ok (set_dispatches P f s) o'" if o': "o' \<in> set (fl_orders s)" for o'
  proof (cases "on_demand_model o' \<and> od_status o' \<in> set AWAITING \<and> held (od_id o') s")
    case True
    then have "accepted (od_id o') s" using inv o' by (simp add: fleet_inv_def order_ok_def)
    then obtain d where d: "d \<in> set (fl_dispatches s)" "dp_order d = od_id o'" "dp_status d = DAccepted" by (auto simp: accepted_def)
    then have st: "dp_status (if P d then f d else d) = DAccepted" using gone [OF d(1) _ d(3), of o'] o' True by simp
    have "(if P d then f d else d) \<in> set (fl_dispatches (set_dispatches P f s))" using d(1) by (simp add: set_dispatches_def)
    moreover have "dp_order (if P d then f d else d) = od_id o'" using d keep by simp
    ultimately have "accepted (od_id o') (set_dispatches P f s)" using st unfolding accepted_def by blast
    then show ?thesis by (simp add: order_ok_def)
  next
    case False
    moreover have "held (od_id o') (set_dispatches P f s) = held (od_id o') s" by (simp add: held_def)
    ultimately show ?thesis unfolding order_ok_def by blast
  qed
  then show ?thesis using inv keys disp by (simp add: fleet_inv_def)
qed

section \<open>The best candidate\<close>

lemma best_none: "best cs = None \<longleftrightarrow> cs = []"
  by (cases cs) (auto split: option.splits if_splits)

lemma best_spec: "best cs = Some c \<Longrightarrow> c \<in> set cs \<and> (\<forall>d \<in> set cs. \<not> before d c)"
proof (induction cs arbitrary: c)
  case (Cons x xs)
  show ?case
  proof (cases "best xs")
    case None
    then have "xs = []" by (simp add: best_none)
    then show ?thesis using Cons.prems by (auto simp: before_def)
  next
    case (Some d)
    have d: "d \<in> set xs" "\<forall>y \<in> set xs. \<not> before y d" using Cons.IH [OF Some] by simp_all
    show ?thesis
    proof (cases "before d x")
      case True
      then have "c = d" using Cons.prems Some by simp
      moreover have "\<not> before x d" using True by (auto simp: before_def)
      ultimately show ?thesis using d by simp
    next
      case False
      then have "c = x" using Cons.prems Some by simp
      moreover have "\<not> before y x" if "\<not> before y d" for y using that False by (auto simp: before_def)
      moreover have "\<not> before x x" by (simp add: before_def)
      ultimately show ?thesis using d by auto
    qed
  qed
qed simp

lemma candidates_member:
  "b \<in> set (candidates env s o') \<longleftrightarrow> (\<exists>v \<in> set (fl_services s). \<exists>c \<in> set (fl_couriers s). \<exists>a \<in> set (fl_capabilities s). \<exists>h \<in> set (fl_vehicles s).
     eligible env s o' v c a h \<and> b = candidate_of env o' c h)"
  unfolding candidates_def by fastforce

section \<open>An offer keeps the invariant\<close>

definition new_offer :: "match_env \<Rightarrow> uuid \<Rightarrow> candidate \<Rightarrow> offer_row \<Rightarrow> bool" where
  "new_offer env i c d \<longleftrightarrow> dp_order d = i \<and> dp_courier d = cd_courier c \<and> dp_status d = DOffered \<and> dp_vehicle d = Some (cd_vehicle c)
     \<and> dp_expires d = me_now env + 90000"

lemma put_offer_free:
  "put_offer env i c s = Some r \<Longrightarrow> x \<in> set (fl_dispatches s) \<Longrightarrow> dp_order x = i \<Longrightarrow> dp_courier x \<noteq> cd_courier c \<Longrightarrow> dp_status x \<noteq> DOffered"
  by (auto simp: put_offer_def Let_def list_ex_iff split: if_splits)

lemma put_offer_update:
  assumes put: "put_offer env i c s = Some (d, s')" and f: "find (\<lambda>x. dp_order x = i \<and> dp_courier x = cd_courier c) (fl_dispatches s) = Some x"
  shows "new_offer env i c d \<and> dp_id d = dp_id x
     \<and> s' = s\<lparr>fl_dispatches := map (\<lambda>y. if dp_order y = i \<and> dp_courier y = cd_courier c then d else y) (fl_dispatches s)\<rparr>"
proof -
  have x: "dp_order x = i \<and> dp_courier x = cd_courier c" using f by (auto simp: find_Some_iff)
  have "\<not> list_ex (\<lambda>d. dp_order d = i \<and> dp_courier d \<noteq> cd_courier c \<and> dp_status d = DOffered) (fl_dispatches s)"
    using put_offer_free [OF put] by (auto simp: list_ex_iff)
  then show ?thesis using put x by (auto simp: put_offer_def Let_def f new_offer_def ON_DEMAND_OFFER_TTL_SECONDS_def)
qed

lemma put_offer_insert:
  assumes put: "put_offer env i c s = Some (d, s')" and f: "find (\<lambda>x. dp_order x = i \<and> dp_courier x = cd_courier c) (fl_dispatches s) = None"
  shows "new_offer env i c d \<and> dp_id d \<notin> dp_id ` set (fl_dispatches s) \<and> s' = s\<lparr>fl_dispatches := fl_dispatches s @ [d]\<rparr>"
proof -
  have n: "\<not> list_ex (\<lambda>d. dp_order d = i \<and> dp_courier d \<noteq> cd_courier c \<and> dp_status d = DOffered) (fl_dispatches s)"
    using put_offer_free [OF put] by (auto simp: list_ex_iff)
  then have "me_new_id env i \<notin> dp_id ` set (fl_dispatches s)" using put by (auto simp: put_offer_def Let_def f simp del: image_iff)
  then show ?thesis using put n by (auto simp: put_offer_def Let_def f new_offer_def ON_DEMAND_OFFER_TTL_SECONDS_def)
qed

text \<open>Replacing the row with a given key.\<close>

lemma replace_row:
  assumes dist: "distinct (map k xs)" and x: "x \<in> set xs" and d: "k d = k x"
  shows "set (map (\<lambda>y. if k y = k x then d else y) xs) = insert d {y \<in> set xs. k y \<noteq> k x}"
    and "g d = g x \<Longrightarrow> map g (map (\<lambda>y. if k y = k x then d else y) xs) = map g xs"
proof -
  show "set (map (\<lambda>y. if k y = k x then d else y) xs) = insert d {y \<in> set xs. k y \<noteq> k x}" using x by auto
  have "y = x" if "y \<in> set xs" "k y = k x" for y using dist x that by (auto simp: distinct_map dest: inj_onD)
  then show "g d = g x \<Longrightarrow> map g (map (\<lambda>y. if k y = k x then d else y) xs) = map g xs" by auto
qed

lemma put_offer_rows:
  assumes put: "put_offer env i c s = Some (d, s')" and keys: "keys_ok s"
  shows "\<exists>ds. s' = s\<lparr>fl_dispatches := ds\<rparr> \<and> set ds = insert d {x \<in> set (fl_dispatches s). \<not> (dp_order x = i \<and> dp_courier x = cd_courier c)}
     \<and> distinct (map dp_id ds) \<and> distinct (map (\<lambda>x. (dp_order x, dp_courier x)) ds) \<and> new_offer env i c d"
proof (cases "find (\<lambda>x. dp_order x = i \<and> dp_courier x = cd_courier c) (fl_dispatches s)")
  case (Some x)
  let ?k = "\<lambda>x. (dp_order x, dp_courier x)" and ?ds = "map (\<lambda>y. if dp_order y = i \<and> dp_courier y = cd_courier c then d else y) (fl_dispatches s)"
  have x: "x \<in> set (fl_dispatches s)" "dp_order x = i" "dp_courier x = cd_courier c" using Some by (auto simp: find_Some_iff)
  note u = put_offer_update [OF put Some]
  then have k: "?k d = ?k x" using x by (simp add: new_offer_def)
  have dist: "distinct (map ?k (fl_dispatches s))" "distinct (map dp_id (fl_dispatches s))" using keys by (simp_all add: keys_ok_def)
  have eq: "?ds = map (\<lambda>y. if ?k y = ?k x then d else y) (fl_dispatches s)" using x by simp
  note r = replace_row [OF dist(1) x(1) k]
  have ids: "map dp_id ?ds = map dp_id (fl_dispatches s)" unfolding eq by (rule r(2)) (simp add: u)
  have ks: "map ?k ?ds = map ?k (fl_dispatches s)" unfolding eq by (rule r(2)) (rule k)
  have members: "set ?ds = insert d {x \<in> set (fl_dispatches s). \<not> (dp_order x = i \<and> dp_courier x = cd_courier c)}"
    unfolding eq using r(1) x by simp
  show ?thesis by (intro exI [of _ ?ds] conjI) (use u dist ids ks members in \<open>simp_all only: simp_thms\<close>)
next
  case None
  then have none: "\<forall>x \<in> set (fl_dispatches s). \<not> (dp_order x = i \<and> dp_courier x = cd_courier c)" by (simp add: find_None_iff)
  note u = put_offer_insert [OF put None]
  then have "(dp_order d, dp_courier d) \<notin> (\<lambda>x. (dp_order x, dp_courier x)) ` set (fl_dispatches s)" using none by (auto simp: new_offer_def)
  moreover have "{x \<in> set (fl_dispatches s). \<not> (dp_order x = i \<and> dp_courier x = cd_courier c)} = set (fl_dispatches s)" using none by blast
  ultimately show ?thesis using u keys by (intro exI [of _ "fl_dispatches s @ [d]"] conjI) (simp_all add: keys_ok_def)
qed

lemma put_offer_inv:
  assumes inv: "fleet_inv s" and put: "put_offer env i c s = Some (d, s')" and ready: "awaits i s" and free_legs: "\<not> held i s"
    and none: "\<forall>x \<in> set (fl_dispatches s). dp_order x = i \<longrightarrow> dp_status x \<noteq> DAccepted"
  shows "fleet_inv s' \<and> fl_orders s' = fl_orders s \<and> fl_legs s' = fl_legs s \<and> fl_paid s' = fl_paid s \<and> fl_earnings s' = fl_earnings s
    \<and> fl_policies s' = fl_policies s"
proof -
  have keys: "keys_ok s" using inv by (simp add: fleet_inv_def)
  from put_offer_rows [OF put keys] obtain ds where ds: "s' = s\<lparr>fl_dispatches := ds\<rparr>"
    "set ds = insert d {x \<in> set (fl_dispatches s). \<not> (dp_order x = i \<and> dp_courier x = cd_courier c)}"
    "distinct (map dp_id ds)" "distinct (map (\<lambda>x. (dp_order x, dp_courier x)) ds)"
    and d: "dp_order d = i" "dp_courier d = cd_courier c" "dp_status d = DOffered" unfolding new_offer_def by blast
  note free = put_offer_free [OF put]
  have "keys_ok s'" using keys ds by (simp add: keys_ok_def)
  moreover have "dispatch_ok s' x" if "x \<in> set ds" for x
  proof (cases "x = d")
    case True
    then show ?thesis using ready free_legs free none ds(1,2) d by (auto simp: dispatch_ok_def awaits_def held_def)
  next
    case False
    then have x: "x \<in> set (fl_dispatches s)" "\<not> (dp_order x = i \<and> dp_courier x = cd_courier c)" using that ds(2) by auto
    then have "dispatch_ok s x" using inv by (simp add: fleet_inv_def)
    moreover have "dp_order x \<noteq> i" if "dp_status x = DOffered" using that x free by blast
    ultimately show ?thesis using ds(1,2) d by (auto simp: dispatch_ok_def awaits_def held_def led_by_def)
  qed
  moreover have "order_ok s' o'" if "o' \<in> set (fl_orders s)" for o'
  proof -
    have "accepted (od_id o') s'" if acc: "accepted (od_id o') s"
    proof -
      obtain e where e: "e \<in> set (fl_dispatches s)" "dp_order e = od_id o'" "dp_status e = DAccepted" using acc by (auto simp: accepted_def)
      then have "e \<in> set ds" using none ds(2) by auto
      then show ?thesis using e ds(1) by (auto simp: accepted_def)
    qed
    moreover have "order_ok s o'" using inv that by (simp add: fleet_inv_def)
    ultimately show ?thesis using ds(1) by (auto simp: order_ok_def held_def)
  qed
  ultimately show ?thesis using ds(1) inv by (simp add: fleet_inv_def)
qed

lemma find_order_member: "find_order i s = Some o' \<Longrightarrow> o' \<in> set (fl_orders s) \<and> od_id o' = i"
  by (auto simp: find_order_def find_Some_iff)

lemma candidates_ready: "b \<in> set (candidates env s o') \<Longrightarrow> od_status o' \<in> set READY"
  by (auto simp: candidates_member eligible_def)

text \<open>Making offers keeps the legs, the payments, the credits and the orders that have ended.\<close>

definition offers_only :: "fleet \<Rightarrow> fleet \<Rightarrow> bool" where
  "offers_only s s' \<longleftrightarrow> final_kept s s' \<and> fl_policies s' = fl_policies s \<and> fl_legs s' = fl_legs s \<and> fl_paid s' = fl_paid s \<and> fl_earnings s' = fl_earnings s
     \<and> map od_id (fl_orders s') = map od_id (fl_orders s)"

lemma offers_only_refl [simp]: "offers_only s s"
  by (simp add: offers_only_def)

lemma offers_only_trans: "offers_only s s' \<Longrightarrow> offers_only s' s'' \<Longrightarrow> offers_only s s''"
  unfolding offers_only_def using final_kept_trans by metis

lemma offers_only_event [simp]: "offers_only s (add_event i u t s') = offers_only s s'"
  by (simp add: offers_only_def)

lemma offers_only_order:
  assumes "\<And>o'. od_id (f o') = od_id o'" and "\<And>o'. od_status o' \<in> set FINAL \<Longrightarrow> f o' = o'"
    and "\<And>o'. od_status (f o') = ''pending_payment'' \<Longrightarrow> od_status o' = ''pending_payment''"
  shows "offers_only s (set_order i f s)"
proof -
  have "final_kept s (set_order i f s)" by (rule order_final, rule assms(2), assumption, rule assms(1), erule assms(3))
  moreover have "map od_id (fl_orders (set_order i f s)) = map od_id (fl_orders s)" by (rule set_order_ids [OF assms(1)])
  ultimately show ?thesis by (simp add: offers_only_def)
qed

text \<open>What a dispatch attempt does: nothing, or an offer to the best candidate.\<close>

lemma dispatch_next_cases:
  assumes "dispatchNextOnDemandCourier env i s = Some (d, s')"
  obtains (nothing) "d = None" "s' = s" "offer_pending env i s \<or> (\<forall>o'. find_order i s = Some o' \<longrightarrow> candidates env s o' = [])"
  | (offer) o' c x s1 where "\<not> offer_pending env i s" "find_order i s = Some o'" "best (candidates env s o') = Some c" "put_offer env i c s = Some (x, s1)"
      "d = Some x" "s' = add_event i (cd_courier c) ''offer_dispatched'' (set_order i offered_status s1)"
proof (cases "offer_pending env i s")
  case True
  show ?thesis by (rule nothing) (use assms True in \<open>simp_all add: dispatchNextOnDemandCourier_def\<close>)
next
  case False
  show ?thesis
  proof (cases "find_order i s")
    case None
    show ?thesis by (rule nothing) (use assms False None in \<open>simp_all add: dispatchNextOnDemandCourier_def\<close>)
  next
    case (Some o')
    show ?thesis
    proof (cases "best (candidates env s o')")
      case None
      show ?thesis by (rule nothing) (use assms False Some None best_none in \<open>simp_all add: dispatchNextOnDemandCourier_def\<close>)
    next
      case b: (Some c)
      show ?thesis
      proof (cases "put_offer env i c s")
        case None
        then show ?thesis using assms False Some b by (simp add: dispatchNextOnDemandCourier_def offer_to_def)
      next
        case p: (Some r)
        then show ?thesis using assms False Some b offer [of o' c "fst r" "snd r"]
          by (cases r) (auto simp: dispatchNextOnDemandCourier_def offer_to_def)
      qed
    qed
  qed
qed

lemma offered_status_sel [simp]: "od_id (offered_status o') = od_id o'" "od_batch (offered_status o') = od_batch o'"
  "od_customer (offered_status o') = od_customer o'" "od_model (offered_status o') = od_model o'"
  "(od_status (offered_status o') \<in> set AWAITING) = (od_status o' \<in> set AWAITING)" "(od_status (offered_status o') \<in> set ENDED) = (od_status o' \<in> set ENDED)"
  "(od_status (offered_status o') \<in> set READY) = (od_status o' \<in> set READY)"
  by (auto simp: offered_status_def ENDED_def READY_def AWAITING_def)

lemma offered_status_unpaid [simp]: "od_status (offered_status o') = ''pending_payment'' \<longleftrightarrow> od_status o' = ''pending_payment''"
  by (auto simp: offered_status_def)

lemma offered_status_final [simp]: "od_status o' \<in> set FINAL \<Longrightarrow> offered_status o' = o'"
  by (auto simp: offered_status_def FINAL_def)

lemma dispatch_next_inv:
  assumes inv: "fleet_inv s" and run: "dispatchNextOnDemandCourier env i s = Some (d, s')"
  shows "fleet_inv s' \<and> offers_only s s'"
  using run
proof (cases rule: dispatch_next_cases)
  case nothing
  then show ?thesis using inv by simp
next
  case (offer o' c x s1)
  have o': "o' \<in> set (fl_orders s)" "od_id o' = i" using find_order_member [OF offer(2)] by simp_all
  have "od_status o' \<in> set READY" using best_spec [OF offer(3)] candidates_ready by blast
  then have r: "awaits i s" using o' by (auto simp: awaits_def)
  have none: "\<forall>x \<in> set (fl_dispatches s). dp_order x = i \<longrightarrow> dp_status x \<noteq> DAccepted"
    using offer(1) by (auto simp: offer_pending_def order_dispatches_def list_ex_iff)
  have "c \<in> set (candidates env s o')" using best_spec [OF offer(3)] by blast
  then have "on_demand_model o'" "od_status o' \<in> set AWAITING" by (auto simp: candidates_member eligible_def AWAITING_def)
  moreover have "order_ok s o'" using inv o' by (simp add: fleet_inv_def)
  moreover have "\<not> accepted i s" using none by (auto simp: accepted_def)
  ultimately have "\<not> held i s" using o' by (auto simp: order_ok_def)
  note p = put_offer_inv [OF inv offer(4) r this none]
  have "fleet_inv (set_order i offered_status s1)" by (rule order_inv) (use p in simp_all)
  moreover have "offers_only s (set_order i offered_status s1)"
    by (rule offers_only_trans [OF _ offers_only_order]) (use p in \<open>simp_all add: offers_only_def final_kept_def\<close>)
  ultimately show ?thesis using offer(6) p by simp
qed

lemma dispatch_each_inv:
  "fleet_inv s \<Longrightarrow> dispatch_each env is s = Some (ds, s') \<Longrightarrow> fleet_inv s' \<and> offers_only s s'"
proof (induction "is" arbitrary: s ds)
  case (Cons i "is")
  from Cons.prems(2) obtain d s1 ds1 where r: "dispatchNextOnDemandCourier env i s = Some (d, s1)" "dispatch_each env is s1 = Some (ds1, s')"
    by (auto split: option.splits prod.splits)
  note n = dispatch_next_inv [OF Cons.prems(1) r(1)]
  with Cons.IH [OF _ r(2)] show ?case using offers_only_trans by metis
qed simp

lemma expire_inv:
  assumes inv: "fleet_inv s" and run: "expireStaleOnDemandOffers env s = Some (ds, s')"
  shows "fleet_inv s' \<and> offers_only s s'"
proof -
  let ?s1 = "set_dispatches (stale (me_now env)) (expire_row (me_now env)) s"
  have "fleet_inv ?s1" by (rule dispatch_close [OF inv]) (simp_all add: expire_row_def stale_def)
  note r = dispatch_each_inv [OF this run [unfolded expireStaleOnDemandOffers_def]]
  have "offers_only s ?s1" by (simp add: offers_only_def final_kept_def)
  with r show ?thesis using offers_only_trans by auto
qed

lemma advance_inv:
  assumes inv: "fleet_inv s" and run: "advanceOnDemandDispatchQueue env limit s = Some (ds, s')"
  shows "fleet_inv s' \<and> offers_only s s'"
proof -
  from run obtain ds1 s1 ds2 where r: "expireStaleOnDemandOffers env s = Some (ds1, s1)" "dispatch_each env (queue env limit s1) s1 = Some (ds2, s')"
    by (auto simp: advanceOnDemandDispatchQueue_def split: option.splits prod.splits)
  note e = expire_inv [OF inv r(1)]
  with dispatch_each_inv [OF _ r(2)] show ?thesis using offers_only_trans by metis
qed

lemma activate_inv:
  assumes "fleet_inv s"
  shows "fleet_inv (activate o' s) \<and> offers_only s (activate o' s)"
proof -
  let ?f = "\<lambda>x. if od_status x = ''scheduled'' then x\<lparr>od_status := ''pending''\<rparr> else x"
  have "fleet_inv (set_order (od_id o') ?f s)" by (rule order_inv [OF assms]) (auto simp: READY_def AWAITING_def)
  moreover have "offers_only s (set_order (od_id o') ?f s)" by (rule offers_only_order) (auto simp: FINAL_def split: if_splits)
  ultimately show ?thesis by (simp add: activate_def)
qed

lemma activate_all_inv:
  "fleet_inv s \<Longrightarrow> fleet_inv (fold activate os s) \<and> offers_only s (fold activate os s)"
proof (induction os arbitrary: s)
  case (Cons a os)
  note a = activate_inv [OF Cons.prems, of a]
  with Cons.IH [of "activate a s"] show ?case using offers_only_trans by auto
qed simp

lemma scheduled_inv:
  assumes inv: "fleet_inv s" and run: "processDueCustomerScheduledOrders env batch s = Some (n, ds, s')"
  shows "fleet_inv s' \<and> offers_only s s'"
proof (cases "due_orders env batch s = []")
  case True
  then show ?thesis using run inv by (auto simp: processDueCustomerScheduledOrders_def)
next
  case False
  let ?s1 = "fold activate (due_orders env batch s) s"
  note a = activate_all_inv [OF inv, of "due_orders env batch s"]
  from run False obtain ds1 where "advanceOnDemandDispatchQueue env (length (due_orders env batch s)) ?s1 = Some (ds1, s')"
    by (auto simp: processDueCustomerScheduledOrders_def Let_def split: option.splits prod.splits)
  with advance_inv [OF conjunct1 [OF a] this] a show ?thesis using offers_only_trans by metis
qed

section \<open>Offers to one order leave the others alone\<close>

lemma active_legs_set_order:
  assumes "\<And>o'. od_id (f o') = od_id o'" and "\<And>o'. (od_status (f o') \<in> set ENDED) = (od_status o' \<in> set ENDED)"
  shows "active_legs u i (set_order j f s) = map (\<lambda>(l, a). (l, if od_id a = j then f a else a)) (active_legs u i s)"
proof -
  let ?g = "\<lambda>a. if od_id a = j then f a else a"
  have g: "od_id (?g a) = od_id a" "(od_status (?g a) \<in> set ENDED) = (od_status a \<in> set ENDED)" for a using assms by simp_all
  have "concat (map (\<lambda>a. if od_id a = lg_order l \<and> lg_courier l = Some u \<and> lg_order l \<noteq> i \<and> od_status a \<notin> set ENDED \<and> lg_status l \<notin> set ENDED
        then [(l, a)] else []) (map ?g os))
     = map (\<lambda>(l, a). (l, ?g a)) (concat (map (\<lambda>a. if od_id a = lg_order l \<and> lg_courier l = Some u \<and> lg_order l \<noteq> i \<and> od_status a \<notin> set ENDED
        \<and> lg_status l \<notin> set ENDED then [(l, a)] else []) os))" for l :: leg_row and os
    by (induction os) (simp_all add: g del: if_image_distrib cong: if_cong)
  then show ?thesis by (simp add: active_legs_def set_order_def map_concat comp_def cong: map_cong)
qed

lemma jobs_of_set_order:
  assumes "\<And>o'. od_id (f o') = od_id o'" and "\<And>o'. (od_status (f o') \<in> set ENDED) = (od_status o' \<in> set ENDED)"
    and "\<And>o'. od_customer (f o') = od_customer o'"
  shows "jobs_of u i cust (set_order j f s) = jobs_of u i cust s"
  using assms(3) by (simp add: jobs_of_def active_legs_set_order [OF assms(1,2)] Let_def list_ex_iff case_prod_unfold)

text \<open>What the match of an order depends on.\<close>

definition same_match :: "uuid \<Rightarrow> fleet \<Rightarrow> fleet \<Rightarrow> bool" where
  "same_match i s s' \<longleftrightarrow> fl_services s' = fl_services s \<and> fl_couriers s' = fl_couriers s \<and> fl_capabilities s' = fl_capabilities s
     \<and> fl_vehicles s' = fl_vehicles s \<and> fl_zones s' = fl_zones s \<and> fl_paid s' = fl_paid s
     \<and> order_dispatches i s' = order_dispatches i s \<and> find_order i s' = find_order i s
     \<and> (\<forall>u cust. jobs_of u i cust s' = jobs_of u i cust s)"

lemma same_match_trans: "same_match i s s' \<Longrightarrow> same_match i s' s'' \<Longrightarrow> same_match i s s''"
  by (simp add: same_match_def)

lemma has_open_offer_filter:
  "has_open_offer i u s \<longleftrightarrow> list_ex (\<lambda>d. dp_courier d = u \<and> (dp_status d = DOffered \<or> dp_status d = DAccepted)) (order_dispatches i s)"
  by (auto simp: has_open_offer_def order_dispatches_def list_ex_iff)

lemma same_match_candidates:
  assumes "same_match (od_id o') s s'"
  shows "candidates env s' o' = candidates env s o'"
proof -
  have "zone_covers env c o' s' = zone_covers env c o' s" "room_for env v c o' s' = room_for env v c o' s"
    "has_open_offer (od_id o') u s' = has_open_offer (od_id o') u s" for c v u
    using assms unfolding same_match_def zone_covers_def room_for_def has_open_offer_filter by metis+
  then have "eligible env s' o' v c a h = eligible env s o' v c a h" for v c a h
    using assms by (simp add: eligible_def same_match_def)
  then show ?thesis using assms by (simp add: candidates_def same_match_def)
qed

lemma same_match_pending: "same_match i s s' \<Longrightarrow> offer_pending env i s' = offer_pending env i s"
  by (simp add: same_match_def offer_pending_def)

lemma put_offer_other:
  assumes put: "put_offer env j c s = Some (d, s')" and keys: "keys_ok s" and ne: "i \<noteq> j"
  shows "order_dispatches i s' = order_dispatches i s"
proof (cases "find (\<lambda>x. dp_order x = j \<and> dp_courier x = cd_courier c) (fl_dispatches s)")
  case None
  then show ?thesis using put_offer_insert [OF put None] ne by (simp add: order_dispatches_def new_offer_def)
next
  case (Some x)
  note u = put_offer_update [OF put Some]
  have "filter (\<lambda>y. dp_order y = i) (map (\<lambda>y. if dp_order y = j \<and> dp_courier y = cd_courier c then d else y) xs) = filter (\<lambda>y. dp_order y = i) xs" for xs
    using u ne by (induction xs) (auto simp: new_offer_def)
  then show ?thesis using u by (simp add: order_dispatches_def)
qed

lemma put_offer_tables: "put_offer env j c s = Some (d, s') \<Longrightarrow> \<exists>ds. s' = s\<lparr>fl_dispatches := ds\<rparr>"
  by (cases "find (\<lambda>x. dp_order x = j \<and> dp_courier x = cd_courier c) (fl_dispatches s)")
    (auto dest: put_offer_insert put_offer_update)

lemma find_order_set_other: "(\<And>o'. od_id (f o') = od_id o') \<Longrightarrow> i \<noteq> j \<Longrightarrow> find_order i (set_order j f s) = find_order i s"
proof -
  assume f: "\<And>o'. od_id (f o') = od_id o'" and ne: "i \<noteq> j"
  have "find (\<lambda>o'. od_id o' = i) (map (\<lambda>o'. if od_id o' = j then f o' else o') os) = find (\<lambda>o'. od_id o' = i) os" for os
    using f ne by (induction os) auto
  then show ?thesis by (simp add: find_order_def set_order_def)
qed

lemma dispatch_next_other:
  assumes inv: "fleet_inv s" and run: "dispatchNextOnDemandCourier env j s = Some (d, s')" and ne: "i \<noteq> j"
  shows "same_match i s s'"
  using run
proof (cases rule: dispatch_next_cases)
  case nothing
  then show ?thesis by (simp add: same_match_def)
next
  case (offer o' c x s1)
  obtain ds where s1: "s1 = s\<lparr>fl_dispatches := ds\<rparr>" using put_offer_tables [OF offer(4)] by blast
  have "order_dispatches i s1 = order_dispatches i s" using put_offer_other [OF offer(4) _ ne] inv by (simp add: fleet_inv_def)
  moreover have "find_order i (set_order j offered_status s1) = find_order i s1" by (rule find_order_set_other [OF _ ne]) simp
  moreover have "jobs_of u i cust (set_order j offered_status s1) = jobs_of u i cust s1" for u cust by (rule jobs_of_set_order) simp_all
  ultimately show ?thesis unfolding offer(6) s1
    by (simp add: same_match_def order_dispatches_def find_order_def jobs_of_def active_legs_def set_order_def add_event_def)
qed

lemma dispatch_each_other:
  "fleet_inv s \<Longrightarrow> dispatch_each env is s = Some (ds, s') \<Longrightarrow> i \<notin> set is \<Longrightarrow> same_match i s s'"
proof (induction "is" arbitrary: s ds)
  case Nil
  then show ?case by (simp add: same_match_def)
next
  case (Cons j "is")
  from Cons.prems(2) obtain d s1 ds1 where r: "dispatchNextOnDemandCourier env j s = Some (d, s1)" "dispatch_each env is s1 = Some (ds1, s')"
    by (auto split: option.splits prod.splits)
  have "same_match i s s1" by (rule dispatch_next_other [OF Cons.prems(1) r(1)]) (use Cons.prems in auto)
  moreover have "same_match i s1 s'" using Cons.IH [OF _ r(2)] dispatch_next_inv [OF Cons.prems(1) r(1)] Cons.prems(3) by simp
  ultimately show ?case by (rule same_match_trans)
qed

text \<open>After an attempt an order has an open offer, or no courier to offer it to.\<close>

definition served :: "match_env \<Rightarrow> fleet \<Rightarrow> uuid \<Rightarrow> bool" where
  "served env s i \<longleftrightarrow> offer_pending env i s \<or> (\<forall>o'. find_order i s = Some o' \<longrightarrow> candidates env s o' = [])"

lemma same_match_served: "same_match i s s' \<Longrightarrow> served env s i \<Longrightarrow> served env s' i"
proof -
  assume m: "same_match i s s'" and v: "served env s i"
  have "candidates env s' o' = []" if "find_order i s' = Some o'" "\<not> offer_pending env i s" for o'
  proof -
    have "find_order i s = Some o'" using m that(1) by (simp add: same_match_def)
    then have "candidates env s o' = []" "od_id o' = i" using v that(2) find_order_member by (auto simp: served_def)
    then show ?thesis using same_match_candidates [of o' s s' env] m by simp
  qed
  then show ?thesis using v same_match_pending [OF m] by (auto simp: served_def)
qed

lemma put_offer_pending:
  assumes put: "put_offer env i c s = Some (d, s')" and keys: "keys_ok s"
  shows "offer_pending env i s'"
proof -
  from put_offer_rows [OF put keys] obtain ds where "s' = s\<lparr>fl_dispatches := ds\<rparr>" "d \<in> set ds" "new_offer env i c d" by auto
  then show ?thesis by (auto simp: offer_pending_def order_dispatches_def list_ex_iff new_offer_def intro!: bexI [of _ d])
qed

lemma dispatch_next_served:
  assumes inv: "fleet_inv s" and run: "dispatchNextOnDemandCourier env i s = Some (d, s')"
  shows "served env s' i"
  using run
proof (cases rule: dispatch_next_cases)
  case nothing
  then show ?thesis by (simp add: served_def)
next
  case (offer o' c x s1)
  have "offer_pending env i s1" by (rule put_offer_pending [OF offer(4)]) (use inv in \<open>simp add: fleet_inv_def\<close>)
  then show ?thesis unfolding offer(6) served_def offer_pending_def order_dispatches_def by simp
qed

lemma dispatch_each_served:
  "fleet_inv s \<Longrightarrow> dispatch_each env is s = Some (ds, s') \<Longrightarrow> distinct is \<Longrightarrow> i \<in> set is \<Longrightarrow> served env s' i"
proof (induction "is" arbitrary: s ds)
  case (Cons j "is")
  from Cons.prems(2) obtain d s1 ds1 where r: "dispatchNextOnDemandCourier env j s = Some (d, s1)" "dispatch_each env is s1 = Some (ds1, s')"
    by (auto split: option.splits prod.splits)
  have inv: "fleet_inv s1" using dispatch_next_inv [OF Cons.prems(1) r(1)] by simp
  show ?case
  proof (cases "i = j")
    case True
    then have "i \<notin> set is" using Cons.prems(3) by simp
    then show ?thesis using dispatch_next_served [OF Cons.prems(1) r(1)] same_match_served [OF dispatch_each_other [OF inv r(2)]] True by blast
  next
    case False
    then show ?thesis using Cons.IH [OF inv r(2)] Cons.prems by simp
  qed
qed simp

section \<open>Properties\<close>

lemma queue_distinct: "keys_ok s \<Longrightarrow> distinct (queue env limit s)"
proof -
  assume "keys_ok s"
  then have "distinct (map od_id (fl_orders s))" by (simp add: keys_ok_def)
  then have inj: "inj_on od_id (set (fl_orders s))" and d: "distinct (fl_orders s)" by (simp_all add: distinct_map)
  let ?q = "take limit (filter (\<lambda>o'. \<not> me_locked env (od_id o')) (sort_key (\<lambda>o'. status_rank (od_status o')) (sort_key od_created (filter (waiting s) (fl_orders s)))))"
  have "distinct ?q" using d by simp
  moreover have "set ?q \<subseteq> set (fl_orders s)" by (auto dest: in_set_takeD)
  ultimately show "distinct (queue env limit s)" unfolding queue_def by (simp add: distinct_map inj_on_subset [OF inj])
qed

lemma queue_member:
  assumes "o' \<in> set (fl_orders s)" "waiting s o'" "\<not> me_locked env (od_id o')" "length (fl_orders s) \<le> limit"
  shows "od_id o' \<in> set (queue env limit s)"
proof -
  let ?q = "filter (\<lambda>o'. \<not> me_locked env (od_id o')) (sort_key (\<lambda>o'. status_rank (od_status o')) (sort_key od_created (filter (waiting s) (fl_orders s))))"
  have "length ?q \<le> length (fl_orders s)"
    by (rule order_trans [OF length_filter_le]) (simp add: length_filter_le)
  then have "take limit ?q = ?q" using assms(4) by simp
  then show ?thesis using assms by (simp add: queue_def)
qed

lemma find_order_unique: "keys_ok s \<Longrightarrow> o' \<in> set (fl_orders s) \<Longrightarrow> find_order (od_id o') s = Some o'"
proof -
  assume k: "keys_ok s" and o': "o' \<in> set (fl_orders s)"
  have "find (\<lambda>x. od_id x = od_id o') (fl_orders s) \<noteq> None" using o' by (auto simp: find_None_iff)
  then obtain p where p: "find_order (od_id o') s = Some p" by (auto simp: find_order_def)
  then have "p \<in> set (fl_orders s)" "od_id p = od_id o'" using find_order_member by blast+
  then have "p = o'" using k o' by (auto simp: keys_ok_def distinct_map dest: inj_onD)
  then show ?thesis using p by simp
qed


text \<open>
  C20.  After a run of the queue that covers all orders, every order whose row is not locked and that awaits a courier
  either has an open offer or nobody is eligible for it.
\<close>

theorem waiting_orders_served:
  assumes run: "advanceOnDemandDispatchQueue env limit s = Some (ds, s')" and inv: "fleet_inv s" and all: "length (fl_orders s) \<le> limit"
    and o': "o' \<in> set (fl_orders s')" "waiting s' o'" "\<not> me_locked env (od_id o')"
  shows "candidates env s' o' = []"
proof -
  from run obtain ds1 s1 ds2 where r: "expireStaleOnDemandOffers env s = Some (ds1, s1)" "dispatch_each env (queue env limit s1) s1 = Some (ds2, s')"
    by (auto simp: advanceOnDemandDispatchQueue_def split: option.splits prod.splits)
  have inv1: "fleet_inv s1" and "map od_id (fl_orders s1) = map od_id (fl_orders s)" using expire_inv [OF inv r(1)] by (simp_all add: offers_only_def)
  then have len: "length (fl_orders s1) \<le> limit" using all by (metis length_map)
  have inv': "fleet_inv s'" using dispatch_each_inv [OF inv1 r(2)] by simp
  have f: "find_order (od_id o') s' = Some o'" by (rule find_order_unique) (use inv' o'(1) in \<open>simp_all add: fleet_inv_def\<close>)
  have np: "\<not> offer_pending env (od_id o') s'" using o'(2) by (auto simp: waiting_def offer_pending_def list_ex_iff)
  show ?thesis
  proof (cases "od_id o' \<in> set (queue env limit s1)")
    case True
    have "served env s' (od_id o')" by (rule dispatch_each_served [OF inv1 r(2) queue_distinct True]) (use inv1 in \<open>simp add: fleet_inv_def\<close>)
    then show ?thesis using np f by (simp add: served_def)
  next
    case False
    note m = dispatch_each_other [OF inv1 r(2) False]
    have "find_order (od_id o') s1 = Some o'" using m f by (simp add: same_match_def)
    then have "o' \<in> set (fl_orders s1)" using find_order_member by blast
    moreover have "waiting s1 o'" using m o'(2) by (simp add: waiting_def same_match_def)
    ultimately have "od_id o' \<in> set (queue env limit s1)" by (rule queue_member [OF _ _ o'(3)]) (rule len)
    then show ?thesis using False by simp
  qed
qed

section \<open>Examples\<close>

definition demo_policy :: earning_policy where
  "demo_policy = \<lparr>ep_version = ''1'', ep_service = ''ride'', ep_percent = 80, ep_minimum = 5000, ep_waiting = \<lparr>cr_enabled = False, cr_cap = 0\<rparr>,
     ep_threshold = 0, ep_rate = 0, ep_toll = \<lparr>cr_enabled = False, cr_cap = 0\<rparr>, ep_return = \<lparr>cr_enabled = False, cr_cap = 0\<rparr>,
     ep_extra = \<lparr>cr_enabled = False, cr_cap = 0\<rparr>, ep_extra_percent = 0, ep_cancellation = \<lparr>cr_enabled = False, cr_cap = 0\<rparr>\<rparr>"

definition demo_order :: order_row where
  "demo_order = \<lparr>od_id = ''o1'', od_customer = ''u1'', od_merchant = None, od_model = ''p2p'', od_status = ''pending'', od_service = Some ''ride'',
     od_sub_type = None, od_batch = None, od_pickup = (0, 0), od_dropoff = (1, 1), od_total = 20000, od_commission = 4000, od_estimate = Some 16000,
     od_token = Some ''T'', od_schedule_type = ''now'', od_scheduled = None, od_created = 0, od_policy = Some demo_policy\<rparr>"

definition demo_service :: service_row where
  "demo_service = \<lparr>sv_code = ''ride'', sv_enabled = True, sv_category = ''on_demand'', sv_vehicles = [''motor''], sv_max_active = None,
     sv_same_customer = None, sv_while_pickup = None, sv_while_delivery = None, sv_radius_pickup = None, sv_radius_delivery = None,
     sv_geofence = None, sv_accuracy = None, sv_override = None, sv_face = None, sv_failed_policy = None, sv_reschedules = None\<rparr>"

definition demo_courier :: "string \<Rightarrow> rat \<Rightarrow> courier_row" where
  "demo_courier u rating = \<lparr>cu_user = u, cu_profile = u, cu_channel = ''on_demand'', cu_verification = ''approved'', cu_onboarding = ''ACTIVE'',
     cu_online = True, cu_zone = Some ''z'', cu_location = Some (0, 0), cu_located = Some 0, cu_rating = Some rating, cu_relay = None,
     cu_acceptance = None, cu_completion = None, cu_car = None\<rparr>"

definition demo_vehicle :: "string \<Rightarrow> vehicle_row" where
  "demo_vehicle u = \<lparr>vh_id = ''v'' @ u, vh_profile = u, vh_status = ''approved'', vh_type = ''motor'', vh_category = None\<rparr>"

definition demo_capability :: "string \<Rightarrow> capability_row" where
  "demo_capability u = \<lparr>ca_profile = u, ca_service = ''ride'', ca_channel = ''on_demand'', ca_status = ''enabled'', ca_vehicle = None\<rparr>"

definition demo_fleet :: fleet where
  "demo_fleet = \<lparr>fl_orders = [demo_order], fl_legs = [], fl_dispatches = [], fl_couriers = [demo_courier ''c1'' 4, demo_courier ''c2'' 5],
     fl_vehicles = [demo_vehicle ''c1'', demo_vehicle ''c2''], fl_capabilities = [demo_capability ''c1'', demo_capability ''c2''],
     fl_services = [demo_service], fl_zones = [(''z'', True)], fl_paid = [''o1''], fl_packages = [], fl_scans = [], fl_faces = [], fl_attempts = [],
     fl_policies = [], fl_earnings = [], fl_events = []\<rparr>"

definition demo_env :: match_env where
  "demo_env = \<lparr>me_now = 0, me_clock = 0, me_distance = (\<lambda>_ _. 500), me_covers = (\<lambda>_ _. True), me_documents = (\<lambda>_ _. True), me_presence = (\<lambda>_. True),
     me_capability = (\<lambda>_ _. True), me_service_on = (\<lambda>_ _. True), me_locked = (\<lambda>_. False), me_new_id = (\<lambda>i. ''d'' @ i)\<rparr>"

definition demo_offer :: offer_row where
  "demo_offer = \<lparr>dp_id = ''do1'', dp_order = ''o1'', dp_courier = ''c2'', dp_zone = ''z'', dp_rank = 1, dp_score = 160, dp_status = DOffered, dp_expires = 90000,
     dp_responded = None, dp_reason = None, dp_vehicle = Some ''vc2'', dp_created = 0\<rparr>"

definition demo_offered :: fleet where
  "demo_offered = demo_fleet\<lparr>fl_orders := [demo_order\<lparr>od_status := ''offered''\<rparr>], fl_dispatches := [demo_offer],
     fl_events := [(''o1'', ''c2'', ''offer_dispatched'')]\<rparr>"

lemma demo_dispatch: "dispatchNextOnDemandCourier demo_env ''o1'' demo_fleet = Some (Some demo_offer, demo_offered)"
  by code_simp

lemma demo_inv: "fleet_inv demo_fleet" "fleet_inv demo_offered"
  by (simp_all add: fleet_inv_def keys_ok_def dispatch_ok_def demo_fleet_def demo_offered_def demo_offer_def awaits_def held_def order_ok_def READY_def demo_order_def)


definition demo_idle :: fleet where
  "demo_idle = demo_fleet\<lparr>fl_couriers := [(demo_courier ''c1'' 4)\<lparr>cu_online := False\<rparr>]\<rparr>"

lemma demo_idle_advance: "advanceOnDemandDispatchQueue demo_env 1 demo_idle = Some ([], demo_idle)"
  by code_simp

theorem waiting_orders_served_witness:
  "candidates demo_env demo_idle demo_order = [] \<and> waiting demo_idle demo_order"
proof -
  have inv: "fleet_inv demo_idle" using demo_inv(1) by (subst fleet_inv_cong [of _ demo_fleet]) (simp_all add: demo_idle_def)
  have w: "waiting demo_idle demo_order" by code_simp
  have "candidates demo_env demo_idle demo_order = []"
    by (rule waiting_orders_served [OF demo_idle_advance inv _ _ w]) (simp_all add: demo_idle_def demo_fleet_def demo_env_def)
  with w show ?thesis by simp
qed

end
