(* ===== verification/OfferResponse.thy ===== *)
theory OfferResponse
  imports OfferDispatch
begin

text \<open>
  A courier's answer to an offer (\<open>controllers/courier/courierOffer.controller.ts\<close>).  Every refusal rolls the
  transaction back, the expiry of stale offers before it included.  A new leg takes a random id; a clash is a server error.
\<close>

datatype offer_reply = OfferAccepted uuid | OfferRejected | OfferNotFound | OfferExpired | CourierNotEligible
  | VehicleBindingRequired | VehicleBindingConflict | OfferTaken | ServerError

section \<open>Acceptance\<close>

text \<open>The offer with the id, or else the courier's latest one of the order with the id.\<close>

definition offer_of :: "uuid \<Rightarrow> uuid \<Rightarrow> fleet \<Rightarrow> (offer_row \<times> order_row) option" where
  "offer_of i user s =
     (let found = [(d, o'). d \<leftarrow> fl_dispatches s, o' \<leftarrow> fl_orders s, od_id o' = dp_order d \<and> (dp_id d = i \<or> dp_order d = i) \<and> dp_courier d = user]
      in case sort_key (\<lambda>(d, o'). if dp_id d = i then 0 else 1 :: nat) (sort_key (\<lambda>(d, o'). - dp_created d) found) of [] \<Rightarrow> None | r # _ \<Rightarrow> Some r)"

text \<open>The matching rules once more, without the distances.\<close>

definition may_accept :: "match_env \<Rightarrow> fleet \<Rightarrow> offer_row \<Rightarrow> order_row \<Rightarrow> uuid \<Rightarrow> bool" where
  "may_accept env s d o' user \<longleftrightarrow> (dp_zone d, True) \<in> set (fl_zones s)
     \<and> list_ex (\<lambda>c. cu_user c = user \<and> cu_channel c = ''on_demand'' \<and> cu_verification c = ''approved'' \<and> cu_onboarding c = ''ACTIVE''
         \<and> me_documents env (cu_profile c) None \<and> cu_online c \<and> me_presence env (cu_profile c) \<and> cu_zone c = Some (dp_zone d)
         \<and> list_ex (\<lambda>v. service_offers v o' \<and> list_ex (capability_serves env c v) (fl_capabilities s)
             \<and> (let j = jobs_of user (od_id o') (od_customer o') s in capacity_ok v j \<and> (aj_count j = 0 \<or> batching_ok v j)))
           (fl_services s)) (fl_couriers s)"

definition vehicle_bound :: "match_env \<Rightarrow> fleet \<Rightarrow> string \<Rightarrow> uuid \<Rightarrow> string option \<Rightarrow> bool" where
  "vehicle_bound env s vid user service \<longleftrightarrow>
     list_ex (\<lambda>h. vh_id h = vid \<and> vh_status h = ''approved'' \<and> list_ex (\<lambda>c. cu_profile c = vh_profile h \<and> cu_user c = user \<and> cu_onboarding c = ''ACTIVE''
       \<and> me_documents env (cu_profile c) service) (fl_couriers s)) (fl_vehicles s)"

definition take_leg :: "instant \<Rightarrow> uuid \<Rightarrow> uuid \<Rightarrow> leg_row \<Rightarrow> leg_row" where
  "take_leg now user vid l = l\<lparr>lg_courier := Some user, lg_vehicle := Some vid, lg_status := ''accepted'',
     lg_assigned := Some (or_else (lg_assigned l) now)\<rparr>"

definition assigned_fee :: "order_row \<Rightarrow> int" where
  "assigned_fee o' = (if or_else (od_estimate o') 0 \<noteq> 0 then or_else (od_estimate o') 0 else max (od_total o' - od_commission o') 0)"

definition new_leg :: "match_env \<Rightarrow> order_row \<Rightarrow> uuid \<Rightarrow> uuid \<Rightarrow> leg_row" where
  "new_leg env o' user vid =
     \<lparr>lg_id = me_new_id env (od_id o'), lg_order = od_id o', lg_number = 1, lg_courier = Some user, lg_vehicle = Some vid, lg_status = ''accepted'',
      lg_facts = \<lparr>lf_fee = assigned_fee o', lf_idle = 0, lf_toll = 0, lf_return = 0, lf_extra = 0, lf_cancellation = 0, lf_penalty = 0\<rparr>,
      lg_assigned = Some (me_now env), lg_safety = ''NONE''\<rparr>"

definition bind_leg :: "match_env \<Rightarrow> order_row \<Rightarrow> uuid \<Rightarrow> uuid \<Rightarrow> fleet \<Rightarrow> fleet option" where
  "bind_leg env o' user vid s =
     (case first_leg (od_id o') s of
       Some l \<Rightarrow> Some (set_legs (\<lambda>x. lg_id x = lg_id l) (take_leg (me_now env) user vid) s)
     | None \<Rightarrow> if me_new_id env (od_id o') \<in> lg_id ` set (fl_legs s) then None
         else (let l = new_leg env o' user vid in Some (credit_leg l (s\<lparr>fl_legs := fl_legs s @ [l]\<rparr>))))"

definition accept_row :: "instant \<Rightarrow> offer_row \<Rightarrow> offer_row" where
  "accept_row now d = d\<lparr>dp_status := DAccepted, dp_responded := Some now, dp_reason := Some ''accepted_by_courier''\<rparr>"

definition lose_row :: "instant \<Rightarrow> offer_row \<Rightarrow> offer_row" where
  "lose_row now d = d\<lparr>dp_status := DLost, dp_responded := Some (or_else (dp_responded d) now), dp_reason := Some ''accepted_by_another_courier''\<rparr>"

definition settle_offers :: "instant \<Rightarrow> offer_row \<Rightarrow> fleet \<Rightarrow> fleet" where
  "settle_offers now d s =
     set_dispatches (\<lambda>x. dp_order x = dp_order d \<and> dp_id x \<noteq> dp_id d \<and> dp_status x = DOffered) (lose_row now)
       (set_dispatches (\<lambda>x. dp_id x = dp_id d) (accept_row now) s)"

text \<open>Why the leg refuses the courier.\<close>

definition leg_refusal :: "uuid \<Rightarrow> uuid \<Rightarrow> string \<Rightarrow> fleet \<Rightarrow> offer_reply option" where
  "leg_refusal i user vid s =
     (case first_leg i s of None \<Rightarrow> None
      | Some l \<Rightarrow> if lg_courier l \<noteq> None \<and> lg_courier l \<noteq> Some user then Some OfferTaken
          else if lg_vehicle l \<noteq> None \<and> lg_vehicle l \<noteq> Some vid then Some VehicleBindingConflict else None)"

definition offer_refusal :: "match_env \<Rightarrow> offer_row \<Rightarrow> order_row \<Rightarrow> uuid \<Rightarrow> fleet \<Rightarrow> offer_reply option" where
  "offer_refusal env d o' user s =
     (let vid = js_trim (or_else (dp_vehicle d) []) in
      if dp_status d \<noteq> DOffered \<or> dp_expires d \<le> me_clock env then Some OfferExpired
      else if \<not> may_accept env s d o' user then Some CourierNotEligible
      else if vid = [] then Some VehicleBindingRequired
      else if \<not> vehicle_bound env s vid user (order_service o') then Some VehicleBindingConflict
      else leg_refusal (od_id o') user vid s)"

definition take_offer :: "match_env \<Rightarrow> offer_row \<Rightarrow> order_row \<Rightarrow> uuid \<Rightarrow> fleet \<Rightarrow> fleet option" where
  "take_offer env d o' user s =
     (case bind_leg env o' user (js_trim (or_else (dp_vehicle d) [])) s of None \<Rightarrow> None
      | Some s' \<Rightarrow> Some (add_event (od_id o') user ''offer_accepted''
          (set_order (od_id o') (\<lambda>x. x\<lparr>od_status := ''accepted''\<rparr>) (settle_offers (me_now env) d s'))))"

definition acceptMobileCourierOffer :: "match_env \<Rightarrow> uuid \<Rightarrow> uuid \<Rightarrow> fleet \<Rightarrow> offer_reply \<times> fleet" where
  "acceptMobileCourierOffer env i user s =
     (case expireStaleOnDemandOffers env s of None \<Rightarrow> (ServerError, s)
      | Some (_, s1) \<Rightarrow> (case offer_of i user s1 of None \<Rightarrow> (OfferNotFound, s)
          | Some (d, o') \<Rightarrow> (case offer_refusal env d o' user s1 of Some r \<Rightarrow> (r, s)
              | None \<Rightarrow> (case take_offer env d o' user s1 of None \<Rightarrow> (ServerError, s) | Some s2 \<Rightarrow> (OfferAccepted (od_id o'), s2)))))"

section \<open>Rejection\<close>

definition reject_row :: "instant \<Rightarrow> string \<Rightarrow> offer_row \<Rightarrow> offer_row" where
  "reject_row now reason d = d\<lparr>dp_status := DRejected, dp_responded := Some now, dp_reason := Some reason\<rparr>"

definition rejectMobileCourierOffer :: "match_env \<Rightarrow> uuid \<Rightarrow> uuid \<Rightarrow> string \<Rightarrow> fleet \<Rightarrow> offer_reply \<times> fleet" where
  "rejectMobileCourierOffer env i user reason s =
     (let mine = (\<lambda>d. (dp_id d = i \<or> dp_order d = i) \<and> dp_courier d = user \<and> dp_status d = DOffered) in
      case expireStaleOnDemandOffers env s of None \<Rightarrow> (ServerError, s)
      | Some (_, s1) \<Rightarrow> (case filter mine (fl_dispatches s1) of [] \<Rightarrow> (OfferNotFound, s)
          | d # _ \<Rightarrow>
              (case dispatchNextOnDemandCourier env (dp_order d)
                   (add_event (dp_order d) user ''offer_rejected'' (set_dispatches mine (reject_row (me_now env) reason) s1)) of
                None \<Rightarrow> (ServerError, s) | Some (_, s2) \<Rightarrow> (OfferRejected, s2))))"

section \<open>Writes of legs\<close>

abbreviation earning_keys :: "earning_row list \<Rightarrow> (uuid \<times> uuid) list" where
  "earning_keys es \<equiv> map (\<lambda>e. (er_courier e, er_order e)) es"

lemma credit_leg_eq: "\<exists>es. credit_leg l s = s\<lparr>fl_earnings := es\<rparr> \<and> (distinct (earning_keys (fl_earnings s)) \<longrightarrow> distinct (earning_keys es))"
proof (cases "credit_leg l s = s")
  case True
  then show ?thesis by (intro exI [of _ "fl_earnings s"]) simp
next
  case False
  then obtain c where c: "lg_courier l = Some c" by (cases "lg_courier l") (simp_all add: credit_leg_def)
  let ?e = "\<lparr>er_courier = c, er_order = lg_order l, er_amount = sync_courier_delivery_earning (policy_of (lg_order l) s) (lg_facts l) (lg_status l)\<rparr>"
  have new: "\<not> list_ex (\<lambda>e. er_courier e = c \<and> er_order e = lg_order l) (fl_earnings s)" "credit_leg l s = s\<lparr>fl_earnings := fl_earnings s @ [?e]\<rparr>"
    using False c by (simp_all add: credit_leg_def Let_def split: if_splits)
  then show ?thesis by (intro exI [of _ "fl_earnings s @ [?e]"]) (auto simp: list_ex_iff)
qed

lemma credit_legs_eq: "\<exists>es. fold credit_leg ls s = s\<lparr>fl_earnings := es\<rparr> \<and> (distinct (earning_keys (fl_earnings s)) \<longrightarrow> distinct (earning_keys es))"
proof (induction ls arbitrary: s)
  case Nil
  show ?case by (intro exI [of _ "fl_earnings s"]) simp
next
  case (Cons l ls)
  from credit_leg_eq [of l s] obtain es where es: "credit_leg l s = s\<lparr>fl_earnings := es\<rparr>"
    "distinct (earning_keys (fl_earnings s)) \<longrightarrow> distinct (earning_keys es)" by blast
  from Cons.IH [of "s\<lparr>fl_earnings := es\<rparr>"] es show ?case by auto
qed

lemma set_legs_eq: "\<exists>es. set_legs P f s = s\<lparr>fl_legs := map (\<lambda>l. if P l then f l else l) (fl_legs s), fl_earnings := es\<rparr>
   \<and> (distinct (earning_keys (fl_earnings s)) \<longrightarrow> distinct (earning_keys es))"
  using credit_legs_eq [of "map f (filter P (fl_legs s))" "s\<lparr>fl_legs := map (\<lambda>l. if P l then f l else l) (fl_legs s)\<rparr>"]
  unfolding set_legs_def by simp

lemma set_legs_sel [simp]: "fl_legs (set_legs P f s) = map (\<lambda>l. if P l then f l else l) (fl_legs s)"
  "fl_orders (set_legs P f s) = fl_orders s" "fl_dispatches (set_legs P f s) = fl_dispatches s" "fl_policies (set_legs P f s) = fl_policies s"
  "fl_paid (set_legs P f s) = fl_paid s"
  using set_legs_eq [of P f s] by auto

lemma set_legs_earnings: "distinct (earning_keys (fl_earnings s)) \<Longrightarrow> distinct (earning_keys (fl_earnings (set_legs P f s)))"
  using set_legs_eq [of P f s] by auto

lemma credit_leg_sel [simp]: "fl_legs (credit_leg l s) = fl_legs s"
  "fl_orders (credit_leg l s) = fl_orders s" "fl_dispatches (credit_leg l s) = fl_dispatches s" "fl_policies (credit_leg l s) = fl_policies s"
  "fl_paid (credit_leg l s) = fl_paid s"
  using credit_leg_eq [of l s] by auto

lemma credit_leg_earnings: "distinct (earning_keys (fl_earnings s)) \<Longrightarrow> distinct (earning_keys (fl_earnings (credit_leg l s)))"
  using credit_leg_eq [of l s] by auto

text \<open>Moving legs on, with their couriers unchanged.\<close>

lemma legs_inv:
  assumes inv: "fleet_inv s"
    and keep: "\<And>l. lg_id (f l) = lg_id l \<and> lg_order (f l) = lg_order l \<and> lg_number (f l) = lg_number l \<and> lg_courier (f l) = lg_courier l"
  shows "fleet_inv (set_legs P f s)"
proof -
  have m: "map g (fl_legs (set_legs P f s)) = map g (fl_legs s)" if "\<And>l. g (f l) = g l" for g :: "leg_row \<Rightarrow> 'b"
    using that by (simp add: comp_def cong: map_cong)
  have ids: "map lg_id (fl_legs (set_legs P f s)) = map lg_id (fl_legs s)" by (rule m) (simp add: keep)
  have nums: "map (\<lambda>l. (lg_order l, lg_number l)) (fl_legs (set_legs P f s)) = map (\<lambda>l. (lg_order l, lg_number l)) (fl_legs s)"
    by (rule m) (simp add: keep)
  have keys: "keys_ok (set_legs P f s)" unfolding keys_ok_def ids nums
    using inv set_legs_earnings [of s P f] by (simp add: fleet_inv_def keys_ok_def)
  define g where "g = (\<lambda>l. if P l then f l else l)"
  have g: "lg_order (g l) = lg_order l" "lg_number (g l) = lg_number l" "lg_courier (g l) = lg_courier l" for l
    using keep by (simp_all add: g_def)
  have legs: "set (fl_legs (set_legs P f s)) = g ` set (fl_legs s)" by (simp add: g_def)
  have "held i (set_legs P f s) = held i s" for i unfolding held_def legs bex_simps g by simp
  moreover have "led_by i u (set_legs P f s) = led_by i u s" for i u unfolding led_by_def legs bex_simps g by simp
  ultimately show ?thesis using inv keys by (simp add: fleet_inv_def dispatch_ok_def order_ok_def awaits_def accepted_def)
qed

section \<open>Changes of the rows of one order\<close>

definition elsewhere :: "uuid \<Rightarrow> fleet \<Rightarrow> fleet \<Rightarrow> bool" where
  "elsewhere i s s' \<longleftrightarrow> (\<forall>o'. od_id o' \<noteq> i \<longrightarrow> (o' \<in> set (fl_orders s')) = (o' \<in> set (fl_orders s)))
     \<and> (\<forall>l. lg_order l \<noteq> i \<longrightarrow> (l \<in> set (fl_legs s')) = (l \<in> set (fl_legs s)))
     \<and> (\<forall>d. dp_order d \<noteq> i \<longrightarrow> (d \<in> set (fl_dispatches s')) = (d \<in> set (fl_dispatches s))) \<and> fl_policies s' = fl_policies s"

lemma elsewhere_inv:
  assumes inv: "fleet_inv s" and e: "elsewhere i s s'" and keys: "keys_ok s'"
    and d: "\<forall>d \<in> set (fl_dispatches s'). dp_order d = i \<longrightarrow> dispatch_ok s' d" and o': "\<forall>o' \<in> set (fl_orders s'). od_id o' = i \<longrightarrow> order_ok s' o'"
  shows "fleet_inv s'"
proof -
  have same: "awaits j s' = awaits j s" "held j s' = held j s" "led_by j u s' = led_by j u s" "accepted j s' = accepted j s" if "j \<noteq> i" for j u
    using e that unfolding elsewhere_def awaits_def held_def led_by_def accepted_def by blast+
  have "dispatch_ok s' x" if x: "x \<in> set (fl_dispatches s')" "dp_order x \<noteq> i" for x
  proof -
    have "dispatch_ok s x" using inv e x by (simp add: fleet_inv_def elsewhere_def)
    moreover have "y \<in> set (fl_dispatches s)" if "y \<in> set (fl_dispatches s')" "dp_order y = dp_order x" for y
      using e that x(2) by (simp add: elsewhere_def)
    ultimately show ?thesis unfolding dispatch_ok_def same(1,2,3) [OF x(2)] by blast
  qed
  moreover have "order_ok s' a" if a: "a \<in> set (fl_orders s')" "od_id a \<noteq> i" for a
  proof -
    have "order_ok s a" using inv e a by (simp add: fleet_inv_def elsewhere_def)
    then show ?thesis by (simp add: order_ok_def same [OF a(2)])
  qed
  ultimately show ?thesis using d o' keys e inv unfolding fleet_inv_def elsewhere_def by metis
qed

section \<open>Acceptance keeps the invariant\<close>

lemma first_leg_member: "first_leg i s = Some l \<Longrightarrow> l \<in> set (fl_legs s) \<and> lg_order l = i \<and> lg_number l = 1"
  by (auto simp: first_leg_def find_Some_iff)

lemma take_leg_sel [simp]: "lg_id (take_leg now u v l) = lg_id l" "lg_order (take_leg now u v l) = lg_order l"
  "lg_number (take_leg now u v l) = lg_number l" "lg_courier (take_leg now u v l) = Some u" "lg_status (take_leg now u v l) = ''accepted''"
  "lg_vehicle (take_leg now u v l) = Some v"
  by (simp_all add: take_leg_def)

definition bound :: "uuid \<Rightarrow> uuid \<Rightarrow> uuid \<Rightarrow> fleet \<Rightarrow> bool" where
  "bound i user vid s \<longleftrightarrow> (\<exists>l \<in> set (fl_legs s). lg_order l = i \<and> lg_number l = 1 \<and> lg_courier l = Some user \<and> lg_vehicle l = Some vid
     \<and> lg_status l = ''accepted'')"

lemma bind_existing:
  fixes now user vid
  assumes keys: "keys_ok s" and l: "first_leg i s = Some l"
  defines "s' \<equiv> set_legs (\<lambda>x. lg_id x = lg_id l) (take_leg now user vid) s"
  shows "keys_ok s'" "bound i user vid s'" "x \<in> set (fl_legs s') \<longleftrightarrow> x = take_leg now user vid l \<or> (x \<in> set (fl_legs s) \<and> lg_id x \<noteq> lg_id l)"
proof -
  note m = first_leg_member [OF l]
  let ?g = "\<lambda>x. if lg_id x = lg_id l then take_leg now user vid x else x"
  have only: "x = l" if "x \<in> set (fl_legs s)" "lg_id x = lg_id l" for x
    using keys that m by (auto simp: keys_ok_def distinct_map dest: inj_onD)
  have ids: "map lg_id (fl_legs s') = map lg_id (fl_legs s)" "map (\<lambda>l. (lg_order l, lg_number l)) (fl_legs s') = map (\<lambda>l. (lg_order l, lg_number l)) (fl_legs s)"
    unfolding s'_def by simp_all
  show "keys_ok s'" unfolding keys_ok_def ids using keys set_legs_earnings [of s] by (simp add: keys_ok_def s'_def)
  show mem: "x \<in> set (fl_legs s') \<longleftrightarrow> x = take_leg now user vid l \<or> (x \<in> set (fl_legs s) \<and> lg_id x \<noteq> lg_id l)" for x
    using only m unfolding s'_def by auto
  show "bound i user vid s'" unfolding bound_def using mem [of "take_leg now user vid l"] m by (intro bexI [of _ "take_leg now user vid l"]) simp_all
qed

lemma bind_leg_inv:
  assumes b: "bind_leg env o' user vid s = Some s'" and keys: "keys_ok s"
  shows "keys_ok s' \<and> bound (od_id o') user vid s' \<and> fl_orders s' = fl_orders s \<and> fl_dispatches s' = fl_dispatches s \<and> fl_policies s' = fl_policies s
     \<and> (\<forall>l. lg_order l \<noteq> od_id o' \<longrightarrow> (l \<in> set (fl_legs s')) = (l \<in> set (fl_legs s)))"
proof (cases "first_leg (od_id o') s")
  case (Some l)
  then have s': "s' = set_legs (\<lambda>x. lg_id x = lg_id l) (take_leg (me_now env) user vid) s" using b by (simp add: bind_leg_def)
  note e = bind_existing [OF keys Some, where now = "me_now env" and user = user and vid = vid]
  have "(x \<in> set (fl_legs s')) = (x \<in> set (fl_legs s))" if o: "lg_order x \<noteq> od_id o'" for x
  proof -
    have "x \<noteq> take_leg (me_now env) user vid l" using o first_leg_member [OF Some] by auto
    moreover have "lg_id x \<noteq> lg_id l" if "x \<in> set (fl_legs s)"
      using keys that o first_leg_member [OF Some] by (auto simp: keys_ok_def distinct_map dest: inj_onD)
    ultimately show ?thesis using e(3) [of x] unfolding s' by blast
  qed
  then show ?thesis using e(1,2) unfolding s' by simp
next
  case None
  let ?l = "new_leg env o' user vid"
  have fresh: "me_new_id env (od_id o') \<notin> lg_id ` set (fl_legs s)" and s': "s' = credit_leg ?l (s\<lparr>fl_legs := fl_legs s @ [?l]\<rparr>)"
    using b None by (auto simp: bind_leg_def Let_def split: if_splits simp del: image_iff)
  have "(od_id o', 1) \<notin> (\<lambda>l. (lg_order l, lg_number l)) ` set (fl_legs s)"
    using None by (auto simp: first_leg_def find_None_iff)
  then have "keys_ok s'" unfolding keys_ok_def s' using keys fresh credit_leg_earnings [of "s\<lparr>fl_legs := fl_legs s @ [?l]\<rparr>" ?l]
    by (simp add: keys_ok_def new_leg_def image_iff)
  moreover have "bound (od_id o') user vid s'" by (simp add: s' bound_def new_leg_def)
  moreover have "fl_legs s' = fl_legs s @ [?l]" "fl_orders s' = fl_orders s" "fl_dispatches s' = fl_dispatches s" "fl_policies s' = fl_policies s"
    by (simp_all add: s')
  moreover have "lg_order ?l = od_id o'" by (simp add: new_leg_def)
  ultimately show ?thesis by auto
qed

lemma offer_of_member:
  assumes "offer_of i user s = Some (d, o')"
  shows "d \<in> set (fl_dispatches s) \<and> o' \<in> set (fl_orders s) \<and> od_id o' = dp_order d \<and> dp_courier d = user \<and> (dp_id d = i \<or> dp_order d = i)"
proof -
  let ?found = "[(d, o'). d \<leftarrow> fl_dispatches s, o' \<leftarrow> fl_orders s, od_id o' = dp_order d \<and> (dp_id d = i \<or> dp_order d = i) \<and> dp_courier d = user]"
  let ?q = "sort_key (\<lambda>(d, o'). if dp_id d = i then 0 else 1 :: nat) (sort_key (\<lambda>(d, o'). - dp_created d) ?found)"
  obtain rest where "?q = (d, o') # rest" using assms unfolding offer_of_def Let_def by (cases ?q) auto
  then have "(d, o') \<in> set ?q" by simp
  then have "(d, o') \<in> set ?found" by (simp only: set_sort)
  then show ?thesis by auto
qed

text \<open>The offers of the order after the acceptance.\<close>

lemma settle_offers_dispatches:
  assumes keys: "keys_ok s" and d: "d \<in> set (fl_dispatches s)"
  shows "x \<in> set (fl_dispatches (settle_offers now d s)) \<Longrightarrow> dp_order x = dp_order d \<Longrightarrow>
       dp_status x \<noteq> DOffered \<and> (x = accept_row now d \<or> (\<exists>y \<in> set (fl_dispatches s). dp_status y = dp_status x \<and> dp_courier y = dp_courier x \<and> dp_order y = dp_order d)
          \<or> dp_status x = DLost)"
    and "accept_row now d \<in> set (fl_dispatches (settle_offers now d s))"
    and "dp_order x \<noteq> dp_order d \<Longrightarrow> (x \<in> set (fl_dispatches (settle_offers now d s))) = (x \<in> set (fl_dispatches s))"
    and "map dp_id (fl_dispatches (settle_offers now d s)) = map dp_id (fl_dispatches s)"
    and "map (\<lambda>d. (dp_order d, dp_courier d)) (fl_dispatches (settle_offers now d s)) = map (\<lambda>d. (dp_order d, dp_courier d)) (fl_dispatches s)"
proof -
  define g where "g = (\<lambda>y. if dp_id y = dp_id d then accept_row now y else if dp_order y = dp_order d \<and> dp_status y = DOffered then lose_row now y else y)"
  have row: "(if dp_order (if dp_id y = dp_id d then accept_row now y else y) = dp_order d \<and> dp_id (if dp_id y = dp_id d then accept_row now y else y) \<noteq> dp_id d
      \<and> dp_status (if dp_id y = dp_id d then accept_row now y else y) = DOffered then lose_row now (if dp_id y = dp_id d then accept_row now y else y)
      else (if dp_id y = dp_id d then accept_row now y else y)) = g y" for y
    by (simp add: g_def accept_row_def)
  have map: "fl_dispatches (settle_offers now d s) = map g (fl_dispatches s)"
    by (simp add: settle_offers_def set_dispatches_def comp_def row)
  have only: "y = d" if "y \<in> set (fl_dispatches s)" "dp_id y = dp_id d" for y
    using keys that d by (auto simp: keys_ok_def distinct_map dest: inj_onD)
  have sel: "dp_id (g y) = dp_id y" "dp_order (g y) = dp_order y" "dp_courier (g y) = dp_courier y" for y
    by (simp_all add: g_def accept_row_def lose_row_def)
  have gd: "g d = accept_row now d" by (simp add: g_def)
  show "accept_row now d \<in> set (fl_dispatches (settle_offers now d s))" unfolding map using d gd by (metis image_eqI set_map)
  show "map dp_id (fl_dispatches (settle_offers now d s)) = map dp_id (fl_dispatches s)"
    "map (\<lambda>d. (dp_order d, dp_courier d)) (fl_dispatches (settle_offers now d s)) = map (\<lambda>d. (dp_order d, dp_courier d)) (fl_dispatches s)"
    unfolding map by (simp_all add: sel)
  have other: "g y = y" if "y \<in> set (fl_dispatches s)" "dp_order y \<noteq> dp_order d" for y using only [OF that(1)] that(2) by (auto simp: g_def)
  show "(x \<in> set (fl_dispatches (settle_offers now d s))) = (x \<in> set (fl_dispatches s))" if o: "dp_order x \<noteq> dp_order d"
  proof
    assume "x \<in> set (fl_dispatches s)"
    then show "x \<in> set (fl_dispatches (settle_offers now d s))" unfolding map using other [OF _ o] by (metis image_eqI set_map)
  next
    assume "x \<in> set (fl_dispatches (settle_offers now d s))"
    then obtain y where "y \<in> set (fl_dispatches s)" "x = g y" unfolding map by auto
    then show "x \<in> set (fl_dispatches s)" using other [of y] o sel by auto
  qed
  assume x: "x \<in> set (fl_dispatches (settle_offers now d s))" "dp_order x = dp_order d"
  then obtain y where y: "y \<in> set (fl_dispatches s)" "x = g y" unfolding map by auto
  then have "dp_order y = dp_order d" using x(2) sel by simp
  consider "y = d" | "y \<noteq> d" "dp_status y = DOffered" | "y \<noteq> d" "dp_status y \<noteq> DOffered" by blast
  then show "dp_status x \<noteq> DOffered \<and> (x = accept_row now d \<or> (\<exists>y \<in> set (fl_dispatches s). dp_status y = dp_status x \<and> dp_courier y = dp_courier x \<and> dp_order y = dp_order d)
          \<or> dp_status x = DLost)"
  proof cases
    case 1
    then show ?thesis using y gd by (simp add: accept_row_def)
  next
    case 2
    then have "x = lose_row now y" using y only [OF y(1)] \<open>dp_order y = dp_order d\<close> by (auto simp: g_def)
    then show ?thesis by (simp add: lose_row_def)
  next
    case 3
    then have "x = y" using y only [OF y(1)] by (auto simp: g_def)
    then show ?thesis using 3 y(1) \<open>dp_order y = dp_order d\<close> by blast
  qed
qed

lemma unique_accepted:
  assumes inv: "fleet_inv s" and d: "d \<in> set (fl_dispatches s)" "dp_status d = DOffered"
    and y: "y \<in> set (fl_dispatches s)" "dp_order y = dp_order d"
  shows "dp_status y \<noteq> DAccepted"
proof (cases "dp_courier y = dp_courier d")
  case True
  have "distinct (map (\<lambda>d. (dp_order d, dp_courier d)) (fl_dispatches s))" using inv by (simp add: fleet_inv_def keys_ok_def)
  from distinct_map_eq [OF this y(1) d(1)] True y(2) have "y = d" by simp
  then show ?thesis using d by simp
next
  case False
  have "dispatch_ok s d" using inv d(1) by (simp add: fleet_inv_def)
  then show ?thesis using False d(2) y unfolding dispatch_ok_def by blast
qed

lemma take_offer_inv:
  assumes inv: "fleet_inv s" and d: "d \<in> set (fl_dispatches s)" "dp_status d = DOffered" and i: "od_id o' = dp_order d"
    and user: "dp_courier d = user" and take: "take_offer env d o' user s = Some s'"
  shows "fleet_inv s' \<and> final_kept s s' \<and> accept_row (me_now env) d \<in> set (fl_dispatches s')
     \<and> (\<forall>x \<in> set (fl_dispatches s'). dp_order x = dp_order d \<longrightarrow> dp_status x \<noteq> DOffered \<and> (dp_status x = DAccepted \<longrightarrow> x = accept_row (me_now env) d))
     \<and> bound (dp_order d) user (js_trim (or_else (dp_vehicle d) [])) s' \<and> (\<forall>x \<in> set (fl_orders s'). od_id x = dp_order d \<longrightarrow> od_status x = ''accepted'')"
proof -
  let ?now = "me_now env"
  let ?f = "\<lambda>x. x\<lparr>od_status := ''accepted''\<rparr>"
  let ?vid = "js_trim (or_else (dp_vehicle d) [])"
  have keys: "keys_ok s" using inv by (simp add: fleet_inv_def)
  from take obtain s2 where b: "bind_leg env o' user ?vid s = Some s2"
    and s': "s' = add_event (od_id o') user ''offer_accepted'' (set_order (od_id o') ?f (settle_offers ?now d s2))"
    by (auto simp: take_offer_def split: option.splits)
  note b = bind_leg_inv [OF b keys]
  have d2: "d \<in> set (fl_dispatches s2)" using b d by simp
  have keys2: "keys_ok s2" using b by simp
  note so = settle_offers_dispatches [OF keys2 d2, where now = ?now]
  have ds: "fl_dispatches s' = fl_dispatches (settle_offers ?now d s2)" and ls: "fl_legs s' = fl_legs s2" and es: "fl_earnings s' = fl_earnings s2"
    and ps: "fl_policies s' = fl_policies s2" and os: "fl_orders s' = map (\<lambda>x. if od_id x = dp_order d then ?f x else x) (fl_orders s)"
    using b i by (simp_all add: s' settle_offers_def) (simp add: set_order_def)
  have bd: "bound (dp_order d) user ?vid s'" using b ls i unfolding bound_def by simp
  have acc: "accept_row ?now d \<in> set (fl_dispatches s')" using so(2) ds by simp
  have rows: "dp_status x \<noteq> DOffered \<and> (dp_status x = DAccepted \<longrightarrow> x = accept_row ?now d)"
    if x: "x \<in> set (fl_dispatches s')" "dp_order x = dp_order d" for x
  proof -
    have x': "x \<in> set (fl_dispatches (settle_offers ?now d s2))" using x ds by simp
    have "dp_status y \<noteq> DAccepted" if "y \<in> set (fl_dispatches s2)" "dp_order y = dp_order d" for y
      using unique_accepted [OF inv d, of y] that b by simp
    then show ?thesis using so(1) [OF x' x(2)] by (metis dispatch_status.distinct)
  qed
  have ids: "map od_id (fl_orders s') = map od_id (fl_orders s2)" using b unfolding os by simp
  have "keys_ok s'" using keys2 unfolding keys_ok_def ids unfolding ds ls es so(4,5) .
  moreover have "elsewhere (dp_order d) s s'"
    unfolding elsewhere_def ds ls ps os using b so(3) i by (auto split: if_splits)
  moreover have "dispatch_ok s' x" if x: "x \<in> set (fl_dispatches s')" "dp_order x = dp_order d" for x
  proof -
    have "led_by (dp_order d) user s'" using bd by (auto simp: bound_def led_by_def)
    then show ?thesis using rows [OF x] user x(2) by (auto simp: dispatch_ok_def accept_row_def)
  qed
  moreover have "accepted (dp_order d) s'" unfolding accepted_def using acc by (intro bexI [of _ "accept_row ?now d"]) (simp_all add: accept_row_def)
  then have "order_ok s' x" if "od_id x = dp_order d" for x using that by (simp add: order_ok_def)
  ultimately have "fleet_inv s'" using elsewhere_inv [OF inv, of "dp_order d" s'] by blast
  moreover have "final_kept s s'"
  proof -
    have "awaits (dp_order d) s" using inv d by (simp add: fleet_inv_def dispatch_ok_def)
    then obtain p where p: "p \<in> set (fl_orders s)" "od_id p = dp_order d" "od_status p \<in> set READY \<or> od_batch p \<noteq> None" by (auto simp: awaits_def)
    have "od_id x \<noteq> dp_order d" if "x \<in> set (fl_orders s)" "od_status x \<in> set FINAL" "od_batch x = None" for x
    proof
      assume "od_id x = dp_order d"
      then have "x = p" using distinct_map_eq [OF _ that(1) p(1), of od_id] p(2) keys by (simp add: keys_ok_def)
      then show False using p that by (auto simp: READY_def FINAL_def)
    qed
    moreover have "unpaid_kept (fl_orders s) (fl_orders s')" unfolding os by (rule unpaid_kept_map) (simp_all split: if_splits)
    ultimately show ?thesis unfolding final_kept_def os by force
  qed
  moreover have "\<forall>x \<in> set (fl_orders s'). od_id x = dp_order d \<longrightarrow> od_status x = ''accepted''" unfolding os by auto
  ultimately show ?thesis using acc rows bd by blast
qed

lemma accept_cases:
  assumes "acceptMobileCourierOffer env i user s = (r, s')"
  obtains (refused) "s' = s" "\<forall>j. r \<noteq> OfferAccepted j"
  | (taken) ds s1 d o' where "expireStaleOnDemandOffers env s = Some (ds, s1)" "offer_of i user s1 = Some (d, o')"
      "offer_refusal env d o' user s1 = None" "take_offer env d o' user s1 = Some s'" "r = OfferAccepted (od_id o')"
proof (cases "\<exists>j. r = OfferAccepted j")
  case True
  have "offer_refusal env d o' user s1 \<noteq> Some (OfferAccepted j)" for d o' s1 j
    by (simp add: offer_refusal_def leg_refusal_def Let_def split: option.splits)
  with True assms taken show ?thesis unfolding acceptMobileCourierOffer_def by (auto split: option.splits prod.splits)
next
  case False
  with assms refused show ?thesis unfolding acceptMobileCourierOffer_def by (auto split: option.splits prod.splits)
qed

lemma offer_refusal_none: "offer_refusal env d o' user s = None \<Longrightarrow> dp_status d = DOffered \<and> me_clock env < dp_expires d \<and> may_accept env s d o' user"
  by (auto simp: offer_refusal_def Let_def split: if_splits)

lemma accept_inv:
  assumes inv: "fleet_inv s" and run: "acceptMobileCourierOffer env i user s = (r, s')"
  shows "fleet_inv s' \<and> final_kept s s'"
  using run
proof (cases rule: accept_cases)
  case refused
  then show ?thesis using inv by simp
next
  case (taken ds s1 d o')
  note e = expire_inv [OF inv taken(1)]
  note m = offer_of_member [OF taken(2)]
  have "fleet_inv s' \<and> final_kept s1 s'" using take_offer_inv [of s1 d o' user env s'] e m taken(4) offer_refusal_none [OF taken(3)] by blast
  with e show ?thesis using final_kept_trans unfolding offers_only_def by blast
qed

lemma reject_inv:
  assumes inv: "fleet_inv s" and run: "rejectMobileCourierOffer env i user reason s = (r, s')"
  shows "fleet_inv s' \<and> final_kept s s'"
proof -
  let ?mine = "\<lambda>d. (dp_id d = i \<or> dp_order d = i) \<and> dp_courier d = user \<and> dp_status d = DOffered"
  show ?thesis
  proof (cases "s' = s")
    case False
    from run False obtain ds s1 d rest x where e: "expireStaleOnDemandOffers env s = Some (ds, s1)" and f: "filter ?mine (fl_dispatches s1) = d # rest"
      and n: "dispatchNextOnDemandCourier env (dp_order d)
        (add_event (dp_order d) user ''offer_rejected'' (set_dispatches ?mine (reject_row (me_now env) reason) s1)) = Some (x, s')"
      unfolding rejectMobileCourierOffer_def Let_def by (auto split: option.splits list.splits prod.splits)
    note ei = expire_inv [OF inv e]
    have "fleet_inv (set_dispatches ?mine (reject_row (me_now env) reason) s1)"
      by (rule dispatch_close) (use ei in \<open>auto simp: reject_row_def\<close>)
    then have "fleet_inv s' \<and> offers_only (set_dispatches ?mine (reject_row (me_now env) reason) s1) s'"
      using dispatch_next_inv [OF _ n] by (simp add: offers_only_def final_kept_def)
    moreover have "final_kept s1 (set_dispatches ?mine (reject_row (me_now env) reason) s1)" by (simp add: final_kept_def)
    ultimately show ?thesis using ei final_kept_trans unfolding offers_only_def by blast
  qed (use inv in simp)
qed

section \<open>Properties\<close>

text \<open>
  C18.  When a courier's acceptance succeeds, the offer had not expired and its courier leads the first leg with the vehicle of
  the offer; the order is accepted, this offer is its only accepted one, and no other courier can take it any more.
\<close>

theorem acceptance_assigns_order:
  assumes run: "acceptMobileCourierOffer env i user s = (OfferAccepted j, s')" and inv: "fleet_inv s"
  shows "\<exists>d \<in> set (fl_dispatches s'). dp_order d = j \<and> dp_courier d = user \<and> dp_status d = DAccepted \<and> me_clock env < dp_expires d
     \<and> bound j user (js_trim (or_else (dp_vehicle d) [])) s' \<and> (\<forall>x \<in> set (fl_orders s'). od_id x = j \<longrightarrow> od_status x = ''accepted'')
     \<and> (\<forall>x \<in> set (fl_dispatches s'). dp_order x = j \<and> x \<noteq> d \<longrightarrow> dp_status x \<noteq> DOffered \<and> dp_status x \<noteq> DAccepted)"
  using run
proof (cases rule: accept_cases)
  case (taken ds s1 d o')
  note m = offer_of_member [OF taken(2)]
  note n = offer_refusal_none [OF taken(3)]
  note t = take_offer_inv [of s1 d o' user env s', OF conjunct1 [OF expire_inv [OF inv taken(1)]] _ _ _ _ taken(4)]
  have j: "j = dp_order d" using taken(5) m by simp
  let ?x = "accept_row (me_now env) d"
  have x: "dp_order ?x = j" "dp_courier ?x = user" "dp_status ?x = DAccepted" "me_clock env < dp_expires ?x" "dp_vehicle ?x = dp_vehicle d"
    using j m n by (simp_all add: accept_row_def)
  show ?thesis by (rule bexI [of _ ?x]) (use t m n j x in auto)
qed simp

lemma no_stale: "\<forall>d \<in> set (fl_dispatches s). \<not> stale (me_now env) d \<Longrightarrow> expireStaleOnDemandOffers env s = Some ([], s)"
proof -
  assume n: "\<forall>d \<in> set (fl_dispatches s). \<not> stale (me_now env) d"
  then have "filter (stale (me_now env)) (fl_dispatches s) = []" by (simp add: filter_empty_conv)
  moreover have "map (\<lambda>d. if stale (me_now env) d then expire_row (me_now env) d else d) (fl_dispatches s) = fl_dispatches s"
    using n by (intro map_idI) simp
  ultimately show ?thesis by (simp add: expireStaleOnDemandOffers_def set_dispatches_def)
qed

lemma candidates_closed:
  assumes tables: "fl_services s' = fl_services s" "fl_couriers s' = fl_couriers s" "fl_capabilities s' = fl_capabilities s" "fl_vehicles s' = fl_vehicles s"
    "fl_zones s' = fl_zones s" "fl_paid s' = fl_paid s" "fl_orders s' = fl_orders s" "fl_legs s' = fl_legs s"
    and closed: "\<forall>d \<in> set (fl_dispatches s'). dp_order d = od_id o' \<longrightarrow> dp_status d \<noteq> DOffered \<and> dp_status d \<noteq> DAccepted"
  shows "candidates env s' o' = candidates env (s\<lparr>fl_dispatches := []\<rparr>) o'"
proof -
  let ?t = "s\<lparr>fl_dispatches := []\<rparr>"
  have "\<not> has_open_offer (od_id o') u s'" "\<not> has_open_offer (od_id o') u ?t" for u
    using closed by (auto simp: has_open_offer_def list_ex_iff)
  moreover have "jobs_of u j cust s' = jobs_of u j cust ?t" for u j cust using tables by (simp add: jobs_of_def active_legs_def)
  then have "room_for env v c o' s' = room_for env v c o' ?t" for v c by (simp add: room_for_def)
  moreover have "zone_covers env c o' s' = zone_covers env c o' ?t" for c using tables by (simp add: zone_covers_def cong: option.case_cong)
  ultimately have "eligible env s' o' v c a h = eligible env ?t o' v c a h" for v c a h using tables by (simp add: eligible_def)
  then show ?thesis using tables by (simp add: candidates_def)
qed

text \<open>
  A courier who rejects an offer is not passed over: when the order ranks this courier first, the next offer of the
  order goes to the same courier again, in the same transaction.
\<close>

theorem rejected_offer_comes_back:
  assumes run: "rejectMobileCourierOffer env i user reason s = (OfferRejected, s')" and inv: "fleet_inv s"
    and fresh: "\<forall>d \<in> set (fl_dispatches s). \<not> stale (me_now env) d"
    and one: "filter (\<lambda>d. (dp_id d = i \<or> dp_order d = i) \<and> dp_courier d = user \<and> dp_status d = DOffered) (fl_dispatches s) = [d]"
    and o': "find_order (dp_order d) s = Some o'" and first: "best (candidates env (s\<lparr>fl_dispatches := []\<rparr>) o') = Some c" "cd_courier c = user"
  shows "\<exists>x \<in> set (fl_dispatches s'). dp_order x = dp_order d \<and> dp_courier x = user \<and> dp_status x = DOffered"
proof -
  let ?mine = "\<lambda>d. (dp_id d = i \<or> dp_order d = i) \<and> dp_courier d = user \<and> dp_status d = DOffered"
  let ?r = "set_dispatches ?mine (reject_row (me_now env) reason) s"
  let ?s2 = "add_event (dp_order d) user ''offer_rejected'' ?r"
  have "d \<in> set (filter ?mine (fl_dispatches s))" unfolding one by simp
  then have d: "d \<in> set (fl_dispatches s)" "dp_status d = DOffered" "dp_courier d = user" "?mine d" by auto
  obtain y where n: "dispatchNextOnDemandCourier env (dp_order d) ?s2 = Some (y, s')"
    using run one unfolding rejectMobileCourierOffer_def Let_def no_stale [OF fresh] by (auto split: option.splits)
  have closed: "dp_status x \<noteq> DOffered \<and> dp_status x \<noteq> DAccepted" if x: "x \<in> set (fl_dispatches ?s2)" "dp_order x = dp_order d" for x
  proof -
    from x(1) obtain y where y: "y \<in> set (fl_dispatches s)" "x = (if ?mine y then reject_row (me_now env) reason y else y)"
      by (auto simp: set_dispatches_def)
    then have yd: "dp_order y = dp_order d" using x(2) by (auto simp: reject_row_def split: if_splits)
    show ?thesis
    proof (cases "dp_courier y = user")
      case True
      have "distinct (map (\<lambda>d. (dp_order d, dp_courier d)) (fl_dispatches s))" using inv by (simp add: fleet_inv_def keys_ok_def)
      from distinct_map_eq [OF this y(1) d(1)] have "y = d" using True yd d(3) by simp
      then show ?thesis using y(2) d by (simp add: reject_row_def)
    next
      case False
      have "dispatch_ok s d" using inv d by (simp add: fleet_inv_def)
      then have "dp_status y \<noteq> DOffered \<and> dp_status y \<noteq> DAccepted" using y(1) yd False d unfolding dispatch_ok_def by blast
      then show ?thesis using y(2) by auto
    qed
  qed
  have id: "od_id o' = dp_order d" using find_order_member [OF o'] by simp
  have all: "\<forall>x \<in> set (fl_dispatches ?s2). dp_order x = od_id o' \<longrightarrow> dp_status x \<noteq> DOffered \<and> dp_status x \<noteq> DAccepted"
    unfolding id using closed by blast
  have cands: "candidates env ?s2 o' = candidates env (s\<lparr>fl_dispatches := []\<rparr>) o'"
    by (rule candidates_closed [OF _ _ _ _ _ _ _ _ all]) (simp_all add: add_event_def set_dispatches_def)
  have f: "find_order (dp_order d) ?s2 = Some o'" using o' by (simp add: find_order_def)
  have np: "\<not> offer_pending env (dp_order d) ?s2" using closed unfolding offer_pending_def order_dispatches_def list_ex_iff set_filter by blast
  from n show ?thesis
  proof (cases rule: dispatch_next_cases)
    case nothing
    then show ?thesis using np f cands first by simp
  next
    case (offer p b x s1)
    have "b = c" using offer(2,3) f cands first by simp
    have "keys_ok ?r" using dispatch_close [OF inv, of "reject_row (me_now env) reason" ?mine] by (auto simp: fleet_inv_def reject_row_def)
    then have "keys_ok ?s2" by (simp add: keys_ok_def)
    from put_offer_rows [OF offer(4) this] have "x \<in> set (fl_dispatches s1)" "new_offer env (dp_order d) b x" by auto
    then show ?thesis using offer(6) \<open>b = c\<close> first(2) by (intro bexI [of _ x]) (simp_all add: new_offer_def)
  qed
qed

section \<open>Examples\<close>

definition demo_accepted :: fleet where
  "demo_accepted = snd (acceptMobileCourierOffer demo_env ''do1'' ''c2'' demo_offered)"

lemma demo_accept: "acceptMobileCourierOffer demo_env ''do1'' ''c2'' demo_offered = (OfferAccepted ''o1'', demo_accepted)"
  unfolding demo_accepted_def by code_simp

theorem acceptance_assigns_order_witness: "\<exists>d \<in> set (fl_dispatches demo_accepted). dp_courier d = ''c2'' \<and> dp_status d = DAccepted"
  using acceptance_assigns_order [OF demo_accept demo_inv(2)] by blast

lemma demo_reject: "fst (rejectMobileCourierOffer demo_env ''do1'' ''c2'' ''busy'' demo_offered) = OfferRejected"
  by code_simp

lemma demo_best: "best (candidates demo_env (demo_offered\<lparr>fl_dispatches := []\<rparr>) (demo_order\<lparr>od_status := ''offered''\<rparr>))
   = Some \<lparr>cd_courier = ''c2'', cd_vehicle = ''vc2'', cd_zone = ''z'', cd_distance = 500, cd_rating = 5, cd_acceptance = 100, cd_completion = 100\<rparr>"
  by code_simp

theorem rejected_offer_comes_back_witness:
  "\<exists>x \<in> set (fl_dispatches (snd (rejectMobileCourierOffer demo_env ''do1'' ''c2'' ''busy'' demo_offered))). dp_courier x = ''c2'' \<and> dp_status x = DOffered"
proof -
  have r: "rejectMobileCourierOffer demo_env ''do1'' ''c2'' ''busy'' demo_offered
     = (OfferRejected, snd (rejectMobileCourierOffer demo_env ''do1'' ''c2'' ''busy'' demo_offered))" using demo_reject by (metis prod.collapse)
  show ?thesis using rejected_offer_comes_back [OF r demo_inv(2) _ _ _ demo_best, of demo_offer]
    by (simp add: demo_offered_def demo_fleet_def demo_offer_def stale_def demo_env_def find_order_def demo_order_def) blast
qed

end
