(* ===== verification/DeliveryProof.thy ===== *)
theory DeliveryProof
  imports OfferResponse
begin

text \<open>
  Proofs of pickup and delivery (\<open>controllers/courier/_shared.ts\<close>, \<open>controllers/courier/courierProof.controller.ts\<close>).

  A refusal rolls back and notes the attempt on a connection of its own, which works whenever the order exists.  The GPS policy of a
  service is an object, as the admin service stores it.  The texts of a request are strings.
\<close>

section \<open>Policies\<close>

definition ON_DEMAND_GEOFENCE_RADIUS_M :: int where
  "ON_DEMAND_GEOFENCE_RADIUS_M = 10"

definition ON_DEMAND_MAX_ACCURACY_M :: int where
  "ON_DEMAND_MAX_ACCURACY_M = 50"

definition DEFAULT_GPS_OVERRIDE_POLICY :: "(string \<times> json) list" where
  "DEFAULT_GPS_OVERRIDE_POLICY = [(''enabled'', JBool True), (''soft_radius_m'', JNum ''25''), (''max_accuracy_m'', JNum ''100''),
     (''requires_reason'', JBool True), (''manual_review_required'', JBool True)]"

definition HIGH_RISK_SPOOF_SIGNALS :: "string list" where
  "HIGH_RISK_SPOOF_SIGNALS = [''mock'', ''mock_location'', ''rooted'', ''rooted_device'', ''emulator'', ''tampered'', ''high'']"

definition normalizeProofPolicyNumber :: "jsnum \<Rightarrow> int \<Rightarrow> int \<Rightarrow> int \<Rightarrow> int" where
  "normalizeProofPolicyNumber v fallback lo hi =
     (case finite_value v of None \<Rightarrow> fallback | Some x \<Rightarrow> min (max (js_round x) lo) hi)"

definition normalizeGpsOverridePolicy :: "json option \<Rightarrow> (string \<times> json) list" where
  "normalizeGpsOverridePolicy v = (case v of Some (JObj kvs) \<Rightarrow> kvs @ DEFAULT_GPS_OVERRIDE_POLICY | _ \<Rightarrow> DEFAULT_GPS_OVERRIDE_POLICY)"

record proof_request =
  pr_order :: uuid
  pr_delivery :: bool
  pr_location :: point
  pr_accuracy :: "rat option"
  pr_barcode :: "string option"
  pr_photo :: "string option"
  pr_spoof :: "string option"
  pr_face :: "uuid option"
  pr_package :: "string option"
  pr_reason :: "string option"

text \<open>The policy of a proof; an order whose service has no row gets the defaults.\<close>

record proof_policy =
  pp_radius :: int
  pp_accuracy :: int
  pp_override :: "(string \<times> json) list"
  pp_face :: bool

definition proof_policy_of :: "service_row option \<Rightarrow> proof_policy" where
  "proof_policy_of v =
     (let col = (\<lambda>sel d. case v of None \<Rightarrow> d | Some r \<Rightarrow> or_else (sel r) d) in
      \<lparr>pp_radius = min (normalizeProofPolicyNumber (Fin (of_int (col sv_geofence ON_DEMAND_GEOFENCE_RADIUS_M))) ON_DEMAND_GEOFENCE_RADIUS_M 1 100) 10,
       pp_accuracy = normalizeProofPolicyNumber (Fin (of_int (col sv_accuracy ON_DEMAND_MAX_ACCURACY_M))) ON_DEMAND_MAX_ACCURACY_M 1 500,
       pp_override = normalizeGpsOverridePolicy (case v of None \<Rightarrow> None | Some r \<Rightarrow> sv_override r),
       pp_face = (case v of None \<Rightarrow> True | Some r \<Rightarrow> or_else (sv_face r) True)\<rparr>)"

definition filled :: "string option \<Rightarrow> bool" where
  "filled t \<longleftrightarrow> str_or t [] \<noteq> []"

definition spoof_risk :: "proof_request \<Rightarrow> string" where
  "spoof_risk r = toLowerCase (js_trim (str_or (pr_spoof r) ''normal''))"

definition canOverrideDistance :: "proof_policy \<Rightarrow> proof_request \<Rightarrow> int \<Rightarrow> bool" where
  "canOverrideDistance p r gap \<longleftrightarrow>
     (let field = map_of (pp_override p) in
      field ''enabled'' = Some (JBool True) \<and> spoof_risk r \<notin> set HIGH_RISK_SPOOF_SIGNALS
      \<and> gap \<le> normalizeProofPolicyNumber (json_number (field ''soft_radius_m'')) 25 (pp_radius p) 100
      \<and> (case pr_accuracy r of None \<Rightarrow> True
         | Some a \<Rightarrow> a \<le> of_int (normalizeProofPolicyNumber (json_number (field ''max_accuracy_m'')) 100 (pp_accuracy p) 500))
      \<and> (field ''requires_reason'' \<noteq> Some (JBool True) \<or> js_trim (or_else (pr_reason r) []) \<noteq> []))"

section \<open>The checks\<close>

text \<open>The order on its first leg by the courier, who works on demand.\<close>

definition proof_order :: "uuid \<Rightarrow> uuid \<Rightarrow> fleet \<Rightarrow> (order_row \<times> leg_row) option" where
  "proof_order i user s =
     (case (find_order i s, first_leg i s) of
       (Some o', Some l) \<Rightarrow> if lg_courier l = Some user \<and> on_demand_model o' \<and> list_ex (\<lambda>c. cu_user c = user \<and> cu_channel c = ''on_demand'') (fl_couriers s)
         then Some (o', l) else None
     | _ \<Rightarrow> None)"

definition proof_distance :: "match_env \<Rightarrow> proof_request \<Rightarrow> order_row \<Rightarrow> int" where
  "proof_distance env r o' = round_half_even (me_distance env (if pr_delivery r then od_dropoff o' else od_pickup o') (pr_location r))"

definition proof_step_name :: "proof_request \<Rightarrow> string" where
  "proof_step_name r = (if pr_delivery r then ''delivery'' else ''pickup'')"

definition face_verified :: "fleet \<Rightarrow> uuid \<Rightarrow> proof_request \<Rightarrow> bool" where
  "face_verified s user r \<longleftrightarrow>
     (case pr_face r of None \<Rightarrow> False | Some f \<Rightarrow> f \<noteq> [] \<and> list_ex (\<lambda>x. fc_id x = f \<and> fc_courier x = user \<and> fc_type x = proof_step_name r
        \<and> fc_status x = ''verified'' \<and> (fc_order x = Some (pr_order r) \<or> fc_order x = None)) (fl_faces s))"

definition packages_of :: "uuid \<Rightarrow> fleet \<Rightarrow> package_row list" where
  "packages_of i s = filter (\<lambda>p. pk_order p = i) (fl_packages s)"

definition package_code :: "proof_request \<Rightarrow> string" where
  "package_code r = js_trim (str_or (pr_package r) (str_or (pr_barcode r) []))"

text \<open>The package a proof is about: the one with the code, or the only one.\<close>

definition proof_package :: "proof_request \<Rightarrow> fleet \<Rightarrow> package_row option" where
  "proof_package r s =
     (let ps = packages_of (pr_order r) s in
      if package_code r \<noteq> [] then find (\<lambda>p. pk_code p = package_code r) ps
      else if length ps = 1 then find (\<lambda>_. True) (sort_key pk_index ps) else None)"

text \<open>The audit reason and the error code of a refusal, in the order of the checks.\<close>

definition proof_refusal :: "match_env \<Rightarrow> fleet \<Rightarrow> uuid \<Rightarrow> proof_request \<Rightarrow> order_row \<Rightarrow> (string \<times> string) option" where
  "proof_refusal env s user r o' =
     (let p = proof_policy_of (find_service (od_service o') s); gap = proof_distance env r o'; st = toLowerCase (od_status o');
          packages = length (packages_of (pr_order r) s); barcode = js_trim (or_else (pr_barcode r) []); token = js_trim (or_else (od_token o') []) in
      if (case pr_accuracy r of None \<Rightarrow> False | Some a \<Rightarrow> a > of_int (pp_accuracy p)) then Some (''location_accuracy_low'', ''ERR_LOCATION_ACCURACY_LOW'')
      else if gap > pp_radius p \<and> \<not> canOverrideDistance p r gap then Some (''outside_geofence'', ''ERR_OUTSIDE_GEOFENCE'')
      else if pp_face p \<and> (pr_delivery r \<or> filled (pr_photo r)) \<and> \<not> face_verified s user r
        then Some (''face_verification_required'', ''ERR_FACE_VERIFICATION_REQUIRED'')
      else if spoof_risk r \<in> set HIGH_RISK_SPOOF_SIGNALS then Some (''high_spoof_risk'', ''ERR_HIGH_SPOOF_RISK'')
      else if \<not> pr_delivery r \<and> st \<in> {''delivered'', ''completed'', ''cancelled'', ''failed''} then Some (''invalid_pickup_status'', ''ERR_INVALID_STATUS'')
      else if \<not> pr_delivery r \<and> st \<notin> {''pickup_arrived'', ''picked_up'', ''pickup_verified'', ''in_transit''}
        then Some (''pickup_arrival_required'', ''ERR_PICKUP_ARRIVAL_REQUIRED'')
      else if pr_delivery r \<and> st \<notin> {''picked_up'', ''in_transit''} then Some (''pickup_required'', ''ERR_PICKUP_REQUIRED'')
      else if \<not> pr_delivery r \<and> \<not> filled (pr_barcode r) \<and> \<not> filled (pr_photo r)
        then Some (''pickup_evidence_required'', ''ERR_PICKUP_EVIDENCE_REQUIRED'')
      else if pr_delivery r \<and> \<not> filled (pr_photo r) then Some (''pod_photo_required'', ''ERR_POD_PHOTO_REQUIRED'')
      else if packages > 1 \<and> package_code r = [] then Some (''package_code_required'', ''ERR_PACKAGE_CODE_REQUIRED'')
      else if package_code r \<noteq> [] \<and> packages > 0 \<and> proof_package r s = None then Some (''package_code_not_found'', ''ERR_PACKAGE_CODE_NOT_FOUND'')
      else if \<not> pr_delivery r \<and> packages = 0 \<and> barcode \<noteq> [] \<and> token \<noteq> [] \<and> barcode \<noteq> token then Some (''barcode_mismatch'', ''ERR_BARCODE_MISMATCH'')
      else None)"

section \<open>The effects\<close>

definition scan_type :: "proof_request \<Rightarrow> string" where
  "scan_type r = (if pr_delivery r then ''pod'' else if filled (pr_photo r) then ''pickup_photo'' else ''pickup_scan'')"

definition prove_package :: "instant \<Rightarrow> string \<Rightarrow> package_row \<Rightarrow> package_row" where
  "prove_package now typ p =
     (if typ = ''pickup_scan'' then p\<lparr>pk_status := (if pk_photographed p \<noteq> None then ''pickup_verified'' else ''pickup_scanned''),
        pk_scanned := Some (or_else (pk_scanned p) now)\<rparr>
      else if typ = ''pickup_photo'' then p\<lparr>pk_status := (if pk_scanned p \<noteq> None then ''pickup_verified'' else pk_status p),
        pk_photographed := Some (or_else (pk_photographed p) now)\<rparr>
      else p\<lparr>pk_status := ''delivered'', pk_delivered := Some (or_else (pk_delivered p) now)\<rparr>)"

definition record_scan :: "match_env \<Rightarrow> proof_request \<Rightarrow> fleet \<Rightarrow> fleet" where
  "record_scan env r s =
     s\<lparr>fl_scans := fl_scans s @ [(pr_order r, scan_type r)],
       fl_packages := (case proof_package r s of None \<Rightarrow> fl_packages s
         | Some p \<Rightarrow> map (\<lambda>x. if pk_id x = pk_id p then prove_package (me_now env) (scan_type r) x else x) (fl_packages s))\<rparr>"

text \<open>Whether every package has its evidence, or without packages the order has.\<close>

definition pickup_proved :: "uuid \<Rightarrow> fleet \<Rightarrow> bool \<times> bool" where
  "pickup_proved i s =
     (let ps = packages_of i s in
      if ps \<noteq> [] then (list_all (\<lambda>p. pk_scanned p \<noteq> None) ps, list_all (\<lambda>p. pk_photographed p \<noteq> None) ps)
      else (list_ex (\<lambda>(j, t). j = i \<and> t \<in> {''pickup_scan'', ''pickup''}) (fl_scans s), list_ex (\<lambda>(j, t). j = i \<and> t = ''pickup_photo'') (fl_scans s)))"

definition delivery_proved :: "uuid \<Rightarrow> fleet \<Rightarrow> bool" where
  "delivery_proved i s \<longleftrightarrow> list_all (\<lambda>p. pk_delivered p \<noteq> None) (packages_of i s)"

definition proof_complete :: "proof_request \<Rightarrow> fleet \<Rightarrow> bool" where
  "proof_complete r s \<longleftrightarrow> (if pr_delivery r then delivery_proved (pr_order r) s else fst (pickup_proved (pr_order r) s) \<and> snd (pickup_proved (pr_order r) s))"

text \<open>The credit of the proof itself, after the one of the trigger; the components of a leg are those the trigger stores.\<close>

definition creditCourierDeliveryEarning :: "uuid \<Rightarrow> uuid \<Rightarrow> fleet \<Rightarrow> fleet" where
  "creditCourierDeliveryEarning i user s =
     (case (find_order i s, first_leg i s) of
       (Some o', Some l) \<Rightarrow>
         (let amount = cm_total (snapshot_courier_earning_components (od_policy o') (lg_facts l)) in
          if lg_courier l = Some user \<and> amount > 0 \<and> \<not> list_ex (\<lambda>e. er_courier e = user \<and> er_order e = i) (fl_earnings s)
          then s\<lparr>fl_earnings := fl_earnings s @ [\<lparr>er_courier = user, er_order = i, er_amount = amount\<rparr>]\<rparr> else s)
     | _ \<Rightarrow> s)"

definition move_order :: "uuid \<Rightarrow> uuid \<Rightarrow> string \<Rightarrow> fleet \<Rightarrow> fleet" where
  "move_order i leg st s = set_legs (\<lambda>l. lg_id l = leg) (\<lambda>l. l\<lparr>lg_status := st\<rparr>) (set_order i (\<lambda>o'. o'\<lparr>od_status := st\<rparr>) s)"

definition proof_event :: "proof_request \<Rightarrow> bool \<Rightarrow> string" where
  "proof_event r whole = (if pr_delivery r then (if whole then ''pod_verified'' else ''pod_package_verified'')
     else if whole then ''pickup_verified'' else if filled (pr_photo r) then ''pickup_photo_uploaded'' else ''pickup_scan_verified'')"

definition add_attempt :: "uuid \<Rightarrow> uuid \<Rightarrow> bool \<Rightarrow> string \<Rightarrow> fleet \<Rightarrow> fleet" where
  "add_attempt i user ok reason s = s\<lparr>fl_attempts := fl_attempts s @ [(i, user, ok, reason)]\<rparr>"

text \<open>The proof is complete or not, and needs a manual review or not.\<close>

datatype proof_reply = ProofAccepted bool bool | ProofRefused string

definition writeRejectedProofAttempt :: "uuid \<Rightarrow> uuid \<Rightarrow> string \<Rightarrow> fleet \<Rightarrow> fleet" where
  "writeRejectedProofAttempt i user reason s = (if find_order i s = None then s else add_attempt i user False reason s)"

definition apply_proof :: "match_env \<Rightarrow> uuid \<Rightarrow> proof_request \<Rightarrow> leg_row \<Rightarrow> fleet \<Rightarrow> bool \<times> fleet" where
  "apply_proof env user r l s =
     (let i = pr_order r; s1 = record_scan env r s; whole = proof_complete r s1;
          s2 = (if whole then move_order i (lg_id l) (if pr_delivery r then ''delivered'' else ''in_transit'') s1 else s1);
          s3 = (if whole \<and> pr_delivery r then creditCourierDeliveryEarning i user s2 else s2);
          s4 = add_event i user (proof_event r whole) s3;
          s5 = (if whole \<and> \<not> pr_delivery r then add_event i user ''delivery_started'' s4 else s4)
      in (whole, add_attempt i user True [] s5))"

definition manual_review :: "match_env \<Rightarrow> fleet \<Rightarrow> proof_request \<Rightarrow> order_row \<Rightarrow> bool" where
  "manual_review env s r o' \<longleftrightarrow>
     (let p = proof_policy_of (find_service (od_service o') s) in
      proof_distance env r o' > pp_radius p \<and> map_of (pp_override p) ''manual_review_required'' \<noteq> Some (JBool False))"

definition verifyOnDemandStep :: "match_env \<Rightarrow> uuid \<Rightarrow> proof_request \<Rightarrow> fleet \<Rightarrow> proof_reply \<times> fleet" where
  "verifyOnDemandStep env user r s =
     (case proof_order (pr_order r) user s of None \<Rightarrow> (ProofRefused ''ERR_ORDER_NOT_FOUND'', writeRejectedProofAttempt (pr_order r) user ''order_not_found'' s)
      | Some (o', l) \<Rightarrow>
          (case proof_refusal env s user r o' of
            Some (reason, code) \<Rightarrow> (ProofRefused code, writeRejectedProofAttempt (pr_order r) user reason s)
          | None \<Rightarrow> (case apply_proof env user r l s of (whole, s') \<Rightarrow> (ProofAccepted whole (manual_review env s r o'), s'))))"

section \<open>Face verification and the endpoints\<close>

definition normalizeFaceVerificationType :: "string option \<Rightarrow> string" where
  "normalizeFaceVerificationType v =
     (let t = toLowerCase (js_trim (str_or v ''pickup'')) in
      if t = ''pod'' \<or> t = ''delivery_pod'' then ''delivery'' else if t = ''registration'' then ''registration''
      else if t = ''delivery'' then ''delivery'' else ''pickup'')"

fun js_ge :: "jsnum \<Rightarrow> jsnum \<Rightarrow> bool" where
  "js_ge (Fin x) (Fin y) = (x \<ge> y)"
| "js_ge NaN _ = False"
| "js_ge _ NaN = False"
| "js_ge PosInf _ = True"
| "js_ge _ NegInf = True"
| "js_ge _ _ = False"

text \<open>The environment of the face check: the provider, the bypass of development and the least score.\<close>

record face_config =
  fg_provider :: string
  fg_bypass :: bool
  fg_minimum :: jsnum

definition face_status :: "face_config \<Rightarrow> jsnum option \<Rightarrow> string" where
  "face_status g liveness =
     (let local = fg_bypass g \<and> (case liveness of None \<Rightarrow> True | Some x \<Rightarrow> js_ge x (fg_minimum g)) in
      if local then ''verified'' else if fg_provider g \<noteq> [] then ''pending_review'' else ''provider_required'')"

datatype face_reply = FaceStored string | FacePhotoRequired | FaceOrderForbidden

definition verifyMobileCourierFace ::
    "face_config \<Rightarrow> uuid \<Rightarrow> uuid \<Rightarrow> string option \<Rightarrow> uuid option \<Rightarrow> jsnum option \<Rightarrow> bool \<Rightarrow> fleet \<Rightarrow> face_reply \<times> fleet" where
  "verifyMobileCourierFace g new_id user typ ord liveness photo s =
     (if \<not> photo then (FacePhotoRequired, s)
      else if (case ord of None \<Rightarrow> False | Some i \<Rightarrow> \<not> list_ex (\<lambda>l. lg_order l = i \<and> lg_courier l = Some user) (fl_legs s)) then (FaceOrderForbidden, s)
      else (FaceStored (face_status g liveness), s\<lparr>fl_faces := fl_faces s @
        [\<lparr>fc_id = new_id, fc_courier = user, fc_order = ord, fc_type = normalizeFaceVerificationType typ, fc_status = face_status g liveness\<rparr>]\<rparr>))"

text \<open>The step a scan or an upload is for; an unknown type of upload is refused.\<close>

definition scan_delivery :: "string option \<Rightarrow> bool" where
  "scan_delivery typ \<longleftrightarrow> toLowerCase (str_or typ ''pickup'') \<in> {''delivery'', ''pod''}"

definition upload_delivery :: "string option \<Rightarrow> bool option" where
  "upload_delivery typ =
     (let t = toLowerCase (str_or typ ''delivery'') in
      if t \<in> {''pickup'', ''pickup_photo'', ''pickup_scan''} then Some False
      else if t \<in> {''delivery'', ''pod'', ''delivery_pod'', ''delivery_pod_photo'', ''delivery_signature''} then Some True else None)"

text \<open>A scan carries no photo; \<open>typ\<close> is the type in the body, a missing coordinate is \<open>None\<close>.\<close>

definition scanMobileCourierOrder :: "match_env \<Rightarrow> uuid \<Rightarrow> string option \<Rightarrow> point option \<Rightarrow> proof_request \<Rightarrow> fleet \<Rightarrow> proof_reply \<times> fleet" where
  "scanMobileCourierOrder env user typ loc r s =
     (case loc of None \<Rightarrow> (ProofRefused ''ERR_BAD_REQUEST'', s)
      | Some p \<Rightarrow> if pr_order r = [] then (ProofRefused ''ERR_BAD_REQUEST'', s)
          else verifyOnDemandStep env user (r\<lparr>pr_delivery := scan_delivery typ, pr_location := p, pr_photo := None\<rparr>) s)"

definition uploadMobileCourierPod ::
    "match_env \<Rightarrow> uuid \<Rightarrow> string option \<Rightarrow> point option \<Rightarrow> string option \<Rightarrow> proof_request \<Rightarrow> fleet \<Rightarrow> proof_reply \<times> fleet" where
  "uploadMobileCourierPod env user typ loc file r s =
     (case (loc, file) of
       (Some p, Some url) \<Rightarrow>
         if pr_order r = [] then (ProofRefused ''ERR_BAD_REQUEST'', s)
         else (case upload_delivery typ of None \<Rightarrow> (ProofRefused ''ERR_INVALID_PROOF_TYPE'', s)
           | Some dl \<Rightarrow> verifyOnDemandStep env user (r\<lparr>pr_delivery := dl, pr_location := p, pr_photo := Some url\<rparr>) s)
     | _ \<Rightarrow> (ProofRefused ''ERR_BAD_REQUEST'', s))"

definition towingBeforeProofIsLocked :: "string \<Rightarrow> bool" where
  "towingBeforeProofIsLocked st \<longleftrightarrow> toLowerCase (js_trim st) \<in>
     {''in_transit'', ''arrived_dropoff'', ''unloading'', ''completed'', ''delivered'', ''cancelled'', ''failed''}"

definition allowedProofTypes :: "string list" where
  "allowedProofTypes = [''tire_photo_before'', ''tire_photo_after'', ''vehicle_photo_before'', ''loading_photo'', ''unloading_photo'',
     ''completion_photo'', ''signature'']"

text \<open>Why a proof of a service report is refused; one that is taken changes no table of this model.\<close>

definition uploadMobileCourierServiceReportProof :: "uuid \<Rightarrow> uuid \<Rightarrow> string \<Rightarrow> string \<Rightarrow> bool \<Rightarrow> fleet \<Rightarrow> string option" where
  "uploadMobileCourierServiceReportProof user i service typ file s =
     (let svc = toLowerCase (js_trim service); ty = toLowerCase (js_trim typ) in
      if js_trim i = [] \<or> svc \<notin> {''tambal_ban'', ''towing''} \<or> ty \<notin> set allowedProofTypes \<or> \<not> file then Some ''ERR_BAD_REQUEST''
      else case find (\<lambda>l. lg_order l = js_trim i \<and> lg_courier l = Some user) (fl_legs s) of None \<Rightarrow> Some ''ERR_ORDER_FORBIDDEN''
      | Some l \<Rightarrow> if svc = ''towing'' \<and> js_trim (or_else (lg_vehicle l) []) = [] then Some ''ERR_VEHICLE_BINDING_REQUIRED''
          else if ty = ''vehicle_photo_before'' \<and> towingBeforeProofIsLocked (lg_status l) then Some ''ERR_PROOF_IMMUTABLE'' else None)"

section \<open>Moving an order on\<close>

lemma held_not_offered: "fleet_inv s \<Longrightarrow> held i s \<Longrightarrow> d \<in> set (fl_dispatches s) \<Longrightarrow> dp_order d = i \<Longrightarrow> dp_status d \<noteq> DOffered"
  by (auto simp: fleet_inv_def dispatch_ok_def)

lemma move_order_inv:
  assumes inv: "fleet_inv s" and held: "held i s" and st: "st \<notin> set AWAITING"
  shows "fleet_inv (move_order i leg st s)"
proof -
  have "fleet_inv (set_order i (\<lambda>o'. o'\<lparr>od_status := st\<rparr>) s)"
    by (rule order_inv [OF inv]) (use held_not_offered [OF inv held] st in auto)
  then show ?thesis unfolding move_order_def by (rule legs_inv) simp
qed

lemma move_order_final:
  assumes "\<And>o'. o' \<in> set (fl_orders s) \<Longrightarrow> od_id o' = i \<Longrightarrow> od_status o' \<in> set FINAL \<Longrightarrow> od_status o' = st" and "st \<noteq> ''pending_payment''"
  shows "final_kept s (move_order i leg st s)"
proof -
  have "final_kept s (set_order i (\<lambda>o'. o'\<lparr>od_status := st\<rparr>) s)" by (rule order_final) (use assms in auto)
  then show ?thesis by (simp add: final_kept_def move_order_def)
qed

lemma proof_order_spec:
  assumes "proof_order i user s = Some (o', l)"
  shows "find_order i s = Some o' \<and> first_leg i s = Some l \<and> lg_courier l = Some user \<and> on_demand_model o'"
  using assms by (auto simp: proof_order_def split: option.splits if_splits)

lemma first_leg_held: "first_leg i s = Some l \<Longrightarrow> lg_courier l = Some user \<Longrightarrow> held i s"
  using first_leg_member by (fastforce simp: held_def)

section \<open>Proofs keep the invariant\<close>

lemma credit_earnings:
  "\<exists>es. creditCourierDeliveryEarning i user s = s\<lparr>fl_earnings := es\<rparr> \<and> (distinct (earning_keys (fl_earnings s)) \<longrightarrow> distinct (earning_keys es))"
proof -
  let ?same = "\<exists>es. s = s\<lparr>fl_earnings := es\<rparr> \<and> (distinct (earning_keys (fl_earnings s)) \<longrightarrow> distinct (earning_keys es))"
  have same: ?same by (intro exI [of _ "fl_earnings s"]) simp
  show ?thesis
  proof (cases "find_order i s")
    case None
    then show ?thesis using same by (simp add: creditCourierDeliveryEarning_def)
  next
    case o': (Some o')
    show ?thesis
    proof (cases "first_leg i s")
      case None
      then show ?thesis using same o' by (simp add: creditCourierDeliveryEarning_def)
    next
      case (Some l)
      let ?a = "cm_total (snapshot_courier_earning_components (od_policy o') (lg_facts l))"
      show ?thesis
      proof (cases "lg_courier l = Some user \<and> ?a > 0 \<and> \<not> list_ex (\<lambda>e. er_courier e = user \<and> er_order e = i) (fl_earnings s)")
        case True
        then have "creditCourierDeliveryEarning i user s = s\<lparr>fl_earnings := fl_earnings s @ [\<lparr>er_courier = user, er_order = i, er_amount = ?a\<rparr>]\<rparr>"
          using o' Some by (simp add: creditCourierDeliveryEarning_def)
        moreover have "(user, i) \<notin> set (earning_keys (fl_earnings s))" using True by (auto simp: list_ex_iff)
        ultimately show ?thesis by (intro exI [of _ "fl_earnings s @ [\<lparr>er_courier = user, er_order = i, er_amount = ?a\<rparr>]"]) simp
      next
        case False
        then have "creditCourierDeliveryEarning i user s = s" using o' Some by (auto simp: creditCourierDeliveryEarning_def Let_def)
        then show ?thesis using same by simp
      qed
    qed
  qed
qed

lemma earnings_inv: "fleet_inv s \<Longrightarrow> distinct (earning_keys es) \<Longrightarrow> fleet_inv (s\<lparr>fl_earnings := es\<rparr>)"
  by (simp add: fleet_inv_def keys_ok_def dispatch_ok_def order_ok_def awaits_def led_by_def held_def accepted_def)

lemma credit_inv: "fleet_inv s \<Longrightarrow> fleet_inv (creditCourierDeliveryEarning i user s)"
  using credit_earnings [of i user s] earnings_inv by (auto simp: fleet_inv_def keys_ok_def)

lemma credit_orders [simp]: "fl_orders (creditCourierDeliveryEarning i user s) = fl_orders s"
  using credit_earnings [of i user s] by auto

lemma attempt_inv [simp]: "fleet_inv (add_attempt i u ok r s) = fleet_inv s"
  by (rule fleet_inv_cong) (simp_all add: add_attempt_def)

lemma attempt_orders [simp]: "fl_orders (add_attempt i u ok r s) = fl_orders s"
  by (simp add: add_attempt_def)

lemma rejected_inv [simp]: "fleet_inv (writeRejectedProofAttempt i u r s) = fleet_inv s" "fl_orders (writeRejectedProofAttempt i u r s) = fl_orders s"
  by (simp_all add: writeRejectedProofAttempt_def)

lemma record_scan_inv [simp]: "fleet_inv (record_scan env r s) = fleet_inv s"
  by (rule fleet_inv_cong) (simp_all add: record_scan_def)

lemma record_scan_sel [simp]: "fl_orders (record_scan env r s) = fl_orders s"
  "fl_legs (record_scan env r s) = fl_legs s" "fl_earnings (record_scan env r s) = fl_earnings s"
  "fl_dispatches (record_scan env r s) = fl_dispatches s"
  by (simp_all add: record_scan_def)

lemma proof_status:
  assumes "proof_refusal env s user r o' = None"
  shows "if pr_delivery r then toLowerCase (od_status o') \<in> {''picked_up'', ''in_transit''}
     else toLowerCase (od_status o') \<in> {''pickup_arrived'', ''picked_up'', ''pickup_verified'', ''in_transit''}"
  using assms unfolding proof_refusal_def Let_def by (cases "pr_delivery r") (simp_all split: if_splits)

lemma proof_not_final: "proof_refusal env s user r o' = None \<Longrightarrow> od_status o' \<notin> set FINAL"
  using proof_status [of env s user r o'] by (auto simp: FINAL_def toLowerCase_def lower_char_def split: if_splits)

lemma apply_proof_inv:
  assumes inv: "fleet_inv s" and o': "proof_order (pr_order r) user s = Some (o', l)" and ok: "proof_refusal env s user r o' = None"
    and run: "apply_proof env user r l s = (whole, s')"
  shows "fleet_inv s' \<and> final_kept s s'"
proof -
  let ?i = "pr_order r" and ?st = "if pr_delivery r then ''delivered'' else ''in_transit''"
  note p = proof_order_spec [OF o']
  have inv1: "fleet_inv (record_scan env r s)" using inv by simp
  have held: "held ?i (record_scan env r s)" using first_leg_held [of ?i s l user] p by (simp add: held_def)
  have st: "?st \<notin> set AWAITING" by (simp add: AWAITING_def READY_def)
  have "final_kept (record_scan env r s) (move_order ?i (lg_id l) ?st (record_scan env r s))"
  proof (rule move_order_final)
    fix x assume x: "x \<in> set (fl_orders (record_scan env r s))" "od_id x = ?i" "od_status x \<in> set FINAL"
    have "keys_ok s" using inv by (simp add: fleet_inv_def)
    then have "x = o'" using find_order_unique [of s x] x p by simp
    then show "od_status x = ?st" using proof_not_final [OF ok] x(3) by simp
  qed simp
  moreover note move_order_inv [OF inv1 held st, of "lg_id l"]
  ultimately show ?thesis using run inv1 credit_inv unfolding apply_proof_def Let_def
    by (auto simp: final_kept_def split: if_splits)
qed

lemma verify_inv:
  assumes inv: "fleet_inv s" and run: "verifyOnDemandStep env user r s = (reply, s')"
  shows "fleet_inv s' \<and> final_kept s s'"
proof (cases "proof_order (pr_order r) user s")
  case None
  then show ?thesis using run inv by (auto simp: verifyOnDemandStep_def final_kept_def)
next
  case (Some a)
  obtain o' l where a: "a = (o', l)" by force
  show ?thesis
  proof (cases "proof_refusal env s user r o'")
    case None
    then show ?thesis using run Some a apply_proof_inv [OF inv _ None, of l] by (auto simp: verifyOnDemandStep_def split: prod.splits)
  next
    case r: (Some x)
    then show ?thesis using run Some a inv by (cases x) (auto simp: verifyOnDemandStep_def final_kept_def)
  qed
qed

lemma scan_inv: "fleet_inv s \<Longrightarrow> scanMobileCourierOrder env user typ loc r s = (reply, s') \<Longrightarrow> fleet_inv s' \<and> final_kept s s'"
  using verify_inv by (auto simp: scanMobileCourierOrder_def split: option.splits if_splits)

lemma upload_inv: "fleet_inv s \<Longrightarrow> uploadMobileCourierPod env user typ loc file r s = (reply, s') \<Longrightarrow> fleet_inv s' \<and> final_kept s s'"
  using verify_inv by (auto simp: uploadMobileCourierPod_def split: option.splits if_splits)

lemma face_inv: "fleet_inv s \<Longrightarrow> verifyMobileCourierFace g n user typ ord lv photo s = (reply, s') \<Longrightarrow> fleet_inv s' \<and> final_kept s s'"
proof -
  have f: "fleet_inv (s\<lparr>fl_faces := fs\<rparr>) = fleet_inv s" for fs by (rule fleet_inv_cong) simp_all
  assume "fleet_inv s" "verifyMobileCourierFace g n user typ ord lv photo s = (reply, s')"
  then show ?thesis by (auto simp: verifyMobileCourierFace_def f final_kept_def split: option.splits if_splits)
qed

section \<open>What a delivery takes\<close>

lemma normalizeProofPolicyNumber_le: "fallback \<le> hi \<Longrightarrow> normalizeProofPolicyNumber v fallback lo hi \<le> hi"
  by (auto simp: normalizeProofPolicyNumber_def split: option.split)

lemma radius_le: "pp_radius (proof_policy_of v) \<le> 10"
  by (simp add: proof_policy_of_def Let_def)

lemma if_some_none: "(if c then Some x else e) = None \<longleftrightarrow> \<not> c \<and> e = None"
  by simp

lemma proof_place:
  assumes "proof_refusal env s user r o' = None"
  defines "p \<equiv> proof_policy_of (find_service (od_service o') s)"
  shows "proof_distance env r o' \<le> pp_radius p \<or> canOverrideDistance p r (proof_distance env r o')"
    and "pp_face p \<Longrightarrow> pr_delivery r \<Longrightarrow> face_verified s user r" and "spoof_risk r \<notin> set HIGH_RISK_SPOOF_SIGNALS"
    and "pr_delivery r \<Longrightarrow> filled (pr_photo r)"
proof -
  note ok = assms(1) [unfolded proof_refusal_def Let_def if_some_none, folded p_def]
  show "proof_distance env r o' \<le> pp_radius p \<or> canOverrideDistance p r (proof_distance env r o')" using ok not_le by blast
  show "pp_face p \<Longrightarrow> pr_delivery r \<Longrightarrow> face_verified s user r" using ok by blast
  show "spoof_risk r \<notin> set HIGH_RISK_SPOOF_SIGNALS" using ok by blast
  show "pr_delivery r \<Longrightarrow> filled (pr_photo r)" using ok by blast
qed

lemma override_le: "canOverrideDistance p r gap \<Longrightarrow> gap \<le> 100"
proof -
  assume "canOverrideDistance p r gap"
  then have "gap \<le> normalizeProofPolicyNumber (json_number (map_of (pp_override p) ''soft_radius_m'')) 25 (pp_radius p) 100"
    unfolding canOverrideDistance_def Let_def by blast
  also have "\<dots> \<le> 100" by (rule normalizeProofPolicyNumber_le) simp
  finally show ?thesis .
qed

lemma find_order_set: "(\<And>o'. od_id (f o') = od_id o') \<Longrightarrow> find_order i (set_order i f s) = map_option f (find_order i s)"
proof -
  assume f: "\<And>o'. od_id (f o') = od_id o'"
  have "find (\<lambda>o'. od_id o' = i) (map (\<lambda>o'. if od_id o' = i then f o' else o') os) = map_option f (find (\<lambda>o'. od_id o' = i) os)" for os
    using f by (induction os) auto
  then show ?thesis by (simp add: find_order_def set_order_def)
qed

lemma first_leg_map:
  assumes "\<And>l. lg_order (f l) = lg_order l \<and> lg_number (f l) = lg_number l"
  shows "first_leg i (set_legs P f s) = map_option (\<lambda>l. if P l then f l else l) (first_leg i s)"
proof -
  have "find (\<lambda>l. lg_order l = i \<and> lg_number l = 1) (map (\<lambda>l. if P l then f l else l) ls)
    = map_option (\<lambda>l. if P l then f l else l) (find (\<lambda>l. lg_order l = i \<and> lg_number l = 1) ls)" for ls
    using assms by (induction ls) auto
  then show ?thesis by (simp add: first_leg_def)
qed

lemma move_order_reads:
  assumes "find_order i s = Some o'" "first_leg i s = Some l"
  shows "find_order i (move_order i (lg_id l) st s) = Some (o'\<lparr>od_status := st\<rparr>)"
    and "first_leg i (move_order i (lg_id l) st s) = Some (l\<lparr>lg_status := st\<rparr>)"
proof -
  show "find_order i (move_order i (lg_id l) st s) = Some (o'\<lparr>od_status := st\<rparr>)"
    using assms(1) find_order_set [of "\<lambda>x. x\<lparr>od_status := st\<rparr>" i s] by (simp add: move_order_def find_order_def)
  show "first_leg i (move_order i (lg_id l) st s) = Some (l\<lparr>lg_status := st\<rparr>)"
    using assms(2) first_leg_map [of "\<lambda>l. l\<lparr>lg_status := st\<rparr>" i "\<lambda>x. lg_id x = lg_id l" "set_order i (\<lambda>o'. o'\<lparr>od_status := st\<rparr>) s"]
    by (simp add: move_order_def first_leg_def)
qed

lemma filter_key: "distinct (map f xs) \<Longrightarrow> x \<in> set xs \<Longrightarrow> filter (\<lambda>y. f y = f x) xs = [x]"
proof (induction xs)
  case (Cons a xs)
  show ?case
  proof (cases "a = x")
    case True
    then have "f x \<notin> f ` set xs" using Cons.prems(1) by simp
    then have "\<forall>y \<in> set xs. f y \<noteq> f x" by (metis imageI)
    then have "filter (\<lambda>y. f y = f x) xs = []" by (simp add: filter_empty_conv)
    then show ?thesis using True by simp
  next
    case False
    then have "x \<in> set xs" "f a \<noteq> f x" using Cons.prems by auto
    then show ?thesis using Cons by simp
  qed
qed simp

lemma delivered_total: "sync_courier_delivery_earning p f ''delivered'' = cm_total (snapshot_courier_earning_components p f)"
  by (simp add: sync_courier_delivery_earning_def snapshot_courier_earning_components_def with_total_def max.commute Let_def algebra_simps)

lemma credited:
  assumes "find_order i s = Some o'" "first_leg i s = Some l" "lg_courier l = Some user"
    "0 < cm_total (snapshot_courier_earning_components (od_policy o') (lg_facts l))"
  shows "\<exists>e \<in> set (fl_earnings (creditCourierDeliveryEarning i user s)). er_courier e = user \<and> er_order e = i"
  using assms by (auto simp: creditCourierDeliveryEarning_def Let_def list_ex_iff)

text \<open>
  C17.  An order becomes delivered by a proof only when the courier of its first leg is at most ten metres away (or within
  a hundred metres under the override of the service), with the face verified where the service asks for it, a photo, no signal of a
  tampered device and the pickup behind; then every package has its proof and the courier has a credit.
\<close>

theorem delivery_needs_proof:
  assumes run: "verifyOnDemandStep env user r s = (ProofAccepted True m, s')" and dl: "pr_delivery r"
  shows "\<exists>o' l. find_order (pr_order r) s = Some o' \<and> first_leg (pr_order r) s = Some l \<and> lg_courier l = Some user
     \<and> toLowerCase (od_status o') \<in> {''picked_up'', ''in_transit''} \<and> filled (pr_photo r) \<and> spoof_risk r \<notin> set HIGH_RISK_SPOOF_SIGNALS
     \<and> (let p = proof_policy_of (find_service (od_service o') s) in (pp_face p \<longrightarrow> face_verified s user r)
         \<and> (proof_distance env r o' \<le> 10 \<or> (m = (map_of (pp_override p) ''manual_review_required'' \<noteq> Some (JBool False))
              \<and> canOverrideDistance p r (proof_distance env r o') \<and> proof_distance env r o' \<le> 100)))
     \<and> delivery_proved (pr_order r) s' \<and> find_order (pr_order r) s' = Some (o'\<lparr>od_status := ''delivered''\<rparr>)
     \<and> (0 < cm_total (snapshot_courier_earning_components (od_policy o') (lg_facts l))
         \<longrightarrow> (\<exists>e \<in> set (fl_earnings s'). er_courier e = user \<and> er_order e = pr_order r))"
proof -
  let ?i = "pr_order r"
  from run obtain o' l where p: "proof_order ?i user s = Some (o', l)" and ok: "proof_refusal env s user r o' = None"
    and ap: "apply_proof env user r l s = (True, s')" and m: "m = manual_review env s r o'"
    by (auto simp: verifyOnDemandStep_def split: option.splits prod.splits)
  note ps = proof_order_spec [OF p]
  let ?s1 = "record_scan env r s"
  let ?s2 = "move_order ?i (lg_id l) ''delivered'' ?s1"
  have one: "find_order ?i ?s1 = Some o'" "first_leg ?i ?s1 = Some l" using ps by (simp_all add: find_order_def first_leg_def record_scan_def)
  have proved: "delivery_proved ?i ?s1"
    and s': "s' = add_attempt ?i user True [] (add_event ?i user (proof_event r True) (creditCourierDeliveryEarning ?i user ?s2))"
    using ap dl by (auto simp: apply_proof_def Let_def proof_complete_def split: if_splits)
  note mv = move_order_reads [OF one, of "''delivered''"]
  have "fl_packages s' = fl_packages ?s1"
    using set_legs_eq [of "\<lambda>x. lg_id x = lg_id l" "\<lambda>x. x\<lparr>lg_status := ''delivered''\<rparr>" "set_order ?i (\<lambda>o'. o'\<lparr>od_status := ''delivered''\<rparr>) ?s1"]
      credit_earnings [of ?i user ?s2] unfolding s' move_order_def by (auto simp: add_attempt_def add_event_def set_order_def)
  then have "delivery_proved ?i s'" using proved by (simp add: delivery_proved_def packages_of_def)
  moreover have "find_order ?i s' = Some (o'\<lparr>od_status := ''delivered''\<rparr>)" using mv(1) unfolding s' by (simp add: find_order_def)
  moreover have "\<exists>e \<in> set (fl_earnings s'). er_courier e = user \<and> er_order e = ?i"
    if "0 < cm_total (snapshot_courier_earning_components (od_policy o') (lg_facts l))"
    using credited [OF mv, of user] ps that unfolding s' by (simp add: add_attempt_def)
  moreover have "proof_distance env r o' \<le> 10 \<or> (m = (map_of (pp_override (proof_policy_of (find_service (od_service o') s))) ''manual_review_required''
        \<noteq> Some (JBool False)) \<and> canOverrideDistance (proof_policy_of (find_service (od_service o') s)) r (proof_distance env r o') \<and> proof_distance env r o' \<le> 100)"
    using proof_place(1) [OF ok] radius_le [of "find_service (od_service o') s"] override_le m by (fastforce simp: manual_review_def Let_def)
  ultimately show ?thesis using ps proof_place(2-4) [OF ok] proof_status [OF ok] dl by (intro exI [of _ o'] exI [of _ l]) (simp add: Let_def)
qed

text \<open>
  The credit a proof writes itself never adds anything: the trigger on the leg has already credited the delivery whenever there
  is anything to credit.
\<close>

theorem proof_credit_redundant:
  assumes inv: "fleet_inv s" and o': "find_order i s = Some o'" and l: "first_leg i s = Some l" "lg_courier l = Some user"
  shows "creditCourierDeliveryEarning i user (move_order i (lg_id l) ''delivered'' s) = move_order i (lg_id l) ''delivered'' s"
proof -
  let ?f = "\<lambda>x. x\<lparr>lg_status := ''delivered''\<rparr>" and ?P = "\<lambda>x. lg_id x = lg_id l"
  let ?t = "set_order i (\<lambda>o'. o'\<lparr>od_status := ''delivered''\<rparr>) s"
  let ?u = "?t\<lparr>fl_legs := map (\<lambda>x. if ?P x then ?f x else x) (fl_legs ?t)\<rparr>"
  have m: "l \<in> set (fl_legs s)" "lg_order l = i" using first_leg_member [OF l(1)] by simp_all
  have dist: "distinct (map lg_id (fl_legs s))" using inv by (simp add: fleet_inv_def keys_ok_def)
  have "filter ?P (fl_legs s) = [l]" using filter_key [OF dist m(1)] by simp
  then have step: "move_order i (lg_id l) ''delivered'' s = credit_leg (?f l) ?u"
    using dist m by (simp add: move_order_def set_legs_def)
  have f: "find_order i ?u = Some (o'\<lparr>od_status := ''delivered''\<rparr>)"
    using o' find_order_set [of "\<lambda>x. x\<lparr>od_status := ''delivered''\<rparr>" i s] by (simp add: find_order_def)
  let ?c = "snapshot_courier_earning_components (od_policy o') (lg_facts l)"
  have amount: "sync_courier_delivery_earning (policy_of (lg_order (?f l)) ?u) (lg_facts (?f l)) (lg_status (?f l)) = cm_total ?c"
    using f m delivered_total by (simp add: policy_of_def)
  have "list_ex (\<lambda>e. er_courier e = user \<and> er_order e = i) (fl_earnings (credit_leg (?f l) ?u))" if "0 < cm_total ?c"
    using that l(2) m amount by (auto simp: credit_leg_def Let_def list_ex_iff)
  note have_it = this
  note reads = move_order_reads [OF o' l(1), of "''delivered''", unfolded step]
  show ?thesis
  proof (cases "0 < cm_total ?c")
    case True
    then show ?thesis unfolding step creditCourierDeliveryEarning_def reads using have_it by (simp add: Let_def)
  next
    case False
    then show ?thesis unfolding step creditCourierDeliveryEarning_def reads by (simp add: Let_def)
  qed
qed

section \<open>Examples\<close>

definition demo_leg :: leg_row where
  "demo_leg = \<lparr>lg_id = ''l1'', lg_order = ''o1'', lg_number = 1, lg_courier = Some ''c2'', lg_vehicle = Some ''vc2'', lg_status = ''in_transit'',
     lg_facts = \<lparr>lf_fee = 16000, lf_idle = 0, lf_toll = 0, lf_return = 0, lf_extra = 0, lf_cancellation = 0, lf_penalty = 0\<rparr>,
     lg_assigned = Some 0, lg_safety = ''NONE''\<rparr>"

definition demo_transit :: fleet where
  "demo_transit = demo_fleet\<lparr>fl_orders := [demo_order\<lparr>od_status := ''in_transit''\<rparr>], fl_legs := [demo_leg],
     fl_services := [demo_service\<lparr>sv_face := Some False\<rparr>]\<rparr>"

definition demo_near :: match_env where
  "demo_near = demo_env\<lparr>me_distance := (\<lambda>_ _. 5)\<rparr>"

definition demo_pod :: proof_request where
  "demo_pod = \<lparr>pr_order = ''o1'', pr_delivery = True, pr_location = (1, 1), pr_accuracy = Some 8, pr_barcode = None, pr_photo = Some ''p.jpg'',
     pr_spoof = None, pr_face = None, pr_package = None, pr_reason = None\<rparr>"

definition demo_delivered :: fleet where
  "demo_delivered = snd (verifyOnDemandStep demo_near ''c2'' demo_pod demo_transit)"

lemma demo_verify: "verifyOnDemandStep demo_near ''c2'' demo_pod demo_transit = (ProofAccepted True False, demo_delivered)"
  unfolding demo_delivered_def by code_simp

lemma demo_transit_inv: "fleet_inv demo_transit"
  by (simp add: fleet_inv_def keys_ok_def dispatch_ok_def order_ok_def demo_transit_def demo_fleet_def demo_order_def demo_leg_def AWAITING_def READY_def)

lemma demo_reads: "find_order ''o1'' demo_transit = Some (demo_order\<lparr>od_status := ''in_transit''\<rparr>)" "first_leg ''o1'' demo_transit = Some demo_leg"
  "lg_courier demo_leg = Some ''c2''"
  by (simp_all add: find_order_def first_leg_def demo_transit_def demo_fleet_def demo_order_def demo_leg_def)

theorem delivery_needs_proof_witness:
  "find_order ''o1'' demo_delivered = Some (demo_order\<lparr>od_status := ''delivered''\<rparr>)
     \<and> (\<exists>e \<in> set (fl_earnings demo_delivered). er_courier e = ''c2'' \<and> er_order e = ''o1'')"
proof -
  have "0 < cm_total (snapshot_courier_earning_components (Some demo_policy) (lg_facts demo_leg))" by code_simp
  then show ?thesis using delivery_needs_proof [OF demo_verify] demo_reads by (simp add: demo_pod_def demo_order_def)
qed

theorem proof_credit_redundant_witness:
  "creditCourierDeliveryEarning ''o1'' ''c2'' (move_order ''o1'' ''l1'' ''delivered'' demo_transit) = move_order ''o1'' ''l1'' ''delivered'' demo_transit"
proof -
  have "lg_id demo_leg = ''l1''" by (simp add: demo_leg_def)
  then show ?thesis using proof_credit_redundant [OF demo_transit_inv demo_reads] by simp
qed

end
