(* ===== verification/DeliveryChanges.thy ===== *)
theory DeliveryChanges
  imports DeliveryProof
begin

text \<open>
  The other ways an on-demand order changes its status: the courier moves it on or cancels the pickup
  (\<open>controllers/courier/courierAccount.controller.ts\<close>), the customer cancels (\<open>controllers/order/customerOrder.controller.ts\<close>), an
  administrator forces a cancellation (\<open>services/adminOrderActions.service.ts\<close>).  The refunds of the order service are a parameter.
  The promotions a customer's cancellation releases are modelled elsewhere.
\<close>

section \<open>The courier moves an order on\<close>

definition workflow_role :: "fleet \<Rightarrow> order_row \<Rightarrow> leg_row \<Rightarrow> string" where
  "workflow_role s o' l =
     (let cat = (case find_service (order_service o') s of None \<Rightarrow> [] | Some v \<Rightarrow> sv_category v) in
      if cat \<in> {''on_demand'', ''tambal_ban'', ''towing''} then ''on_demand''
      else if cat = ''food_delivery'' then ''food_delivery''
      else if toLowerCase (od_model o') = ''p2p'' then ''regular''
      else if lg_number l = 1 then ''pickup'' else if lg_number l > 1 then ''delivery'' else ''network'')"

text \<open>The first leg of the order that the courier has.\<close>

definition courier_leg :: "uuid \<Rightarrow> uuid \<Rightarrow> fleet \<Rightarrow> (order_row \<times> leg_row) option" where
  "courier_leg i user s =
     (case find_order i s of None \<Rightarrow> None
      | Some o' \<Rightarrow> (case sort_key lg_number (filter (\<lambda>l. lg_order l = i \<and> lg_courier l = Some user) (fl_legs s)) of [] \<Rightarrow> None | l # _ \<Rightarrow> Some (o', l)))"

definition failed_attempts :: "uuid \<Rightarrow> fleet \<Rightarrow> int" where
  "failed_attempts i s = int (length (filter (\<lambda>(j, u, t). j = i \<and> t \<in> {''regular_delivery_failed'', ''delivery_rescheduled''}) (fl_events s)))"

definition reschedule_limit :: "fleet \<Rightarrow> order_row \<Rightarrow> int" where
  "reschedule_limit s o' =
     (let n = (case find_service (order_service o') s of None \<Rightarrow> 3 | Some v \<Rightarrow> or_else (sv_reschedules v) 3) in if n = 0 then 3 else n)"

text \<open>A failed regular delivery is rescheduled until its attempts are used up.\<close>

definition effective_status :: "fleet \<Rightarrow> order_row \<Rightarrow> string \<Rightarrow> string \<Rightarrow> string" where
  "effective_status s o' role st =
     (if role = ''regular'' \<and> st = ''failed''
      then (if failed_attempts (od_id o') s + 1 \<ge> reschedule_limit s o' then ''return_required'' else ''delivery_rescheduled'') else st)"

definition open_policies :: "string \<Rightarrow> string \<Rightarrow> fleet \<Rightarrow> policy_row list" where
  "open_policies role st s = filter (\<lambda>p. tp_role p = role \<and> tp_from p = st \<and> tp_active p \<and> \<not> tp_admin p) (fl_policies s)"

text \<open>The status a transition starts from: the one of the leg, or of the order where the leg has none.\<close>

definition current_status :: "order_row \<Rightarrow> leg_row \<Rightarrow> string" where
  "current_status o' l = toLowerCase (if lg_status l \<noteq> [] then lg_status l else od_status o')"

text \<open>The checks in their order; the policy found is the first one.\<close>

definition status_refusal :: "fleet \<Rightarrow> order_row \<Rightarrow> leg_row \<Rightarrow> string \<Rightarrow> string option" where
  "status_refusal s o' l st =
     (let role = workflow_role s o' l; from = current_status o' l; target = effective_status s o' role st; ps = open_policies role from s in
      if lg_safety l \<noteq> ''NONE'' \<and> lg_safety l \<noteq> [] then Some ''ERR_SAFETY_ORDER_CONTROL_ACTIVE''
      else if toLowerCase (od_status o') \<in> {''delivered'', ''cancelled'', ''completed'', ''returned''} then Some ''ERR_FINAL_STATUS''
      else if role = ''on_demand'' \<and> st \<in> {''failed'', ''return_required'', ''returned'', ''reschedule_required'', ''delivery_rescheduled''}
        then Some ''ERR_ON_DEMAND_MUST_DELIVER''
      else if ps = [] then Some ''ERR_STATUS_TRANSITION_POLICY_MISSING''
      else case find (\<lambda>p. tp_to p = target) ps of None \<Rightarrow> Some ''ERR_STATUS_TRANSITION_NOT_ALLOWED''
      | Some p \<Rightarrow> if tp_proof p then Some ''ERR_STATUS_REQUIRES_PROOF'' else None)"

definition pickupStatuses :: "string list" where
  "pickupStatuses = [''going_to_pickup'', ''pickup_pending'', ''pickup_arrived'', ''picked_up'', ''in_transit'']"

definition in_batch :: "uuid \<Rightarrow> order_row \<Rightarrow> bool" where
  "in_batch b o' \<longleftrightarrow> od_batch o' = Some b"

text \<open>A pickup status of an order in a batch goes to the whole batch, the legs of other couriers excepted.\<close>

definition write_status :: "uuid \<Rightarrow> order_row \<Rightarrow> leg_row \<Rightarrow> string \<Rightarrow> fleet \<Rightarrow> fleet" where
  "write_status user o' l st s =
     (if st \<in> set pickupStatuses \<and> od_batch o' \<noteq> None \<and> od_batch o' \<noteq> Some []
      then (let ids = map od_id (filter (\<lambda>x. od_batch x = od_batch o') (fl_orders s));
                s1 = set_legs (\<lambda>x. lg_courier x = Some user \<and> lg_order x \<in> set ids) (\<lambda>x. x\<lparr>lg_status := st\<rparr>) s
            in s1\<lparr>fl_orders := map (\<lambda>x. if od_batch x = od_batch o' then x\<lparr>od_status := st\<rparr> else x) (fl_orders s1)\<rparr>)
      else set_order (od_id o') (\<lambda>x. x\<lparr>od_status := st\<rparr>) (set_legs (\<lambda>x. lg_id x = lg_id l) (\<lambda>x. x\<lparr>lg_status := st\<rparr>) s))"

definition status_event :: "string \<Rightarrow> string \<Rightarrow> string \<Rightarrow> string" where
  "status_event role st target =
     (if st = ''pickup_arrived'' then ''pickup_arrived''
      else if role = ''regular'' \<and> st = ''failed'' then (if target = ''return_required'' then ''return_required'' else ''delivery_rescheduled'')
      else ''courier_status_updated'')"

text \<open>\<open>None\<close> is success, otherwise the error code.\<close>

definition updateMobileCourierOrderStatus :: "uuid \<Rightarrow> string \<Rightarrow> string \<Rightarrow> fleet \<Rightarrow> string option \<times> fleet" where
  "updateMobileCourierOrderStatus user order_id status s =
     (let i = js_trim order_id; st = toLowerCase (js_trim status) in
      if i = [] \<or> st = [] then (Some ''ERR_BAD_REQUEST'', s)
      else case courier_leg i user s of None \<Rightarrow> (Some ''ERR_ORDER_NOT_FOUND'', s)
      | Some (o', l) \<Rightarrow>
          (case status_refusal s o' l st of Some e \<Rightarrow> (Some e, s)
           | None \<Rightarrow>
               (let role = workflow_role s o' l; target = effective_status s o' role st in
                (None, add_event i user (status_event role st target) (write_status user o' l target s)))))"

section \<open>The courier cancels a pickup\<close>

definition pickup_refusal :: "uuid \<Rightarrow> order_row \<Rightarrow> fleet \<Rightarrow> string option" where
  "pickup_refusal i o' s =
     (if toLowerCase (od_status o') \<in> {''picked_up'', ''in_transit'', ''delivered'', ''completed''} then Some ''ERR_PICKUP_ALREADY_COMPLETED''
      else if list_ex (\<lambda>(j, t). j = i \<and> t \<in> {''pickup'', ''pickup_scan'', ''pickup_photo''}) (fl_scans s) then Some ''ERR_PICKUP_PROOF_EXISTS'' else None)"

definition drop_dispatch :: "string \<Rightarrow> offer_row \<Rightarrow> offer_row" where
  "drop_dispatch reason d = d\<lparr>dp_status := (if dp_status d = DAccepted then DCancelled else dp_status d), dp_reason := Some (or_else (dp_reason d) reason)\<rparr>"

definition cancel_pickup :: "uuid \<Rightarrow> uuid \<Rightarrow> uuid \<Rightarrow> string \<Rightarrow> fleet \<Rightarrow> fleet" where
  "cancel_pickup i user leg reason s =
     (let s1 = move_order i leg ''cancelled'' s;
          s2 = set_dispatches (\<lambda>d. dp_order d = i \<and> dp_courier d = user) (drop_dispatch reason) s1;
          s3 = s2\<lparr>fl_scans := fl_scans s2 @ [(i, ''pickup_cancellation'')]\<rparr>
      in add_event i user ''pickup_cancelled_by_courier'' s3)"

text \<open>\<open>reasons\<close> are the active codes of the table of reasons; the uploaded photo is given or not.\<close>

definition cancelMobileCourierOnDemandPickup :: "string list \<Rightarrow> uuid \<Rightarrow> uuid \<Rightarrow> string \<Rightarrow> bool \<Rightarrow> fleet \<Rightarrow> string option \<times> fleet" where
  "cancelMobileCourierOnDemandPickup reasons user i reason photo s =
     (let code = js_trim reason in
      if i = [] \<or> code = [] \<or> code \<notin> set reasons then (Some ''ERR_INVALID_REASON'', s)
      else if \<not> photo then (Some ''ERR_PHOTO_REQUIRED'', s)
      else case proof_order i user s of None \<Rightarrow> (Some ''ERR_ORDER_NOT_FOUND'', s)
      | Some (o', l) \<Rightarrow> (case pickup_refusal i o' s of Some e \<Rightarrow> (Some e, s) | None \<Rightarrow> (None, cancel_pickup i user (lg_id l) code s)))"

section \<open>Cancellations from outside\<close>

definition TERMINAL_NON_CANCELLABLE_STATUSES :: "string list" where
  "TERMINAL_NON_CANCELLABLE_STATUSES = [''cancelled'', ''failed'', ''completed'', ''delivered'', ''pod_completed'']"

definition close_offer :: "offer_row \<Rightarrow> offer_row" where
  "close_offer d = d\<lparr>dp_status := DExpired\<rparr>"

definition cancel_order :: "uuid \<Rightarrow> uuid \<Rightarrow> fleet \<Rightarrow> fleet" where
  "cancel_order i actor s =
     (let s1 = set_dispatches (\<lambda>d. dp_order d = i \<and> dp_status d = DOffered) close_offer s;
          s2 = set_order i (\<lambda>o'. o'\<lparr>od_status := ''cancelled''\<rparr>) s1;
          s3 = set_legs (\<lambda>l. lg_order l = i \<and> lg_status l \<notin> {''delivered'', ''completed'', ''cancelled'', ''failed'', ''rejected''})
                 (\<lambda>l. l\<lparr>lg_status := ''cancelled''\<rparr>) s2
      in add_event i actor ''cancelled'' s3)"

text \<open>The answer of the order service: none, an error status, or a body (\<open>None\<close> when it is no JSON).\<close>

datatype refund_response = Unreachable | HttpError nat | HttpOk "json option"
datatype refund_mode = RefundNone | RefundFull | RefundPartial

definition nullish_or :: "json option \<Rightarrow> json option \<Rightarrow> json option" where
  "nullish_or a b = (if a = None \<or> a = Some JNull then b else a)"

definition refund_amount :: "json option \<Rightarrow> rat option" where
  "refund_amount body =
     (let data = (case body of None \<Rightarrow> None | Some b \<Rightarrow> json_field ''data'' b);
          field = (\<lambda>k. case data of None \<Rightarrow> None | Some d \<Rightarrow> json_field k d);
          v = nullish_or (field ''amount_idr'') (nullish_or (field ''AmountIDR'') None)
      in finite_value (json_number v))"

definition read_refund :: "string \<Rightarrow> refund_response \<Rightarrow> rat option \<times> string option" where
  "read_refund failed r =
     (case r of Unreachable \<Rightarrow> (None, Some ''order_service_unreachable'')
      | HttpError n \<Rightarrow> (None, Some (failed @ show_int (int n)))
      | HttpOk body \<Rightarrow> (refund_amount body, None))"

text \<open>\<open>full\<close> and \<open>part\<close> are the answers to the two requests, \<open>items\<close> the items to refund.\<close>

definition triggerRefund :: "refund_mode \<Rightarrow> (string \<times> int) list \<Rightarrow> refund_response \<Rightarrow> refund_response \<Rightarrow> rat option \<times> string option" where
  "triggerRefund mode items full part =
     (case mode of RefundNone \<Rightarrow> (None, None)
      | RefundFull \<Rightarrow> read_refund ''refund_process_failed_'' full
      | RefundPartial \<Rightarrow> if items = [] then (None, Some ''refund_items_required_for_partial_mode'') else read_refund ''refund_items_failed_'' part)"

datatype force_reply = ForceNotFound | ForceFinal | ForceCancelled bool "rat option" "string option"

definition forceCancelOrder ::
    "uuid \<Rightarrow> uuid \<Rightarrow> refund_mode \<Rightarrow> (string \<times> int) list \<Rightarrow> refund_response \<Rightarrow> refund_response \<Rightarrow> fleet \<Rightarrow> force_reply \<times> fleet" where
  "forceCancelOrder i actor mode items full part s =
     (case find_order i s of None \<Rightarrow> (ForceNotFound, s)
      | Some o' \<Rightarrow>
          if od_status o' \<in> set TERMINAL_NON_CANCELLABLE_STATUSES then (ForceFinal, s)
          else (case triggerRefund mode items full part of
            (amount, err) \<Rightarrow> (ForceCancelled (err = None \<and> mode \<noteq> RefundNone) amount err, cancel_order i actor s)))"

definition cancellableStatuses :: "string list" where
  "cancellableStatuses = [''pending'', ''pending_payment'', ''scheduled'', ''paid'', ''dispatching'', ''offered'', ''searching'', ''no_courier_found'']"

definition foodCancellableStatuses :: "string list" where
  "foodCancellableStatuses = [''pending'', ''pending_payment'', ''pending_merchant'', ''preparing'', ''ready_for_pickup'', ''searching'', ''accepted'',
     ''picking_up'', ''no_courier_found'']"

datatype cancel_reply = CancelNotFound | CancelRefused | CancelDone

definition cancelCustomerOrder :: "match_env \<Rightarrow> uuid \<Rightarrow> uuid \<Rightarrow> fleet \<Rightarrow> cancel_reply \<times> fleet" where
  "cancelCustomerOrder env i customer s =
     (case find_order i s of None \<Rightarrow> (CancelNotFound, s)
      | Some o' \<Rightarrow>
          if od_customer o' \<noteq> customer then (CancelNotFound, s)
          else if od_status o' \<notin> set (if od_sub_type o' = Some ''food_delivery'' \<or> od_merchant o' \<noteq> None then foodCancellableStatuses else cancellableStatuses)
          then (CancelRefused, s)
          else (let s1 = cancel_order i customer s in
            (CancelDone, case advanceOnDemandDispatchQueue env 5 s1 of None \<Rightarrow> s1 | Some (_, s2) \<Rightarrow> s2)))"

section \<open>The changes keep the invariant\<close>

lemma held_set_legs:
  assumes "\<And>l. lg_order (f l) = lg_order l \<and> lg_courier (f l) = lg_courier l"
  shows "held i (set_legs P f s) = held i s"
proof -
  define g where "g = (\<lambda>l. if P l then f l else l)"
  have g: "lg_order (g l) = lg_order l" "lg_courier (g l) = lg_courier l" for l using assms by (simp_all add: g_def)
  have legs: "set (fl_legs (set_legs P f s)) = g ` set (fl_legs s)" by (simp add: g_def)
  show ?thesis unfolding held_def legs bex_simps g by simp
qed

lemma courier_leg_spec:
  assumes "courier_leg i user s = Some (o', l)"
  shows "find_order i s = Some o' \<and> l \<in> set (fl_legs s) \<and> lg_order l = i \<and> lg_courier l = Some user"
proof -
  let ?q = "sort_key lg_number (filter (\<lambda>l. lg_order l = i \<and> lg_courier l = Some user) (fl_legs s))"
  obtain f where f: "find_order i s = Some f" using assms by (auto simp: courier_leg_def split: option.splits)
  obtain rest where "?q = l # rest" "f = o'" using assms f by (cases ?q) (auto simp: courier_leg_def)
  then have "l \<in> set ?q" "f = o'" by simp_all
  then have "l \<in> set (filter (\<lambda>l. lg_order l = i \<and> lg_courier l = Some user) (fl_legs s))" "f = o'" by (simp_all only: set_sort)
  then show ?thesis using f by simp
qed

lemma status_refusal_none:
  assumes "status_refusal s o' l st = None"
  shows "toLowerCase (od_status o') \<notin> {''delivered'', ''cancelled'', ''completed'', ''returned''}
     \<and> (\<exists>p \<in> set (fl_policies s). tp_active p \<and> \<not> tp_admin p \<and> \<not> tp_proof p \<and> tp_to p = effective_status s o' (workflow_role s o' l) st)
     \<and> (lg_safety l = ''NONE'' \<or> lg_safety l = [])"
proof -
  let ?ps = "open_policies (workflow_role s o' l) (current_status o' l) s"
  let ?target = "effective_status s o' (workflow_role s o' l) st"
  note ok = assms [unfolded status_refusal_def Let_def if_some_none]
  then obtain p where p: "find (\<lambda>p. tp_to p = ?target) ?ps = Some p" by (cases "find (\<lambda>p. tp_to p = ?target) ?ps") auto
  then have "\<not> tp_proof p" using ok by auto
  moreover have "p \<in> set ?ps" "tp_to p = ?target" using p by (auto simp: find_Some_iff)
  ultimately show ?thesis using ok by (auto simp: open_policies_def)
qed

lemma final_lower: "st \<in> set FINAL \<Longrightarrow> toLowerCase st \<in> {''delivered'', ''cancelled'', ''completed'', ''returned''}"
  by (auto simp: FINAL_def toLowerCase_def lower_char_def)

lemma final_lower_eq: "st \<in> set FINAL \<Longrightarrow> toLowerCase st = st"
  by (auto simp: FINAL_def toLowerCase_def lower_char_def)

lemma final_cases: "st \<in> set FINAL \<Longrightarrow> st = ''delivered'' \<or> st = ''completed'' \<or> st = ''cancelled''"
  by (auto simp: FINAL_def)

lemma pickup_not_awaiting: "st \<in> set pickupStatuses \<Longrightarrow> st \<notin> set AWAITING"
  by (auto simp: pickupStatuses_def AWAITING_def READY_def)

lemma write_status_inv:
  assumes inv: "fleet_inv s" and l: "l \<in> set (fl_legs s)" "lg_order l = od_id o'" "lg_courier l = Some user" and o': "o' \<in> set (fl_orders s)"
    and st: "st \<notin> set AWAITING" and open': "od_status o' \<notin> set FINAL"
  shows "fleet_inv (write_status user o' l st s) \<and> final_kept s (write_status user o' l st s)"
proof (cases "st \<in> set pickupStatuses \<and> od_batch o' \<noteq> None \<and> od_batch o' \<noteq> Some []")
  case True
  let ?ids = "map od_id (filter (\<lambda>x. od_batch x = od_batch o') (fl_orders s))"
  let ?s1 = "set_legs (\<lambda>x. lg_courier x = Some user \<and> lg_order x \<in> set ?ids) (\<lambda>x. x\<lparr>lg_status := st\<rparr>) s"
  let ?f = "\<lambda>x. if od_batch x = od_batch o' then x\<lparr>od_status := st\<rparr> else x"
  have w: "write_status user o' l st s = change_orders ?f ?s1" using True by (simp add: write_status_def change_orders_def Let_def)
  have "fleet_inv ?s1" by (rule legs_inv [OF inv]) simp
  then have "fleet_inv (change_orders ?f ?s1)" by (rule change_orders_inv) (use st True in \<open>auto split: if_splits\<close>)
  moreover have "unpaid_kept (fl_orders s) (map ?f (fl_orders s))"
    by (rule unpaid_kept_map) (use st in \<open>auto simp: AWAITING_def split: if_splits\<close>)
  then have "final_kept s (change_orders ?f ?s1)" using True by (force simp: final_kept_def change_orders_def)
  ultimately show ?thesis unfolding w by simp
next
  case False
  let ?s1 = "set_legs (\<lambda>x. lg_id x = lg_id l) (\<lambda>x. x\<lparr>lg_status := st\<rparr>) s"
  let ?f = "\<lambda>x. x\<lparr>od_status := st\<rparr>"
  have w: "write_status user o' l st s = set_order (od_id o') ?f ?s1" using False by (auto simp: write_status_def)
  have inv1: "fleet_inv ?s1" by (rule legs_inv [OF inv]) simp
  have "held (od_id o') s" using l by (auto simp: held_def)
  then have none: "d \<in> set (fl_dispatches s) \<Longrightarrow> dp_order d = od_id o' \<Longrightarrow> dp_status d \<noteq> DOffered" for d by (rule held_not_offered [OF inv])
  have "fleet_inv (set_order (od_id o') ?f ?s1)" by (rule order_inv [OF inv1]) (use none st in auto)
  moreover have "final_kept ?s1 (set_order (od_id o') ?f ?s1)"
  proof (rule order_final)
    fix x assume x: "x \<in> set (fl_orders ?s1)" "od_id x = od_id o'" "od_status x \<in> set FINAL"
    have "distinct (map od_id (fl_orders s))" using inv by (simp add: fleet_inv_def keys_ok_def)
    then have "x = o'" using x(1,2) o' distinct_map_eq by (metis set_legs_sel(2))
    then show "?f x = x" using x(3) open' by simp
  qed (use st in \<open>simp_all add: AWAITING_def\<close>)
  then have "final_kept s (set_order (od_id o') ?f ?s1)" by (simp add: final_kept_def)
  ultimately show ?thesis unfolding w by simp
qed

lemma update_status_inv:
  assumes inv: "fleet_inv s" and run: "updateMobileCourierOrderStatus user i st s = (r, s')"
  shows "fleet_inv s' \<and> final_kept s s'"
proof (cases "s' = s")
  case False
  let ?i = "js_trim i" and ?st = "toLowerCase (js_trim st)"
  from run False obtain o' l where c: "courier_leg ?i user s = Some (o', l)" and ok: "status_refusal s o' l ?st = None"
    and s': "s' = add_event ?i user (status_event (workflow_role s o' l) ?st (effective_status s o' (workflow_role s o' l) ?st))
        (write_status user o' l (effective_status s o' (workflow_role s o' l) ?st) s)"
    unfolding updateMobileCourierOrderStatus_def Let_def by (auto split: if_splits option.splits prod.splits)
  note cs = courier_leg_spec [OF c]
  note m = find_order_member [OF conjunct1 [OF cs]]
  note rf = status_refusal_none [OF ok]
  then have "effective_status s o' (workflow_role s o' l) ?st \<notin> set AWAITING" using inv by (auto simp: fleet_inv_def policy_ok_def)
  moreover have "od_status o' \<notin> set FINAL" using rf final_lower by blast
  ultimately show ?thesis using write_status_inv [OF inv, of l o' user] cs m unfolding s' by simp
qed (use inv in simp)

lemma move_order_status:
  assumes x: "x \<in> set (fl_orders (move_order i leg st s))" "od_id x = i"
  shows "od_status x = st"
proof -
  have "x \<in> (\<lambda>o'. if od_id o' = i then o'\<lparr>od_status := st\<rparr> else o') ` set (fl_orders s)" using x(1) unfolding move_order_def set_legs_sel set_order_def by simp
  then obtain y where "x = (if od_id y = i then y\<lparr>od_status := st\<rparr> else y)" by blast
  then show ?thesis using x(2) by (cases "od_id y = i") simp_all
qed

lemma force_cancel_cases:
  "forceCancelOrder i actor mode items full part s = (r, s') \<Longrightarrow> s' = s \<or> (\<exists>o'. find_order i s = Some o' \<and> od_status o' \<notin> set TERMINAL_NON_CANCELLABLE_STATUSES
     \<and> s' = cancel_order i actor s)"
  unfolding forceCancelOrder_def by (simp split: option.splits if_splits prod.splits)

lemma pickup_cancel_cases:
  "cancelMobileCourierOnDemandPickup reasons user i reason photo s = (r, s') \<Longrightarrow> s' = s \<or> (\<exists>o' l. proof_order i user s = Some (o', l) \<and> pickup_refusal i o' s = None
     \<and> s' = cancel_pickup i user (lg_id l) (js_trim reason) s)"
  unfolding cancelMobileCourierOnDemandPickup_def Let_def by (simp split: option.splits if_splits prod.splits)

lemma customer_cancel_cases:
  "cancelCustomerOrder env i customer s = (r, s') \<Longrightarrow> s' = s \<or> (\<exists>o'. find_order i s = Some o' \<and> od_status o' \<in> set cancellableStatuses \<union> set foodCancellableStatuses
     \<and> s' = (case advanceOnDemandDispatchQueue env 5 (cancel_order i customer s) of None \<Rightarrow> cancel_order i customer s | Some (_, s2) \<Rightarrow> s2))"
  unfolding cancelCustomerOrder_def Let_def by (auto split: option.splits if_splits)

lemma cancel_pickup_inv:
  assumes inv: "fleet_inv s" and o': "proof_order i user s = Some (o', l)" and ok: "pickup_refusal i o' s = None"
  shows "fleet_inv (cancel_pickup i user (lg_id l) reason s) \<and> final_kept s (cancel_pickup i user (lg_id l) reason s)"
proof -
  let ?s1 = "move_order i (lg_id l) ''cancelled'' s"
  let ?s2 = "set_dispatches (\<lambda>d. dp_order d = i \<and> dp_courier d = user) (drop_dispatch reason) ?s1"
  note p = proof_order_spec [OF o']
  have held: "held i s" using first_leg_held p by blast
  have inv1: "fleet_inv ?s1" by (rule move_order_inv [OF inv held]) (simp add: AWAITING_def READY_def)
  have gone: "od_status x \<notin> set AWAITING" if "x \<in> set (fl_orders ?s1)" "od_id x = i" for x
    using move_order_status [OF that] by (simp add: AWAITING_def READY_def)
  have held1: "held i ?s1" using held by (simp add: move_order_def held_set_legs) (simp add: held_def)
  have "fleet_inv ?s2"
  proof (rule dispatch_close [OF inv1])
    fix d assume "d \<in> set (fl_dispatches ?s1)" "dp_order d = i \<and> dp_courier d = user"
    then have "dp_status d \<noteq> DOffered" using held_not_offered [OF inv1 held1] by blast
    then show "dp_status (drop_dispatch reason d) \<noteq> DOffered" by (simp add: drop_dispatch_def)
  next
    fix x :: order_row and d :: offer_row
    assume "dp_order d = i \<and> dp_courier d = user"
    then show "dp_status (drop_dispatch reason d) = DAccepted \<or> (x \<in> set (fl_orders ?s1) \<longrightarrow> od_id x = dp_order d \<longrightarrow> od_status x \<notin> set AWAITING)"
      using gone [of x] by blast
  qed (simp_all add: drop_dispatch_def split: if_splits)
  moreover have "final_kept s ?s1"
  proof (rule move_order_final)
    fix x assume x: "x \<in> set (fl_orders s)" "od_id x = i" "od_status x \<in> set FINAL"
    have "keys_ok s" using inv by (simp add: fleet_inv_def)
    then have "x = o'" using find_order_unique [of s x] x p by simp
    moreover have "toLowerCase (od_status o') \<notin> {''delivered'', ''completed''}" using ok by (auto simp: pickup_refusal_def)
    ultimately show "od_status x = ''cancelled''" using final_lower_eq [OF x(3)] final_cases [OF x(3)] by auto
  qed simp
  moreover have "fleet_inv (cancel_pickup i user (lg_id l) reason s) = fleet_inv ?s2"
    unfolding cancel_pickup_def Let_def event_inv by (rule fleet_inv_cong) simp_all
  moreover have "fl_orders (cancel_pickup i user (lg_id l) reason s) = fl_orders ?s1" by (simp add: cancel_pickup_def Let_def)
  ultimately show ?thesis unfolding final_kept_def by simp
qed

lemma cancel_pickup_endpoint_inv:
  assumes inv: "fleet_inv s" and run: "cancelMobileCourierOnDemandPickup reasons user i reason photo s = (r, s')"
  shows "fleet_inv s' \<and> final_kept s s'"
proof (cases "s' = s")
  case False
  then obtain o' l where "proof_order i user s = Some (o', l)" "pickup_refusal i o' s = None" "s' = cancel_pickup i user (lg_id l) (js_trim reason) s"
    using pickup_cancel_cases [OF run] by blast
  then show ?thesis using cancel_pickup_inv [OF inv] by blast
qed (use inv in simp)

lemma cancel_order_inv:
  assumes inv: "fleet_inv s" and open': "\<And>x. x \<in> set (fl_orders s) \<Longrightarrow> od_id x = i \<Longrightarrow> od_status x \<notin> set FINAL"
  shows "fleet_inv (cancel_order i actor s) \<and> final_kept s (cancel_order i actor s)"
proof -
  let ?s1 = "set_dispatches (\<lambda>d. dp_order d = i \<and> dp_status d = DOffered) close_offer s"
  let ?f = "\<lambda>x. x\<lparr>od_status := ''cancelled''\<rparr>"
  have inv1: "fleet_inv ?s1" by (rule dispatch_close [OF inv]) (simp_all add: close_offer_def)
  have none: "dp_status d \<noteq> DOffered" if "d \<in> set (fl_dispatches ?s1)" "dp_order d = i" for d
  proof -
    have "d \<in> (\<lambda>y. if dp_order y = i \<and> dp_status y = DOffered then close_offer y else y) ` set (fl_dispatches s)"
      using that(1) unfolding set_dispatches_def by simp
    then obtain y where "d = (if dp_order y = i \<and> dp_status y = DOffered then close_offer y else y)" by blast
    then show ?thesis using that(2) by (cases "dp_order y = i \<and> dp_status y = DOffered") (auto simp: close_offer_def)
  qed
  have cancelled: "''cancelled'' \<notin> set AWAITING" by (simp add: AWAITING_def READY_def)
  have "fleet_inv (set_order i ?f ?s1)"
  proof (rule order_inv [OF inv1])
    fix o' d assume "d \<in> set (fl_dispatches ?s1)" "dp_order d = i" "dp_status d = DOffered"
    then show "od_status (?f o') \<in> set READY" using none by blast
  qed (use cancelled in simp_all)
  then have "fleet_inv (cancel_order i actor s)" unfolding cancel_order_def Let_def event_inv by (rule legs_inv) simp
  moreover have "final_kept ?s1 (set_order i ?f ?s1)" by (rule order_final) (use open' in auto)
  then have "final_kept s (cancel_order i actor s)" by (simp add: final_kept_def cancel_order_def Let_def)
  ultimately show ?thesis by simp
qed

lemma force_cancel_inv:
  assumes inv: "fleet_inv s" and run: "forceCancelOrder i actor mode items full part s = (r, s')"
  shows "fleet_inv s' \<and> final_kept s s'"
proof (cases "s' = s")
  case False
  then obtain o' where o': "find_order i s = Some o'" "od_status o' \<notin> set TERMINAL_NON_CANCELLABLE_STATUSES" and s': "s' = cancel_order i actor s"
    using force_cancel_cases [OF run] by blast
  have "od_status x \<notin> set FINAL" if "x \<in> set (fl_orders s)" "od_id x = i" for x
  proof -
    have "x = o'" using find_order_unique [of s x] that o' inv by (simp add: fleet_inv_def)
    then show ?thesis using o'(2) by (auto simp: TERMINAL_NON_CANCELLABLE_STATUSES_def FINAL_def)
  qed
  then show ?thesis using cancel_order_inv [OF inv] s' by blast
qed (use inv in simp)

lemma customer_cancel_inv:
  assumes inv: "fleet_inv s" and run: "cancelCustomerOrder env i customer s = (r, s')"
  shows "fleet_inv s' \<and> final_kept s s'"
proof (cases "s' = s")
  case False
  let ?s1 = "cancel_order i customer s"
  from False obtain o' where o': "find_order i s = Some o'" "od_status o' \<in> set cancellableStatuses \<union> set foodCancellableStatuses"
    and s': "s' = (case advanceOnDemandDispatchQueue env 5 ?s1 of None \<Rightarrow> ?s1 | Some (_, s2) \<Rightarrow> s2)"
    using customer_cancel_cases [OF run] by blast
  have "od_status x \<notin> set FINAL" if "x \<in> set (fl_orders s)" "od_id x = i" for x
  proof -
    have "x = o'" using find_order_unique [of s x] that o' inv by (simp add: fleet_inv_def)
    then show ?thesis using o'(2) by (auto simp: cancellableStatuses_def foodCancellableStatuses_def FINAL_def)
  qed
  then have c: "fleet_inv ?s1 \<and> final_kept s ?s1" using cancel_order_inv [OF inv] by blast
  show ?thesis
  proof (cases "advanceOnDemandDispatchQueue env 5 ?s1")
    case None
    then show ?thesis using c s' by simp
  next
    case (Some a)
    obtain ds s2 where a: "a = (ds, s2)" by force
    then have "fleet_inv s2 \<and> final_kept ?s1 s2" using advance_inv [of ?s1 env 5 ds s2] c Some by (simp add: offers_only_def)
    then show ?thesis using c s' Some a final_kept_trans by auto
  qed
qed (use inv in simp)

end
