(* ===== verification/Payments.thy ===== *)
theory Payments
  imports DeliveryChanges PromoOrders EventOutbox WebhookSecurity
begin

text \<open>
  Payments of customers (\<open>controllers/order/customerOrderPayment.controller.ts\<close>, the payment parts of
  \<open>controllers/order/_shared.ts\<close>, \<open>midtrans.ts\<close>, \<open>services/customerOrderSchedule.ts\<close>): an order is paid from the
  balance of the customer (LAPAY), or in a session at the payment provider.

  \<open>pay_store\<close> puts the tables of deliveries, promotions and outbox beside payments, wallets and the wallet ledger; each operation
  is one transaction, and leaves the store as it was when a statement fails.  The provider and SHA-512 are parameters.  \<open>fl_paid\<close> of
  the deliveries is a view on the payments, brought up to date by \<open>refresh\<close>.  Times are milliseconds.
\<close>

section \<open>Tables\<close>

record customer_payment =
  pm_id :: uuid
  pm_order :: uuid
  pm_number :: string
  pm_provider :: string
  pm_method :: string
  pm_status :: string
  pm_amount :: int
  pm_reserves :: "int \<times> int \<times> int \<times> int"
  pm_net :: int
  pm_reference :: "string option"
  pm_token :: "string option"
  pm_url :: "string option"
  pm_client_key :: "string option"
  pm_js :: "string option"
  pm_expires :: instant
  pm_paid :: "instant option"

record wallet_row =
  wl_id :: uuid
  wl_customer :: uuid
  wl_balance :: int
  wl_status :: string
  wl_created :: instant

text \<open>A debit of a wallet.  The idempotency key is made of the order and the wallet, and determines both.\<close>

record debit_row =
  le_customer :: uuid
  le_wallet :: uuid
  le_order :: uuid
  le_payment :: uuid
  le_amount :: int
  le_after :: int

record pay_store =
  ps_fleet :: fleet
  ps_promo :: promo_store
  ps_payments :: "customer_payment list"
  ps_wallets :: "wallet_row list"
  ps_ledger :: "debit_row list"
  ps_outbox :: "outbox_row list"
  ps_audits :: "webhook_audit list"
  ps_number :: "uuid \<Rightarrow> string"

text \<open>The process environment, the clock, the ids the database makes, and the provider: a session for a reference and an amount.\<close>

record pay_env =
  pe_match :: match_env
  pe_sha :: "string \<Rightarrow> string"
  pe_sha512 :: "string \<Rightarrow> string"
  pe_service :: "string option"
  pe_random :: uuid
  pe_event_id :: uuid
  pe_payment_id :: uuid
  pe_audit_id :: uuid
  pe_server_key :: string
  pe_client_key :: string
  pe_js :: string
  pe_wallet_table :: bool
  pe_manual :: bool
  pe_provider :: "string \<Rightarrow> int \<Rightarrow> (string option \<times> string option) option"

abbreviation pe_now :: "pay_env \<Rightarrow> instant" where
  "pe_now env \<equiv> me_now (pe_match env)"

definition payment_of :: "uuid \<Rightarrow> pay_store \<Rightarrow> customer_payment option" where
  "payment_of i s = find (\<lambda>p. pm_order p = i) (ps_payments s)"

definition customer_order :: "uuid \<Rightarrow> uuid \<Rightarrow> pay_store \<Rightarrow> order_row option" where
  "customer_order i customer s =
     (case find_order i (ps_fleet s) of None \<Rightarrow> None | Some o' \<Rightarrow> if od_customer o' = customer then Some o' else None)"

definition paid_orders :: "customer_payment list \<Rightarrow> uuid list" where
  "paid_orders ps = map pm_order (filter (\<lambda>p. pm_status p = ''paid'') ps)"

definition refresh :: "pay_store \<Rightarrow> pay_store" where
  "refresh s = s\<lparr>ps_fleet := (ps_fleet s)\<lparr>fl_paid := paid_orders (ps_payments s)\<rparr>\<rparr>"

definition set_payments :: "(customer_payment \<Rightarrow> bool) \<Rightarrow> (customer_payment \<Rightarrow> customer_payment) \<Rightarrow> pay_store \<Rightarrow> pay_store" where
  "set_payments P f s = refresh (s\<lparr>ps_payments := map (\<lambda>p. if P p then f p else p) (ps_payments s)\<rparr>)"

definition set_fleet :: "(fleet \<Rightarrow> fleet) \<Rightarrow> pay_store \<Rightarrow> pay_store" where
  "set_fleet f s = s\<lparr>ps_fleet := f (ps_fleet s)\<rparr>"

definition set_promo :: "(promo_store \<Rightarrow> promo_store) \<Rightarrow> pay_store \<Rightarrow> pay_store" where
  "set_promo f s = s\<lparr>ps_promo := f (ps_promo s)\<rparr>"

section \<open>Statuses\<close>

datatype payment_method = Qris | Lapay

definition normalizeCustomerPaymentMethod :: "string option \<Rightarrow> payment_method" where
  "normalizeCustomerPaymentMethod v = (if toLowerCase (js_trim (str_or v [])) = ''lapay'' then Lapay else Qris)"

definition customerPaymentMethodLabel :: "string option \<Rightarrow> string option \<Rightarrow> string" where
  "customerPaymentMethodLabel provider meth =
     (if toLowerCase (str_or provider []) = ''lapay'' \<or> toLowerCase (str_or meth []) = ''lapay'' then ''LAPAY'' else ''QRIS'')"

definition paidCustomerOrderStatus :: "bool \<Rightarrow> bool \<Rightarrow> string" where
  "paidCustomerOrderStatus scheduled food =
     (if scheduled then ''scheduled'' else if food then ''pending_merchant'' else ''pending'')"

definition is_scheduled :: "order_row \<Rightarrow> bool" where
  "is_scheduled o' \<longleftrightarrow> od_schedule_type o' = ''scheduled'' \<and> od_scheduled o' \<noteq> None"

definition is_food :: "order_row \<Rightarrow> bool" where
  "is_food o' \<longleftrightarrow> od_merchant o' \<noteq> None \<or> od_sub_type o' = Some ''food_delivery''"

definition next_paid_status :: "order_row \<Rightarrow> string" where
  "next_paid_status o' = paidCustomerOrderStatus (is_scheduled o') (is_food o')"

datatype schedule_error = ScheduleKind | ScheduleOff | ScheduleMissing | ScheduleEarly

definition MIN_SCHEDULE_LEAD_MS :: int where
  "MIN_SCHEDULE_LEAD_MS = 30 * 60 * 1000"

text \<open>\<open>parse\<close> is the constructor of \<open>Date\<close>: no time for a text that is not one.\<close>

definition normalizeCustomerOrderSchedule ::
  "(string \<Rightarrow> instant option) \<Rightarrow> instant \<Rightarrow> bool \<Rightarrow> string option \<Rightarrow> string option \<Rightarrow> schedule_error + instant option" where
  "normalizeCustomerOrderSchedule parse now allowed kind raw_time =
     (let k = toLowerCase (js_trim (str_or kind ''now'')) in
      if k \<noteq> ''now'' \<and> k \<noteq> ''scheduled'' then Inl ScheduleKind
      else if k = ''now'' then Inr None
      else if \<not> allowed then Inl ScheduleOff
      else case parse (str_or raw_time []) of None \<Rightarrow> Inl ScheduleMissing
        | Some t \<Rightarrow> if t < now + MIN_SCHEDULE_LEAD_MS then Inl ScheduleEarly else Inr (Some t))"

definition isSuccessfulTransaction :: "string \<Rightarrow> string option \<Rightarrow> bool" where
  "isSuccessfulTransaction status fraud =
     (if status = ''capture'' then fraud = Some ''accept'' \<or> str_or fraud [] = [] else status = ''settlement'')"

definition isExpiredOrFailedTransaction :: "string \<Rightarrow> bool" where
  "isExpiredOrFailedTransaction status \<longleftrightarrow> status \<in> {''cancel'', ''deny'', ''expire'', ''failure''}"

section \<open>What the customer is shown\<close>

text \<open>The joined row of an order and its payment; the status may be overridden.\<close>

record pay_row =
  jr_number :: string
  jr_order_status :: string
  jr_total :: int
  jr_payment :: "customer_payment option"
  jr_status :: "string option"
  jr_wallet :: int

record pay_session =
  se_id :: string
  se_provider :: "string option"
  se_method :: string
  se_status :: string
  se_order_status :: string
  se_amount :: int
  se_wallet :: int
  se_token :: "string option"
  se_url :: "string option"
  se_reference :: "string option"
  se_client_key :: string
  se_js :: string
  se_expires_in :: int
  se_expires :: "instant option"

definition ceil_seconds :: "int \<Rightarrow> int" where
  "ceil_seconds ms = - ((- ms) div 1000)"

definition from_payment :: "(customer_payment \<Rightarrow> string option) \<Rightarrow> pay_row \<Rightarrow> string option" where
  "from_payment f r = (case jr_payment r of None \<Rightarrow> None | Some p \<Rightarrow> (case f p of Some (c # cs) \<Rightarrow> Some (c # cs) | _ \<Rightarrow> None))"

definition payable :: "customer_payment option \<Rightarrow> int \<Rightarrow> int" where
  "payable p amount = (case p of None \<Rightarrow> amount | Some x \<Rightarrow> if pm_amount x = 0 then amount else pm_amount x)"

definition expires_in :: "pay_env \<Rightarrow> pay_row \<Rightarrow> int" where
  "expires_in env r = (case jr_payment r of None \<Rightarrow> 0 | Some p \<Rightarrow> max 0 (ceil_seconds (pm_expires p - pe_now env)))"

definition shown_status :: "pay_env \<Rightarrow> pay_row \<Rightarrow> string" where
  "shown_status env r =
     (if jr_status r = Some ''paid'' then ''paid''
      else if jr_status r = Some ''failed'' \<or> jr_status r = Some ''expired'' then str_or (jr_status r) []
      else if jr_payment r \<noteq> None \<and> expires_in env r \<le> 0 then ''expired''
      else str_or (jr_status r) ''pending'')"

definition publicCustomerPaymentSession :: "pay_env \<Rightarrow> pay_row \<Rightarrow> pay_session" where
  "publicCustomerPaymentSession env r =
     \<lparr>se_id = (case jr_payment r of None \<Rightarrow> ''PAY-'' @ jr_number r | Some p \<Rightarrow> pm_id p),
      se_provider = from_payment (Some \<circ> pm_provider) r,
      se_method = customerPaymentMethodLabel (map_option pm_provider (jr_payment r)) (map_option pm_method (jr_payment r)),
      se_status = shown_status env r, se_order_status = jr_order_status r, se_amount = payable (jr_payment r) (jr_total r),
      se_wallet = jr_wallet r, se_token = from_payment pm_token r, se_url = from_payment pm_url r, se_reference = from_payment pm_reference r,
      se_client_key = str_or (from_payment pm_client_key r) (pe_client_key env), se_js = str_or (from_payment pm_js r) (pe_js env),
      se_expires_in = expires_in env r, se_expires = map_option pm_expires (jr_payment r)\<rparr>"

definition getCustomerWalletBalance :: "pay_env \<Rightarrow> uuid \<Rightarrow> pay_store \<Rightarrow> int" where
  "getCustomerWalletBalance env customer s =
     (if \<not> pe_wallet_table env then 0 else (\<Sum>w \<leftarrow> filter (\<lambda>w. wl_customer w = customer) (ps_wallets s). wl_balance w))"

definition row_of :: "pay_store \<Rightarrow> order_row \<Rightarrow> int \<Rightarrow> pay_row" where
  "row_of s o' wallet =
     \<lparr>jr_number = ps_number s (od_id o'), jr_order_status = od_status o', jr_total = od_total o', jr_payment = payment_of (od_id o') s,
      jr_status = map_option pm_status (payment_of (od_id o') s), jr_wallet = wallet\<rparr>"

definition getCustomerOrderPaymentRow :: "pay_env \<Rightarrow> uuid \<Rightarrow> uuid \<Rightarrow> pay_store \<Rightarrow> pay_row option" where
  "getCustomerOrderPaymentRow env customer i s =
     (case customer_order i customer s of None \<Rightarrow> None | Some o' \<Rightarrow> Some (row_of s o' (getCustomerWalletBalance env customer s)))"

text \<open>The notification of the customer after the transaction.\<close>

record pay_note =
  no_order :: uuid
  no_status :: string
  no_order_status :: string
  no_source :: string
  no_amount :: int

datatype pay_reply = PayError nat string | PayShown pay_session "pay_note list"

definition getCustomerOrderPaymentStatus :: "pay_env \<Rightarrow> uuid option \<Rightarrow> uuid \<Rightarrow> pay_store \<Rightarrow> pay_reply" where
  "getCustomerOrderPaymentStatus env customer i s =
     (case customer of None \<Rightarrow> PayError 401 ''Unauthorized''
      | Some c \<Rightarrow> (case getCustomerOrderPaymentRow env c i s of None \<Rightarrow> PayError 404 ''Order not found''
          | Some r \<Rightarrow> PayShown (publicCustomerPaymentSession env r) []))"

section \<open>Events and offers\<close>

definition paid_event :: "pay_store \<Rightarrow> uuid \<Rightarrow> uuid \<Rightarrow> uuid option \<Rightarrow> string \<Rightarrow> string \<Rightarrow> int \<Rightarrow> (string \<times> json) list \<Rightarrow> event_input" where
  "paid_event s i customer payment provider meth amount extra =
     \<lparr>ev_aggregate_type = ''payment'', ev_aggregate_id = payment, ev_type = ''payment.paid'', ev_version = Some 1,
      ev_payload = [(''order_id'', JStr i), (''order_number'', JStr (ps_number s i)), (''customer_id'', JStr customer),
        (''provider'', JStr provider), (''method'', JStr meth), (''amount_idr'', JNum (show_int amount))] @ extra,
      ev_headers = [], ev_available = None, ev_occurred = None, ev_produced = None, ev_market = None, ev_service = None, ev_actor = None,
      ev_entity = None, ev_correlation = None, ev_trace = None, ev_pii = None, ev_field_pii = None, ev_retention = None, ev_dedupe = None\<rparr>"

definition enqueue :: "pay_env \<Rightarrow> event_input \<Rightarrow> pay_store \<Rightarrow> pay_store option" where
  "enqueue env e s =
     (case enqueueOutboxEvent (pe_sha env) (pe_service env) (pe_now env) (pe_random env) (pe_event_id env) e (ps_outbox s) of
        Inl _ \<Rightarrow> None | Inr rows \<Rightarrow> Some (s\<lparr>ps_outbox := rows\<rparr>))"

definition serve_queue :: "pay_env \<Rightarrow> nat \<Rightarrow> pay_store \<Rightarrow> pay_store option" where
  "serve_queue env n s =
     (case advanceOnDemandDispatchQueue (pe_match env) n (ps_fleet s) of None \<Rightarrow> None | Some (_, f) \<Rightarrow> Some (s\<lparr>ps_fleet := f\<rparr>))"

definition redeem_order :: "uuid \<Rightarrow> uuid \<Rightarrow> pay_store \<Rightarrow> pay_store" where
  "redeem_order customer i = set_promo (redeemReservedPromosForPaidOrder customer i)"

definition pay_event :: "uuid \<Rightarrow> uuid \<Rightarrow> pay_store \<Rightarrow> pay_store" where
  "pay_event i customer = set_fleet (add_event i customer ''payment_confirmed'')"

section \<open>Paying from the balance\<close>

definition active_wallets :: "uuid \<Rightarrow> pay_store \<Rightarrow> wallet_row list" where
  "active_wallets customer s =
     sort_key (\<lambda>w. (wl_created w, wl_id w)) (filter (\<lambda>w. wl_customer w = customer \<and> wl_status w = ''active'') (ps_wallets s))"

text \<open>What is taken from each wallet, with the total balance afterwards; then what is still to pay, and that balance.\<close>

fun debits :: "int \<Rightarrow> int \<Rightarrow> wallet_row list \<Rightarrow> (uuid \<times> int \<times> int) list \<times> int \<times> int" where
  "debits remaining running [] = ([], remaining, running)"
| "debits remaining running (w # ws) =
     (if remaining \<le> 0 then ([], remaining, running)
      else if wl_balance w \<le> 0 then debits remaining running ws
      else (let d = min (wl_balance w) remaining in
        case debits (remaining - d) (running - d) ws of (ds, r, b) \<Rightarrow> ((wl_id w, d, running - d) # ds, r, b)))"

definition apply_debit :: "uuid \<Rightarrow> uuid \<Rightarrow> uuid \<Rightarrow> uuid \<times> int \<times> int \<Rightarrow> pay_store \<Rightarrow> pay_store" where
  "apply_debit customer i payment = (\<lambda>(wallet, d, running) s.
     (let s1 = s\<lparr>ps_wallets := map (\<lambda>w. if wl_id w = wallet \<and> wl_balance w \<ge> d then w\<lparr>wl_balance := wl_balance w - d\<rparr> else w) (ps_wallets s)\<rparr> in
      if list_ex (\<lambda>e. le_order e = i \<and> le_wallet e = wallet) (ps_ledger s) then s1
      else s1\<lparr>ps_ledger := ps_ledger s @
        [\<lparr>le_customer = customer, le_wallet = wallet, le_order = i, le_payment = payment, le_amount = d, le_after = running\<rparr>]\<rparr>))"

definition lapay_payment :: "pay_env \<Rightarrow> uuid \<Rightarrow> string \<Rightarrow> int \<Rightarrow> customer_payment" where
  "lapay_payment env i number amount =
     \<lparr>pm_id = pe_payment_id env, pm_order = i, pm_number = ''PAY-'' @ number, pm_provider = ''lapay'', pm_method = ''lapay'', pm_status = ''paid'',
      pm_amount = amount, pm_reserves = (0, 0, 0, 0), pm_net = amount, pm_reference = Some (''LAPAY-'' @ number), pm_token = None, pm_url = None,
      pm_client_key = None, pm_js = None, pm_expires = pe_now env + 300000, pm_paid = Some (pe_now env)\<rparr>"

text \<open>The insertion with its conflict clause: no row when the payment is paid already, and an error when its number is taken.\<close>

definition put_lapay :: "pay_env \<Rightarrow> uuid \<Rightarrow> int \<Rightarrow> pay_store \<Rightarrow> (pay_reply + customer_payment \<times> pay_store)" where
  "put_lapay env i amount s =
     (let new = lapay_payment env i (ps_number s i) amount in
      case payment_of i s of
        Some p \<Rightarrow>
          if pm_status p = ''paid'' then Inl (PayError 409 ''ERR_PAYMENT_ALREADY_FINAL'')
          else (let p' = p\<lparr>pm_provider := ''lapay'', pm_method := ''lapay'', pm_status := ''paid'', pm_amount := amount, pm_reference := pm_reference new,
                  pm_token := None, pm_url := None, pm_client_key := None, pm_js := None, pm_expires := pm_expires new,
                  pm_paid := Some (or_else (pm_paid p) (pe_now env))\<rparr>
                in Inr (p', set_payments (\<lambda>x. pm_order x = i) (\<lambda>_. p') s))
      | None \<Rightarrow>
          if list_ex (\<lambda>x. pm_number x = pm_number new \<or> pm_id x = pm_id new) (ps_payments s) then Inl (PayError 500 ''duplicate key'')
          else Inr (new, refresh (s\<lparr>ps_payments := ps_payments s @ [new]\<rparr>)))"

text \<open>The end of the transaction: the order moves on, promotions are redeemed, the event is stored, couriers are offered the order.\<close>

definition finish_lapay :: "pay_env \<Rightarrow> uuid \<Rightarrow> order_row \<Rightarrow> customer_payment \<Rightarrow> pay_store \<Rightarrow> pay_store option" where
  "finish_lapay env customer o' p s =
     (let i = od_id o'; food = od_merchant o' \<noteq> None;
          s1 = set_fleet (set_order i (\<lambda>x. if od_status x = ''pending_payment'' then x\<lparr>od_status := paidCustomerOrderStatus (is_scheduled o') food\<rparr> else x)) s;
          s2 = pay_event i customer (redeem_order customer i s1)
      in case enqueue env (paid_event s i customer (Some (pm_id p)) ''lapay'' ''lapay'' (pm_amount p) []) s2 of None \<Rightarrow> None
         | Some s3 \<Rightarrow> if \<not> food \<and> \<not> is_scheduled o' then serve_queue env 1 s3 else Some s3)"

definition lapay_refusal :: "pay_env \<Rightarrow> order_row \<Rightarrow> int \<Rightarrow> int \<Rightarrow> pay_reply option" where
  "lapay_refusal env o' amount balance =
     (if od_status o' \<noteq> ''pending_payment'' then Some (PayError 409 ''ERR_PAYMENT_NOT_ALLOWED'')
      else if \<not> pe_wallet_table env then Some (PayError 503 ''ERR_LAPAY_NOT_READY'')
      else if balance < amount then Some (PayError 402 ''ERR_LAPAY_INSUFFICIENT_BALANCE'')
      else None)"

definition wallet_sum :: "wallet_row list \<Rightarrow> int" where
  "wallet_sum ws = (\<Sum>w \<leftarrow> ws. wl_balance w)"

definition pay_from_wallets :: "pay_env \<Rightarrow> uuid \<Rightarrow> order_row \<Rightarrow> int \<Rightarrow> pay_store \<Rightarrow> pay_reply \<times> pay_store" where
  "pay_from_wallets env customer o' amount s =
     (case put_lapay env (od_id o') amount s of Inl e \<Rightarrow> (e, s)
      | Inr (p, s1) \<Rightarrow>
          (let ws = active_wallets customer s in
           case debits amount (wallet_sum ws) ws of (ds, remaining, running) \<Rightarrow>
             if list_ex (\<lambda>(_, d, b). d \<le> 0 \<or> b < 0) ds then (PayError 500 ''constraint violation'', s)
             else if remaining \<noteq> 0 then (PayError 409 ''ERR_LAPAY_CONCURRENT_BALANCE_CHANGE'', s)
             else case finish_lapay env customer o' p (fold (apply_debit customer (od_id o') (pm_id p)) ds s1) of
                 None \<Rightarrow> (PayError 500 ''Server error'', s)
               | Some s2 \<Rightarrow>
                   (let st = paidCustomerOrderStatus (is_scheduled o') (od_merchant o' \<noteq> None) in
                    (PayShown (publicCustomerPaymentSession env ((row_of s o' running)\<lparr>jr_payment := Some p, jr_status := Some ''paid'', jr_order_status := st\<rparr>))
                       [\<lparr>no_order = od_id o', no_status = ''paid'', no_order_status = st, no_source = ''payment_reconciled'', no_amount = amount\<rparr>], s2))))"

definition completeCustomerLapayPayment :: "pay_env \<Rightarrow> uuid \<Rightarrow> uuid \<Rightarrow> pay_store \<Rightarrow> pay_reply \<times> pay_store" where
  "completeCustomerLapayPayment env customer i s =
     (case customer_order i customer s of None \<Rightarrow> (PayError 404 ''Order not found'', s)
      | Some o' \<Rightarrow>
          (let p = payment_of i s; amount = payable p (od_total o') in
           if amount \<le> 0 then (PayError 422 ''ERR_INVALID_PAYMENT_AMOUNT'', s)
           else if map_option pm_status p = Some ''paid''
             then (PayShown (publicCustomerPaymentSession env (row_of s o' 0))
                 [\<lparr>no_order = i, no_status = ''paid'', no_order_status = od_status o', no_source = ''payment_reconciled'', no_amount = amount\<rparr>], s)
           else case lapay_refusal env o' amount (wallet_sum (active_wallets customer s)) of
               Some e \<Rightarrow> (e, s)
             | None \<Rightarrow> pay_from_wallets env customer o' amount s))"

section \<open>Sessions of the provider\<close>

record snap_session =
  sn_reference :: string
  sn_token :: "string option"
  sn_url :: "string option"
  sn_expires :: instant

definition createSnapTransaction :: "pay_env \<Rightarrow> string \<Rightarrow> int \<Rightarrow> int \<Rightarrow> snap_session option" where
  "createSnapTransaction env reference amount minutes =
     (if pe_server_key env = [] then None
      else case pe_provider env reference amount of None \<Rightarrow> None
        | Some (token, url) \<Rightarrow> Some \<lparr>sn_reference = reference, sn_token = token, sn_url = url,
            sn_expires = pe_now env + (if minutes = 0 then 30 else minutes) * 60000\<rparr>)"

definition session_payment :: "pay_env \<Rightarrow> snap_session \<Rightarrow> customer_payment \<Rightarrow> customer_payment" where
  "session_payment env n p =
     p\<lparr>pm_status := ''pending'', pm_provider := ''midtrans'', pm_method := ''qris'', pm_reference := Some (sn_reference n), pm_token := sn_token n,
       pm_url := sn_url n, pm_client_key := Some (pe_client_key env), pm_js := Some (pe_js env), pm_expires := sn_expires n\<rparr>"

definition store_session :: "pay_env \<Rightarrow> uuid \<Rightarrow> snap_session \<Rightarrow> pay_store \<Rightarrow> customer_payment list \<times> pay_store" where
  "store_session env i n s =
     (let mine = (\<lambda>p. pm_order p = i \<and> pm_status p \<noteq> ''paid'') in
      (map (session_payment env n) (filter mine (ps_payments s)), set_payments mine (session_payment env n) s))"

definition createCustomerOrderPaymentSession :: "pay_env \<Rightarrow> uuid option \<Rightarrow> uuid \<Rightarrow> payment_method \<Rightarrow> pay_store \<Rightarrow> pay_reply \<times> pay_store" where
  "createCustomerOrderPaymentSession env customer i meth s =
     (case customer of None \<Rightarrow> (PayError 401 ''Unauthorized'', s)
      | Some c \<Rightarrow>
          if meth = Lapay then completeCustomerLapayPayment env c i s
          else case getCustomerOrderPaymentRow env c i s of None \<Rightarrow> (PayError 404 ''Order not found'', s)
          | Some r \<Rightarrow>
              (let now' = publicCustomerPaymentSession env r in
               if se_status now' = ''paid'' then (PayShown now' [], s)
               else if jr_order_status r \<noteq> ''pending_payment'' then (PayError 409 ''ERR_PAYMENT_NOT_ALLOWED'', s)
               else if pe_server_key env = [] \<or> pe_client_key env = [] then (PayError 503 ''ERR_MIDTRANS_NOT_CONFIGURED'', s)
               else if se_token now' \<noteq> None \<and> se_url now' \<noteq> None \<and> se_expires_in now' > 30 then (PayShown now' [], s)
               else case createSnapTransaction env (jr_number r @ ''-'' @ show_int (pe_now env)) (jr_total r) 30 of
                   None \<Rightarrow> (PayError 500 [], s)
                 | Some n \<Rightarrow> (case store_session env i n s of
                     ([], _) \<Rightarrow> (PayError 409 ''ERR_PAYMENT_ALREADY_FINAL'', s)
                   | (p # _, s') \<Rightarrow> (PayShown (publicCustomerPaymentSession env (r\<lparr>jr_payment := Some p, jr_status := Some (pm_status p)\<rparr>)) [], s'))))"

end
