(* ===== verification/PaymentWebhook.thy ===== *)
theory PaymentWebhook
  imports Payments
begin

text \<open>
  How a payment at the provider is confirmed (\<open>confirmCustomerOrderPayment\<close> and \<open>handleMidtransNotification\<close> of
  \<open>controllers/order/customerOrderPayment.controller.ts\<close>): the customer asks, or the provider notifies.
\<close>

section \<open>The customer asks\<close>

definition manual_paid :: "pay_env \<Rightarrow> uuid \<Rightarrow> pay_store \<Rightarrow> pay_store" where
  "manual_paid env i = set_payments (\<lambda>p. pm_order p = i) (\<lambda>p. p\<lparr>pm_status := ''paid'', pm_paid := Some (pe_now env)\<rparr>)"

definition payment_provider :: "customer_payment option \<Rightarrow> string" where
  "payment_provider p = str_or (map_option pm_provider p) ''midtrans''"

definition payment_kind :: "customer_payment option \<Rightarrow> string" where
  "payment_kind p = str_or (map_option pm_method p) ''qris''"

text \<open>The writes of an unpaid order that is confirmed; \<open>by_hand\<close> when only the switch for development confirms it.\<close>

definition confirm_writes :: "pay_env \<Rightarrow> uuid \<Rightarrow> order_row \<Rightarrow> bool \<Rightarrow> pay_store \<Rightarrow> pay_store option" where
  "confirm_writes env customer o' by_hand s =
     (let i = od_id o'; p = payment_of i s;
          s1 = set_fleet (set_order i (\<lambda>x. x\<lparr>od_status := next_paid_status o'\<rparr>)) s;
          s2 = if by_hand then manual_paid env i s1 else s1;
          s3 = pay_event i customer (redeem_order customer i s2)
      in case enqueue env (paid_event s i customer (map_option pm_id p) (payment_provider p) (payment_kind p) (payable p (od_total o'))
             [(''manual_confirmed'', JBool by_hand)]) s3 of None \<Rightarrow> None
         | Some s4 \<Rightarrow> if \<not> is_food o' \<and> \<not> is_scheduled o' then serve_queue env 1 s4 else Some s4)"

definition confirm_shown :: "pay_env \<Rightarrow> order_row \<Rightarrow> pay_store \<Rightarrow> pay_session" where
  "confirm_shown env o' s =
     (let r = row_of s o' 0; paid = jr_status r = Some ''paid'' \<or> pe_manual env in
      publicCustomerPaymentSession env (r\<lparr>jr_status := (if paid then Some ''paid'' else jr_status r),
        jr_order_status := (if paid then next_paid_status o' else od_status o')\<rparr>))"

definition confirm_notes :: "pay_env \<Rightarrow> order_row \<Rightarrow> pay_store \<Rightarrow> pay_note list" where
  "confirm_notes env o' s =
     (let p = payment_of (od_id o') s; paid = map_option pm_status p = Some ''paid'' in
      if paid \<or> pe_manual env
      then [\<lparr>no_order = od_id o', no_status = ''paid'', no_order_status = next_paid_status o',
        no_source = (if paid then ''payment_reconciled'' else ''manual_confirm''), no_amount = payable p (od_total o')\<rparr>]
      else [])"

definition confirmCustomerOrderPayment :: "pay_env \<Rightarrow> uuid option \<Rightarrow> uuid \<Rightarrow> pay_store \<Rightarrow> pay_reply \<times> pay_store" where
  "confirmCustomerOrderPayment env customer i s =
     (case customer of None \<Rightarrow> (PayError 401 ''Unauthorized'', s)
      | Some c \<Rightarrow> (case customer_order i c s of None \<Rightarrow> (PayError 404 ''Order not found'', s)
      | Some o' \<Rightarrow>
          (let p = payment_of i s; unpaid = od_status o' = ''pending_payment''; paid = map_option pm_status p = Some ''paid'' in
           if unpaid \<and> (case p of None \<Rightarrow> False | Some x \<Rightarrow> pm_expires x < pe_now env) then (PayError 410 ''expired'', s)
           else if unpaid \<and> (paid \<or> pe_manual env)
             then (case confirm_writes env c o' (pe_manual env \<and> \<not> paid) s of None \<Rightarrow> (PayError 500 ''Server error'', s)
               | Some s' \<Rightarrow> (PayShown (confirm_shown env o' s) (confirm_notes env o' s), s'))
           else if unpaid then (PayShown (publicCustomerPaymentSession env (row_of s o' 0)) [], s)
           else (PayShown (confirm_shown env o' s) (confirm_notes env o' s), s))))"

section \<open>The provider notifies\<close>

record midtrans_notice =
  mn_order :: "string option"
  mn_transaction :: "string option"
  mn_status :: "string option"
  mn_fraud :: "string option"
  mn_code :: "string option"
  mn_gross :: "string option"
  mn_signature :: "string option"

datatype notice_reply = NoticeRejected nat | NoticeDuplicate | NoticeIgnored | NoticeDone "pay_note list" | NoticeFailed

definition provider_event_id :: "midtrans_notice \<Rightarrow> string option" where
  "provider_event_id n =
     (let subject = str_or (mn_transaction n) (str_or (mn_order n) []) in
      if js_trim subject = [] then None
      else Some (''midtrans:'' @ subject @ '':'' @ str_or (mn_status n) ''unknown'' @ '':'' @ str_or (mn_code n) ''unknown''))"

definition notice_rows :: "string \<Rightarrow> pay_store \<Rightarrow> (customer_payment \<times> order_row) list" where
  "notice_rows reference s =
     [(p, o'). p \<leftarrow> ps_payments s, o' \<leftarrow> fl_orders (ps_fleet s), pm_reference p = Some reference \<and> od_id o' = pm_order p]"

definition dispatchable :: "order_row \<Rightarrow> bool" where
  "dispatchable o' \<longleftrightarrow> \<not> is_food o' \<and> od_schedule_type o' \<noteq> ''scheduled''"

definition paid_payment :: "pay_env \<Rightarrow> customer_payment \<Rightarrow> customer_payment" where
  "paid_payment env p = p\<lparr>pm_status := ''paid'', pm_paid := Some (or_else (pm_paid p) (pe_now env))\<rparr>"

text \<open>The status of the unpaid orders among \<open>ids\<close>.\<close>

definition move_unpaid :: "uuid list \<Rightarrow> (order_row \<Rightarrow> string) \<Rightarrow> fleet \<Rightarrow> fleet" where
  "move_unpaid ids st = change_orders (\<lambda>x. if od_id x \<in> set ids \<and> od_status x = ''pending_payment'' then x\<lparr>od_status := st x\<rparr> else x)"

definition redeem_paid :: "uuid \<Rightarrow> uuid \<Rightarrow> pay_store \<Rightarrow> pay_store" where
  "redeem_paid customer i s = pay_event i customer (redeem_order customer i s)"

definition notice_paid :: "pay_env \<Rightarrow> string \<Rightarrow> (customer_payment \<times> order_row) list \<Rightarrow> pay_store \<Rightarrow> pay_store option" where
  "notice_paid env reference rows s =
     (let ids = map (od_id \<circ> snd) rows; customer = od_customer (snd (hd rows)); ready' = filter (dispatchable \<circ> snd) rows;
          s1 = set_payments (\<lambda>p. pm_reference p = Some reference) (paid_payment env) s;
          s2 = set_fleet (move_unpaid ids next_paid_status) s1;
          s3 = fold (redeem_paid customer) ids s2
      in if ready' = [] then Some s3 else serve_queue env (max (length ready') 1) s3)"

definition failed_status :: "string \<Rightarrow> string" where
  "failed_status st = (if st = ''expire'' then ''expired'' else ''failed'')"

definition notice_failed :: "string \<Rightarrow> string \<Rightarrow> (customer_payment \<times> order_row) list \<Rightarrow> pay_store \<Rightarrow> pay_store" where
  "notice_failed reference st rows s =
     (let ids = map (od_id \<circ> snd) rows;
          s1 = set_payments (\<lambda>p. pm_reference p = Some reference) (\<lambda>p. p\<lparr>pm_status := failed_status st\<rparr>) s
      in set_promo (releaseReservedPromosForOrders ids) (set_fleet (move_unpaid ids (\<lambda>_. ''payment_failed'')) s1))"

definition notice_note :: "bool \<Rightarrow> string \<Rightarrow> customer_payment \<times> order_row \<Rightarrow> pay_note" where
  "notice_note paid st = (\<lambda>(p, o').
     \<lparr>no_order = od_id o', no_status = (if paid then ''paid'' else failed_status st),
      no_order_status = (if paid then next_paid_status o' else ''payment_failed''), no_source = ''midtrans_webhook'',
      no_amount = payable (Some p) (od_total o')\<rparr>)"

definition notice_writes :: "pay_env \<Rightarrow> string \<Rightarrow> string \<Rightarrow> string option \<Rightarrow> (customer_payment \<times> order_row) list \<Rightarrow> pay_store \<Rightarrow> pay_store option" where
  "notice_writes env reference st fraud rows s =
     (if isSuccessfulTransaction st fraud then notice_paid env reference rows s
      else if isExpiredOrFailedTransaction st then Some (notice_failed reference st rows s)
      else Some s)"

definition notice_notes :: "string \<Rightarrow> string option \<Rightarrow> (customer_payment \<times> order_row) list \<Rightarrow> pay_note list" where
  "notice_notes st fraud rows =
     (if isSuccessfulTransaction st fraud \<or> isExpiredOrFailedTransaction st
      then map (notice_note (isSuccessfulTransaction st fraud) st) rows else [])"

text \<open>The transaction of a signed notification; when it fails, the audit row is gone with it.\<close>

definition process_notice :: "pay_env \<Rightarrow> midtrans_notice \<Rightarrow> string \<Rightarrow> string \<Rightarrow> pay_store \<Rightarrow> notice_reply \<times> pay_store" where
  "process_notice env n reference st s =
     (case insert_audit (pe_audit_id env) ''midtrans'' (provider_event_id n) ''valid'' ''received'' None (ps_audits s) of
        (True, _) \<Rightarrow> (NoticeDuplicate, s)
      | (False, as) \<Rightarrow>
          (let rows = notice_rows reference s; audit = (\<lambda>pr er. update_audit (pe_audit_id env) pr er as) in
           if rows = [] then (NoticeIgnored, s\<lparr>ps_audits := audit ''ignored'' (Some ''payment_not_found'')\<rparr>)
           else (case notice_writes env reference st (mn_fraud n) rows (s\<lparr>ps_audits := as\<rparr>) of
               None \<Rightarrow> (NoticeFailed, s\<lparr>ps_audits := update_audit (pe_audit_id env) ''failed'' (Some ''processing_failed'') (ps_audits s)\<rparr>)
             | Some s' \<Rightarrow> (NoticeDone (notice_notes st (mn_fraud n) rows), s'\<lparr>ps_audits := audit ''processed'' None\<rparr>))))"

definition refuse_notice :: "pay_env \<Rightarrow> midtrans_notice \<Rightarrow> string \<Rightarrow> string \<Rightarrow> pay_store \<Rightarrow> pay_store" where
  "refuse_notice env n verification err s =
     s\<lparr>ps_audits := snd (insert_audit (pe_audit_id env) ''midtrans'' (provider_event_id n) verification ''failed'' (Some err) (ps_audits s))\<rparr>"

definition handleMidtransNotification :: "pay_env \<Rightarrow> midtrans_notice \<Rightarrow> pay_store \<Rightarrow> notice_reply \<times> pay_store" where
  "handleMidtransNotification env n s =
     (let reference = str_or (mn_order n) []; st = str_or (mn_status n) []; unsigned = str_or (mn_signature n) [] = [] in
      if reference = [] \<or> st = [] then (NoticeRejected 400, refuse_notice env n ''invalid_payload'' ''invalid_payload'' s)
      else if \<not> verifyMidtransSignature (pe_sha512 env) (mn_order n) (mn_code n) (mn_gross n) (mn_signature n) (pe_server_key env)
        then (NoticeRejected 401, refuse_notice env n (if unsigned then ''missing_signature'' else ''invalid'')
          (if unsigned then ''missing_signature'' else ''invalid_signature'') s)
      else process_notice env n reference st s)"

section \<open>Cancelling\<close>

text \<open>
  \<open>cancelCustomerOrder\<close> with its promotions: reservations of the order are released and redemptions reversed in the same transaction.
  The refund is asked of another service.
\<close>

definition withdraw_order :: "match_env \<Rightarrow> uuid \<Rightarrow> uuid \<Rightarrow> pay_store \<Rightarrow> cancel_reply \<times> pay_store" where
  "withdraw_order env i customer s =
     (case cancelCustomerOrder env i customer (ps_fleet s) of
        (r, f) \<Rightarrow> (r, if r = CancelDone
            then set_promo (\<lambda>p. reverseRedeemedPromosForOrders [i] (releaseReservedPromosForOrders [i] p)) (s\<lparr>ps_fleet := f\<rparr>) else s))"

end
