(* ===== verification/DeliveryLifecycle.thy ===== *)
theory DeliveryLifecycle
  imports DeliveryChanges
begin

text \<open>
  The life of on-demand orders: the operations of the components together, in any order.

  Each operation is an interpretation of the interface \<open>fleet_operation\<close>; the step relation adds what happens outside of this code
  (new orders, payments, changes of couriers, services and transition policies).
\<close>

section \<open>Operations\<close>

locale fleet_operation =
  fixes op :: "'a \<Rightarrow> fleet \<Rightarrow> fleet"
  assumes keeps: "fleet_inv s \<Longrightarrow> fleet_inv (op a s) \<and> final_kept s (op a s)"
begin

lemma op_keeps_inv: "fleet_inv s \<Longrightarrow> fleet_inv (op a s)"
  using keeps by blast

lemma keeps_all: "fleet_inv s \<Longrightarrow> fleet_inv (fold op as s) \<and> final_kept s (fold op as s)"
proof (induction as arbitrary: s)
  case (Cons a as)
  then have "fleet_inv (op a s)" "final_kept s (op a s)" using keeps by blast+
  with Cons.IH [of "op a s"] show ?case using final_kept_trans by auto
qed simp

end

text \<open>An operation that fails leaves the state as it is.\<close>

definition or_same :: "('b \<times> fleet) option \<Rightarrow> fleet \<Rightarrow> fleet" where
  "or_same r s = (case r of None \<Rightarrow> s | Some (_, s') \<Rightarrow> s')"

interpretation accept: fleet_operation "\<lambda>(env, i, user) s. snd (acceptMobileCourierOffer env i user s)"
  by unfold_locales (simp add: accept_inv [OF _ prod.collapse [symmetric]] split: prod.split)

interpretation reject: fleet_operation "\<lambda>(env, i, user, reason) s. snd (rejectMobileCourierOffer env i user reason s)"
  by unfold_locales (simp add: reject_inv [OF _ prod.collapse [symmetric]] split: prod.split)

interpretation scan: fleet_operation "\<lambda>(env, user, ty, loc, r) s. snd (scanMobileCourierOrder env user ty loc r s)"
  by unfold_locales (simp add: scan_inv [OF _ prod.collapse [symmetric]] split: prod.split)

interpretation upload: fleet_operation "\<lambda>(env, user, ty, loc, photo_file, r) s. snd (uploadMobileCourierPod env user ty loc photo_file r s)"
  by unfold_locales (simp add: upload_inv [OF _ prod.collapse [symmetric]] split: prod.split)

interpretation move: fleet_operation "\<lambda>(user, i, st) s. snd (updateMobileCourierOrderStatus user i st s)"
  by unfold_locales (simp add: update_status_inv [OF _ prod.collapse [symmetric]] split: prod.split)

interpretation unpick: fleet_operation "\<lambda>(reasons, user, i, reason, photo) s. snd (cancelMobileCourierOnDemandPickup reasons user i reason photo s)"
  by unfold_locales (simp add: cancel_pickup_endpoint_inv [OF _ prod.collapse [symmetric]] split: prod.split)

interpretation force: fleet_operation "\<lambda>(i, actor, mode, items, full, part) s. snd (forceCancelOrder i actor mode items full part s)"
  by unfold_locales (simp add: force_cancel_inv [OF _ prod.collapse [symmetric]] split: prod.split)

interpretation withdraw: fleet_operation "\<lambda>(env, i, customer) s. snd (cancelCustomerOrder env i customer s)"
  by unfold_locales (simp add: customer_cancel_inv [OF _ prod.collapse [symmetric]] split: prod.split)

lemma advance_same_inv: "fleet_inv s \<Longrightarrow> fleet_inv (or_same (advanceOnDemandDispatchQueue env n s) s) \<and> final_kept s (or_same (advanceOnDemandDispatchQueue env n s) s)"
  using advance_inv [of s env n] by (auto simp: or_same_def offers_only_def split: option.split)

lemma schedule_same_inv:
  "fleet_inv s \<Longrightarrow> fleet_inv (or_same (map_option snd (processDueCustomerScheduledOrders env n s)) s)
     \<and> final_kept s (or_same (map_option snd (processDueCustomerScheduledOrders env n s)) s)"
  using scheduled_inv [of s env n] by (cases "processDueCustomerScheduledOrders env n s") (auto simp: or_same_def offers_only_def)

interpretation advance: fleet_operation "\<lambda>(env, n) s. or_same (advanceOnDemandDispatchQueue env n s) s"
  by unfold_locales (simp add: advance_same_inv split: prod.split)

interpretation schedule: fleet_operation "\<lambda>(env, n) s. or_same (map_option snd (processDueCustomerScheduledOrders env n s)) s"
  by unfold_locales (simp add: schedule_same_inv split: prod.split)

section \<open>Steps\<close>

text \<open>What no operation of this code decides: the tables beside orders, legs, offers, credits and policies.\<close>

definition outside :: "fleet \<Rightarrow> fleet \<Rightarrow> bool" where
  "outside s s' \<longleftrightarrow> fl_orders s' = fl_orders s \<and> fl_legs s' = fl_legs s \<and> fl_dispatches s' = fl_dispatches s \<and> fl_earnings s' = fl_earnings s
     \<and> (\<forall>p \<in> set (fl_policies s'). policy_ok p)"

definition new_order :: "order_row \<Rightarrow> fleet \<Rightarrow> bool" where
  "new_order o' s \<longleftrightarrow> od_id o' \<notin> od_id ` set (fl_orders s) \<and> od_id o' \<notin> lg_order ` set (fl_legs s) \<and> od_id o' \<notin> dp_order ` set (fl_dispatches s)"

inductive fleet_step :: "fleet \<Rightarrow> fleet \<Rightarrow> bool" where
  Accept: "fleet_step s (snd (acceptMobileCourierOffer env i user s))"
| Reject: "fleet_step s (snd (rejectMobileCourierOffer env i user reason s))"
| Scan: "fleet_step s (snd (scanMobileCourierOrder env user ty loc r s))"
| Upload: "fleet_step s (snd (uploadMobileCourierPod env user ty loc photo_file r s))"
| Face: "fleet_step s (snd (verifyMobileCourierFace g n user ty ord lv photo s))"
| Move: "fleet_step s (snd (updateMobileCourierOrderStatus user i st s))"
| Unpick: "fleet_step s (snd (cancelMobileCourierOnDemandPickup reasons user i reason photo s))"
| Force: "fleet_step s (snd (forceCancelOrder i actor mode items full part s))"
| Withdraw: "fleet_step s (snd (cancelCustomerOrder env i customer s))"
| Advance: "fleet_step s (or_same (advanceOnDemandDispatchQueue env limit s) s)"
| Schedule: "fleet_step s (or_same (map_option snd (processDueCustomerScheduledOrders env batch s)) s)"
| Create: "new_order o' s \<Longrightarrow> fleet_step s (s\<lparr>fl_orders := fl_orders s @ [o']\<rparr>)"
| Outside: "outside s s' \<Longrightarrow> fleet_step s s'"

inductive_cases fleet_step_elim: "fleet_step s s'"

lemma create_inv: "fleet_inv s \<Longrightarrow> new_order o' s \<Longrightarrow> fleet_inv (s\<lparr>fl_orders := fl_orders s @ [o']\<rparr>)"
proof -
  let ?s = "s\<lparr>fl_orders := fl_orders s @ [o']\<rparr>"
  assume inv: "fleet_inv s" and new: "new_order o' s"
  have same: "held i ?s = held i s" "led_by i u ?s = led_by i u s" "accepted i ?s = accepted i s" "awaits i s \<Longrightarrow> awaits i ?s" for i u
    by (auto simp: held_def led_by_def accepted_def awaits_def)
  have "keys_ok ?s" using inv new by (simp add: fleet_inv_def keys_ok_def new_order_def)
  moreover have "dispatch_ok ?s d" if "d \<in> set (fl_dispatches s)" for d
    using inv that same by (simp add: fleet_inv_def dispatch_ok_def)
  moreover have "\<not> held (od_id o') s" using new by (force simp: new_order_def held_def)
  then have "order_ok ?s x" if "x \<in> set (fl_orders ?s)" for x using inv that same by (auto simp: fleet_inv_def order_ok_def)
  ultimately show ?thesis using inv by (simp add: fleet_inv_def)
qed

lemma outside_inv: "fleet_inv s \<Longrightarrow> outside s s' \<Longrightarrow> fleet_inv s'"
  by (simp add: outside_def fleet_inv_def keys_ok_def dispatch_ok_def order_ok_def awaits_def led_by_def held_def accepted_def)

lemma step_inv:
  assumes "fleet_step s s'" "fleet_inv s"
  shows "fleet_inv s' \<and> final_kept s s'"
  using assms(1)
proof cases
  case (Accept env i user)
  then show ?thesis using accept.keeps [OF assms(2), of "(env, i, user)"] by simp
next
  case (Reject env i user reason)
  then show ?thesis using reject.keeps [OF assms(2), of "(env, i, user, reason)"] by simp
next
  case (Scan env user ty loc r)
  then show ?thesis using scan.keeps [OF assms(2), of "(env, user, ty, loc, r)"] by simp
next
  case (Upload env user ty loc photo_file r)
  then show ?thesis using upload.keeps [OF assms(2), of "(env, user, ty, loc, photo_file, r)"] by simp
next
  case (Face g n user ty ord lv photo)
  then show ?thesis using face_inv [OF assms(2) prod.collapse [symmetric], of g n user ty ord lv photo] by simp
next
  case (Move user i st)
  then show ?thesis using move.keeps [OF assms(2), of "(user, i, st)"] by simp
next
  case (Unpick reasons user i reason photo)
  then show ?thesis using unpick.keeps [OF assms(2), of "(reasons, user, i, reason, photo)"] by simp
next
  case (Force i actor mode items full part)
  then show ?thesis using force.keeps [OF assms(2), of "(i, actor, mode, items, full, part)"] by simp
next
  case (Withdraw env i customer)
  then show ?thesis using withdraw.keeps [OF assms(2), of "(env, i, customer)"] by simp
next
  case (Advance env n)
  then show ?thesis using advance.keeps [OF assms(2), of "(env, n)"] by simp
next
  case (Schedule env n)
  then show ?thesis using schedule.keeps [OF assms(2), of "(env, n)"] by simp
next
  case (Create o')
  then show ?thesis using create_inv [OF assms(2), of o'] by (auto simp: final_kept_def unpaid_kept_def new_order_def)
next
  case Outside
  then show ?thesis using outside_inv [OF assms(2)] by (simp add: final_kept_def outside_def)
qed

lemma fleet_steps_inv: "fleet_step\<^sup>*\<^sup>* s s' \<Longrightarrow> fleet_inv s \<Longrightarrow> fleet_inv s' \<and> final_kept s s'"
proof (induction rule: rtranclp_induct)
  case (step y z)
  then show ?case using step_inv [OF step.hyps(2)] final_kept_trans by blast
qed simp

text \<open>A service starts without orders.\<close>

definition empty_fleet :: "fleet \<Rightarrow> bool" where
  "empty_fleet s \<longleftrightarrow> fl_orders s = [] \<and> fl_legs s = [] \<and> fl_dispatches s = [] \<and> fl_earnings s = [] \<and> (\<forall>p \<in> set (fl_policies s). policy_ok p)"

definition fleet_reachable :: "fleet \<Rightarrow> bool" where
  "fleet_reachable s \<longleftrightarrow> (\<exists>s0. empty_fleet s0 \<and> fleet_step\<^sup>*\<^sup>* s0 s)"

lemma fleet_reachable_inv: "fleet_reachable s \<Longrightarrow> fleet_inv s"
proof -
  assume "fleet_reachable s"
  then obtain s0 where s0: "empty_fleet s0" "fleet_step\<^sup>*\<^sup>* s0 s" by (auto simp: fleet_reachable_def)
  then have "fleet_inv s0" by (simp add: empty_fleet_def fleet_inv_def keys_ok_def)
  then show ?thesis using fleet_steps_inv [OF s0(2)] by blast
qed

section \<open>Properties\<close>

lemma dispatch_key: "fleet_inv s \<Longrightarrow> d \<in> set (fl_dispatches s) \<Longrightarrow> e \<in> set (fl_dispatches s) \<Longrightarrow> dp_order d = dp_order e \<Longrightarrow> dp_courier d = dp_courier e \<Longrightarrow> d = e"
  by (rule distinct_map_eq [of "\<lambda>d. (dp_order d, dp_courier d)" "fl_dispatches s"]) (simp_all add: fleet_inv_def keys_ok_def)

lemma leader_unique:
  assumes inv: "fleet_inv s" and u: "led_by i u s" and v: "led_by i v s"
  shows "u = v"
proof -
  obtain k l where k: "k \<in> set (fl_legs s)" "lg_order k = i" "lg_number k = 1" "lg_courier k = Some u"
    and l: "l \<in> set (fl_legs s)" "lg_order l = i" "lg_number l = 1" "lg_courier l = Some v" using u v by (auto simp: led_by_def)
  have "distinct (map (\<lambda>l. (lg_order l, lg_number l)) (fl_legs s))" using inv by (simp add: fleet_inv_def keys_ok_def)
  from distinct_map_eq [OF this k(1) l(1)] show ?thesis using k l by simp
qed



text \<open>
  In a batch it does not: when a courier of one of its orders arrives at the pickup, the cancelled orders of the batch and those
  of other couriers go back to life with it.
\<close>

theorem batch_update_revives_final:
  assumes run: "updateMobileCourierOrderStatus user i st s = (None, s')" and inv: "fleet_inv s"
    and o': "courier_leg (js_trim i) user s = Some (o', l)" and batch: "od_batch o' = Some b" "b \<noteq> []"
    and role: "workflow_role s o' l \<noteq> ''regular''" and pickup: "toLowerCase (js_trim st) \<in> set pickupStatuses"
    and x: "x \<in> set (fl_orders s)" "od_batch x = Some b"
  shows "find_order (od_id x) s' = Some (x\<lparr>od_status := toLowerCase (js_trim st)\<rparr>)"
proof -
  let ?st = "toLowerCase (js_trim st)"
  have target: "effective_status s o' (workflow_role s o' l) ?st = ?st" using role by (simp add: effective_status_def)
  have ok: "status_refusal s o' l ?st = None" and ne: "js_trim i \<noteq> []" "?st \<noteq> []"
    using run o' by (auto simp: updateMobileCourierOrderStatus_def Let_def split: if_splits option.splits)
  have "s' = add_event (js_trim i) user (status_event (workflow_role s o' l) ?st ?st) (write_status user o' l ?st s)"
    using run o' ok ne target by (simp add: updateMobileCourierOrderStatus_def Let_def)
  then have os: "fl_orders s' = map (\<lambda>y. if od_batch y = Some b then y\<lparr>od_status := ?st\<rparr> else y) (fl_orders s)"
    using pickup batch by (simp add: write_status_def Let_def)
  have "keys_ok s'" using update_status_inv [OF inv run] by (simp add: fleet_inv_def)
  moreover have "x\<lparr>od_status := ?st\<rparr> \<in> set (fl_orders s')" unfolding os using x by force
  ultimately show ?thesis using find_order_unique [of s' "x\<lparr>od_status := ?st\<rparr>"] by simp
qed

section \<open>Examples\<close>

definition start_fleet :: fleet where
  "start_fleet = demo_fleet\<lparr>fl_orders := []\<rparr>"

lemma demo_fleet_reachable: "fleet_reachable demo_fleet"
proof -
  have "fleet_step start_fleet (start_fleet\<lparr>fl_orders := fl_orders start_fleet @ [demo_order]\<rparr>)"
    by (rule fleet_step.Create) (simp add: new_order_def start_fleet_def demo_fleet_def)
  moreover have "start_fleet\<lparr>fl_orders := fl_orders start_fleet @ [demo_order]\<rparr> = demo_fleet" by (simp add: start_fleet_def demo_fleet_def)
  moreover have "empty_fleet start_fleet" by (simp add: empty_fleet_def start_fleet_def demo_fleet_def)
  ultimately show ?thesis unfolding fleet_reachable_def by auto
qed

lemma reachable_step: "fleet_reachable s \<Longrightarrow> fleet_step s s' \<Longrightarrow> fleet_reachable s'"
  unfolding fleet_reachable_def by (meson rtranclp.rtrancl_into_rtrancl)

lemma demo_advance: "or_same (advanceOnDemandDispatchQueue demo_env 1 demo_fleet) demo_fleet = demo_offered"
  by code_simp

lemma demo_offered_reachable: "fleet_reachable demo_offered"
  using reachable_step [OF demo_fleet_reachable fleet_step.Advance [of demo_fleet demo_env 1]] demo_advance by simp


definition demo_ended :: fleet where
  "demo_ended = snd (forceCancelOrder ''o1'' ''admin'' RefundNone [] Unreachable Unreachable demo_offered)"

lemma demo_ended_orders: "fl_orders demo_ended = [demo_order\<lparr>od_status := ''cancelled''\<rparr>]"
  by code_simp


definition demo_batch :: fleet where
  "demo_batch = demo_fleet\<lparr>fl_orders := [demo_order\<lparr>od_status := ''accepted'', od_batch := Some ''b''\<rparr>,
       demo_order\<lparr>od_id := ''o2'', od_status := ''cancelled'', od_batch := Some ''b''\<rparr>],
     fl_legs := [demo_leg\<lparr>lg_status := ''accepted''\<rparr>],
     fl_policies := [\<lparr>tp_role = ''on_demand'', tp_from = ''accepted'', tp_to = ''pickup_arrived'', tp_proof = False, tp_admin = False, tp_active = True\<rparr>]\<rparr>"

lemma demo_batch_inv: "fleet_inv demo_batch"
  by (simp add: fleet_inv_def keys_ok_def dispatch_ok_def order_ok_def policy_ok_def demo_batch_def demo_fleet_def demo_order_def demo_leg_def AWAITING_def READY_def)

lemma demo_batch_run: "fst (updateMobileCourierOrderStatus ''c2'' ''o1'' ''pickup_arrived'' demo_batch) = None"
  by code_simp

lemma demo_batch_leg: "courier_leg ''o1'' ''c2'' demo_batch = Some (demo_order\<lparr>od_status := ''accepted'', od_batch := Some ''b''\<rparr>, demo_leg\<lparr>lg_status := ''accepted''\<rparr>)"
  by code_simp

theorem batch_update_revives_final_witness:
  "\<exists>s'. updateMobileCourierOrderStatus ''c2'' ''o1'' ''pickup_arrived'' demo_batch = (None, s')
     \<and> find_order ''o2'' s' = Some (demo_order\<lparr>od_id := ''o2'', od_status := ''pickup_arrived'', od_batch := Some ''b''\<rparr>)"
proof -
  let ?o1 = "demo_order\<lparr>od_status := ''accepted'', od_batch := Some ''b''\<rparr>" and ?l = "demo_leg\<lparr>lg_status := ''accepted''\<rparr>"
  let ?x = "demo_order\<lparr>od_id := ''o2'', od_status := ''cancelled'', od_batch := Some ''b''\<rparr>"
  obtain s' where r: "updateMobileCourierOrderStatus ''c2'' ''o1'' ''pickup_arrived'' demo_batch = (None, s')"
    using demo_batch_run by (metis prod.collapse)
  have t: "js_trim ''o1'' = ''o1''" "toLowerCase (js_trim ''pickup_arrived'') = ''pickup_arrived''" by code_simp+
  have w: "workflow_role demo_batch ?o1 ?l \<noteq> ''regular''" by code_simp
  have "find_order (od_id ?x) s' = Some (?x\<lparr>od_status := toLowerCase (js_trim ''pickup_arrived'')\<rparr>)"
    by (rule batch_update_revives_final [OF r demo_batch_inv, of ?o1 ?l "''b''"]) (use demo_batch_leg t w in \<open>simp_all add: pickupStatuses_def demo_batch_def\<close>)
  then show ?thesis using r t by simp
qed

end
