(* ===== verification/PaymentBooks.thy ===== *)
theory PaymentBooks
  imports PaymentWebhook DeliveryLifecycle PromoLifecycle
begin

text \<open>
  The books of customer payments.  What was taken from a wallet and what is left in it add up to what was put in (\<open>worth\<close>); an order that
  was charged has left the unpaid status, and was charged the amount of its payment (\<open>pay_inv\<close>).
\<close>

section \<open>Debits\<close>

definition debit_sum :: "(uuid \<times> int \<times> int) list \<Rightarrow> int" where
  "debit_sum ds = (\<Sum>x \<leftarrow> ds. fst (snd x))"

lemma debit_sum_simps [simp]: "debit_sum [] = 0" "debit_sum ((w, d, b) # ds) = d + debit_sum ds"
  by (simp_all add: debit_sum_def)

lemma wallet_sum_simps [simp]: "wallet_sum [] = 0" "wallet_sum (w # ws) = wl_balance w + wallet_sum ws"
  by (simp_all add: wallet_sum_def)

lemma debits_done: "r \<le> 0 \<Longrightarrow> debits r b ws = ([], r, b)"
  by (cases ws) simp_all

lemma debits_spec:
  "debits r b ws = (ds, r', b') \<Longrightarrow> r' = r - debit_sum ds \<and> b' = b - debit_sum ds \<and> (0 \<le> r \<longrightarrow> 0 \<le> r')
     \<and> (\<forall>(w, d, c) \<in> set ds. 0 < d \<and> (b - r \<le> c \<or> r < 0) \<and> (\<exists>x \<in> set ws. wl_id x = w \<and> d \<le> wl_balance x))
     \<and> set (map fst ds) \<subseteq> set (map wl_id ws) \<and> (distinct (map wl_id ws) \<longrightarrow> distinct (map fst ds))"
proof (induction ws arbitrary: r b ds r' b')
  case (Cons w ws)
  consider "r \<le> 0" | "0 < r" "wl_balance w \<le> 0" | "0 < r" "0 < wl_balance w" by linarith
  then show ?case
  proof cases
    case 1
    then show ?thesis using Cons.prems by auto
  next
    case 2
    then have "debits r b ws = (ds, r', b')" using Cons.prems by simp
    from Cons.IH [OF this] show ?thesis by (auto simp: case_prod_unfold)
  next
    case 3
    let ?d = "min (wl_balance w) r"
    obtain ds1 r1 b1 where e: "debits (r - ?d) (b - ?d) ws = (ds1, r1, b1)" by (metis prod_cases3)
    then have ds: "ds = (wl_id w, ?d, b - ?d) # ds1" "r' = r1" "b' = b1" using Cons.prems 3 by (simp_all add: Let_def)
    note ih = Cons.IH [OF e]
    have "\<forall>(x, d, c) \<in> set ds. 0 < d \<and> (b - r \<le> c \<or> r < 0) \<and> (\<exists>y \<in> set (w # ws). wl_id y = x \<and> d \<le> wl_balance y)"
      using ih 3 unfolding ds by auto
    moreover have "distinct (map wl_id (w # ws)) \<longrightarrow> distinct (map fst ds)" using ih unfolding ds by auto
    moreover have "set (map fst ds) \<subseteq> set (map wl_id (w # ws))" using ih unfolding ds by auto
    moreover have "r' = r - debit_sum ds" "b' = b - debit_sum ds" "0 \<le> r'" using ih 3 unfolding ds by simp_all
    ultimately show ?thesis by blast
  qed
qed auto

text \<open>A sufficient balance pays the whole amount.\<close>

lemma debits_pay: "0 \<le> r \<Longrightarrow> r \<le> wallet_sum ws \<Longrightarrow> debits r b ws = (ds, r', b') \<Longrightarrow> r' = 0"
proof (induction ws arbitrary: r b ds r' b')
  case (Cons w ws)
  consider "r = 0" | "0 < r" "wl_balance w \<le> 0" | "0 < r" "0 < wl_balance w" "r \<le> wl_balance w"
    | "0 < r" "0 < wl_balance w" "wl_balance w < r" using Cons.prems(1) by linarith
  then show ?case
  proof cases
    case 1
    then show ?thesis using Cons.prems(3) by simp
  next
    case 2
    then show ?thesis using Cons.IH [of r b ds r' b'] Cons.prems by simp
  next
    case 3
    then show ?thesis using Cons.prems(3) by (simp add: debits_done)
  next
    case 4
    obtain ds1 r1 b1 where e: "debits (r - wl_balance w) (b - wl_balance w) ws = (ds1, r1, b1)" by (metis prod_cases3)
    then have "r' = r1" using Cons.prems(3) 4 by (simp add: Let_def min_def split: if_splits)
    then show ?thesis using Cons.IH [OF _ _ e] Cons.prems(2) 4 by simp
  qed
qed simp

section \<open>Booking debits\<close>

definition charged :: "uuid \<Rightarrow> debit_row list \<Rightarrow> int" where
  "charged i es = (\<Sum>e \<leftarrow> es. if le_order e = i then le_amount e else 0)"

definition worth :: "uuid \<Rightarrow> pay_store \<Rightarrow> int" where
  "worth w s = (\<Sum>x \<leftarrow> ps_wallets s. if wl_id x = w then wl_balance x else 0) + (\<Sum>e \<leftarrow> ps_ledger s. if le_wallet e = w then le_amount e else 0)"

definition debit_rows :: "uuid \<Rightarrow> uuid \<Rightarrow> uuid \<Rightarrow> (uuid \<times> int \<times> int) list \<Rightarrow> debit_row list" where
  "debit_rows customer i payment ds =
     map (\<lambda>(w, d, b). \<lparr>le_customer = customer, le_wallet = w, le_order = i, le_payment = payment, le_amount = d, le_after = b\<rparr>) ds"

text \<open>A debit of a wallet that has the balance, for an order the wallet was not charged for.\<close>

definition covered :: "uuid \<Rightarrow> uuid \<times> int \<times> int \<Rightarrow> pay_store \<Rightarrow> bool" where
  "covered i x s \<longleftrightarrow> (\<exists>y \<in> set (ps_wallets s). wl_id y = fst x \<and> fst (snd x) \<le> wl_balance y)
     \<and> \<not> list_ex (\<lambda>e. le_order e = i \<and> le_wallet e = fst x) (ps_ledger s)"

lemma sum_wallet_change:
  fixes f :: "wallet_row \<Rightarrow> wallet_row"
  assumes "distinct (map wl_id ws)" "y \<in> set ws" "wl_id y = w" "P y"
  shows "(\<Sum>x \<leftarrow> map (\<lambda>x. if wl_id x = w \<and> P x then x\<lparr>wl_balance := wl_balance x - d\<rparr> else x) ws. if wl_id x = v then wl_balance x else 0)
     = (\<Sum>x \<leftarrow> ws. if wl_id x = v then wl_balance x else 0) - (if v = w then d else 0)"
  using assms
proof (induction ws)
  case (Cons a ws)
  show ?case
  proof (cases "a = y")
    case True
    have "wl_id x \<noteq> w" if "x \<in> set ws" for x using Cons.prems True that by (auto simp: image_iff)
    then have "map (\<lambda>x. if wl_id x = w \<and> P x then x\<lparr>wl_balance := wl_balance x - d\<rparr> else x) ws = ws" by (intro map_idI) simp
    then show ?thesis using Cons.prems True by simp
  next
    case False
    then have "y \<in> set ws" using Cons.prems by simp
    moreover from this have "wl_id a \<noteq> w" using Cons.prems by (auto simp: image_iff)
    ultimately show ?thesis using Cons by simp
  qed
qed simp

lemma apply_debit_spec:
  assumes "covered i x s" "distinct (map wl_id (ps_wallets s))"
  shows "ps_ledger (apply_debit customer i payment x s) = ps_ledger s @ debit_rows customer i payment [x]"
    and "worth w (apply_debit customer i payment x s) = worth w s"
    and "map wl_id (ps_wallets (apply_debit customer i payment x s)) = map wl_id (ps_wallets s)"
    and "ps_wallets (apply_debit customer i payment x s)
       = map (\<lambda>y. if wl_id y = fst x \<and> wl_balance y \<ge> fst (snd x) then y\<lparr>wl_balance := wl_balance y - fst (snd x)\<rparr> else y) (ps_wallets s)"
proof -
  obtain w0 d b where x: "x = (w0, d, b)" by (metis prod_cases3)
  obtain y where y: "y \<in> set (ps_wallets s)" "wl_id y = w0" "d \<le> wl_balance y" using assms(1) x by (auto simp: covered_def)
  have new: "\<not> list_ex (\<lambda>e. le_order e = i \<and> le_wallet e = w0) (ps_ledger s)" using assms(1) x by (simp add: covered_def)
  show l: "ps_ledger (apply_debit customer i payment x s) = ps_ledger s @ debit_rows customer i payment [x]"
    using new by (simp add: apply_debit_def x debit_rows_def Let_def)
  show v: "ps_wallets (apply_debit customer i payment x s)
       = map (\<lambda>y. if wl_id y = fst x \<and> wl_balance y \<ge> fst (snd x) then y\<lparr>wl_balance := wl_balance y - fst (snd x)\<rparr> else y) (ps_wallets s)"
    by (simp add: apply_debit_def x Let_def)
  show "map wl_id (ps_wallets (apply_debit customer i payment x s)) = map wl_id (ps_wallets s)" unfolding v by simp
  show "worth w (apply_debit customer i payment x s) = worth w s"
    unfolding worth_def l v unfolding x fst_conv snd_conv
    using sum_wallet_change [OF assms(2) y(1,2), where P = "\<lambda>y. d \<le> wl_balance y" and d = d and v = w] y(3) by (simp add: debit_rows_def)
qed

lemma apply_debit_sel [simp]:
  "ps_fleet (apply_debit c i p x s) = ps_fleet s" "ps_promo (apply_debit c i p x s) = ps_promo s" "ps_payments (apply_debit c i p x s) = ps_payments s"
  "ps_outbox (apply_debit c i p x s) = ps_outbox s" "ps_audits (apply_debit c i p x s) = ps_audits s" "ps_number (apply_debit c i p x s) = ps_number s"
  by (simp_all add: apply_debit_def case_prod_unfold Let_def)

lemma fold_debit_sel [simp]:
  "ps_fleet (fold (apply_debit c i p) ds s) = ps_fleet s" "ps_promo (fold (apply_debit c i p) ds s) = ps_promo s"
  "ps_payments (fold (apply_debit c i p) ds s) = ps_payments s" "ps_outbox (fold (apply_debit c i p) ds s) = ps_outbox s"
  "ps_audits (fold (apply_debit c i p) ds s) = ps_audits s" "ps_number (fold (apply_debit c i p) ds s) = ps_number s"
  by (induction ds arbitrary: s) simp_all

lemma covered_after:
  assumes x: "covered i x s" and d: "distinct (map wl_id (ps_wallets s))" and y: "covered i y s" and ne: "fst y \<noteq> fst x"
  shows "covered i y (apply_debit customer i payment x s)"
proof -
  obtain z where z: "z \<in> set (ps_wallets s)" "wl_id z = fst y" "fst (snd y) \<le> wl_balance z" using y by (auto simp: covered_def)
  then have "z \<in> set (ps_wallets (apply_debit customer i payment x s))"
    unfolding apply_debit_spec(4) [OF x d] using ne by force
  then show ?thesis using y z ne unfolding covered_def apply_debit_spec(1) [OF x d]
    by (cases x) (auto simp: debit_rows_def)
qed

lemma fold_debits:
  assumes "\<forall>x \<in> set ds. covered i x s" "distinct (map fst ds)" "distinct (map wl_id (ps_wallets s))"
  shows "ps_ledger (fold (apply_debit customer i payment) ds s) = ps_ledger s @ debit_rows customer i payment ds"
    and "worth w (fold (apply_debit customer i payment) ds s) = worth w s"
    and "map wl_id (ps_wallets (fold (apply_debit customer i payment) ds s)) = map wl_id (ps_wallets s)"
  using assms
proof (induction ds arbitrary: s)
  case Nil
  { case 1 then show ?case by (simp add: debit_rows_def)
  next case 2 then show ?case by simp
  next case 3 then show ?case by simp }
next
  case (Cons x ds)
  let ?s = "apply_debit customer i payment x s"
  { fix s assume a: "\<forall>x \<in> set (x # ds). covered i x s" "distinct (map fst (x # ds))" "distinct (map wl_id (ps_wallets s))"
    then have x: "covered i x s" by simp
    have "\<forall>y \<in> set ds. covered i y (apply_debit customer i payment x s)"
    proof
      fix y assume y: "y \<in> set ds"
      then have "fst y \<noteq> fst x" using a(2) by (auto simp: image_iff)
      then show "covered i y (apply_debit customer i payment x s)" using covered_after [OF x a(3)] a(1) y by simp
    qed
    note this apply_debit_spec [OF x a(3)] }
  note step = this
  { case 1
    then show ?case using Cons.IH(1) [OF step(1) [OF 1]] step(2,4) [OF 1] by (simp add: debit_rows_def)
  next
    case 2
    then show ?case using Cons.IH(2) [OF step(1) [OF 2]] step(3,4) [OF 2] by simp
  next
    case 3
    then show ?case using Cons.IH(3) [OF step(1) [OF 3]] step(4) [OF 3] by simp }
qed

end
