(* ===== verification/PaymentLifecycle.thy ===== *)
theory PaymentLifecycle
  imports PaymentBooks
begin

text \<open>
  The payments of customers over the life of their orders: the operations of payments, promotions and deliveries together, in any order.

  The interface \<open>pay_operation\<close> is what an operation of this code promises: the invariant is kept, and no money appears or is lost.
\<close>

section \<open>The invariant\<close>

definition settled :: "uuid \<Rightarrow> fleet \<Rightarrow> bool" where
  "settled i f \<longleftrightarrow> i \<in> od_id ` set (fl_orders f) \<and> (\<forall>x \<in> set (fl_orders f). od_id x = i \<longrightarrow> od_status x \<noteq> ''pending_payment'')"

definition charge_ok :: "pay_store \<Rightarrow> debit_row \<Rightarrow> bool" where
  "charge_ok s e \<longleftrightarrow> 0 < le_amount e \<and> settled (le_order e) (ps_fleet s)
     \<and> (\<exists>p \<in> set (ps_payments s). pm_order p = le_order e \<and> pm_amount p = charged (le_order e) (ps_ledger s))"

definition pay_keys :: "pay_store \<Rightarrow> bool" where
  "pay_keys s \<longleftrightarrow> distinct (map pm_order (ps_payments s)) \<and> distinct (map wl_id (ps_wallets s))
     \<and> distinct (map (\<lambda>e. (le_order e, le_wallet e)) (ps_ledger s))"

definition pay_inv :: "pay_store \<Rightarrow> bool" where
  "pay_inv s \<longleftrightarrow> fleet_inv (ps_fleet s) \<and> promo_inv (ps_promo s) \<and> fl_paid (ps_fleet s) = paid_orders (ps_payments s)
     \<and> pay_keys s \<and> (\<forall>e \<in> set (ps_ledger s). charge_ok s e)"

text \<open>What no operation of this code changes: the worth of each wallet, and the debits booked so far.\<close>

definition money_kept :: "pay_store \<Rightarrow> pay_store \<Rightarrow> bool" where
  "money_kept s s' \<longleftrightarrow> (\<forall>w. worth w s' = worth w s) \<and> (\<exists>es. ps_ledger s' = ps_ledger s @ es)"

lemma money_kept_refl [simp]: "money_kept s s"
  by (simp add: money_kept_def)

lemma money_kept_trans: "money_kept s s' \<Longrightarrow> money_kept s' s'' \<Longrightarrow> money_kept s s''"
  by (auto simp: money_kept_def)

text \<open>An operation that does not touch the books.\<close>

definition books_same :: "pay_store \<Rightarrow> pay_store \<Rightarrow> bool" where
  "books_same s s' \<longleftrightarrow> ps_ledger s' = ps_ledger s \<and> ps_wallets s' = ps_wallets s
     \<and> map (\<lambda>p. (pm_order p, pm_amount p)) (ps_payments s') = map (\<lambda>p. (pm_order p, pm_amount p)) (ps_payments s)
     \<and> final_kept (ps_fleet s) (ps_fleet s')"

lemma books_same_refl [simp]: "books_same s s"
  by (simp add: books_same_def)

lemma books_same_trans: "books_same s s' \<Longrightarrow> books_same s' s'' \<Longrightarrow> books_same s s''"
  unfolding books_same_def using final_kept_trans by (simp add: conj_ac) metis

lemma books_money: "books_same s s' \<Longrightarrow> money_kept s s'"
  by (simp add: books_same_def money_kept_def worth_def)

lemma settled_kept: "final_kept f f' \<Longrightarrow> settled i f \<Longrightarrow> settled i f'"
proof -
  assume k: "final_kept f f'" and s: "settled i f"
  then have u: "unpaid_kept (fl_orders f) (fl_orders f')" by (simp add: final_kept_def)
  have "od_status x \<noteq> ''pending_payment''" if x: "x \<in> set (fl_orders f')" "od_id x = i" for x
  proof
    assume st: "od_status x = ''pending_payment''"
    have "od_id x \<in> od_id ` set (fl_orders f)" using s x(2) by (simp add: settled_def)
    then obtain y where "y \<in> set (fl_orders f)" "od_id y = i" "od_status y = ''pending_payment''"
      using bspec [OF conjunct2 [OF u [unfolded unpaid_kept_def]] x(1)] st x(2) by auto
    then show False using s by (simp add: settled_def)
  qed
  moreover have "i \<in> od_id ` set (fl_orders f')"
    using s subsetD [OF conjunct1 [OF u [unfolded unpaid_kept_def]]] by (simp add: settled_def)
  ultimately show ?thesis unfolding settled_def by blast
qed

lemma same_amounts:
  assumes "map (\<lambda>p. (pm_order p, pm_amount p)) ps' = map (\<lambda>p. (pm_order p, pm_amount p)) ps"
  shows "map pm_order ps' = map pm_order ps" and "\<exists>p \<in> set ps. pm_order p = i \<and> pm_amount p = a \<Longrightarrow> \<exists>p \<in> set ps'. pm_order p = i \<and> pm_amount p = a"
proof -
  have "map fst (map (\<lambda>p. (pm_order p, pm_amount p)) ps') = map fst (map (\<lambda>p. (pm_order p, pm_amount p)) ps)" using assms by simp
  then show "map pm_order ps' = map pm_order ps" by (simp add: comp_def)
  assume "\<exists>p \<in> set ps. pm_order p = i \<and> pm_amount p = a"
  then have "(i, a) \<in> set (map (\<lambda>p. (pm_order p, pm_amount p)) ps)" by force
  then have "(i, a) \<in> set (map (\<lambda>p. (pm_order p, pm_amount p)) ps')" by (simp only: assms)
  then show "\<exists>p \<in> set ps'. pm_order p = i \<and> pm_amount p = a" by auto
qed

lemma books_inv:
  assumes inv: "pay_inv s" and b: "books_same s s'" and f: "fleet_inv (ps_fleet s')" and p: "promo_inv (ps_promo s')"
    and v: "fl_paid (ps_fleet s') = paid_orders (ps_payments s')"
  shows "pay_inv s'"
proof -
  have led: "ps_ledger s' = ps_ledger s" and wal: "ps_wallets s' = ps_wallets s" and kept: "final_kept (ps_fleet s) (ps_fleet s')"
    and pays: "map (\<lambda>p. (pm_order p, pm_amount p)) (ps_payments s') = map (\<lambda>p. (pm_order p, pm_amount p)) (ps_payments s)"
    using b by (simp_all add: books_same_def)
  have "charge_ok s' e" if "e \<in> set (ps_ledger s')" for e
  proof -
    have "charge_ok s e" using inv that led by (simp add: pay_inv_def)
    then show ?thesis using settled_kept [OF kept] same_amounts(2) [OF pays] led by (simp add: charge_ok_def)
  qed
  moreover have "pay_keys s'" using inv led wal same_amounts(1) [OF pays] by (simp add: pay_inv_def pay_keys_def)
  ultimately show ?thesis using f p v by (simp add: pay_inv_def)
qed

section \<open>The parts of the operations\<close>

lemma refresh_sel [simp]:
  "ps_promo (refresh s) = ps_promo s" "ps_payments (refresh s) = ps_payments s" "ps_wallets (refresh s) = ps_wallets s"
  "ps_ledger (refresh s) = ps_ledger s" "ps_outbox (refresh s) = ps_outbox s" "ps_audits (refresh s) = ps_audits s" "ps_number (refresh s) = ps_number s"
  "fl_paid (ps_fleet (refresh s)) = paid_orders (ps_payments s)" "fl_orders (ps_fleet (refresh s)) = fl_orders (ps_fleet s)"
  "fleet_inv (ps_fleet (refresh s)) = fleet_inv (ps_fleet s)"
  by (simp_all add: refresh_def) (rule fleet_inv_cong, simp_all)

lemma set_payments_sel [simp]:
  "ps_promo (set_payments P f s) = ps_promo s" "ps_wallets (set_payments P f s) = ps_wallets s" "ps_ledger (set_payments P f s) = ps_ledger s"
  "ps_payments (set_payments P f s) = map (\<lambda>p. if P p then f p else p) (ps_payments s)"
  "fl_paid (ps_fleet (set_payments P f s)) = paid_orders (ps_payments (set_payments P f s))"
  "fl_orders (ps_fleet (set_payments P f s)) = fl_orders (ps_fleet s)" "fleet_inv (ps_fleet (set_payments P f s)) = fleet_inv (ps_fleet s)"
  "ps_audits (set_payments P f s) = ps_audits s" "ps_number (set_payments P f s) = ps_number s"
  by (simp_all add: set_payments_def)

lemma set_part_sel [simp]:
  "ps_promo (set_fleet g s) = ps_promo s" "ps_wallets (set_fleet g s) = ps_wallets s" "ps_ledger (set_fleet g s) = ps_ledger s"
  "ps_payments (set_fleet g s) = ps_payments s" "ps_fleet (set_fleet g s) = g (ps_fleet s)" "ps_audits (set_fleet g s) = ps_audits s"
  "ps_promo (set_promo h s) = h (ps_promo s)" "ps_wallets (set_promo h s) = ps_wallets s" "ps_ledger (set_promo h s) = ps_ledger s"
  "ps_payments (set_promo h s) = ps_payments s" "ps_fleet (set_promo h s) = ps_fleet s" "ps_audits (set_promo h s) = ps_audits s"
  by (simp_all add: set_fleet_def set_promo_def)

text \<open>A part that keeps everything the invariant needs.\<close>

definition part_ok :: "pay_store \<Rightarrow> pay_store \<Rightarrow> bool" where
  "part_ok s s' \<longleftrightarrow> (fleet_inv (ps_fleet s) \<longrightarrow> books_same s s' \<and> fleet_inv (ps_fleet s') \<and> (promo_inv (ps_promo s) \<longrightarrow> promo_inv (ps_promo s'))
     \<and> (fl_paid (ps_fleet s) = paid_orders (ps_payments s) \<longrightarrow> fl_paid (ps_fleet s') = paid_orders (ps_payments s')))"

lemma part_inv: "pay_inv s \<Longrightarrow> part_ok s s' \<Longrightarrow> pay_inv s' \<and> money_kept s s'"
  using books_inv [of s s'] books_money by (auto simp: part_ok_def pay_inv_def)

lemma part_refl [simp]: "part_ok s s"
  by (simp add: part_ok_def)

lemma part_trans: "part_ok s s' \<Longrightarrow> part_ok s' s'' \<Longrightarrow> part_ok s s''"
  unfolding part_ok_def using books_same_trans by blast

lemma fold_part: "(\<And>i t. part_ok t (f i t)) \<Longrightarrow> part_ok s (fold f is s)"
  by (induction "is" arbitrary: s) (auto intro: part_trans)

lemma part_payments: "(\<And>p. pm_order (f p) = pm_order p \<and> pm_amount (f p) = pm_amount p) \<Longrightarrow> part_ok s (set_payments P f s)"
  by (simp add: part_ok_def books_same_def final_kept_def)

lemma part_audits: "part_ok s s' \<Longrightarrow> part_ok s (s'\<lparr>ps_audits := as\<rparr>)" "part_ok (s\<lparr>ps_audits := as\<rparr>) s' = part_ok s s'"
  by (simp_all add: part_ok_def books_same_def)

lemma part_event: "part_ok s (pay_event i customer s)"
  by (simp add: part_ok_def books_same_def pay_event_def)

lemma part_redeem: "part_ok s (redeem_order customer i s)"
  by (simp add: part_ok_def books_same_def redeem_order_def order_steps_keep)

lemma part_enqueue: "enqueue env e s = Some s' \<Longrightarrow> part_ok s s'"
  by (auto simp: enqueue_def part_ok_def books_same_def split: sum.splits)

text \<open>An unpaid order is not offered, so its status may change to any other.\<close>

lemma unpaid_move:
  assumes "\<And>x. od_id (f x) = od_id x \<and> od_batch (f x) = od_batch x \<and> od_model (f x) = od_model x"
    and "\<And>x. x \<in> set (fl_orders t) \<Longrightarrow> od_status x \<noteq> ''pending_payment'' \<Longrightarrow> f x = x"
  shows "(fleet_inv t \<longrightarrow> fleet_inv (change_orders f t)) \<and> final_kept t (change_orders f t) \<and> fl_paid (change_orders f t) = fl_paid t"
proof (intro conjI impI)
  assume inv: "fleet_inv t"
  show "fleet_inv (change_orders f t)"
  proof (rule change_orders_inv [OF inv assms(1)])
    fix x d assume x: "x \<in> set (fl_orders t)" "od_status x \<in> set READY"
    then have "od_status x \<noteq> ''pending_payment''" by (auto simp: READY_def)
    then show "od_status (f x) \<in> set READY \<or> od_batch x \<noteq> None" using assms(2) [OF x(1)] x(2) by simp
  next
    fix x assume x: "x \<in> set (fl_orders t)" "od_status (f x) \<in> set AWAITING"
    show "od_status x \<in> set AWAITING"
    proof (cases "od_status x = ''pending_payment''")
      case False
      then show ?thesis using assms(2) [OF x(1)] x(2) by simp
    qed (simp add: AWAITING_def)
  qed
next
  have "unpaid_kept (fl_orders t) (map f (fl_orders t))" by (rule unpaid_kept_map) (use assms in \<open>auto, metis\<close>)
  moreover have "o' \<in> set (map f (fl_orders t))" if o': "o' \<in> set (fl_orders t)" "od_status o' \<in> set FINAL" for o'
  proof -
    have "od_status o' \<noteq> ''pending_payment''" using o'(2) by (auto simp: FINAL_def)
    then have "f o' = o'" using assms(2) [OF o'(1)] by simp
    then show ?thesis using o'(1) by force
  qed
  ultimately show "final_kept t (change_orders f t)" by (simp add: final_kept_def change_orders_def)
qed (simp add: change_orders_def)

lemma part_move:
  assumes "\<And>x. od_id (f x) = od_id x \<and> od_batch (f x) = od_batch x \<and> od_model (f x) = od_model x"
    and "\<And>x. x \<in> set (fl_orders (ps_fleet s)) \<Longrightarrow> od_status x \<noteq> ''pending_payment'' \<Longrightarrow> f x = x"
  shows "part_ok s (set_fleet (change_orders f) s)"
  using unpaid_move [of f "ps_fleet s", OF assms] by (simp add: part_ok_def books_same_def)

lemma part_move_unpaid: "part_ok s (set_fleet (move_unpaid ids st) s)"
  unfolding move_unpaid_def by (rule part_move) auto

lemma part_queue: "serve_queue env n s = Some s' \<Longrightarrow> part_ok s s'"
  using advance_inv [of "ps_fleet s" "pe_match env" n]
  by (auto simp: serve_queue_def part_ok_def books_same_def offers_only_def split: option.splits)

section \<open>The provider\<close>

lemma store_session_part: "store_session env i n s = (ps, s') \<Longrightarrow> part_ok s s'"
  by (auto simp: store_session_def Let_def intro!: part_payments simp: session_payment_def)

lemma notice_paid_part: "notice_paid env reference rows s = Some s' \<Longrightarrow> part_ok s s'"
proof -
  let ?c = "od_customer (snd (hd rows))" and ?ids = "map (od_id \<circ> snd) rows"
  let ?s1 = "set_payments (\<lambda>p. pm_reference p = Some reference) (paid_payment env) s"
  let ?s2 = "set_fleet (move_unpaid ?ids next_paid_status) ?s1"
  let ?s3 = "fold (redeem_paid ?c) ?ids ?s2"
  assume run: "notice_paid env reference rows s = Some s'"
  have "part_ok s ?s1" by (rule part_payments) (simp add: paid_payment_def)
  moreover have "part_ok ?s1 ?s2" by (rule part_move_unpaid)
  moreover have "part_ok ?s2 ?s3" by (rule fold_part) (simp add: redeem_paid_def part_trans [OF part_redeem part_event])
  ultimately have s3: "part_ok s ?s3" using part_trans by blast
  have "s' = ?s3 \<or> (\<exists>k. serve_queue env k ?s3 = Some s')" using run by (auto simp: notice_paid_def Let_def split: if_splits)
  then show ?thesis using s3 part_queue part_trans by blast
qed

lemma notice_failed_part: "part_ok s (notice_failed reference st rows s)"
proof -
  let ?s1 = "set_payments (\<lambda>p. pm_reference p = Some reference) (\<lambda>p. p\<lparr>pm_status := failed_status st\<rparr>) s"
  have "part_ok s ?s1" by (rule part_payments) simp
  moreover have "part_ok ?s1 (set_fleet (move_unpaid ids f) ?s1)" for ids f by (rule part_move_unpaid)
  moreover have "part_ok t (set_promo (releaseReservedPromosForOrders ids) t)" for ids t
    by (simp add: part_ok_def books_same_def order_steps_keep)
  ultimately show ?thesis unfolding notice_failed_def Let_def using part_trans by blast
qed

lemma notice_writes_part: "notice_writes env reference st fraud rows s = Some s' \<Longrightarrow> part_ok s s'"
  using notice_paid_part notice_failed_part by (auto simp: notice_writes_def split: if_splits)

lemma audited_writes_part: "notice_writes env reference st fraud rows (s\<lparr>ps_audits := as\<rparr>) = Some s' \<Longrightarrow> part_ok s s'"
  using notice_writes_part part_audits(2) by blast

lemma process_notice_part: "process_notice env n reference st s = (r, s') \<Longrightarrow> part_ok s s'"
  using audited_writes_part [of env reference st "mn_fraud n" "notice_rows reference s"]
  by (auto simp: process_notice_def Let_def part_audits split: prod.splits bool.splits if_splits option.splits)

lemma notice_part: "handleMidtransNotification env n s = (r, s') \<Longrightarrow> part_ok s s'"
  using process_notice_part by (auto simp: handleMidtransNotification_def refuse_notice_def Let_def part_audits split: if_splits)

section \<open>The customer\<close>

lemma customer_order_spec: "customer_order i c s = Some o' \<Longrightarrow> o' \<in> set (fl_orders (ps_fleet s)) \<and> od_id o' = i \<and> od_customer o' = c"
  using find_order_member [of i "ps_fleet s"] by (auto simp: customer_order_def split: option.splits if_splits)

lemma same_order: "fleet_inv f \<Longrightarrow> o' \<in> set (fl_orders f) \<Longrightarrow> x \<in> set (fl_orders f) \<Longrightarrow> od_id x = od_id o' \<Longrightarrow> x = o'"
  by (rule distinct_map_eq [of od_id "fl_orders f"]) (simp_all add: fleet_inv_def keys_ok_def)

lemma set_order_part:
  assumes "fleet_inv (ps_fleet s)" "o' \<in> set (fl_orders (ps_fleet s))" "od_status o' = ''pending_payment''"
  shows "part_ok s (set_fleet (set_order (od_id o') (\<lambda>x. x\<lparr>od_status := st\<rparr>)) s)"
  unfolding set_order_change by (rule part_move) (use same_order [OF assms(1,2)] assms(3) in auto)

lemma confirm_writes_part:
  assumes inv: "fleet_inv (ps_fleet s)" and o': "o' \<in> set (fl_orders (ps_fleet s))" "od_status o' = ''pending_payment''"
    and run: "confirm_writes env customer o' by_hand s = Some s'"
  shows "part_ok s s'"
proof -
  let ?i = "od_id o'"
  let ?s1 = "set_fleet (set_order ?i (\<lambda>x. x\<lparr>od_status := next_paid_status o'\<rparr>)) s"
  let ?s2 = "if by_hand then manual_paid env ?i ?s1 else ?s1"
  let ?s3 = "pay_event ?i customer (redeem_order customer ?i ?s2)"
  have "part_ok s ?s1" by (rule set_order_part [OF inv o'])
  moreover have "part_ok ?s1 ?s2" by (simp add: manual_paid_def part_payments)
  moreover have "part_ok ?s2 ?s3" by (rule part_trans [OF part_redeem part_event])
  ultimately have s3: "part_ok s ?s3" using part_trans by blast
  obtain e s4 where "enqueue env e ?s3 = Some s4" "s' = s4 \<or> serve_queue env 1 s4 = Some s'"
    using run by (auto simp: confirm_writes_def Let_def split: option.splits if_splits)
  then show ?thesis using part_trans [OF s3 part_enqueue] part_queue [of env 1 s4 s'] part_trans by metis
qed

lemma confirm_part:
  assumes inv: "fleet_inv (ps_fleet s)" and run: "confirmCustomerOrderPayment env c i s = (r, s')"
  shows "part_ok s s'"
proof (cases "s' = s")
  case False
  then obtain cu o' b where "customer_order i cu s = Some o'" "od_status o' = ''pending_payment''" "confirm_writes env cu o' b s = Some s'"
    using run by (auto simp: confirmCustomerOrderPayment_def Let_def split: option.splits if_splits)
  then show ?thesis using confirm_writes_part [OF inv] customer_order_spec by blast
qed simp

section \<open>The balance\<close>

lemma put_lapay_spec:
  assumes put: "put_lapay env i amount s = Inr (p, s1)" and keys: "distinct (map pm_order (ps_payments s))"
  shows "pm_order p = i \<and> pm_amount p = amount \<and> pm_status p = ''paid'' \<and> pm_provider p = ''lapay'' \<and> p \<in> set (ps_payments s1) \<and> distinct (map pm_order (ps_payments s1))
     \<and> (\<forall>q \<in> set (ps_payments s). pm_order q \<noteq> i \<longrightarrow> q \<in> set (ps_payments s1))
     \<and> ps_ledger s1 = ps_ledger s \<and> ps_wallets s1 = ps_wallets s \<and> ps_promo s1 = ps_promo s \<and> fl_orders (ps_fleet s1) = fl_orders (ps_fleet s)
     \<and> fleet_inv (ps_fleet s1) = fleet_inv (ps_fleet s) \<and> fl_paid (ps_fleet s1) = paid_orders (ps_payments s1)"
proof (cases "payment_of i s")
  case None
  then have "\<forall>q \<in> set (ps_payments s). pm_order q \<noteq> i" by (auto simp: payment_of_def find_None_iff)
  moreover have "p = lapay_payment env i (ps_number s i) amount" "s1 = refresh (s\<lparr>ps_payments := ps_payments s @ [p]\<rparr>)"
    using put None by (auto simp: put_lapay_def Let_def split: if_splits)
  ultimately show ?thesis using keys by (auto simp: lapay_payment_def)
next
  case (Some q)
  then have q: "q \<in> set (ps_payments s)" "pm_order q = i" by (auto simp: payment_of_def find_Some_iff)
  have s1: "s1 = set_payments (\<lambda>x. pm_order x = i) (\<lambda>_. p) s" and p: "pm_order p = pm_order q" "pm_amount p = amount" "pm_status p = ''paid''" "pm_provider p = ''lapay''"
    using put Some by (auto simp: put_lapay_def Let_def split: if_splits)
  have "map pm_order (ps_payments s1) = map pm_order (ps_payments s)" using p(1) q(2) by (simp add: s1)
  then have "distinct (map pm_order (ps_payments s1))" using keys by simp
  moreover have "p \<in> set (ps_payments s1)" using q by (force simp: s1)
  moreover have "\<forall>x \<in> set (ps_payments s). pm_order x \<noteq> i \<longrightarrow> x \<in> set (ps_payments s1)" by (force simp: s1)
  ultimately show ?thesis using p q by (simp add: s1)
qed

lemma finish_lapay_part:
  assumes run: "finish_lapay env customer o' p s = Some s'" and i: "od_id o' \<in> od_id ` set (fl_orders (ps_fleet s))" and inv: "fleet_inv (ps_fleet s)"
  shows "part_ok s s' \<and> settled (od_id o') (ps_fleet s') \<and> ps_payments s' = ps_payments s"
proof -
  let ?i = "od_id o'" and ?st = "paidCustomerOrderStatus (is_scheduled o') (od_merchant o' \<noteq> None)"
  let ?f = "\<lambda>x. if od_id x = ?i then (if od_status x = ''pending_payment'' then x\<lparr>od_status := ?st\<rparr> else x) else x"
  let ?s1 = "set_fleet (change_orders ?f) s"
  let ?s2 = "pay_event ?i customer (redeem_order customer ?i ?s1)"
  have st: "?st \<noteq> ''pending_payment''" by (simp add: paidCustomerOrderStatus_def)
  have one: "part_ok s ?s1" by (rule part_move) auto
  moreover have two: "part_ok ?s1 ?s2" by (rule part_trans [OF part_redeem part_event])
  obtain e s3 where e: "enqueue env e ?s2 = Some s3" "s' = s3 \<or> serve_queue env 1 s3 = Some s'"
    using run by (auto simp: finish_lapay_def set_order_change Let_def simp del: not_None_eq split: option.splits if_splits)
  have "part_ok s3 s'" using e(2) part_queue [of env 1 s3 s'] by auto
  then have rest: "part_ok ?s1 s'" using part_trans [OF part_trans [OF two part_enqueue [OF e(1)]]] by blast
  have "map od_id (fl_orders (ps_fleet ?s1)) = map od_id (fl_orders (ps_fleet s))" by (simp add: change_orders_def)
  then have "od_id ` set (fl_orders (ps_fleet ?s1)) = od_id ` set (fl_orders (ps_fleet s))" by (metis set_map)
  moreover have "od_status x \<noteq> ''pending_payment''" if "x \<in> set (fl_orders (ps_fleet ?s1))" "od_id x = ?i" for x
    using that st by (auto simp: change_orders_def split: if_splits)
  ultimately have "settled ?i (ps_fleet ?s1)" unfolding settled_def using i by blast
  moreover have "final_kept (ps_fleet ?s1) (ps_fleet s')" using rest one inv by (simp add: part_ok_def books_same_def)
  moreover have "ps_payments s3 = ps_payments s" using e(1) by (auto simp: enqueue_def pay_event_def redeem_order_def split: sum.splits)
  then have "ps_payments s' = ps_payments s" using e(2) by (auto simp: serve_queue_def split: option.splits)
  ultimately show ?thesis using settled_kept part_trans [OF one rest] by blast
qed

lemma active_wallets_spec:
  assumes "distinct (map wl_id (ps_wallets s))"
  shows "distinct (map wl_id (active_wallets c s)) \<and> set (active_wallets c s) \<subseteq> set (ps_wallets s)"
  using assms by (auto simp: active_wallets_def distinct_map inj_on_def)

lemma charged_append [simp]: "charged i (es @ fs) = charged i es + charged i fs"
  by (simp add: charged_def)

lemma charged_none: "(\<And>e. e \<in> set es \<Longrightarrow> le_order e \<noteq> i) \<Longrightarrow> charged i es = 0"
  unfolding charged_def by (induction es) auto

lemma charged_rows [simp]: "charged j (debit_rows c i p ds) = (if j = i then debit_sum ds else 0)"
  by (induction ds) (auto simp: debit_rows_def charged_def)

lemma debit_rows_order: "e \<in> set (debit_rows c i p ds) \<Longrightarrow> le_order e = i \<and> (\<exists>b. (le_wallet e, le_amount e, b) \<in> set ds)"
  by (auto simp: debit_rows_def)

lemma debit_rows_keys: "map (\<lambda>e. (le_order e, le_wallet e)) (debit_rows c i p ds) = map (\<lambda>w. (i, w)) (map fst ds)"
  by (simp add: debit_rows_def case_prod_unfold)

text \<open>The books when an order is charged, before the order moves on.\<close>

definition charge_state :: "uuid \<Rightarrow> uuid \<Rightarrow> int \<Rightarrow> pay_store \<Rightarrow> pay_store \<Rightarrow> bool" where
  "charge_state c i amount s t \<longleftrightarrow> pay_keys t \<and> money_kept s t \<and> charged i (ps_ledger t) = amount
     \<and> (\<forall>e \<in> set (ps_ledger t). 0 < le_amount e \<and> (e \<in> set (ps_ledger s) \<and> le_order e \<noteq> i \<or> le_order e = i \<and> le_wallet e \<in> wl_id ` set (active_wallets c s)))
     \<and> (\<forall>j. j \<noteq> i \<longrightarrow> charged j (ps_ledger t) = charged j (ps_ledger s))"

lemma charge_booked:
  assumes inv: "pay_inv s" and new: "\<not> settled i (ps_fleet s)"
    and pay: "0 < amount" "amount \<le> wallet_sum (active_wallets c s)"
    and put: "put_lapay env i amount s = Inr (p, s1)"
    and d: "debits amount (wallet_sum (active_wallets c s)) (active_wallets c s) = (ds, r, b)"
  shows "r = 0 \<and> (\<forall>(w, d, b') \<in> set ds. 0 < d \<and> 0 \<le> b') \<and> charge_state c i amount s (fold (apply_debit c i (pm_id p)) ds s1)"
proof -
  let ?ws = "active_wallets c s" and ?t = "fold (apply_debit c i (pm_id p)) ds s1"
  have keys: "distinct (map pm_order (ps_payments s))" "distinct (map wl_id (ps_wallets s))" "distinct (map (\<lambda>e. (le_order e, le_wallet e)) (ps_ledger s))"
    using inv by (simp_all add: pay_inv_def pay_keys_def)
  note w = active_wallets_spec [OF keys(2), of c] and sp = debits_spec [OF d] and p = put_lapay_spec [OF put keys(1)]
  have r: "r = 0" using debits_pay [OF _ pay(2) d] pay(1) by simp
  have old: "0 < le_amount e \<and> le_order e \<noteq> i" if "e \<in> set (ps_ledger s)" for e
    using inv that new by (auto simp: pay_inv_def charge_ok_def)
  have ids: "distinct (map fst ds)" "set (map fst ds) \<subseteq> wl_id ` set ?ws" using sp w by auto
  have rows: "\<forall>(w, d, b') \<in> set ds. 0 < d \<and> 0 \<le> b' \<and> (\<exists>x \<in> set ?ws. wl_id x = w \<and> d \<le> wl_balance x)" using sp pay by fastforce
  have "covered i x s1" if x: "x \<in> set ds" for x
  proof -
    obtain y where "y \<in> set ?ws" "wl_id y = fst x" "fst (snd x) \<le> wl_balance y" using rows x by (auto simp: case_prod_unfold)
    then have "\<exists>y \<in> set (ps_wallets s1). wl_id y = fst x \<and> fst (snd x) \<le> wl_balance y" using w p by auto
    moreover have "\<not> list_ex (\<lambda>e. le_order e = i \<and> le_wallet e = fst x) (ps_ledger s1)" using old p by (auto simp: list_ex_iff)
    ultimately show ?thesis by (simp add: covered_def)
  qed
  then have cov: "\<forall>x \<in> set ds. covered i x s1" by blast
  have wk: "distinct (map wl_id (ps_wallets s1))" using keys(2) p by simp
  note f = fold_debits [OF cov ids(1) wk, where customer = c and payment = "pm_id p"]
  have led: "ps_ledger ?t = ps_ledger s @ debit_rows c i (pm_id p) ds" using f(1) p by simp
  have "\<forall>v. worth v ?t = worth v s" using f(2) p by (simp add: worth_def)
  then have m: "money_kept s ?t" using led by (simp add: money_kept_def)
  have "distinct (map (\<lambda>e. (le_order e, le_wallet e)) (ps_ledger ?t))"
    unfolding led map_append debit_rows_keys using keys(3) ids(1) old by (auto simp: distinct_map inj_on_def)
  then have k: "pay_keys ?t" using f(3) wk p by (simp add: pay_keys_def)
  have "charged i (ps_ledger ?t) = amount" using charged_none [of "ps_ledger s" i] old sp r unfolding led by simp
  moreover have "0 < le_amount e \<and> (e \<in> set (ps_ledger s) \<and> le_order e \<noteq> i \<or> le_order e = i \<and> le_wallet e \<in> wl_id ` set ?ws)" if "e \<in> set (ps_ledger ?t)" for e
  proof (cases "e \<in> set (ps_ledger s)")
    case False
    then have "e \<in> set (debit_rows c i (pm_id p) ds)" using that by (simp add: led)
    from debit_rows_order [OF this] obtain b' where e: "le_order e = i" "(le_wallet e, le_amount e, b') \<in> set ds" by blast
    from bspec [OF rows this(2)] this show ?thesis by force
  qed (use old in blast)
  ultimately have "charge_state c i amount s ?t" using k m by (simp add: charge_state_def led)
  then show ?thesis using r rows by fast
qed

text \<open>The order is charged as a whole or not at all.\<close>

lemma pay_from_wallets_ok:
  assumes inv: "pay_inv s" and o': "o' \<in> set (fl_orders (ps_fleet s))" "od_status o' = ''pending_payment''"
    and pay: "0 < amount" "amount \<le> wallet_sum (active_wallets c s)"
    and run: "pay_from_wallets env c o' amount s = (r, s')"
  shows "(\<exists>k m. r = PayError k m \<and> s' = s \<and> m \<notin> {''constraint violation'', ''ERR_LAPAY_CONCURRENT_BALANCE_CHANGE''})
     \<or> (\<exists>se. r = PayShown se [\<lparr>no_order = od_id o', no_status = ''paid'', no_order_status = paidCustomerOrderStatus (is_scheduled o') (od_merchant o' \<noteq> None),
            no_source = ''payment_reconciled'', no_amount = amount\<rparr>])
        \<and> pay_inv s' \<and> money_kept s s' \<and> settled (od_id o') (ps_fleet s') \<and> charged (od_id o') (ps_ledger s') = amount
        \<and> (\<forall>j. j \<noteq> od_id o' \<longrightarrow> charged j (ps_ledger s') = charged j (ps_ledger s))
        \<and> (\<forall>e \<in> set (ps_ledger s'). le_order e = od_id o' \<longrightarrow> le_wallet e \<in> wl_id ` set (active_wallets c s))
        \<and> od_id o' \<in> set (paid_orders (ps_payments s'))"
proof (cases "put_lapay env (od_id o') amount s")
  case (Inl e)
  then have "r = e" "s' = s" using run by (auto simp: pay_from_wallets_def)
  moreover have "e = PayError 409 ''ERR_PAYMENT_ALREADY_FINAL'' \<or> e = PayError 500 ''duplicate key''"
    using Inl by (auto simp: put_lapay_def Let_def split: option.splits if_splits)
  ultimately show ?thesis by auto
next
  case (Inr a)
  let ?i = "od_id o'" and ?ws = "active_wallets c s"
  obtain p s1 where put: "put_lapay env ?i amount s = Inr (p, s1)" using Inr by (cases a) auto
  obtain ds rem b where d: "debits amount (wallet_sum ?ws) ?ws = (ds, rem, b)" by (metis prod_cases3)
  have new: "\<not> settled ?i (ps_fleet s)" using o' by (auto simp: settled_def)
  note bk = charge_booked [OF inv new pay put d]
  let ?t = "fold (apply_debit c ?i (pm_id p)) ds s1"
  have keys: "distinct (map pm_order (ps_payments s))" using inv by (simp add: pay_inv_def pay_keys_def)
  note p = put_lapay_spec [OF put keys]
  have ok: "\<not> list_ex (\<lambda>(_, d, b). d \<le> 0 \<or> b < 0) ds" using bk by (fastforce simp: list_ex_iff)
  show ?thesis
  proof (cases "finish_lapay env c o' p ?t")
    case None
    then have "r = PayError 500 ''Server error''" "s' = s" using run put d ok bk by (simp_all add: pay_from_wallets_def Let_def)
    then show ?thesis by simp
  next
    case (Some u)
    have s': "s' = u" and r: "\<exists>se. r = PayShown se [\<lparr>no_order = ?i, no_status = ''paid'',
        no_order_status = paidCustomerOrderStatus (is_scheduled o') (od_merchant o' \<noteq> None), no_source = ''payment_reconciled'', no_amount = amount\<rparr>]"
      using run put d ok bk Some by (auto simp: pay_from_wallets_def Let_def simp del: not_None_eq)
    have ft: "fleet_inv (ps_fleet ?t)" using inv p by (simp add: pay_inv_def)
    have "?i \<in> od_id ` set (fl_orders (ps_fleet ?t))" using o' p by simp
    note fin = finish_lapay_part [OF Some this ft]
    then have bs: "books_same ?t u" "fleet_inv (ps_fleet u)" and paid: "fl_paid (ps_fleet u) = paid_orders (ps_payments u)" and promo: "promo_inv (ps_promo u)"
      and st: "settled ?i (ps_fleet u)" using ft p inv by (simp_all add: part_ok_def pay_inv_def)
    then have led: "ps_ledger u = ps_ledger ?t" and wal: "ps_wallets u = ps_wallets ?t" and kept: "final_kept (ps_fleet ?t) (ps_fleet u)"
      and pays: "map (\<lambda>p. (pm_order p, pm_amount p)) (ps_payments u) = map (\<lambda>p. (pm_order p, pm_amount p)) (ps_payments s1)"
      by (simp_all add: books_same_def)
    have cs: "charge_state c ?i amount s ?t" using bk by simp
    have "settled j (ps_fleet u)" if "settled j (ps_fleet s)" for j
    proof (rule settled_kept [OF kept])
      show "settled j (ps_fleet ?t)" using that p by (simp add: settled_def)
    qed
    note set' = this
    have "charge_ok u e" if e: "e \<in> set (ps_ledger u)" for e
    proof (cases "le_order e = ?i")
      case True
      have "\<exists>q \<in> set (ps_payments u). pm_order q = ?i \<and> pm_amount q = amount" using same_amounts(2) [OF pays] p by blast
      then show ?thesis using True st cs e led by (simp add: charge_ok_def charge_state_def)
    next
      case False
      then have "e \<in> set (ps_ledger s)" using cs e led by (auto simp: charge_state_def)
      then have old: "charge_ok s e" using inv by (simp add: pay_inv_def)
      then have "\<exists>q \<in> set (ps_payments s1). pm_order q = le_order e \<and> pm_amount q = charged (le_order e) (ps_ledger s)"
        using p False by (auto simp: charge_ok_def)
      then have "\<exists>q \<in> set (ps_payments u). pm_order q = le_order e \<and> pm_amount q = charged (le_order e) (ps_ledger s)" by (rule same_amounts(2) [OF pays])
      moreover have "charged (le_order e) (ps_ledger u) = charged (le_order e) (ps_ledger s)" using cs False led by (simp add: charge_state_def)
      ultimately show ?thesis using old set' by (simp add: charge_ok_def)
    qed
    moreover have "pay_keys u" using cs led wal same_amounts(1) [OF pays] p by (simp add: charge_state_def pay_keys_def)
    ultimately have "pay_inv u" using bs paid promo by (simp add: pay_inv_def)
    moreover have "money_kept s u" using cs books_money [OF bs(1)] money_kept_trans unfolding charge_state_def by blast
    moreover have "?i \<in> set (paid_orders (ps_payments u))" using p fin by (force simp: paid_orders_def)
    moreover have "charged ?i (ps_ledger u) = amount" "\<forall>j. j \<noteq> ?i \<longrightarrow> charged j (ps_ledger u) = charged j (ps_ledger s)"
      "\<forall>e \<in> set (ps_ledger u). le_order e = ?i \<longrightarrow> le_wallet e \<in> wl_id ` set ?ws"
      using cs led by (auto simp: charge_state_def)
    ultimately show ?thesis unfolding s' using r st by blast
  qed
qed

lemma lapay_cases:
  assumes run: "completeCustomerLapayPayment env c i s = (r, s')"
  obtains (refused) "s' = s" "\<forall>k m. r = PayError k m \<longrightarrow> m \<notin> {''constraint violation'', ''ERR_LAPAY_CONCURRENT_BALANCE_CHANGE''}"
      "(\<exists>k m. r = PayError k m) \<or> (\<exists>p. payment_of i s = Some p \<and> pm_status p = ''paid'')"
  | (pay) o' where "customer_order i c s = Some o'" "od_status o' = ''pending_payment''" "0 < payable (payment_of i s) (od_total o')"
      "payable (payment_of i s) (od_total o') \<le> wallet_sum (active_wallets c s)"
      "pay_from_wallets env c o' (payable (payment_of i s) (od_total o')) s = (r, s')"
proof (cases "customer_order i c s")
  case None
  then show ?thesis using run by (intro refused) (auto simp: completeCustomerLapayPayment_def)
next
  case (Some o')
  let ?a = "payable (payment_of i s) (od_total o')"
  consider "?a \<le> 0" | "0 < ?a" "map_option pm_status (payment_of i s) = Some ''paid''"
    | e where "0 < ?a" "map_option pm_status (payment_of i s) \<noteq> Some ''paid''" "lapay_refusal env o' ?a (wallet_sum (active_wallets c s)) = Some e"
    | "0 < ?a" "map_option pm_status (payment_of i s) \<noteq> Some ''paid''" "lapay_refusal env o' ?a (wallet_sum (active_wallets c s)) = None"
    using not_le by (cases "lapay_refusal env o' ?a (wallet_sum (active_wallets c s))") blast+
  then show ?thesis
  proof cases
    case 1
    then show ?thesis using run Some by (intro refused) (auto simp: completeCustomerLapayPayment_def Let_def)
  next
    case 2
    then show ?thesis using run Some by (intro refused) (auto simp: completeCustomerLapayPayment_def Let_def)
  next
    case 3
    then have e: "r = e" "s' = s" using run Some by (simp_all add: completeCustomerLapayPayment_def Let_def del: map_option_eq_Some)
    have "\<exists>k m. e = PayError k m \<and> m \<notin> {''constraint violation'', ''ERR_LAPAY_CONCURRENT_BALANCE_CHANGE''}"
      using 3(3) by (auto simp: lapay_refusal_def split: if_splits)
    then show ?thesis using e by (intro refused) auto
  next
    case 4
    then have ok: "od_status o' = ''pending_payment''" "?a \<le> wallet_sum (active_wallets c s)" by (auto simp: lapay_refusal_def split: if_splits)
    show ?thesis by (rule pay [OF Some ok(1) 4(1) ok(2)]) (use run Some 4 in \<open>simp add: completeCustomerLapayPayment_def Let_def del: map_option_eq_Some\<close>)
  qed
qed

lemma lapay_inv:
  assumes inv: "pay_inv s" and run: "completeCustomerLapayPayment env c i s = (r, s')"
  shows "pay_inv s' \<and> money_kept s s'"
  using run
proof (cases rule: lapay_cases)
  case refused
  then show ?thesis using inv by simp
next
  case (pay o')
  note o' = customer_order_spec [OF pay(1)]
  show ?thesis using pay_from_wallets_ok [OF inv conjunct1 [OF o'] pay(2-5)] inv by auto
qed

lemma session_inv:
  assumes inv: "pay_inv s" and run: "createCustomerOrderPaymentSession env c i m s = (r, s')"
  shows "pay_inv s' \<and> money_kept s s'"
proof (cases "\<exists>cu. completeCustomerLapayPayment env cu i s = (r, s')")
  case True
  then show ?thesis using lapay_inv [OF inv] by blast
next
  case False
  then have "s' = s \<or> (\<exists>n ps. store_session env i n s = (ps, s'))"
    using run by (auto simp: createCustomerOrderPaymentSession_def Let_def split: option.splits if_splits prod.splits list.splits)
  then have "part_ok s s'" using store_session_part by auto
  then show ?thesis by (rule part_inv [OF inv])
qed

lemma store_inv: "pay_inv s \<Longrightarrow> pay_inv (snd (store_session env i n s)) \<and> money_kept s (snd (store_session env i n s))"
  by (rule part_inv) (auto intro: store_session_part prod.collapse [symmetric])

lemma confirm_inv: "pay_inv s \<Longrightarrow> confirmCustomerOrderPayment env c i s = (r, s') \<Longrightarrow> pay_inv s' \<and> money_kept s s'"
  by (rule part_inv [OF _ confirm_part]) (simp_all add: pay_inv_def)

lemma notice_inv: "pay_inv s \<Longrightarrow> handleMidtransNotification env n s = (r, s') \<Longrightarrow> pay_inv s' \<and> money_kept s s'"
  by (rule part_inv [OF _ notice_part])

lemma cancel_paid:
  assumes inv: "fleet_inv f" and run: "cancelCustomerOrder env i c f = (r, f')"
  shows "fl_paid f' = fl_paid f"
proof (cases "f' = f")
  case False
  let ?f = "cancel_order i c f"
  from False obtain o' where o': "find_order i f = Some o'" "od_status o' \<in> set cancellableStatuses \<union> set foodCancellableStatuses"
    and f': "f' = (case advanceOnDemandDispatchQueue env 5 ?f of None \<Rightarrow> ?f | Some (_, f2) \<Rightarrow> f2)"
    using customer_cancel_cases [OF run] by blast
  have "od_status x \<notin> set FINAL" if x: "x \<in> set (fl_orders f)" "od_id x = i" for x
  proof -
    have "x = o'" using find_order_unique [of f x] x o' inv by (simp add: fleet_inv_def)
    then show ?thesis using o'(2) by (auto simp: cancellableStatuses_def foodCancellableStatuses_def FINAL_def)
  qed
  then have "fleet_inv ?f" using cancel_order_inv [OF inv] by blast
  moreover have "fl_paid ?f = fl_paid f" by (simp add: cancel_order_def Let_def)
  ultimately show ?thesis using f' advance_inv [of ?f env 5] by (auto simp: offers_only_def split: option.splits)
qed simp

lemma withdraw_inv:
  assumes inv: "pay_inv s" and run: "withdraw_order env i c s = (r, s')"
  shows "pay_inv s' \<and> money_kept s s'"
proof -
  obtain r0 f where f: "cancelCustomerOrder env i c (ps_fleet s) = (r0, f)" by force
  have fi: "fleet_inv (ps_fleet s)" using inv by (simp add: pay_inv_def)
  note k = customer_cancel_inv [OF fi f] and p = cancel_paid [OF fi f]
  have "s' = s \<or> s' = set_promo (\<lambda>p. reverseRedeemedPromosForOrders [i] (releaseReservedPromosForOrders [i] p)) (s\<lparr>ps_fleet := f\<rparr>)"
    using run f by (auto simp: withdraw_order_def split: if_splits)
  then have "part_ok s s'" using k p by (auto simp: part_ok_def books_same_def order_steps_keep)
  then show ?thesis by (rule part_inv [OF inv])
qed

section \<open>Operations\<close>

locale pay_operation =
  fixes op :: "'a \<Rightarrow> pay_store \<Rightarrow> pay_store"
  assumes keeps: "pay_inv s \<Longrightarrow> pay_inv (op a s) \<and> money_kept s (op a s)"
begin

lemma keeps_all: "pay_inv s \<Longrightarrow> pay_inv (fold op as s) \<and> money_kept s (fold op as s)"
proof (induction as arbitrary: s)
  case (Cons a as)
  then have "pay_inv (op a s)" "money_kept s (op a s)" using keeps by blast+
  with Cons.IH [of "op a s"] show ?case using money_kept_trans by auto
qed simp

end

interpretation session: pay_operation "\<lambda>(env, c, i, m) s. snd (createCustomerOrderPaymentSession env c i m s)"
  by unfold_locales (simp add: session_inv [OF _ prod.collapse [symmetric]] split: prod.split)

interpretation stored: pay_operation "\<lambda>(env, i, n) s. snd (store_session env i n s)"
  by unfold_locales (simp add: store_inv split: prod.split)

interpretation confirmed: pay_operation "\<lambda>(env, c, i) s. snd (confirmCustomerOrderPayment env c i s)"
  by unfold_locales (simp add: confirm_inv [OF _ prod.collapse [symmetric]] split: prod.split)

interpretation notified: pay_operation "\<lambda>(env, n) s. snd (handleMidtransNotification env n s)"
  by unfold_locales (simp add: notice_inv [OF _ prod.collapse [symmetric]] split: prod.split)

interpretation withdrawn: pay_operation "\<lambda>(env, i, c) s. snd (withdraw_order env i c s)"
  by unfold_locales (simp add: withdraw_inv [OF _ prod.collapse [symmetric]] split: prod.split)

section \<open>Steps\<close>

text \<open>
  Beside the operations: a session the provider made late, steps of deliveries and promotions, payments of new orders, and money put
  into wallets or wallets opened and closed by other services.
\<close>

inductive pay_step :: "pay_store \<Rightarrow> pay_store \<Rightarrow> bool" where
  Session: "pay_step s (snd (createCustomerOrderPaymentSession env c i m s))"
| Stored: "pay_step s (snd (store_session env i n s))"
| Confirm: "pay_step s (snd (confirmCustomerOrderPayment env c i s))"
| Notify: "pay_step s (snd (handleMidtransNotification env n s))"
| Cancel: "pay_step s (snd (withdraw_order menv i c s))"
| Deliver: "fleet_step (ps_fleet s) f \<Longrightarrow> fl_paid f = fl_paid (ps_fleet s) \<Longrightarrow> pay_step s (s\<lparr>ps_fleet := f\<rparr>)"
| Promote: "promo_step (ps_promo s) p \<Longrightarrow> pay_step s (s\<lparr>ps_promo := p\<rparr>)"
| Payment: "pm_order p \<notin> pm_order ` set (ps_payments s) \<Longrightarrow> pay_step s (refresh (s\<lparr>ps_payments := ps_payments s @ [p]\<rparr>))"
| Wallets: "distinct (map wl_id ws) \<Longrightarrow> pay_step s (s\<lparr>ps_wallets := ws\<rparr>)"

lemma deliver_inv:
  assumes inv: "pay_inv s" and step: "fleet_step (ps_fleet s) f" and paid: "fl_paid f = fl_paid (ps_fleet s)"
  shows "pay_inv (s\<lparr>ps_fleet := f\<rparr>)"
proof -
  have "fleet_inv (ps_fleet s)" using inv by (simp add: pay_inv_def)
  from step_inv [OF step this] have "part_ok s (s\<lparr>ps_fleet := f\<rparr>)" using paid by (simp add: part_ok_def books_same_def)
  then show ?thesis using part_inv [OF inv] by blast
qed

lemma payment_inv:
  assumes inv: "pay_inv s" and new: "pm_order p \<notin> pm_order ` set (ps_payments s)"
  shows "pay_inv (refresh (s\<lparr>ps_payments := ps_payments s @ [p]\<rparr>))"
proof -
  let ?s = "refresh (s\<lparr>ps_payments := ps_payments s @ [p]\<rparr>)"
  have "charge_ok ?s e" if "e \<in> set (ps_ledger s)" for e
  proof -
    have "charge_ok s e" using inv that by (simp add: pay_inv_def)
    then show ?thesis by (auto simp: charge_ok_def settled_def)
  qed
  then show ?thesis using inv new by (simp add: pay_inv_def pay_keys_def)
qed

lemma wallets_inv: "pay_inv s \<Longrightarrow> distinct (map wl_id ws) \<Longrightarrow> pay_inv (s\<lparr>ps_wallets := ws\<rparr>)"
  by (simp add: pay_inv_def pay_keys_def charge_ok_def)

lemma promote_inv: "pay_inv s \<Longrightarrow> promo_step (ps_promo s) p \<Longrightarrow> pay_inv (s\<lparr>ps_promo := p\<rparr>)"
  using promo_step_inv [of "ps_promo s" p] by (simp add: pay_inv_def pay_keys_def charge_ok_def)

lemma pay_step_inv:
  assumes "pay_step s s'" "pay_inv s"
  shows "pay_inv s'"
  using assms(1)
proof cases
  case (Session env c i m)
  then show ?thesis using session.keeps [OF assms(2), of "(env, c, i, m)"] by simp
next
  case (Stored env i n)
  then show ?thesis using stored.keeps [OF assms(2), of "(env, i, n)"] by simp
next
  case (Confirm env c i)
  then show ?thesis using confirmed.keeps [OF assms(2), of "(env, c, i)"] by simp
next
  case (Notify env n)
  then show ?thesis using notified.keeps [OF assms(2), of "(env, n)"] by simp
next
  case (Cancel env i c)
  then show ?thesis using withdrawn.keeps [OF assms(2), of "(env, i, c)"] by simp
next
  case (Deliver f)
  then show ?thesis using deliver_inv [OF assms(2)] by simp
next
  case (Promote p)
  then show ?thesis using promote_inv [OF assms(2)] by simp
next
  case (Payment p)
  then show ?thesis using payment_inv [OF assms(2)] by simp
next
  case (Wallets ws)
  then show ?thesis using wallets_inv [OF assms(2)] by simp
qed

definition pay_start :: "pay_store \<Rightarrow> bool" where
  "pay_start s \<longleftrightarrow> empty_fleet (ps_fleet s) \<and> fl_paid (ps_fleet s) = [] \<and> promo_inv (ps_promo s) \<and> ps_payments s = [] \<and> ps_wallets s = [] \<and> ps_ledger s = []"

definition pay_reachable :: "pay_store \<Rightarrow> bool" where
  "pay_reachable s \<longleftrightarrow> (\<exists>s0. pay_start s0 \<and> pay_step\<^sup>*\<^sup>* s0 s)"

lemma pay_steps_inv: "pay_step\<^sup>*\<^sup>* s s' \<Longrightarrow> pay_inv s \<Longrightarrow> pay_inv s'"
  by (induction rule: rtranclp_induct) (auto dest: pay_step_inv)

lemma pay_reachable_inv: "pay_reachable s \<Longrightarrow> pay_inv s"
proof -
  assume "pay_reachable s"
  then obtain s0 where s0: "pay_start s0" "pay_step\<^sup>*\<^sup>* s0 s" by (auto simp: pay_reachable_def)
  then have "fleet_inv (ps_fleet s0)" by (simp add: pay_start_def empty_fleet_def fleet_inv_def keys_ok_def)
  then have "pay_inv s0" using s0(1) by (simp add: pay_start_def pay_inv_def pay_keys_def paid_orders_def)
  then show ?thesis using pay_steps_inv [OF s0(2)] by blast
qed

end
