(* ===== verification/PaymentProperties.thy ===== *)
theory PaymentProperties
  imports PaymentLifecycle
begin

text \<open>
  What holds of customer payments, with concrete payments from a balance and at the provider.
\<close>

section \<open>Properties\<close>

lemma payment_unique: "distinct (map pm_order (ps_payments s)) \<Longrightarrow> p \<in> set (ps_payments s) \<Longrightarrow> payment_of (pm_order p) s = Some p"
proof -
  assume d: "distinct (map pm_order (ps_payments s))" and p: "p \<in> set (ps_payments s)"
  then obtain q where q: "payment_of (pm_order p) s = Some q" by (cases "payment_of (pm_order p) s") (auto simp: payment_of_def find_None_iff)
  then have "q \<in> set (ps_payments s)" "pm_order q = pm_order p" by (auto simp: payment_of_def find_Some_iff)
  then show ?thesis using distinct_map_eq [OF d _ p] q by simp
qed

text \<open>
  C7.  Whatever customers, the provider and couriers do and in whatever order, an order is charged to the balance of its customer at most
  once: each wallet was debited at most once for it, the debits add up to the amount of its payment, and the order has left the
  unpaid status for good.
\<close>

theorem order_charged_once:
  assumes reach: "pay_reachable s" and e: "e \<in> set (ps_ledger s)"
  shows "0 < le_amount e \<and> (\<exists>p. payment_of (le_order e) s = Some p \<and> charged (le_order e) (ps_ledger s) = pm_amount p)
     \<and> (\<forall>x \<in> set (ps_ledger s). le_order x = le_order e \<and> le_wallet x = le_wallet e \<longrightarrow> x = e)
     \<and> settled (le_order e) (ps_fleet s)"
proof -
  note inv = pay_reachable_inv [OF reach]
  have ok: "charge_ok s e" and keys: "pay_keys s" using inv e by (simp_all add: pay_inv_def)
  then have "x = e" if "x \<in> set (ps_ledger s)" "le_order x = le_order e" "le_wallet x = le_wallet e" for x
    using distinct_map_eq [of "\<lambda>e. (le_order e, le_wallet e)" "ps_ledger s" x e] that e by (simp add: pay_keys_def)
  moreover obtain p where "p \<in> set (ps_payments s)" "pm_order p = le_order e" "pm_amount p = charged (le_order e) (ps_ledger s)"
    using ok by (auto simp: charge_ok_def)
  ultimately show ?thesis using ok keys payment_unique [of s p] by (auto simp: charge_ok_def pay_keys_def)
qed

text \<open>
  C8.  Paying an unpaid order from the balance charges it with exactly the amount due, from active wallets of the customer only; no wallet
  loses more than was booked for it, no other order is charged, the order leaves the unpaid status, and couriers may be offered it.
\<close>

theorem lapay_charges_amount:
  assumes inv: "pay_inv s" and run: "completeCustomerLapayPayment env c i s = (PayShown se notes, s')"
    and unpaid: "\<forall>p. payment_of i s = Some p \<longrightarrow> pm_status p \<noteq> ''paid''"
  shows "\<exists>o'. customer_order i c s = Some o' \<and> charged i (ps_ledger s') = payable (payment_of i s) (od_total o')
     \<and> (\<forall>w. worth w s' = worth w s) \<and> (\<forall>j. j \<noteq> i \<longrightarrow> charged j (ps_ledger s') = charged j (ps_ledger s))
     \<and> (\<forall>e \<in> set (ps_ledger s'). le_order e = i \<longrightarrow> (\<exists>w \<in> set (ps_wallets s). wl_id w = le_wallet e \<and> wl_customer w = c \<and> wl_status w = ''active''))
     \<and> settled i (ps_fleet s') \<and> i \<in> set (fl_paid (ps_fleet s'))"
  using run
proof (cases rule: lapay_cases)
  case refused
  then show ?thesis using unpaid by blast
next
  case (pay o')
  note o' = customer_order_spec [OF pay(1)]
  note r = pay_from_wallets_ok [OF inv conjunct1 [OF o'] pay(2-5)]
  then have "pay_inv s'" by auto
  then have "fl_paid (ps_fleet s') = paid_orders (ps_payments s')" by (simp add: pay_inv_def)
  moreover have "\<exists>w \<in> set (ps_wallets s). wl_id w = le_wallet e \<and> wl_customer w = c \<and> wl_status w = ''active''"
    if e: "e \<in> set (ps_ledger s')" "le_order e = i" for e
  proof -
    have "le_wallet e \<in> wl_id ` set (active_wallets c s)" using r e o' by auto
    then show ?thesis by (auto simp: active_wallets_def)
  qed
  ultimately show ?thesis using r o' pay(1) by (auto simp: money_kept_def)
qed

text \<open>
  C9.  A payment that is refused costs nothing, and the last two refusals of the code never happen: a balance that was large enough when it
  was read pays the whole amount, and no ledger entry breaks a constraint.
\<close>

theorem lapay_refusal_is_free:
  assumes inv: "pay_inv s" and run: "completeCustomerLapayPayment env c i s = (PayError k m, s')"
  shows "s' = s \<and> m \<noteq> ''ERR_LAPAY_CONCURRENT_BALANCE_CHANGE'' \<and> m \<noteq> ''constraint violation''"
  using run
proof (cases rule: lapay_cases)
  case refused
  then show ?thesis by auto
next
  case (pay o')
  note o' = customer_order_spec [OF pay(1)]
  from pay_from_wallets_ok [OF inv conjunct1 [OF o'] pay(2-5)] show ?thesis by auto
qed

text \<open>What an accepted notification was, and the four ways of processing one.\<close>

lemma notice_verified:
  assumes "handleMidtransNotification env n s = (r, s')" "\<forall>k. r \<noteq> NoticeRejected k"
  obtains reference st where "process_notice env n reference st s = (r, s')" "reference = str_or (mn_order n) []" "st = str_or (mn_status n) []"
    "reference \<noteq> []" "st \<noteq> []" "verifyMidtransSignature (pe_sha512 env) (mn_order n) (mn_code n) (mn_gross n) (mn_signature n) (pe_server_key env)"
  using assms by (auto simp: handleMidtransNotification_def Let_def split: if_splits)

lemma process_notice_cases:
  assumes run: "process_notice env n reference st s = (r, s')"
  obtains (duplicate) "r = NoticeDuplicate" "s' = s"
  | (ignored) as where "insert_audit (pe_audit_id env) ''midtrans'' (provider_event_id n) ''valid'' ''received'' None (ps_audits s) = (False, as)"
      "r = NoticeIgnored" "notice_rows reference s = []" "s' = s\<lparr>ps_audits := update_audit (pe_audit_id env) ''ignored'' (Some ''payment_not_found'') as\<rparr>"
  | (failed) as where "insert_audit (pe_audit_id env) ''midtrans'' (provider_event_id n) ''valid'' ''received'' None (ps_audits s) = (False, as)"
      "r = NoticeFailed" "s' = s\<lparr>ps_audits := update_audit (pe_audit_id env) ''failed'' (Some ''processing_failed'') (ps_audits s)\<rparr>"
  | (accepted) as t where "insert_audit (pe_audit_id env) ''midtrans'' (provider_event_id n) ''valid'' ''received'' None (ps_audits s) = (False, as)"
      "notice_rows reference s \<noteq> []" "notice_writes env reference st (mn_fraud n) (notice_rows reference s) (s\<lparr>ps_audits := as\<rparr>) = Some t"
      "r = NoticeDone (notice_notes st (mn_fraud n) (notice_rows reference s))" "s' = t\<lparr>ps_audits := update_audit (pe_audit_id env) ''processed'' None as\<rparr>"
  using run by (auto simp: process_notice_def Let_def split: prod.splits bool.splits if_splits option.splits)

text \<open>
  C10.  A signed notification that was processed, or ignored for want of a payment, is answered as a duplicate the next time and changes
  nothing, whatever the time.
\<close>

theorem notice_once:
  assumes run: "handleMidtransNotification env n s = (r, s')" and r: "r = NoticeIgnored \<or> r = NoticeDone notes" and ev: "provider_event_id n \<noteq> None"
    and same: "pe_sha512 env' = pe_sha512 env" "pe_server_key env' = pe_server_key env"
  shows "handleMidtransNotification env' n s' = (NoticeDuplicate, s')"
proof -
  from run r obtain reference st where v: "process_notice env n reference st s = (r, s')" "reference = str_or (mn_order n) []" "st = str_or (mn_status n) []"
    "reference \<noteq> []" "st \<noteq> []" "verifyMidtransSignature (pe_sha512 env) (mn_order n) (mn_code n) (mn_gross n) (mn_signature n) (pe_server_key env)"
    by (elim notice_verified) auto
  obtain x where x: "provider_event_id n = Some x" "x \<noteq> []" using ev by (auto simp: provider_event_id_def Let_def split: if_splits)
  have "list_ex (audit_is ''midtrans'' (Some x)) (ps_audits s')"
    using v(1)
  proof (cases rule: process_notice_cases)
    case duplicate
    then show ?thesis using r by simp
  next
    case ignored
    then show ?thesis using insert_audit_valid x by simp
  next
    case failed
    then show ?thesis using r by simp
  next
    case accepted
    then show ?thesis using insert_audit_valid x by simp
  qed
  then have "process_notice env' n reference st s' = (NoticeDuplicate, s')" using insert_audit_again x by (simp add: process_notice_def)
  then show ?thesis using v same by (simp add: handleMidtransNotification_def Let_def)
qed

text \<open>
  A payment in a session that was replaced is lost: once a new session is stored, the signed notification that the customer has paid in
  the old one is ignored; the payment stays pending and the order unpaid.
\<close>

theorem superseded_session_lost:
  assumes keys: "distinct (map pm_order (ps_payments s))" and p: "p \<in> set (ps_payments s)" "pm_status p \<noteq> ''paid''" "pm_reference p = Some old"
    and only: "\<forall>q \<in> set (ps_payments s). pm_reference q = Some old \<longrightarrow> q = p"
    and new: "sn_reference x \<noteq> old" and s1: "s1 = snd (store_session env (pm_order p) x s)"
    and n: "mn_order n = Some old" "mn_status n = Some ''settlement''" "old \<noteq> []"
    and sig: "verifyMidtransSignature (pe_sha512 env) (mn_order n) (mn_code n) (mn_gross n) (mn_signature n) (pe_server_key env)"
    and fresh: "\<not> list_ex (audit_is ''midtrans'' (provider_event_id n)) (ps_audits s)"
    and run: "handleMidtransNotification env n s1 = (r, s')"
  shows "r = NoticeIgnored \<and> map_option pm_status (payment_of (pm_order p) s') = Some ''pending'' \<and> fl_orders (ps_fleet s') = fl_orders (ps_fleet s)"
proof -
  let ?p = "session_payment env x p"
  have pays: "ps_payments s1 = map (\<lambda>q. if pm_order q = pm_order p \<and> pm_status q \<noteq> ''paid'' then session_payment env x q else q) (ps_payments s)"
    and fl: "fl_orders (ps_fleet s1) = fl_orders (ps_fleet s)" and au: "ps_audits s1 = ps_audits s"
    by (simp_all add: s1 store_session_def Let_def)
  have "pm_reference q \<noteq> Some old" if q: "q \<in> set (ps_payments s1)" for q
  proof -
    obtain q0 where q0: "q0 \<in> set (ps_payments s)" "q = (if pm_order q0 = pm_order p \<and> pm_status q0 \<noteq> ''paid'' then session_payment env x q0 else q0)"
      using q by (auto simp: pays)
    show ?thesis
    proof (cases "q0 = p")
      case True
      then show ?thesis using q0 p new by (simp add: session_payment_def)
    next
      case False
      then show ?thesis using q0 only new by (auto simp: session_payment_def)
    qed
  qed
  then have rows: "notice_rows old s1 = []" by (auto simp: notice_rows_def)
  have "fst (insert_audit (pe_audit_id env) ''midtrans'' (provider_event_id n) ''valid'' ''received'' None (ps_audits s1)) = False"
    using fresh au by (simp add: insert_audit_def)
  then obtain as where as: "insert_audit (pe_audit_id env) ''midtrans'' (provider_event_id n) ''valid'' ''received'' None (ps_audits s1) = (False, as)"
    by (metis prod.collapse)
  have run': "r = NoticeIgnored" "ps_payments s' = ps_payments s1" "fl_orders (ps_fleet s') = fl_orders (ps_fleet s1)"
    using run n sig rows as by (auto simp: handleMidtransNotification_def process_notice_def str_or_def)
  have "map pm_order (ps_payments s1) = map pm_order (ps_payments s)" by (simp add: pays session_payment_def)
  then have d: "distinct (map pm_order (ps_payments s'))" using keys run'(2) by simp
  have "?p \<in> set (ps_payments s')" unfolding run'(2) pays using p by force
  from payment_unique [OF d this] have "payment_of (pm_order p) s' = Some ?p" by (simp add: session_payment_def)
  then show ?thesis using run' fl by (simp add: session_payment_def)
qed

text \<open>
  A late notification that the session has expired takes back the payment, paid as it may be: the order, which is not unpaid any more,
  stays where it is, but is not offered to couriers.
\<close>

theorem late_failure_unpays:
  assumes inv: "pay_inv s" and p: "p \<in> set (ps_payments s)" "pm_reference p = Some reference" "reference \<noteq> []"
    and o': "o' \<in> set (fl_orders (ps_fleet s))" "od_id o' = pm_order p" "od_status o' \<noteq> ''pending_payment''"
    and n: "mn_order n = Some reference" "mn_status n = Some ''expire''"
    and run: "handleMidtransNotification env n s = (NoticeDone notes, s')"
  shows "map_option pm_status (payment_of (pm_order p) s') = Some ''expired'' \<and> od_id o' \<notin> set (fl_paid (ps_fleet s'))
     \<and> o' \<in> set (fl_orders (ps_fleet s'))"
proof -
  from run obtain r st where v: "process_notice env n r st s = (NoticeDone notes, s')" "r = reference" "st = ''expire''"
    by (elim notice_verified) (use n in \<open>auto simp: str_or_def split: list.splits\<close>)
  from v(1) obtain as t where a: "notice_writes env r st (mn_fraud n) (notice_rows r s) (s\<lparr>ps_audits := as\<rparr>) = Some t"
      "s' = t\<lparr>ps_audits := update_audit (pe_audit_id env) ''processed'' None as\<rparr>"
    by (cases rule: process_notice_cases) auto
  have t: "t = notice_failed reference ''expire'' (notice_rows reference s) (s\<lparr>ps_audits := as\<rparr>)"
    using a(1) v(2,3) by (auto simp: notice_writes_def isSuccessfulTransaction_def isExpiredOrFailedTransaction_def)
  have pays: "ps_payments s' = map (\<lambda>q. if pm_reference q = Some reference then q\<lparr>pm_status := ''expired''\<rparr> else q) (ps_payments s)"
    and orders: "fl_orders (ps_fleet s') = map (\<lambda>x. if od_id x \<in> set (map (od_id \<circ> snd) (notice_rows reference s)) \<and> od_status x = ''pending_payment''
        then x\<lparr>od_status := ''payment_failed''\<rparr> else x) (fl_orders (ps_fleet s))"
    by (simp_all add: a(2) t notice_failed_def Let_def failed_status_def move_unpaid_def change_orders_def)
  have inv': "pay_inv s'" using notice_inv [OF inv run] by simp
  then have d: "distinct (map pm_order (ps_payments s'))" by (simp add: pay_inv_def pay_keys_def)
  have "p\<lparr>pm_status := ''expired''\<rparr> \<in> set (ps_payments s')" unfolding pays using p by force
  from payment_unique [OF d this] have pay: "payment_of (pm_order p) s' = Some (p\<lparr>pm_status := ''expired''\<rparr>)" by simp
  have other: "q = p\<lparr>pm_status := ''expired''\<rparr>" if q: "q \<in> set (ps_payments s')" "pm_order q = pm_order p" for q
    using payment_unique [OF d q(1)] q(2) pay by simp
  have "od_id o' \<notin> set (paid_orders (ps_payments s'))"
  proof
    assume "od_id o' \<in> set (paid_orders (ps_payments s'))"
    then obtain q where q: "q \<in> set (ps_payments s')" "pm_order q = pm_order p" "pm_status q = ''paid''" using o'(2) by (auto simp: paid_orders_def)
    from other [OF q(1,2)] q(3) show False by simp
  qed
  moreover have "o' \<in> set (fl_orders (ps_fleet s'))" unfolding orders using o' by force
  ultimately show ?thesis using pay inv' by (simp add: pay_inv_def)
qed

text \<open>
  Without the switch for development, asking for confirmation never makes a payment paid: no payment changes, and an order leaves the unpaid
  status only when its payment is paid.
\<close>

theorem confirm_trusts_provider:
  assumes off: "\<not> pe_manual env" and run: "confirmCustomerOrderPayment env c i s = (r, s')"
  shows "ps_payments s' = ps_payments s \<and> (s' = s \<or> (\<exists>p. payment_of i s = Some p \<and> pm_status p = ''paid''))"
proof (cases "s' = s")
  case False
  then obtain cu o' where c: "customer_order i cu s = Some o'" "map_option pm_status (payment_of i s) = Some ''paid''"
      "confirm_writes env cu o' False s = Some s'"
    using run off by (auto simp: confirmCustomerOrderPayment_def Let_def simp del: map_option_eq_Some split: option.splits if_splits)
  have "ps_payments s' = ps_payments s"
    using c(3) by (auto simp: confirm_writes_def Let_def enqueue_def serve_queue_def pay_event_def redeem_order_def split: option.splits sum.splits if_splits)
  then show ?thesis using c(2) by auto
qed simp

section \<open>Examples\<close>

definition demo_pay_env :: pay_env where
  "demo_pay_env = \<lparr>pe_match = demo_env, pe_sha = take 64, pe_sha512 = (\<lambda>_. ''ab''), pe_service = None, pe_random = ''r'', pe_event_id = ''e1'',
     pe_payment_id = ''p1'', pe_audit_id = ''a1'', pe_server_key = ''k'', pe_client_key = ''ck'', pe_js = ''js'', pe_wallet_table = True, pe_manual = False,
     pe_provider = (\<lambda>_ _. Some (Some ''token'', Some ''url''))\<rparr>"

definition unpaid_order :: order_row where
  "unpaid_order = demo_order\<lparr>od_status := ''pending_payment'', od_total := 20\<rparr>"

definition demo_wallets :: "wallet_row list" where
  "demo_wallets = [\<lparr>wl_id = ''w1'', wl_customer = ''u1'', wl_balance = 15, wl_status = ''active'', wl_created = 0\<rparr>,
     \<lparr>wl_id = ''w2'', wl_customer = ''u1'', wl_balance = 10, wl_status = ''active'', wl_created = 1\<rparr>]"

definition empty_pay :: pay_store where
  "empty_pay = \<lparr>ps_fleet = start_fleet\<lparr>fl_paid := []\<rparr>, ps_promo = demo_promos, ps_payments = [], ps_wallets = [], ps_ledger = [], ps_outbox = [],
     ps_audits = [], ps_number = (\<lambda>i. ''N'' @ i)\<rparr>"

definition demo_pay :: pay_store where
  "demo_pay = empty_pay\<lparr>ps_fleet := start_fleet\<lparr>fl_paid := [], fl_orders := [unpaid_order]\<rparr>, ps_wallets := demo_wallets\<rparr>"

lemma empty_pay_start: "pay_start empty_pay"
proof -
  have "promo_inv demo_promos" using demo_fresh by (rule fresh_inv)
  then show ?thesis by (simp add: pay_start_def empty_pay_def empty_fleet_def start_fleet_def demo_fleet_def)
qed

lemma demo_pay_reachable: "pay_reachable demo_pay"
proof -
  let ?f = "ps_fleet empty_pay" and ?s1 = "empty_pay\<lparr>ps_fleet := (ps_fleet empty_pay)\<lparr>fl_orders := fl_orders (ps_fleet empty_pay) @ [unpaid_order]\<rparr>\<rparr>"
  have "new_order unpaid_order ?f" by (simp add: new_order_def empty_pay_def start_fleet_def demo_fleet_def)
  from fleet_step.Create [OF this] have "pay_step empty_pay ?s1" by (rule pay_step.Deliver) simp
  moreover have "pay_step ?s1 (?s1\<lparr>ps_wallets := demo_wallets\<rparr>)" by (rule pay_step.Wallets) (simp add: demo_wallets_def)
  moreover have "?s1\<lparr>ps_wallets := demo_wallets\<rparr> = demo_pay" by (simp add: demo_pay_def empty_pay_def start_fleet_def demo_fleet_def)
  ultimately show ?thesis using empty_pay_start unfolding pay_reachable_def by (metis rtranclp.rtrancl_refl rtranclp.rtrancl_into_rtrancl)
qed

definition demo_paid :: pay_store where
  "demo_paid = snd (createCustomerOrderPaymentSession demo_pay_env (Some ''u1'') ''o1'' Lapay demo_pay)"

lemma demo_paid_ledger: "map (\<lambda>e. (le_wallet e, le_amount e, le_after e)) (ps_ledger demo_paid) = [(''w1'', 15, 10), (''w2'', 5, 5)]"
  by code_simp

lemma pay_reach_step: "pay_reachable s \<Longrightarrow> pay_step s s' \<Longrightarrow> pay_reachable s'"
  unfolding pay_reachable_def by (meson rtranclp.rtrancl_into_rtrancl)

lemma demo_paid_reachable: "pay_reachable demo_paid"
  unfolding demo_paid_def by (rule pay_reach_step [OF demo_pay_reachable pay_step.Session])

theorem order_charged_once_witness:
  "\<exists>e p. e \<in> set (ps_ledger demo_paid) \<and> le_wallet e = ''w1'' \<and> payment_of (le_order e) demo_paid = Some p \<and> charged (le_order e) (ps_ledger demo_paid) = pm_amount p"
proof -
  obtain e es where e: "ps_ledger demo_paid = e # es" "le_wallet e = ''w1''" using demo_paid_ledger by (auto simp: map_eq_Cons_conv)
  then have "e \<in> set (ps_ledger demo_paid)" by simp
  with order_charged_once [OF demo_paid_reachable this] e(2) show ?thesis by blast
qed

lemma demo_lapay_shown: "\<exists>se ns. completeCustomerLapayPayment demo_pay_env ''u1'' ''o1'' demo_pay = (PayShown se ns, demo_paid)"
proof -
  have "case fst (completeCustomerLapayPayment demo_pay_env ''u1'' ''o1'' demo_pay) of PayError _ _ \<Rightarrow> False | PayShown _ _ \<Rightarrow> True" by code_simp
  moreover have "snd (completeCustomerLapayPayment demo_pay_env ''u1'' ''o1'' demo_pay) = demo_paid"
    by (simp add: demo_paid_def createCustomerOrderPaymentSession_def)
  ultimately show ?thesis by (cases "completeCustomerLapayPayment demo_pay_env ''u1'' ''o1'' demo_pay") (auto split: pay_reply.splits)
qed

lemma demo_unpaid: "payment_of ''o1'' demo_pay = None" "customer_order ''o1'' ''u1'' demo_pay = Some unpaid_order"
  by (simp_all add: payment_of_def demo_pay_def empty_pay_def customer_order_def find_order_def unpaid_order_def demo_order_def)

theorem lapay_charges_amount_witness: "charged ''o1'' (ps_ledger demo_paid) = 20 \<and> worth ''w1'' demo_paid = worth ''w1'' demo_pay \<and> ''o1'' \<in> set (fl_paid (ps_fleet demo_paid))"
proof -
  obtain se ns where r: "completeCustomerLapayPayment demo_pay_env ''u1'' ''o1'' demo_pay = (PayShown se ns, demo_paid)" using demo_lapay_shown by blast
  show ?thesis using lapay_charges_amount [OF pay_reachable_inv [OF demo_pay_reachable] r] demo_unpaid
    by (auto simp: payable_def unpaid_order_def)
qed

definition demo_poor :: pay_store where
  "demo_poor = demo_pay\<lparr>ps_wallets := take 1 demo_wallets\<rparr>"

theorem lapay_refusal_is_free_witness:
  "completeCustomerLapayPayment demo_pay_env ''u1'' ''o1'' demo_poor = (PayError 402 ''ERR_LAPAY_INSUFFICIENT_BALANCE'', demo_poor)"
proof -
  have "fst (completeCustomerLapayPayment demo_pay_env ''u1'' ''o1'' demo_poor) = PayError 402 ''ERR_LAPAY_INSUFFICIENT_BALANCE''" by code_simp
  then obtain s' where r: "completeCustomerLapayPayment demo_pay_env ''u1'' ''o1'' demo_poor = (PayError 402 ''ERR_LAPAY_INSUFFICIENT_BALANCE'', s')"
    by (metis prod.collapse)
  have "pay_inv demo_poor" unfolding demo_poor_def
    by (rule wallets_inv [OF pay_reachable_inv [OF demo_pay_reachable]]) (simp add: demo_wallets_def)
  from lapay_refusal_is_free [OF this r] r show ?thesis by simp
qed

definition demo_notice :: "string \<Rightarrow> midtrans_notice" where
  "demo_notice st = \<lparr>mn_order = Some ''S1'', mn_transaction = Some ''t1'', mn_status = Some st, mn_fraud = None, mn_code = Some ''200'',
     mn_gross = Some ''20.00'', mn_signature = Some ''ab''\<rparr>"

theorem notice_once_witness:
  "\<exists>s'. handleMidtransNotification demo_pay_env (demo_notice ''settlement'') demo_pay = (NoticeIgnored, s')
     \<and> handleMidtransNotification demo_pay_env (demo_notice ''settlement'') s' = (NoticeDuplicate, s')"
proof -
  have "fst (handleMidtransNotification demo_pay_env (demo_notice ''settlement'') demo_pay) = NoticeIgnored" by code_simp
  then obtain s' where r: "handleMidtransNotification demo_pay_env (demo_notice ''settlement'') demo_pay = (NoticeIgnored, s')" by (metis prod.collapse)
  have "provider_event_id (demo_notice ''settlement'') \<noteq> None" by code_simp
  from notice_once [OF r _ this refl refl, of "[]"] r show ?thesis by blast
qed

definition demo_payment :: customer_payment where
  "demo_payment = \<lparr>pm_id = ''p0'', pm_order = ''o1'', pm_number = ''PAY-No1'', pm_provider = ''midtrans'', pm_method = ''qris'', pm_status = ''pending'',
     pm_amount = 20, pm_reserves = (0, 0, 0, 0), pm_net = 20, pm_reference = Some ''S1'', pm_token = Some ''t'', pm_url = Some ''u'',
     pm_client_key = None, pm_js = None, pm_expires = 5, pm_paid = None\<rparr>"

definition demo_waiting :: pay_store where
  "demo_waiting = refresh (demo_pay\<lparr>ps_payments := ps_payments demo_pay @ [demo_payment]\<rparr>)"

lemma demo_waiting_reachable: "pay_reachable demo_waiting"
  unfolding demo_waiting_def by (rule pay_reach_step [OF demo_pay_reachable pay_step.Payment]) (simp add: demo_pay_def empty_pay_def)

lemma demo_waiting_parts: "ps_payments demo_waiting = [demo_payment]" "ps_audits demo_waiting = []"
  by (simp_all add: demo_waiting_def demo_pay_def empty_pay_def)

lemma demo_signed: "verifyMidtransSignature (pe_sha512 demo_pay_env) (mn_order (demo_notice st)) (mn_code (demo_notice st)) (mn_gross (demo_notice st))
     (mn_signature (demo_notice st)) (pe_server_key demo_pay_env)"
proof -
  have "timingSafeEqualHex ''ab'' ''ab''" by code_simp
  then show ?thesis by (simp add: verifyMidtransSignature_def demo_notice_def demo_pay_env_def str_or_def Let_def)
qed

definition demo_session :: snap_session where
  "demo_session = \<lparr>sn_reference = ''S2'', sn_token = Some ''token'', sn_url = Some ''url'', sn_expires = 1800000\<rparr>"

theorem superseded_session_lost_witness:
  "fst (handleMidtransNotification demo_pay_env (demo_notice ''settlement'') (snd (store_session demo_pay_env ''o1'' demo_session demo_waiting))) = NoticeIgnored"
proof -
  let ?s1 = "snd (store_session demo_pay_env ''o1'' demo_session demo_waiting)"
  obtain r s' where r: "handleMidtransNotification demo_pay_env (demo_notice ''settlement'') ?s1 = (r, s')" by force
  have o1: "pm_order demo_payment = ''o1''" by (simp add: demo_payment_def)
  have "r = NoticeIgnored \<and> map_option pm_status (payment_of (pm_order demo_payment) s') = Some ''pending'' \<and> fl_orders (ps_fleet s') = fl_orders (ps_fleet demo_waiting)"
    by (rule superseded_session_lost [where old = "''S1''" and x = demo_session and ?s1.0 = ?s1 and n = "demo_notice ''settlement''" and env = demo_pay_env])
      (use r demo_signed in \<open>simp_all add: demo_waiting_parts o1\<close>, simp_all add: demo_payment_def demo_session_def demo_notice_def)
  then show ?thesis using r by simp
qed

definition demo_settled :: pay_store where
  "demo_settled = snd (handleMidtransNotification demo_pay_env (demo_notice ''settlement'') demo_waiting)"

lemma demo_settled_parts:
  "ps_payments demo_settled = [demo_payment\<lparr>pm_status := ''paid'', pm_paid := Some 0\<rparr>]"
  "fl_orders (ps_fleet demo_settled) = [unpaid_order\<lparr>od_status := ''offered''\<rparr>]"
  "fl_paid (ps_fleet demo_settled) = [''o1'']"
  by code_simp+

theorem late_failure_unpays_witness:
  "fl_paid (ps_fleet demo_settled) = [''o1''] \<and> ''o1'' \<notin> set (fl_paid (ps_fleet (snd (handleMidtransNotification (demo_pay_env\<lparr>pe_audit_id := ''a2''\<rparr>) (demo_notice ''expire'') demo_settled))))"
proof -
  let ?env = "demo_pay_env\<lparr>pe_audit_id := ''a2''\<rparr>"
  let ?p = "demo_payment\<lparr>pm_status := ''paid'', pm_paid := Some 0\<rparr>" and ?o = "unpaid_order\<lparr>od_status := ''offered''\<rparr>"
  have inv: "pay_inv demo_settled" unfolding demo_settled_def
    by (rule pay_reachable_inv [OF pay_reach_step [OF demo_waiting_reachable pay_step.Notify]])
  have "case fst (handleMidtransNotification ?env (demo_notice ''expire'') demo_settled) of NoticeDone _ \<Rightarrow> True | _ \<Rightarrow> False" by code_simp
  then obtain ns s' where r: "handleMidtransNotification ?env (demo_notice ''expire'') demo_settled = (NoticeDone ns, s')"
    by (cases "handleMidtransNotification ?env (demo_notice ''expire'') demo_settled") (auto split: notice_reply.splits)
  have "map_option pm_status (payment_of (pm_order ?p) s') = Some ''expired'' \<and> od_id ?o \<notin> set (fl_paid (ps_fleet s')) \<and> ?o \<in> set (fl_orders (ps_fleet s'))"
    by (rule late_failure_unpays [OF inv _ _ _ _ _ _ _ _ r, where reference = "''S1''"])
      (simp_all add: demo_settled_parts, simp_all add: demo_payment_def unpaid_order_def demo_order_def demo_notice_def)
  then show ?thesis using r demo_settled_parts(3) by (simp add: unpaid_order_def demo_order_def)
qed

theorem confirm_trusts_provider_witness:
  "ps_payments (snd (confirmCustomerOrderPayment demo_pay_env (Some ''u1'') ''o1'' demo_waiting)) = [demo_payment]"
proof -
  have "\<not> pe_manual demo_pay_env" by (simp add: demo_pay_env_def)
  from confirm_trusts_provider [OF this prod.collapse [symmetric], of "Some ''u1''" "''o1''" demo_waiting]
  show ?thesis using demo_waiting_parts by simp
qed

end
