(* ===== verification/Requests.thy ===== *)
theory Requests
  imports JsonText
begin

text \<open>
  How the controllers read the fields of a request: ids, codes and integers.
\<close>

definition uuid_char :: "char \<Rightarrow> char \<Rightarrow> bool" where
  "uuid_char p c =
     (if p = CHR ''-'' then c = CHR ''-''
      else if p = CHR ''1'' then c \<in> set ''12345''
      else if p = CHR ''8'' then lower_char c \<in> set ''89ab''
      else lower_char c \<in> set ''0123456789abcdef'')"

definition uuidLike :: "string \<Rightarrow> bool" where
  "uuidLike s = list_all2 uuid_char ''xxxxxxxx-xxxx-1xxx-8xxx-xxxxxxxxxxxx'' s"

text \<open>\<open>/^[a-z0-9][a-z0-9_-]{1,n}$/\<close>.\<close>

definition slug_char :: "char \<Rightarrow> bool" where
  "slug_char c \<longleftrightarrow> c \<in> set ''abcdefghijklmnopqrstuvwxyz0123456789''"

definition slug_ok :: "nat \<Rightarrow> string \<Rightarrow> bool" where
  "slug_ok n t =
     (case t of [] \<Rightarrow> False
      | c # cs \<Rightarrow> slug_char c \<and> cs \<noteq> [] \<and> length cs \<le> n \<and> list_all (\<lambda>x. slug_char x \<or> x = CHR ''_'' \<or> x = CHR ''-'') cs)"

definition max_safe :: int where
  "max_safe = 9007199254740991"

text \<open>\<open>Number.isSafeInteger\<close>, with the integer.\<close>

definition safe_integer :: "jsnum \<Rightarrow> int option" where
  "safe_integer n = (case n of Fin x \<Rightarrow> (let i = \<lfloor>x\<rfloor> in if of_int i = x \<and> \<bar>i\<bar> \<le> max_safe then Some i else None) | _ \<Rightarrow> None)"

text \<open>\<open>/^[A-Z]{3}$/\<close>.\<close>

definition currency_ok :: "string \<Rightarrow> bool" where
  "currency_ok t \<longleftrightarrow> length t = 3 \<and> list_all (\<lambda>c. c \<in> set ''ABCDEFGHIJKLMNOPQRSTUVWXYZ'') t"

end
