(* ===== verification/Loyalty.thy ===== *)
theory Loyalty
  imports Requests
begin

text \<open>
  Loyalty points (\<open>controllers/loyalty.controller.ts\<close>): the order service reports what an order earns, redeems or reverses, and finance
  adjusts an account.

  \<open>loyalty_store\<close> holds the two tables, and what is read of orders, their payments and refunds.
  An id is kept in lower case, as the database prints it, and looked up in any spelling.  Fields of a request are texts, or JSON values
  where the code applies \<open>Number\<close>; reasons and metadata, which nothing reads back, are left out.
\<close>

section \<open>Tables\<close>

datatype entry_kind = Earn | Redeem | Expire | Reverse | Adjustment

record loyalty_account =
  la_id :: uuid
  la_owner :: uuid
  la_market :: string
  la_points :: int

record loyalty_entry =
  ly_account :: uuid
  ly_kind :: entry_kind
  ly_points :: int
  ly_source_type :: string
  ly_source :: string
  ly_key :: string
  ly_liability :: "int option"

text \<open>An order with the status of its payment, what was refunded of it, and the subsidy of its promotions.\<close>

record loyalty_order =
  lo_id :: uuid
  lo_customer :: uuid
  lo_status :: string
  lo_payment :: "string option"
  lo_refunded :: int
  lo_subsidy :: int

record loyalty_store =
  ls_accounts :: "loyalty_account list"
  ls_entries :: "loyalty_entry list"
  ls_orders :: "loyalty_order list"

record loyalty_env =
  lv_loyalty_key :: "string option"
  lv_api_key :: "string option"
  lv_account_id :: uuid

section \<open>Reading a request\<close>

definition internalKeyMatches :: "loyalty_env \<Rightarrow> string option \<Rightarrow> bool" where
  "internalKeyMatches env given =
     (let expected = js_trim (str_or (lv_loyalty_key env) (str_or (lv_api_key env) [])); provided = js_trim (str_or given []) in
      expected \<noteq> [] \<and> provided \<noteq> [] \<and> expected = provided)"

definition event_kind :: "string \<Rightarrow> entry_kind option" where
  "event_kind t =
     (if t = ''EARN'' then Some Earn else if t = ''REDEEM'' then Some Redeem else if t = ''EXPIRE'' then Some Expire
      else if t = ''REVERSE'' then Some Reverse else None)"

definition kind_text :: "entry_kind \<Rightarrow> string" where
  "kind_text k =
     (case k of Earn \<Rightarrow> ''EARN'' | Redeem \<Rightarrow> ''REDEEM'' | Expire \<Rightarrow> ''EXPIRE'' | Reverse \<Rightarrow> ''REVERSE'' | Adjustment \<Rightarrow> ''ADJUSTMENT'')"

record loyalty_event =
  ve_owner :: "string option"
  ve_market :: "string option"
  ve_order :: "string option"
  ve_type :: "string option"
  ve_points :: "json option"
  ve_liability :: "json option"

text \<open>A liability that is absent or null is none; one that is not a safe integer of at least zero is refused.\<close>

definition read_liability :: "json option \<Rightarrow> int option option" where
  "read_liability v =
     (if v = None \<or> v = Some JNull then Some None
      else case safe_integer (json_number v) of None \<Rightarrow> None | Some n \<Rightarrow> if n < 0 then None else Some (Some n))"

text \<open>The event that is booked; \<open>None\<close> for an invalid request.\<close>

record read_event =
  re_owner :: string
  re_market :: string
  re_order :: string
  re_kind :: entry_kind
  re_points :: int
  re_liability :: "int option"

definition readLoyaltyEvent :: "loyalty_event \<Rightarrow> read_event option" where
  "readLoyaltyEvent v =
     (let owner = js_trim (str_or (ve_owner v) []); market = toLowerCase (js_trim (str_or (ve_market v) []));
          i = js_trim (str_or (ve_order v) []) in
      if \<not> uuidLike owner \<or> \<not> uuidLike i \<or> market = [] then None
      else case (event_kind (toUpperCase (js_trim (str_or (ve_type v) []))), safe_integer (json_number (ve_points v)), read_liability (ve_liability v)) of
        (Some k, Some p, Some l) \<Rightarrow>
          if p \<le> 0 then None
          else Some \<lparr>re_owner = owner, re_market = market, re_order = i, re_kind = k, re_points = p, re_liability = l\<rparr>
      | _ \<Rightarrow> None)"

section \<open>Events of orders\<close>

datatype loyalty_reply = LoyaltyRefused nat string | LoyaltyDone bool loyalty_account

definition account_of :: "uuid \<Rightarrow> loyalty_store \<Rightarrow> loyalty_account option" where
  "account_of i s = find (\<lambda>a. la_id a = i) (ls_accounts s)"

definition loyalty_order_of :: "string \<Rightarrow> loyalty_store \<Rightarrow> loyalty_order option" where
  "loyalty_order_of i s = find (\<lambda>x. lo_id x = toLowerCase i) (ls_orders s)"

definition qualifying_status :: "string \<Rightarrow> bool" where
  "qualifying_status st \<longleftrightarrow> st \<in> {''delivered'', ''completed'', ''pod_completed''}"

definition reversible_status :: "string \<Rightarrow> bool" where
  "reversible_status st \<longleftrightarrow> st \<in> {''cancelled'', ''refunded'', ''refund_completed'', ''payment_refunded''}"

definition event_refusal :: "loyalty_order option \<Rightarrow> string \<Rightarrow> entry_kind \<Rightarrow> loyalty_reply option" where
  "event_refusal row owner k =
     (case row of None \<Rightarrow> Some (LoyaltyRefused 404 ''ERR_LOYALTY_ORDER_NOT_FOUND'')
      | Some x \<Rightarrow>
          (let st = toLowerCase (js_trim (lo_status x)) in
           if lo_customer x \<noteq> owner then Some (LoyaltyRefused 403 ''ERR_LOYALTY_ORDER_OWNER_MISMATCH'')
           else if k = Earn \<and> \<not> qualifying_status st then Some (LoyaltyRefused 409 ''ERR_LOYALTY_ORDER_NOT_QUALIFYING'')
           else if k = Reverse \<and> \<not> reversible_status st then Some (LoyaltyRefused 409 ''ERR_LOYALTY_ORDER_NOT_REVERSIBLE'')
           else None))"

text \<open>The account of an owner in a market, made when there is none; \<open>None\<close> when the market code does not fit its column.\<close>

definition ensure_account :: "loyalty_env \<Rightarrow> uuid \<Rightarrow> string \<Rightarrow> loyalty_store \<Rightarrow> (loyalty_account \<times> loyalty_store) option" where
  "ensure_account env owner market s =
     (case find (\<lambda>a. la_owner a = owner \<and> la_market a = market) (ls_accounts s) of
        Some a \<Rightarrow> Some (a, s)
      | None \<Rightarrow>
          (let a = \<lparr>la_id = lv_account_id env, la_owner = owner, la_market = market, la_points = 0\<rparr> in
           if length market > 32 \<or> account_of (la_id a) s \<noteq> None then None else Some (a, s\<lparr>ls_accounts := ls_accounts s @ [a]\<rparr>)))"

text \<open>The points of an entry on its account; \<open>None\<close> when the balance leaves what its column admits.\<close>

definition book_entry :: "loyalty_entry \<Rightarrow> loyalty_account \<Rightarrow> loyalty_store \<Rightarrow> (loyalty_account \<times> loyalty_store) option" where
  "book_entry e a s =
     (let n = la_points a + ly_points e; a' = a\<lparr>la_points := n\<rparr> in
      if n < 0 \<or> n \<ge> 2 ^ 63 then None
      else Some (a', s\<lparr>ls_accounts := map (\<lambda>x. if la_id x = la_id a then x\<lparr>la_points := la_points x + ly_points e\<rparr> else x) (ls_accounts s),
        ls_entries := ls_entries s @ [e]\<rparr>))"

definition event_key :: "string \<Rightarrow> entry_kind \<Rightarrow> string" where
  "event_key i k = ''loyalty:order:'' @ i @ '':'' @ kind_text k"

definition event_entry :: "read_event \<Rightarrow> loyalty_account \<Rightarrow> loyalty_entry" where
  "event_entry r a =
     \<lparr>ly_account = la_id a, ly_kind = re_kind r, ly_points = (if re_kind r = Earn then re_points r else - re_points r),
      ly_source_type = ''ORDER'', ly_source = re_order r, ly_key = event_key (re_order r) (re_kind r), ly_liability = re_liability r\<rparr>"

definition book_event :: "loyalty_env \<Rightarrow> read_event \<Rightarrow> loyalty_store \<Rightarrow> loyalty_reply \<times> loyalty_store" where
  "book_event env r s =
     (case event_refusal (loyalty_order_of (re_order r) s) (re_owner r) (re_kind r) of
        Some refusal \<Rightarrow> (refusal, s)
      | None \<Rightarrow> (case ensure_account env (re_owner r) (re_market r) s of
          None \<Rightarrow> (LoyaltyRefused 500 ''ERR_LOYALTY_EVENT_UNAVAILABLE'', s)
        | Some (a, s1) \<Rightarrow>
            (let e = event_entry r a in
             case find (\<lambda>x. ly_key x = ly_key e) (ls_entries s) of
               Some x \<Rightarrow> if ly_account x = la_id a then (LoyaltyDone True a, s) else (LoyaltyRefused 409 ''ERR_LOYALTY_IDEMPOTENCY_REUSE'', s)
             | None \<Rightarrow>
                 if la_points a + ly_points e < 0 then (LoyaltyRefused 409 ''ERR_LOYALTY_INSUFFICIENT_POINTS'', s)
                 else (case book_entry e a s1 of
                     None \<Rightarrow> (LoyaltyRefused 500 ''ERR_LOYALTY_EVENT_UNAVAILABLE'', s)
                   | Some (a', s2) \<Rightarrow> (LoyaltyDone False a', s2)))))"

definition applyLoyaltyOrderEvent :: "loyalty_env \<Rightarrow> string option \<Rightarrow> loyalty_event \<Rightarrow> loyalty_store \<Rightarrow> loyalty_reply \<times> loyalty_store" where
  "applyLoyaltyOrderEvent env given v s =
     (if \<not> internalKeyMatches env given then (LoyaltyRefused 401 ''ERR_INTERNAL_UNAUTHORIZED'', s)
      else case readLoyaltyEvent v of
        None \<Rightarrow> (LoyaltyRefused 400 ''ERR_INVALID_LOYALTY_EVENT'', s)
      | Some r \<Rightarrow> book_event env r s)"

section \<open>Adjustments\<close>

record adjustment =
  ad_account :: string
  ad_points :: "json option"
  ad_reason :: "string option"
  ad_key :: "string option"
  ad_actor :: uuid

definition adjustment_key :: "string \<Rightarrow> string" where
  "adjustment_key k = ''loyalty:manual:'' @ k"

text \<open>The points and the key of a valid adjustment.\<close>

definition readAdjustment :: "adjustment \<Rightarrow> (int \<times> string) option" where
  "readAdjustment d =
     (let reason = take 500 (js_trim (str_or (ad_reason d) [])); k = take 120 (js_trim (str_or (ad_key d) [])) in
      case safe_integer (json_number (ad_points d)) of None \<Rightarrow> None
      | Some p \<Rightarrow> if \<not> uuidLike (js_trim (ad_account d)) \<or> p = 0 \<or> length reason < 8 \<or> k = [] then None else Some (p, k))"

definition adjustLoyaltyAccount :: "adjustment \<Rightarrow> loyalty_store \<Rightarrow> loyalty_reply \<times> loyalty_store" where
  "adjustLoyaltyAccount d s =
     (case readAdjustment d of None \<Rightarrow> (LoyaltyRefused 400 ''ERR_INVALID_LOYALTY_ADJUSTMENT'', s)
      | Some (p, k) \<Rightarrow> (case account_of (toLowerCase (js_trim (ad_account d))) s of
          None \<Rightarrow> (LoyaltyRefused 404 ''ERR_LOYALTY_ACCOUNT_NOT_FOUND'', s)
        | Some a \<Rightarrow>
            if la_points a + p < 0 then (LoyaltyRefused 409 ''ERR_LOYALTY_INSUFFICIENT_POINTS'', s)
            else if list_ex (\<lambda>x. ly_key x = adjustment_key k) (ls_entries s) then (LoyaltyDone True a, s)
            else (case book_entry \<lparr>ly_account = la_id a, ly_kind = Adjustment, ly_points = p, ly_source_type = ''ADMIN'',
                ly_source = ad_actor d, ly_key = adjustment_key k, ly_liability = None\<rparr> a s of
                None \<Rightarrow> (LoyaltyRefused 500 ''ERR_LOYALTY_ADJUSTMENT_UNAVAILABLE'', s)
              | Some (a', s') \<Rightarrow> (LoyaltyDone False a', s'))))"

section \<open>The books\<close>

text \<open>Account ids, owners with markets, and keys are unique; every balance is the sum of its entries.\<close>

definition entries_of :: "uuid \<Rightarrow> loyalty_entry list \<Rightarrow> loyalty_entry list" where
  "entries_of i es = filter (\<lambda>e. ly_account e = i) es"

definition ledger_points :: "uuid \<Rightarrow> loyalty_entry list \<Rightarrow> int" where
  "ledger_points i es = (\<Sum>e \<leftarrow> entries_of i es. ly_points e)"

definition loyalty_inv :: "loyalty_store \<Rightarrow> bool" where
  "loyalty_inv s \<longleftrightarrow> distinct (map la_id (ls_accounts s)) \<and> distinct (map (\<lambda>a. (la_owner a, la_market a)) (ls_accounts s))
     \<and> distinct (map ly_key (ls_entries s)) \<and> ly_account ` set (ls_entries s) \<subseteq> la_id ` set (ls_accounts s)
     \<and> (\<forall>a \<in> set (ls_accounts s). 0 \<le> la_points a \<and> la_points a = ledger_points (la_id a) (ls_entries s))"

lemma ledger_points_snoc [simp]: "ledger_points i (es @ [e]) = ledger_points i es + (if ly_account e = i then ly_points e else 0)"
  by (simp add: ledger_points_def entries_of_def)

lemma ledger_points_none: "i \<notin> ly_account ` set es \<Longrightarrow> ledger_points i es = 0"
  by (induction es) (auto simp: ledger_points_def entries_of_def)

lemma account_of_mem: "account_of i s = Some a \<Longrightarrow> a \<in> set (ls_accounts s) \<and> la_id a = i"
  by (auto simp: account_of_def find_Some_iff)

lemma account_of_None: "account_of i s = None \<longleftrightarrow> i \<notin> la_id ` set (ls_accounts s)"
  by (auto simp: account_of_def find_None_iff)

lemma account_of_unique: "distinct (map la_id (ls_accounts s)) \<Longrightarrow> a \<in> set (ls_accounts s) \<Longrightarrow> account_of (la_id a) s = Some a"
proof -
  assume d: "distinct (map la_id (ls_accounts s))" and a: "a \<in> set (ls_accounts s)"
  then obtain b where b: "account_of (la_id a) s = Some b" using account_of_None by (cases "account_of (la_id a) s") auto
  then show ?thesis using account_of_mem [OF b] d a by (auto simp: distinct_map inj_on_def)
qed

lemma ensure_account_inv:
  assumes inv: "loyalty_inv s" and run: "ensure_account env owner market s = Some (a, s1)"
  shows "loyalty_inv s1 \<and> a \<in> set (ls_accounts s1) \<and> ls_entries s1 = ls_entries s \<and> ls_orders s1 = ls_orders s
    \<and> la_owner a = owner \<and> la_market a = market \<and> (s1 = s \<or> la_points a = 0)"
proof (cases "find (\<lambda>a. la_owner a = owner \<and> la_market a = market) (ls_accounts s)")
  case (Some b)
  then have "b \<in> set (ls_accounts s)" "la_owner b = owner" "la_market b = market" by (auto simp: find_Some_iff)
  moreover have "a = b" "s1 = s" using run Some by (simp_all add: ensure_account_def)
  ultimately show ?thesis using inv by simp
next
  case None
  then have new: "(owner, market) \<notin> (\<lambda>a. (la_owner a, la_market a)) ` set (ls_accounts s)" by (auto simp: find_None_iff)
  let ?a = "\<lparr>la_id = lv_account_id env, la_owner = owner, la_market = market, la_points = 0\<rparr>"
  have a: "a = ?a" "s1 = s\<lparr>ls_accounts := ls_accounts s @ [?a]\<rparr>" "lv_account_id env \<notin> la_id ` set (ls_accounts s)"
    using run None by (auto simp: ensure_account_def Let_def account_of_None split: if_splits)
  then have "ledger_points (lv_account_id env) (ls_entries s) = 0" using inv by (intro ledger_points_none) (auto simp: loyalty_inv_def)
  then show ?thesis using inv a new by (auto simp: loyalty_inv_def)
qed

lemma ensure_account_self: "loyalty_inv s \<Longrightarrow> a \<in> set (ls_accounts s) \<Longrightarrow> ensure_account env (la_owner a) (la_market a) s = Some (a, s)"
proof -
  assume inv: "loyalty_inv s" and a: "a \<in> set (ls_accounts s)"
  then obtain b where b: "find (\<lambda>x. la_owner x = la_owner a \<and> la_market x = la_market a) (ls_accounts s) = Some b"
    by (cases "find (\<lambda>x. la_owner x = la_owner a \<and> la_market x = la_market a) (ls_accounts s)") (auto simp: find_None_iff)
  then have "b \<in> set (ls_accounts s)" "la_owner b = la_owner a" "la_market b = la_market a" by (auto simp: find_Some_iff)
  then have "b = a" using distinct_map_eq [of "\<lambda>a. (la_owner a, la_market a)" "ls_accounts s" b a] inv a by (simp add: loyalty_inv_def)
  then show ?thesis using b by (simp add: ensure_account_def)
qed

lemma book_entry_inv:
  assumes inv: "loyalty_inv s" and a: "a \<in> set (ls_accounts s)" and e: "ly_account e = la_id a" "ly_key e \<notin> ly_key ` set (ls_entries s)"
    and run: "book_entry e a s = Some (a', s')"
  shows "loyalty_inv s' \<and> ls_entries s' = ls_entries s @ [e] \<and> ls_orders s' = ls_orders s \<and> a' = a\<lparr>la_points := la_points a + ly_points e\<rparr>
    \<and> a' \<in> set (ls_accounts s') \<and> (\<forall>x \<in> set (ls_accounts s). la_id x \<noteq> la_id a \<longrightarrow> x \<in> set (ls_accounts s'))"
proof -
  define f where "f = (\<lambda>x :: loyalty_account. if la_id x = la_id a then x\<lparr>la_points := la_points x + ly_points e\<rparr> else x)"
  have s': "ls_accounts s' = map f (ls_accounts s)" "ls_entries s' = ls_entries s @ [e]" "ls_orders s' = ls_orders s"
    and a': "a' = a\<lparr>la_points := la_points a + ly_points e\<rparr>" and pos: "0 \<le> la_points a + ly_points e"
    using run by (auto simp: book_entry_def f_def Let_def split: if_splits)
  have f [simp]: "la_id (f x) = la_id x" "la_owner (f x) = la_owner x" "la_market (f x) = la_market x" for x by (simp_all add: f_def)
  have fa: "f a = a'" by (simp add: f_def a')
  have other: "la_id x \<noteq> la_id a \<Longrightarrow> f x = x" for x by (simp add: f_def)
  have ids: "map la_id (ls_accounts s') = map la_id (ls_accounts s)"
    "map (\<lambda>a. (la_owner a, la_market a)) (ls_accounts s') = map (\<lambda>a. (la_owner a, la_market a)) (ls_accounts s)"
    by (simp_all add: s')
  have same: "x = a" if "x \<in> set (ls_accounts s)" "la_id x = la_id a" for x
    using distinct_map_eq [of la_id "ls_accounts s" x a] inv a that by (simp add: loyalty_inv_def)
  have bal: "0 \<le> la_points x \<and> la_points x = ledger_points (la_id x) (ls_entries s')" if x: "x \<in> set (ls_accounts s')" for x
  proof -
    obtain y where y: "y \<in> set (ls_accounts s)" "x = f y" using x by (auto simp: s')
    then have b: "0 \<le> la_points y" "la_points y = ledger_points (la_id y) (ls_entries s)" using inv by (auto simp: loyalty_inv_def)
    show ?thesis
    proof (cases "la_id y = la_id a")
      case True
      then have "y = a" using same y(1) by blast
      then have "x = a'" "la_points a = ledger_points (la_id a) (ls_entries s)" using y(2) fa b(2) by simp_all
      then show ?thesis using pos e(1) by (simp add: s' a')
    next
      case False
      then show ?thesis using other y b e(1) by (simp add: s')
    qed
  qed
  have "la_id ` set (ls_accounts s') = la_id ` set (ls_accounts s)" using ids(1) by (metis list.set_map)
  then have sub: "ly_account ` set (ls_entries s') \<subseteq> la_id ` set (ls_accounts s')" using inv e(1) a by (simp add: loyalty_inv_def s'(2))
  have "distinct (map ly_key (ls_entries s'))" "distinct (map la_id (ls_accounts s'))" "distinct (map (\<lambda>a. (la_owner a, la_market a)) (ls_accounts s'))"
    using inv e(2) ids by (simp_all add: loyalty_inv_def s'(2))
  then have "loyalty_inv s'" using bal sub unfolding loyalty_inv_def by blast
  moreover have "a' \<in> set (ls_accounts s')" using a fa by (force simp: s')
  moreover have "\<forall>x \<in> set (ls_accounts s). la_id x \<noteq> la_id a \<longrightarrow> x \<in> set (ls_accounts s')" using other by (force simp: s')
  ultimately show ?thesis using s' a' by simp
qed

section \<open>What every operation keeps\<close>

text \<open>A request books at most one entry, on its own account; the ledger is append-only.\<close>

definition books :: "loyalty_store \<Rightarrow> loyalty_store \<Rightarrow> bool" where
  "books s s' \<longleftrightarrow> s' = s \<or> (ls_orders s' = ls_orders s \<and> (\<exists>e a'. ls_entries s' = ls_entries s @ [e] \<and> ly_key e \<notin> ly_key ` set (ls_entries s)
     \<and> a' \<in> set (ls_accounts s') \<and> la_id a' = ly_account e \<and> (\<forall>x \<in> set (ls_accounts s). la_id x \<noteq> ly_account e \<longrightarrow> x \<in> set (ls_accounts s'))))"

lemma book_event_cases:
  assumes run: "book_event env r s = (reply, s')"
  obtains (refused) k m where "reply = LoyaltyRefused k m" "s' = s"
  | (replayed) a s1 x where "ensure_account env (re_owner r) (re_market r) s = Some (a, s1)" "find (\<lambda>x. ly_key x = event_key (re_order r) (re_kind r)) (ls_entries s) = Some x"
      "ly_account x = la_id a" "reply = LoyaltyDone True a" "s' = s"
  | (booked) a s1 a' where "event_refusal (loyalty_order_of (re_order r) s) (re_owner r) (re_kind r) = None"
      "ensure_account env (re_owner r) (re_market r) s = Some (a, s1)" "event_key (re_order r) (re_kind r) \<notin> ly_key ` set (ls_entries s)"
      "book_entry (event_entry r a) a s1 = Some (a', s')" "reply = LoyaltyDone False a'"
proof (cases "event_refusal (loyalty_order_of (re_order r) s) (re_owner r) (re_kind r)")
  case (Some q)
  then have "s' = s" "reply = q" using run by (simp_all add: book_event_def)
  moreover have "\<exists>k m. q = LoyaltyRefused k m" using Some by (auto simp: event_refusal_def Let_def split: option.splits if_splits)
  ultimately show ?thesis using refused by blast
next
  case None
  note ok = None
  show ?thesis
  proof (cases "ensure_account env (re_owner r) (re_market r) s")
    case None
    then have "reply = LoyaltyRefused 500 ''ERR_LOYALTY_EVENT_UNAVAILABLE''" "s' = s" using run ok by (simp_all add: book_event_def)
    then show ?thesis by (rule refused)
  next
    case (Some p)
    obtain a s1 where p: "p = (a, s1)" by (cases p)
    let ?k = "event_key (re_order r) (re_kind r)"
    have k: "ly_key (event_entry r a) = ?k" by (simp add: event_entry_def)
    show ?thesis
    proof (cases "find (\<lambda>x. ly_key x = ?k) (ls_entries s)")
      case (Some x)
      then show ?thesis
        using run ok \<open>ensure_account _ _ _ _ = Some p\<close> p k replayed [of a s1 x] refused by (auto simp: book_event_def Let_def split: if_splits)
    next
      case None
      then have new: "?k \<notin> ly_key ` set (ls_entries s)" by (auto simp: find_None_iff)
      show ?thesis
        using run ok \<open>ensure_account _ _ _ _ = Some p\<close> p k None new booked [of a s1] refused
        by (auto simp: book_event_def Let_def split: if_splits option.splits)
    qed
  qed
qed

lemma event_entry_account [simp]: "ly_account (event_entry r a) = la_id a" "ly_key (event_entry r a) = event_key (re_order r) (re_kind r)"
  by (simp_all add: event_entry_def)

lemma booked_books:
  assumes inv: "loyalty_inv s" and a: "ensure_account env owner market s = Some (a, s1)" and e: "ly_account e = la_id a" "ly_key e \<notin> ly_key ` set (ls_entries s)"
    and run: "book_entry e a s1 = Some (a', s')"
  shows "loyalty_inv s' \<and> books s s' \<and> a' = a\<lparr>la_points := la_points a + ly_points e\<rparr> \<and> a' \<in> set (ls_accounts s') \<and> ls_entries s' = ls_entries s @ [e]"
proof -
  note i = ensure_account_inv [OF inv a]
  have inv1: "loyalty_inv s1" and m: "a \<in> set (ls_accounts s1)" and k: "ly_key e \<notin> ly_key ` set (ls_entries s1)" using i e by auto
  note b = book_entry_inv [OF inv1 m e(1) k run]
  have sub: "set (ls_accounts s) \<subseteq> set (ls_accounts s1)" using a by (auto simp: ensure_account_def Let_def split: option.splits if_splits)
  have "ls_entries s' = ls_entries s @ [e]" "ls_orders s' = ls_orders s" "la_id a' = ly_account e" using b i e(1) by auto
  moreover have "\<forall>x \<in> set (ls_accounts s). la_id x \<noteq> ly_account e \<longrightarrow> x \<in> set (ls_accounts s')" using b sub e(1) by auto
  ultimately have "books s s'" using b e(2) unfolding books_def by blast
  then show ?thesis using b i by auto
qed

lemma books_refl [simp]: "books s s"
  by (simp add: books_def)

lemma book_event_inv:
  assumes inv: "loyalty_inv s" and run: "book_event env r s = (reply, s')"
  shows "loyalty_inv s' \<and> books s s'"
  using run
proof (cases rule: book_event_cases)
  case (booked a s1 a')
  then show ?thesis using booked_books [OF inv booked(2) _ _ booked(4)] by simp
qed (use inv in simp_all)

lemma order_event_cases:
  assumes "applyLoyaltyOrderEvent env given v s = (reply, s')"
  obtains k m where "reply = LoyaltyRefused k m" "s' = s"
  | r where "internalKeyMatches env given" "readLoyaltyEvent v = Some r" "book_event env r s = (reply, s')"
  using assms by (auto simp: applyLoyaltyOrderEvent_def split: if_splits option.splits)

lemma order_event_inv:
  assumes inv: "loyalty_inv s" and run: "applyLoyaltyOrderEvent env given v s = (reply, s')"
  shows "loyalty_inv s' \<and> books s s'"
  using run
proof (cases rule: order_event_cases)
  case 1
  then show ?thesis using inv by simp
next
  case (2 r)
  then show ?thesis using book_event_inv [OF inv] by blast
qed

lemma adjust_inv:
  assumes inv: "loyalty_inv s" and run: "adjustLoyaltyAccount d s = (reply, s')"
  shows "loyalty_inv s' \<and> books s s'"
proof (cases "s' = s")
  case True
  then show ?thesis using inv by (simp add: books_def)
next
  case False
  then obtain p k a a' where a: "account_of (toLowerCase (js_trim (ad_account d))) s = Some a" "\<not> list_ex (\<lambda>x. ly_key x = adjustment_key k) (ls_entries s)"
    "book_entry \<lparr>ly_account = la_id a, ly_kind = Adjustment, ly_points = p, ly_source_type = ''ADMIN'', ly_source = ad_actor d,
       ly_key = adjustment_key k, ly_liability = None\<rparr> a s = Some (a', s')"
    using run by (auto simp: adjustLoyaltyAccount_def split: option.splits if_splits prod.splits)
  have new: "adjustment_key k \<notin> ly_key ` set (ls_entries s)" using a(2) by (auto simp: list_ex_iff)
  have "ensure_account undefined (la_owner a) (la_market a) s = Some (a, s)"
    using ensure_account_self [OF inv conjunct1 [OF account_of_mem [OF a(1)]]] .
  from booked_books [OF inv this _ _ a(3)] show ?thesis using new by simp
qed

text \<open>The contract of an operation on the books, and what follows for sequences of its requests.\<close>

locale ledger_operation =
  fixes op :: "'q \<Rightarrow> loyalty_store \<Rightarrow> 'a \<times> loyalty_store"
  assumes keeps: "loyalty_inv s \<Longrightarrow> op q s = (r, s') \<Longrightarrow> loyalty_inv s' \<and> books s s'"
begin

lemma serve_keeps: "loyalty_inv s \<Longrightarrow> loyalty_inv (fold (\<lambda>q s. snd (op q s)) qs s)"
proof (induction qs arbitrary: s)
  case (Cons q qs)
  then show ?case using keeps [of s q "fst (op q s)" "snd (op q s)"] by simp
qed simp

lemma appends: "loyalty_inv s \<Longrightarrow> op q s = (r, s') \<Longrightarrow> \<exists>es. ls_entries s' = ls_entries s @ es"
  using keeps [of s q r s'] by (auto simp: books_def)

lemma others_kept:
  "loyalty_inv s \<Longrightarrow> op q s = (r, s') \<Longrightarrow> ls_entries s' = ls_entries s @ [e] \<Longrightarrow> x \<in> set (ls_accounts s) \<Longrightarrow> la_id x \<noteq> ly_account e \<Longrightarrow> x \<in> set (ls_accounts s')"
  using keeps [of s q r s'] by (auto simp: books_def)

end

interpretation ordered: ledger_operation "\<lambda>(env, given, v). applyLoyaltyOrderEvent env given v"
  by unfold_locales (simp add: order_event_inv split: prod.splits)

interpretation adjusted: ledger_operation adjustLoyaltyAccount
  by unfold_locales (rule adjust_inv)

section \<open>Reachable books\<close>

inductive loyalty_step :: "loyalty_store \<Rightarrow> loyalty_store \<Rightarrow> bool" where
  Event: "loyalty_step s (snd (applyLoyaltyOrderEvent env given v s))"
| Adjust: "loyalty_step s (snd (adjustLoyaltyAccount d s))"
| Orders: "loyalty_step s (s\<lparr>ls_orders := xs\<rparr>)"

definition loyalty_reachable :: "loyalty_store \<Rightarrow> bool" where
  "loyalty_reachable s \<longleftrightarrow> (\<exists>xs. loyalty_step\<^sup>*\<^sup>* \<lparr>ls_accounts = [], ls_entries = [], ls_orders = xs\<rparr> s)"

lemma loyalty_step_inv: "loyalty_step s s' \<Longrightarrow> loyalty_inv s \<Longrightarrow> loyalty_inv s' \<and> (\<exists>es. ls_entries s' = ls_entries s @ es)"
proof (induction rule: loyalty_step.induct)
  case (Event s env given v)
  then show ?case using ordered.keeps [of s "(env, given, v)"] ordered.appends [of s "(env, given, v)"] by (simp add: prod_eq_iff)
next
  case (Adjust s d)
  then show ?case using adjusted.keeps [of s d] adjusted.appends [of s d] by (simp add: prod_eq_iff)
next
  case (Orders s xs)
  have "loyalty_inv (s\<lparr>ls_orders := xs\<rparr>) = loyalty_inv s" by (simp add: loyalty_inv_def)
  then show ?case using Orders by simp
qed

lemma loyalty_steps_inv: "loyalty_step\<^sup>*\<^sup>* s s' \<Longrightarrow> loyalty_inv s \<Longrightarrow> loyalty_inv s' \<and> (\<exists>es. ls_entries s' = ls_entries s @ es)"
proof (induction rule: rtranclp_induct)
  case (step y z)
  then show ?case using loyalty_step_inv [of y z] by auto
qed simp

lemma loyalty_reachable_inv: "loyalty_reachable s \<Longrightarrow> loyalty_inv s"
proof -
  assume "loyalty_reachable s"
  then obtain xs where "loyalty_step\<^sup>*\<^sup>* \<lparr>ls_accounts = [], ls_entries = [], ls_orders = xs\<rparr> s" by (auto simp: loyalty_reachable_def)
  moreover have "loyalty_inv \<lparr>ls_accounts = [], ls_entries = [], ls_orders = xs\<rparr>" by (simp add: loyalty_inv_def)
  ultimately show ?thesis using loyalty_steps_inv by blast
qed

end
