(* ===== verification/CrmAccounting.thy ===== *)
theory CrmAccounting
  imports Loyalty
begin

text \<open>
  Referrals (\<open>controllers/referral.controller.ts\<close>, \<open>evaluateReferralAbuse\<close> of \<open>services/crmPolicy.ts\<close>), reservations of campaign
  budgets, and the three reconciliations of \<open>services/crmAccounting.service.ts\<close>: loyalty accounts against their ledger, referral
  liabilities against the ledger, reservations against the subsidies of orders.  A mismatch is an exception for finance; nothing is
  repaired.  A market is the one of the body or else of the header.  The signals of shared devices, payment methods and addresses are arguments.
\<close>

section \<open>Tables\<close>

record crm_user =
  cu_id :: uuid
  cu_role :: string
  cu_code :: "string option"

record referral_policy =
  rp_market :: string
  rp_version :: string
  rp_points :: int
  rp_liability :: int
  rp_active :: bool
  rp_from :: instant
  rp_to :: "instant option"

record attribution =
  at_id :: uuid
  at_referrer :: uuid
  at_referred :: uuid
  at_code :: string
  at_market :: string
  at_status :: string
  at_points :: int
  at_liability :: int

record referral_risk =
  rk_entity :: uuid
  rk_decision :: string
  rk_score :: int
  rk_reasons :: "string list"
  rk_key :: string
  rk_review :: bool

record crm_campaign =
  cc_id :: uuid
  cc_state :: string

record reservation =
  rv_id :: uuid
  rv_campaign :: uuid
  rv_order :: uuid
  rv_customer :: uuid
  rv_amount :: int
  rv_funding :: json
  rv_state :: string
  rv_key :: string
  rv_settlement :: "string option"

record recon_exception =
  rx_type :: string
  rx_source :: string
  rx_expected :: int
  rx_actual :: int
  rx_difference :: int
  rx_state :: string

record crm_store =
  cs_users :: "crm_user list"
  cs_policies :: "referral_policy list"
  cs_legacy_referred :: "uuid list"
  cs_attributions :: "attribution list"
  cs_risks :: "referral_risk list"
  cs_campaigns :: "crm_campaign list"
  cs_reservations :: "reservation list"
  cs_loyalty :: loyalty_store
  cs_exceptions :: "recon_exception list"

section \<open>Referrals\<close>

record abuse_signals =
  ab_self :: bool
  ab_devices :: int
  ab_payments :: int
  ab_addresses :: int
  ab_prior :: bool

definition evaluateReferralAbuse :: "abuse_signals \<Rightarrow> string list" where
  "evaluateReferralAbuse g =
     (if ab_self g then [''self_referral''] else []) @ (if ab_devices g > 0 then [''shared_device''] else [])
     @ (if ab_payments g > 0 then [''shared_payment_instrument''] else []) @ (if ab_addresses g > 0 then [''shared_address''] else [])
     @ (if ab_prior g then [''prior_rejected_attribution''] else [])"

definition abuse_status :: "string list \<Rightarrow> string" where
  "abuse_status reasons = (if reasons = [] then ''PENDING'' else ''REVIEW'')"

record crm_env =
  ce_now :: instant
  ce_id :: uuid
  ce_shared :: "uuid \<Rightarrow> uuid \<Rightarrow> int \<times> int \<times> int"

definition current_policy :: "instant \<Rightarrow> string \<Rightarrow> crm_store \<Rightarrow> referral_policy option" where
  "current_policy now market s =
     (case sort_key (\<lambda>p. - rp_from p)
        (filter (\<lambda>p. rp_market p = market \<and> rp_active p \<and> rp_from p \<le> now \<and> (case rp_to p of None \<Rightarrow> True | Some t \<Rightarrow> t > now)) (cs_policies s)) of
        [] \<Rightarrow> None | p # _ \<Rightarrow> Some p)"

definition abuse_of :: "crm_env \<Rightarrow> uuid \<Rightarrow> uuid \<Rightarrow> crm_store \<Rightarrow> abuse_signals" where
  "abuse_of env referrer user s =
     (case ce_shared env referrer user of (d, p, a) \<Rightarrow>
       \<lparr>ab_self = False, ab_devices = d, ab_payments = p, ab_addresses = a,
        ab_prior = list_ex (\<lambda>x. (at_referrer x = referrer \<or> at_referred x = user) \<and> at_status x \<in> {''REJECTED'', ''REVERSED''}) (cs_attributions s)\<rparr>)"

definition risk_row :: "uuid \<Rightarrow> uuid \<Rightarrow> string list \<Rightarrow> referral_risk" where
  "risk_row attribution_id user reasons =
     \<lparr>rk_entity = attribution_id, rk_decision = (if reasons = [] then ''ALLOW'' else ''REVIEW''), rk_score = min (int (length reasons) * 45) 100,
      rk_reasons = map (\<lambda>r. ''referral.'' @ r) reasons, rk_key = ''crm-referral-apply:'' @ user, rk_review = (reasons \<noteq> [])\<rparr>"

datatype referral_reply = ReferralRefused nat string | ReferralDone string "string list"

definition record_attribution :: "crm_env \<Rightarrow> uuid \<Rightarrow> uuid \<Rightarrow> string \<Rightarrow> string \<Rightarrow> referral_policy \<Rightarrow> crm_store \<Rightarrow> referral_reply \<times> crm_store" where
  "record_attribution env referrer user code market p s =
     (let reasons = evaluateReferralAbuse (abuse_of env referrer user s); st = abuse_status reasons;
          a = \<lparr>at_id = ce_id env, at_referrer = referrer, at_referred = user, at_code = code, at_market = market, at_status = st,
            at_points = rp_points p, at_liability = rp_liability p\<rparr>;
          risk = risk_row (ce_id env) user reasons in
      if list_ex (\<lambda>x. at_id x = ce_id env) (cs_attributions s) then (ReferralRefused 409 ''ERR_REFERRAL_ALREADY_APPLIED'', s)
      else (ReferralDone st reasons, s\<lparr>cs_attributions := cs_attributions s @ [a],
        cs_risks := (if list_ex (\<lambda>x. rk_key x = rk_key risk) (cs_risks s) then cs_risks s else cs_risks s @ [risk])\<rparr>))"

definition applyReferralCode :: "crm_env \<Rightarrow> uuid \<Rightarrow> string option \<Rightarrow> string option \<Rightarrow> crm_store \<Rightarrow> referral_reply \<times> crm_store" where
  "applyReferralCode env user raw_code raw_market s =
     (let code = toUpperCase (js_trim (str_or raw_code [])); market = toLowerCase (js_trim (str_or raw_market [])) in
      if code = [] then (ReferralRefused 400 ''code required'', s)
      else if \<not> slug_ok 31 market then (ReferralRefused 400 ''ERR_REFERRAL_MARKET_REQUIRED'', s)
      else case find (\<lambda>u. cu_code u = Some code \<and> cu_id u \<noteq> user \<and> cu_role u = ''customer'') (cs_users s) of
        None \<Rightarrow> (ReferralRefused 404 ''code unknown'', s)
      | Some u \<Rightarrow> (case current_policy (ce_now env) market s of
          None \<Rightarrow> (ReferralRefused 503 ''ERR_REFERRAL_POLICY_UNAVAILABLE'', s)
        | Some p \<Rightarrow>
            if list_ex (\<lambda>x. at_referred x = user) (cs_attributions s) \<or> user \<in> set (cs_legacy_referred s)
            then (ReferralRefused 409 ''already used'', s)
            else record_attribution env (cu_id u) user code market p s))"

section \<open>Reservations of campaigns\<close>

definition FUNDING_SOURCES :: "string list" where
  "FUNDING_SOURCES = [''platform'', ''merchant'', ''membership'', ''referral'']"

text \<open>The amount of one source; a missing or null field is 0, and \<open>None\<close> stands for an invalid one.\<close>

definition funding_amount :: "json \<Rightarrow> string \<Rightarrow> int option" where
  "funding_amount src k =
     (case json_field k src of None \<Rightarrow> Some 0 | Some JNull \<Rightarrow> Some 0
      | Some v \<Rightarrow> (case safe_integer (json_number (Some v)) of None \<Rightarrow> None | Some n \<Rightarrow> if n < 0 then None else Some n))"

definition funding_value :: "json \<Rightarrow> string \<Rightarrow> int" where
  "funding_value src k = (case funding_amount src k of None \<Rightarrow> 0 | Some n \<Rightarrow> n)"

definition funding_total :: "json \<Rightarrow> int" where
  "funding_total src = (\<Sum>k \<leftarrow> FUNDING_SOURCES. funding_value src k)"

definition funding_errors :: "json \<Rightarrow> int \<Rightarrow> string list" where
  "funding_errors src amount =
     map (\<lambda>k. ''funding_'' @ k @ ''_invalid'') (filter (\<lambda>k. funding_amount src k = None) FUNDING_SOURCES)
     @ (if amount < 0 \<or> amount > max_safe then [''amount_minor_invalid''] else [])
     @ (if funding_total src \<noteq> amount then [''funding_total_must_equal_amount''] else [])"

definition normalized_funding :: "json \<Rightarrow> json" where
  "normalized_funding src =
     JObj (map (\<lambda>k. (k, JNum (show_int (funding_value src k)))) FUNDING_SOURCES @ [(''total'', JNum (show_int (funding_total src)))])"

definition validateReservationFunding :: "json \<Rightarrow> int \<Rightarrow> string list \<times> json" where
  "validateReservationFunding src amount = (funding_errors src amount, normalized_funding src)"

definition resolveReservationState :: "string \<Rightarrow> int \<Rightarrow> string" where
  "resolveReservationState order_status subsidy =
     (let st = toLowerCase (js_trim order_status) in
      if st \<in> {''cancelled'', ''canceled'', ''expired''} then (if subsidy > 0 then ''REVERSED'' else ''RELEASED'')
      else if st \<in> {''refunded'', ''refund_completed'', ''payment_refunded''} then ''REVERSED''
      else if st \<in> {''delivered'', ''completed'', ''pod_completed''} then ''CONSUMED''
      else ''RESERVED'')"

record reservation_view =
  vw_id :: uuid
  vw_amount :: int
  vw_funding :: json
  vw_duplicate :: bool

definition crm_order :: "uuid \<Rightarrow> crm_store \<Rightarrow> loyalty_order option" where
  "crm_order i s = find (\<lambda>x. lo_id x = i) (ls_orders (cs_loyalty s))"

definition reservation_for :: "uuid \<Rightarrow> uuid \<Rightarrow> crm_store \<Rightarrow> reservation option" where
  "reservation_for campaign i s = find (\<lambda>r. rv_campaign r = campaign \<and> rv_order r = i) (cs_reservations s)"

text \<open>The insertion: nothing when the campaign has a reservation of the order, and an error when the key is taken.\<close>

definition put_reservation :: "reservation \<Rightarrow> crm_store \<Rightarrow> (reservation \<times> bool \<times> crm_store) option" where
  "put_reservation r s =
     (case reservation_for (rv_campaign r) (rv_order r) s of
        Some x \<Rightarrow> Some (x, True, s)
      | None \<Rightarrow>
          if length (rv_key r) > 180 \<or> list_ex (\<lambda>x. rv_key x = rv_key r \<or> rv_id x = rv_id r) (cs_reservations s) then None
          else Some (r, False, s\<lparr>cs_reservations := cs_reservations s @ [r]\<rparr>))"

definition reserveCrmCampaignReservation :: "crm_env \<Rightarrow> uuid \<Rightarrow> uuid \<Rightarrow> json \<Rightarrow> string \<Rightarrow> crm_store \<Rightarrow> (nat + reservation_view) \<times> crm_store" where
  "reserveCrmCampaignReservation env campaign i split key s =
     (case find (\<lambda>c. cc_id c = campaign) (cs_campaigns s) of None \<Rightarrow> (Inl 404, s)
      | Some c \<Rightarrow>
          if toUpperCase (cc_state c) \<noteq> ''ACTIVE'' then (Inl 409, s)
          else case crm_order i s of None \<Rightarrow> (Inl 404, s)
          | Some x \<Rightarrow>
              (case validateReservationFunding split (lo_subsidy x) of (errors, funding) \<Rightarrow>
                if errors \<noteq> [] then (Inl 400, s)
                else case put_reservation \<lparr>rv_id = ce_id env, rv_campaign = campaign, rv_order = i, rv_customer = lo_customer x,
                    rv_amount = lo_subsidy x, rv_funding = funding, rv_state = ''RESERVED'', rv_key = key, rv_settlement = None\<rparr> s of
                  None \<Rightarrow> (Inl 500, s)
                | Some (r, dup, s') \<Rightarrow>
                    (Inr \<lparr>vw_id = rv_id r, vw_amount = lo_subsidy x, vw_funding = funding, vw_duplicate = dup\<rparr>, s')))"

section \<open>Reconciliation\<close>

text \<open>The upsert of an exception, and its resolution when nothing differs any more.\<close>

definition open_exception :: "string \<Rightarrow> string \<Rightarrow> int \<Rightarrow> int \<Rightarrow> recon_exception list \<Rightarrow> recon_exception list" where
  "open_exception kind src expected actual xs =
     (let mine = (\<lambda>x. rx_type x = kind \<and> rx_source x = src);
          new = \<lparr>rx_type = kind, rx_source = src, rx_expected = expected, rx_actual = actual, rx_difference = actual - expected, rx_state = ''OPEN''\<rparr>
      in if list_ex mine xs then map (\<lambda>x. if mine x then new else x) xs else xs @ [new])"

definition resolve_exception :: "string \<Rightarrow> string \<Rightarrow> recon_exception list \<Rightarrow> recon_exception list" where
  "resolve_exception kind src =
     map (\<lambda>x. if rx_type x = kind \<and> rx_source x = src \<and> rx_state x \<in> {''OPEN'', ''IN_REVIEW''} then x\<lparr>rx_state := ''RESOLVED''\<rparr> else x)"

definition settle_exception :: "bool \<Rightarrow> string \<Rightarrow> string \<Rightarrow> int \<Rightarrow> int \<Rightarrow> crm_store \<Rightarrow> crm_store" where
  "settle_exception found kind src expected actual s =
     s\<lparr>cs_exceptions := (if found then open_exception kind src expected actual else resolve_exception kind src) (cs_exceptions s)\<rparr>"

text \<open>The entries of one order on an account, and whether they contradict the order, its payment and its refunds.\<close>

definition source_has :: "entry_kind \<Rightarrow> string \<Rightarrow> loyalty_entry list \<Rightarrow> bool" where
  "source_has k src es = list_ex (\<lambda>e. ly_source e = src \<and> ly_kind e = k) es"

definition source_invalid :: "loyalty_store \<Rightarrow> loyalty_entry list \<Rightarrow> string \<Rightarrow> bool" where
  "source_invalid s es src =
     (let row = find (\<lambda>x. lo_id x = src) (ls_orders s);
          st = (case row of None \<Rightarrow> [] | Some x \<Rightarrow> toLowerCase (lo_status x));
          pay = (case row of None \<Rightarrow> [] | Some x \<Rightarrow> toLowerCase (str_or (lo_payment x) []));
          refunded = (case row of None \<Rightarrow> 0 | Some x \<Rightarrow> lo_refunded x);
          reversed = source_has Reverse src es
      in (source_has Earn src es \<and> (st \<notin> {''delivered'', ''completed'', ''pod_completed''} \<or> pay \<notin> {''paid'', ''settled''} \<or> (refunded > 0 \<and> \<not> reversed)))
       \<or> (source_has Redeem src es \<and> (st \<in> {''cancelled'', ''canceled'', ''failed'', ''payment_failed'', ''refunded'', ''refund_completed'', ''payment_refunded''}
            \<or> pay \<in> {''refunded'', ''cancelled'', ''failed''} \<or> refunded > 0) \<and> \<not> reversed)
       \<or> (reversed \<and> st \<notin> {''cancelled'', ''canceled'', ''refunded'', ''refund_completed'', ''payment_refunded''}
            \<and> pay \<notin> {''refunded'', ''cancelled''} \<and> refunded = 0))"

definition invalid_order_entries :: "loyalty_store \<Rightarrow> uuid \<Rightarrow> nat" where
  "invalid_order_entries s account =
     (let es = filter (\<lambda>e. ly_source_type e = ''ORDER'') (entries_of account (ls_entries s)) in
      length (filter (source_invalid s es) (remdups (map ly_source es))))"

record loyalty_recon =
  lc_account :: uuid
  lc_expected :: int
  lc_ledger :: int
  lc_difference :: int
  lc_invalid :: nat
  lc_exception :: bool

definition reconcileLoyaltyAccount :: "uuid \<Rightarrow> crm_store \<Rightarrow> (nat + loyalty_recon) \<times> crm_store" where
  "reconcileLoyaltyAccount account s =
     (case account_of account (cs_loyalty s) of None \<Rightarrow> (Inl 404, s)
      | Some a \<Rightarrow>
          (let ledger = ledger_points account (ls_entries (cs_loyalty s)); bad = invalid_order_entries (cs_loyalty s) account;
               found = ledger - la_points a \<noteq> 0 \<or> bad > 0
           in (Inr \<lparr>lc_account = account, lc_expected = la_points a, lc_ledger = ledger, lc_difference = ledger - la_points a,
                 lc_invalid = bad, lc_exception = found\<rparr>,
               settle_exception found ''LOYALTY_ACCOUNT'' account (la_points a) ledger s)))"

record referral_recon =
  rr_market :: string
  rr_expected :: int
  rr_ledger :: int
  rr_open :: nat
  rr_exception :: bool

definition referral_liability :: "string \<Rightarrow> crm_store \<Rightarrow> int" where
  "referral_liability market s =
     (\<Sum>a \<leftarrow> filter (\<lambda>a. at_market a = market \<and> at_status a \<in> {''PENDING'', ''QUALIFIED'', ''REWARDED'', ''REVIEW''}) (cs_attributions s). at_liability a)"

definition posted_liability :: "string \<Rightarrow> loyalty_store \<Rightarrow> int" where
  "posted_liability market s =
     (\<Sum>e \<leftarrow> filter (\<lambda>e. ly_source_type e = ''REFERRAL'' \<and> (case account_of (ly_account e) s of None \<Rightarrow> False | Some a \<Rightarrow> la_market a = market)) (ls_entries s).
       (case ly_liability e of None \<Rightarrow> 0 | Some n \<Rightarrow> n))"

definition reconcileReferralRewardBudget :: "string \<Rightarrow> crm_store \<Rightarrow> referral_recon \<times> crm_store" where
  "reconcileReferralRewardBudget raw_market s =
     (let market = toLowerCase (js_trim raw_market); expected = referral_liability market s; ledger = posted_liability market (cs_loyalty s);
          unfinished = length (filter (\<lambda>a. at_market a = market \<and> at_status a \<in> {''PENDING'', ''QUALIFIED'', ''REVIEW''}) (cs_attributions s))
      in (\<lparr>rr_market = market, rr_expected = expected, rr_ledger = ledger, rr_open = unfinished, rr_exception = (ledger \<noteq> expected)\<rparr>,
          settle_exception (ledger \<noteq> expected) ''REFERRAL_REWARD_BUDGET'' market expected ledger s))"

record reservation_recon =
  ro_expected :: int
  ro_actual :: int
  ro_errors :: "string list"
  ro_state :: string
  ro_exception :: bool

definition reconcileCrmCampaignReservation :: "uuid \<Rightarrow> string \<Rightarrow> crm_store \<Rightarrow> (nat + reservation_recon) \<times> crm_store" where
  "reconcileCrmCampaignReservation i settlement s =
     (case find (\<lambda>r. rv_id r = i) (cs_reservations s) of None \<Rightarrow> (Inl 404, s)
      | Some r \<Rightarrow> (case crm_order (rv_order r) s of None \<Rightarrow> (Inl 404, s)
        | Some x \<Rightarrow>
            (let errors = fst (validateReservationFunding (rv_funding r) (rv_amount r)); st = resolveReservationState (lo_status x) (lo_subsidy x);
                 found = lo_subsidy x - rv_amount r \<noteq> 0 \<or> errors \<noteq> [];
                 s1 = s\<lparr>cs_reservations := map (\<lambda>y. if rv_id y = i then y\<lparr>rv_state := st, rv_settlement := Some settlement\<rparr> else y) (cs_reservations s)\<rparr>
             in (Inr \<lparr>ro_expected = rv_amount r, ro_actual = lo_subsidy x, ro_errors = errors, ro_state = st, ro_exception = found\<rparr>,
                 settle_exception found ''CRM_CAMPAIGN_ORDER'' i (rv_amount r) (lo_subsidy x) s1))))"

end
