(* ===== verification/Membership.thy ===== *)
theory Membership
  imports Loyalty "HOL-Library.Product_Lexorder"
begin

text \<open>
  Memberships (\<open>controllers/loyalty.controller.ts\<close>, \<open>services/crmPolicy.ts\<close>): the payment service reports what became of a payment,
  which moves the entitlement of a customer between its states, and the order service asks whether a benefit applies.

  An entitlement carries the plan it was bought for.  Another service creates entitlements; one that is new waits for its payment.
  Ids are kept in lower case; times are milliseconds.
\<close>

section \<open>States\<close>

datatype membership_state = MPending | MActive | MGrace | MCancelled | MExpired | MRefunded

datatype payment_state = PSucceeded | PFailed | PRefunded | PCancelled

definition resolveMembershipPaymentTransition :: "membership_state \<Rightarrow> payment_state \<Rightarrow> membership_state" where
  "resolveMembershipPaymentTransition st p =
     (case p of PRefunded \<Rightarrow> MRefunded
      | PCancelled \<Rightarrow> MCancelled
      | PSucceeded \<Rightarrow> if st \<in> {MPending, MActive, MGrace} then MActive else st
      | PFailed \<Rightarrow> if st = MPending then MCancelled else if st = MActive then MGrace else if st = MGrace then MExpired else st)"

definition membershipStateAllowsBenefit :: "membership_state \<Rightarrow> instant \<Rightarrow> instant \<Rightarrow> bool" where
  "membershipStateAllowsBenefit st period_end now \<longleftrightarrow> (st = MActive \<or> st = MGrace) \<and> period_end > now"

section \<open>Tables\<close>

record entitlement =
  en_id :: uuid
  en_owner :: uuid
  en_market :: string
  en_benefits :: json
  en_state :: membership_state
  en_start :: instant
  en_end :: instant
  en_intent :: "string option"
  en_updated :: instant

record membership_event =
  mv_entitlement :: uuid
  mv_key :: string
  mv_payment :: payment_state
  mv_result :: membership_state
  mv_intent :: "string option"
  mv_provider :: "string option"

record member_store =
  ms_entitlements :: "entitlement list"
  ms_events :: "membership_event list"

definition entitlement_of :: "uuid \<Rightarrow> member_store \<Rightarrow> entitlement option" where
  "entitlement_of i s = find (\<lambda>x. en_id x = i) (ms_entitlements s)"

section \<open>Payments\<close>

record member_request =
  mq_entitlement :: string
  mq_key :: "string option"
  mq_state :: "string option"
  mq_intent :: "string option"
  mq_provider :: "string option"

definition payment_state_of :: "string \<Rightarrow> payment_state option" where
  "payment_state_of t =
     (if t = ''SUCCEEDED'' then Some PSucceeded else if t = ''FAILED'' then Some PFailed else if t = ''REFUNDED'' then Some PRefunded
      else if t = ''CANCELLED'' then Some PCancelled else None)"

text \<open>\<open>/^[A-Za-z0-9][A-Za-z0-9._:-]{2,179}$/\<close>, and what the database reads as an id.\<close>

definition request_key_ok :: "string \<Rightarrow> bool" where
  "request_key_ok k =
     (case k of [] \<Rightarrow> False
      | c # cs \<Rightarrow> slug_char (lower_char c) \<and> 2 \<le> length cs \<and> length cs \<le> 179
          \<and> list_all (\<lambda>x. slug_char (lower_char x) \<or> x \<in> set ''._:-'') cs)"

definition pg_uuid :: "string \<Rightarrow> bool" where
  "pg_uuid s = list_all2 uuid_char ''xxxxxxxx-xxxx-xxxx-xxxx-xxxxxxxxxxxx'' s"

text \<open>A request after validation: the key, the state, the intent and the provider reference, empty when absent.\<close>

definition readMembershipRequest :: "member_request \<Rightarrow> (uuid \<times> string \<times> payment_state \<times> string \<times> string) option" where
  "readMembershipRequest q =
     (let i = js_trim (mq_entitlement q); k = take 180 (js_trim (str_or (mq_key q) [])) in
      if \<not> uuidLike i \<or> \<not> request_key_ok k then None
      else case payment_state_of (toUpperCase (js_trim (str_or (mq_state q) []))) of None \<Rightarrow> None
        | Some p \<Rightarrow> Some (toLowerCase i, k, p, js_trim (str_or (mq_intent q) []), take 180 (js_trim (str_or (mq_provider q) []))))"

definition period_days :: int where
  "period_days = 2592000000"

text \<open>The update of the entitlement; its CASE expressions read the state before.\<close>

definition moved_entitlement :: "instant \<Rightarrow> payment_state \<Rightarrow> membership_state \<Rightarrow> entitlement \<Rightarrow> entitlement" where
  "moved_entitlement now p st x =
     x\<lparr>en_state := st,
       en_start := (if p = PSucceeded \<and> en_state x = MActive then en_start x
                    else if st = MActive \<and> en_state x \<noteq> MActive then now else en_start x),
       en_end := (if p = PSucceeded \<and> en_state x = MActive then max (en_end x) now + period_days
                  else if st = MActive \<and> en_state x \<noteq> MActive then now + period_days else en_end x),
       en_updated := now\<rparr>"

definition opt_text :: "string \<Rightarrow> string option" where
  "opt_text t = (if t = [] then None else Some t)"

definition membership_event_row :: "uuid \<Rightarrow> string \<Rightarrow> payment_state \<Rightarrow> string \<Rightarrow> string \<Rightarrow> entitlement \<Rightarrow> membership_event" where
  "membership_event_row i k p intent provider x =
     \<lparr>mv_entitlement = i, mv_key = k, mv_payment = p, mv_result = resolveMembershipPaymentTransition (en_state x) p,
      mv_intent = (if intent = [] then en_intent x else Some (toLowerCase intent)), mv_provider = opt_text provider\<rparr>"

text \<open>Whether a stored event is the one that is sent again.\<close>

definition replay_matches :: "membership_event \<Rightarrow> payment_state \<Rightarrow> string \<Rightarrow> string \<Rightarrow> entitlement \<Rightarrow> bool" where
  "replay_matches e p intent provider x \<longleftrightarrow>
     mv_payment e = p \<and> str_or (mv_intent e) [] = (if intent = [] then str_or (en_intent x) [] else intent)
     \<and> str_or (mv_provider e) [] = provider \<and> mv_result e = resolveMembershipPaymentTransition (en_state x) p"

datatype member_reply = MemberRefused nat string | MemberDone bool entitlement

definition book_membership :: "instant \<Rightarrow> uuid \<Rightarrow> string \<Rightarrow> payment_state \<Rightarrow> string \<Rightarrow> string \<Rightarrow> entitlement \<Rightarrow> member_store \<Rightarrow> member_reply \<times> member_store" where
  "book_membership now i k p intent provider x s =
     (case find (\<lambda>e. mv_key e = k) (ms_events s) of
        Some e \<Rightarrow>
          if replay_matches e p intent provider x then (MemberDone True x, s) else (MemberRefused 409 ''ERR_MEMBERSHIP_IDEMPOTENCY_REUSE'', s)
      | None \<Rightarrow>
          (let e = membership_event_row i k p intent provider x; x' = moved_entitlement now p (mv_result e) x in
           (MemberDone False x', s\<lparr>ms_entitlements := map (\<lambda>y. if en_id y = i then moved_entitlement now p (mv_result e) y else y) (ms_entitlements s),
             ms_events := ms_events s @ [e]\<rparr>)))"

definition applyMembershipPaymentEvent :: "loyalty_env \<Rightarrow> instant \<Rightarrow> string option \<Rightarrow> member_request \<Rightarrow> member_store \<Rightarrow> member_reply \<times> member_store" where
  "applyMembershipPaymentEvent env now given q s =
     (if \<not> internalKeyMatches env given then (MemberRefused 401 ''ERR_INTERNAL_UNAUTHORIZED'', s)
      else case readMembershipRequest q of None \<Rightarrow> (MemberRefused 400 ''ERR_INVALID_MEMBERSHIP_PAYMENT_EVENT'', s)
      | Some (i, k, p, intent, provider) \<Rightarrow> (case entitlement_of i s of
          None \<Rightarrow> (MemberRefused 404 ''ERR_MEMBERSHIP_ENTITLEMENT_NOT_FOUND'', s)
        | Some x \<Rightarrow>
            if str_or (en_intent x) [] \<noteq> [] \<and> intent \<noteq> [] \<and> en_intent x \<noteq> Some intent
            then (MemberRefused 409 ''ERR_MEMBERSHIP_PAYMENT_INTENT_MISMATCH'', s)
            else if intent \<noteq> [] \<and> \<not> pg_uuid intent then (MemberRefused 500 ''ERR_MEMBERSHIP_PAYMENT_EVENT_UNAVAILABLE'', s)
            else book_membership now i k p intent provider x s))"

section \<open>Benefits\<close>

record benefit_request =
  bq_owner :: "string option"
  bq_market :: "string option"
  bq_service :: "string option"
  bq_benefit :: "string option"

text \<open>The decision: why not, or the entitlement with its cap.\<close>

datatype benefit_reply = BenefitRefused nat string | BenefitNo string | BenefitYes uuid "int option"

definition configured_benefit :: "json \<Rightarrow> string \<Rightarrow> json" where
  "configured_benefit benefits code =
     (case json_field code benefits of
        Some (JObj kvs) \<Rightarrow> JObj kvs | Some (JArr vs) \<Rightarrow> JArr vs
      | v \<Rightarrow> JObj [(''enabled'', JBool (v = Some (JBool True)))])"

definition benefit_services :: "json \<Rightarrow> string list option" where
  "benefit_services b = (case json_field ''service_codes'' b of Some (JArr vs) \<Rightarrow> Some (map (\<lambda>v. toLowerCase (json_text v)) vs) | _ \<Rightarrow> None)"

definition benefit_decision :: "instant \<Rightarrow> string \<Rightarrow> string \<Rightarrow> entitlement \<Rightarrow> benefit_reply" where
  "benefit_decision now service code x =
     (let b = configured_benefit (en_benefits x) code; served = (case benefit_services b of None \<Rightarrow> True | Some ss \<Rightarrow> service \<in> set ss) in
      if \<not> membershipStateAllowsBenefit (en_state x) (en_end x) now then BenefitNo ''ENTITLEMENT_NOT_ACTIVE''
      else if \<not> served then BenefitNo ''SERVICE_NOT_ELIGIBLE''
      else if json_field ''enabled'' b = Some (JBool False) then BenefitNo ''BENEFIT_NOT_CONFIGURED''
      else BenefitYes (en_id x) (safe_integer (json_number (json_field ''cap_minor'' b))))"

text \<open>The entitlement that ends last, whatever its state.\<close>

definition latest_entitlement :: "uuid \<Rightarrow> string \<Rightarrow> member_store \<Rightarrow> entitlement option" where
  "latest_entitlement owner market s =
     (case sort_key (\<lambda>x. (- en_end x, - en_updated x)) (filter (\<lambda>x. en_owner x = owner \<and> en_market x = market) (ms_entitlements s)) of
        [] \<Rightarrow> None | x # _ \<Rightarrow> Some x)"

definition resolveMembershipBenefitEligibility :: "loyalty_env \<Rightarrow> instant \<Rightarrow> string option \<Rightarrow> benefit_request \<Rightarrow> member_store \<Rightarrow> benefit_reply" where
  "resolveMembershipBenefitEligibility env now given q s =
     (let owner = js_trim (str_or (bq_owner q) []); market = toLowerCase (js_trim (str_or (bq_market q) []));
          service = toLowerCase (js_trim (str_or (bq_service q) [])); code = toLowerCase (js_trim (str_or (bq_benefit q) ''free_delivery'')) in
      if \<not> internalKeyMatches env given then BenefitRefused 401 ''ERR_INTERNAL_UNAUTHORIZED''
      else if \<not> uuidLike owner \<or> \<not> slug_ok 31 market \<or> \<not> slug_ok 63 service \<or> \<not> slug_ok 63 code
        then BenefitRefused 400 ''ERR_INVALID_MEMBERSHIP_ELIGIBILITY_REQUEST''
      else case latest_entitlement (toLowerCase owner) market s of None \<Rightarrow> BenefitNo ''NO_ENTITLEMENT''
        | Some x \<Rightarrow> benefit_decision now service code x)"

section \<open>Reachable memberships\<close>

text \<open>
  Keys and ids are unique and periods end after they start; what is active or in its grace period has been paid, and what has a paid
  event is not waiting.
\<close>

definition was_paid :: "uuid \<Rightarrow> member_store \<Rightarrow> bool" where
  "was_paid i s \<longleftrightarrow> (\<exists>e \<in> set (ms_events s). mv_entitlement e = i \<and> mv_payment e = PSucceeded \<and> mv_result e = MActive)"

definition member_inv :: "member_store \<Rightarrow> bool" where
  "member_inv s \<longleftrightarrow> distinct (map en_id (ms_entitlements s)) \<and> distinct (map mv_key (ms_events s))
     \<and> (\<forall>x \<in> set (ms_entitlements s). en_start x < en_end x \<and> (en_state x \<in> {MActive, MGrace} \<longrightarrow> was_paid (en_id x) s))"

inductive member_step :: "member_store \<Rightarrow> member_store \<Rightarrow> bool" where
  Paid: "member_step s (snd (applyMembershipPaymentEvent env now given q s))"
| Bought: "entitlement_of (en_id x) s = None \<Longrightarrow> en_state x = MPending \<Longrightarrow> en_start x < en_end x
    \<Longrightarrow> member_step s (s\<lparr>ms_entitlements := ms_entitlements s @ [x]\<rparr>)"

definition member_reachable :: "member_store \<Rightarrow> bool" where
  "member_reachable s \<longleftrightarrow> member_step\<^sup>*\<^sup>* \<lparr>ms_entitlements = [], ms_events = []\<rparr> s"

lemma moved_simps [simp]:
  "en_id (moved_entitlement now p st x) = en_id x" "en_owner (moved_entitlement now p st x) = en_owner x"
  "en_state (moved_entitlement now p st x) = st" "en_intent (moved_entitlement now p st x) = en_intent x"
  by (simp_all add: moved_entitlement_def)

lemma moved_period: "en_start x < en_end x \<Longrightarrow> en_start (moved_entitlement now p st x) < en_end (moved_entitlement now p st x)"
  by (auto simp: moved_entitlement_def period_days_def)

text \<open>A transition leads to an active state only by a payment, or from one.\<close>

lemma transition_active:
  "resolveMembershipPaymentTransition st p \<in> {MActive, MGrace} \<Longrightarrow>
     st \<in> {MActive, MGrace} \<or> (p = PSucceeded \<and> resolveMembershipPaymentTransition st p = MActive)"
  by (cases p; cases st) (auto simp: resolveMembershipPaymentTransition_def)

lemma entitlement_mem: "entitlement_of i s = Some x \<Longrightarrow> x \<in> set (ms_entitlements s) \<and> en_id x = i"
  by (auto simp: entitlement_of_def find_Some_iff)

lemma payment_cases:
  assumes "applyMembershipPaymentEvent env now given q s = (r, s')"
  obtains (same) "s' = s" "\<forall>x. r \<noteq> MemberDone False x"
  | (moved) i k p intent provider x where "readMembershipRequest q = Some (i, k, p, intent, provider)" "entitlement_of i s = Some x"
      "find (\<lambda>e. mv_key e = k) (ms_events s) = None" "book_membership now i k p intent provider x s = (r, s')"
      "r = MemberDone False (moved_entitlement now p (resolveMembershipPaymentTransition (en_state x) p) x)"
  using assms
  by (auto simp: applyMembershipPaymentEvent_def book_membership_def membership_event_row_def Let_def split: if_splits option.splits prod.splits)

lemma was_paid_snoc: "ms_events s' = ms_events s @ [e] \<Longrightarrow> was_paid i s' \<longleftrightarrow> was_paid i s \<or> (mv_entitlement e = i \<and> mv_payment e = PSucceeded \<and> mv_result e = MActive)"
  by (auto simp: was_paid_def)

lemma membership_payment_inv:
  assumes inv: "member_inv s" and run: "applyMembershipPaymentEvent env now given q s = (r, s')"
  shows "member_inv s'"
  using run
proof (cases rule: payment_cases)
  case same
  then show ?thesis using inv by simp
next
  case (moved i k p intent provider x)
  let ?e = "membership_event_row i k p intent provider x" and ?st = "resolveMembershipPaymentTransition (en_state x) p"
  let ?f = "\<lambda>y. if en_id y = i then moved_entitlement now p ?st y else y"
  note x = entitlement_mem [OF moved(2)]
  have s': "ms_entitlements s' = map ?f (ms_entitlements s)" "ms_events s' = ms_events s @ [?e]"
    using moved(3,4) by (auto simp: book_membership_def membership_event_row_def Let_def)
  have e: "mv_key ?e = k" "mv_entitlement ?e = i" "mv_payment ?e = p" "mv_result ?e = ?st" by (simp_all add: membership_event_row_def)
  have "k \<notin> mv_key ` set (ms_events s)" using moved(3) by (auto simp: find_None_iff)
  then have keys: "distinct (map mv_key (ms_events s'))" using inv e by (simp add: s' member_inv_def)
  have "map en_id (ms_entitlements s') = map en_id (ms_entitlements s)" by (simp add: s')
  then have ids: "distinct (map en_id (ms_entitlements s'))" using inv by (simp add: member_inv_def)
  have "en_start y < en_end y \<and> (en_state y \<in> {MActive, MGrace} \<longrightarrow> was_paid (en_id y) s')" if y: "y \<in> set (ms_entitlements s')" for y
  proof -
    obtain z where z: "z \<in> set (ms_entitlements s)" "y = ?f z" using y by (auto simp: s'(1))
    have old: "en_start z < en_end z" "en_state z \<in> {MActive, MGrace} \<Longrightarrow> was_paid (en_id z) s" using inv z(1) by (auto simp: member_inv_def)
    show ?thesis
    proof (cases "en_id z = i")
      case True
      then have zx: "z = x" using distinct_map_eq [of en_id "ms_entitlements s" z x] inv z(1) x by (simp add: member_inv_def)
      have "was_paid i s'" if "?st \<in> {MActive, MGrace}"
        using transition_active [OF that] old(2) True zx e was_paid_snoc [OF s'(2), of i] by auto
      then show ?thesis using z(2) True old(1) moved_period by simp
    next
      case False
      then show ?thesis using z(2) old was_paid_snoc [OF s'(2), of "en_id z"] by simp
    qed
  qed
  then show ?thesis using keys ids unfolding member_inv_def by blast
qed

lemma member_step_inv: "member_step s s' \<Longrightarrow> member_inv s \<Longrightarrow> member_inv s'"
proof (induction rule: member_step.induct)
  case (Paid s env now given q)
  then show ?case using membership_payment_inv [OF _ prod.collapse [symmetric]] by blast
next
  case (Bought x s)
  then have "en_id x \<notin> en_id ` set (ms_entitlements s)" by (auto simp: entitlement_of_def find_None_iff)
  then show ?case using Bought by (auto simp: member_inv_def was_paid_def)
qed

lemma member_reachable_inv: "member_reachable s \<Longrightarrow> member_inv s"
proof -
  assume "member_reachable s"
  then have "member_step\<^sup>*\<^sup>* \<lparr>ms_entitlements = [], ms_events = []\<rparr> s" by (simp add: member_reachable_def)
  then show ?thesis by (induction rule: rtranclp_induct) (auto simp: member_inv_def dest: member_step_inv)
qed

end
