(* ===== verification/LoyaltyProperties.thy ===== *)
theory LoyaltyProperties
  imports CrmAccounting Membership
begin

text \<open>
  What holds of loyalty points, memberships, referrals and campaign reservations, with concrete runs.
\<close>

section \<open>Points\<close>

text \<open>
  C33.  Whatever events and adjustments arrived, the balance of an account is the sum of its ledger entries and not negative, so the
  reconciliation of the account never finds a difference.
\<close>

theorem points_balance_is_ledger:
  assumes reach: "loyalty_reachable s" and a: "a \<in> set (ls_accounts s)" and c: "cs_loyalty c = s"
  shows "0 \<le> la_points a \<and> la_points a = ledger_points (la_id a) (ls_entries s)
     \<and> (\<exists>rec. fst (reconcileLoyaltyAccount (la_id a) c) = Inr rec \<and> lc_difference rec = 0 \<and> lc_exception rec = (lc_invalid rec > 0))"
proof -
  have inv: "loyalty_inv s" using loyalty_reachable_inv [OF reach] .
  then have "account_of (la_id a) s = Some a" using account_of_unique a by (simp add: loyalty_inv_def)
  moreover have "la_points a = ledger_points (la_id a) (ls_entries s)" "0 \<le> la_points a" using inv a by (auto simp: loyalty_inv_def)
  ultimately show ?thesis by (simp add: reconcileLoyaltyAccount_def c Let_def)
qed

lemma key_taken_unchanged:
  assumes "event_key (re_order r) (re_kind r) \<in> ly_key ` set (ls_entries s)"
  shows "snd (book_event env r s) = s"
proof -
  obtain reply s' where run: "book_event env r s = (reply, s')" by force
  then have "s' = s" using assms by (cases rule: book_event_cases) auto
  then show ?thesis using run by simp
qed

lemma done_key_taken:
  assumes inv: "loyalty_inv s" and run: "book_event env r s = (LoyaltyDone dup a, s')"
  shows "event_key (re_order r) (re_kind r) \<in> ly_key ` set (ls_entries s')"
  using run
proof (cases rule: book_event_cases)
  case (replayed b s1 x)
  then have "x \<in> set (ls_entries s)" "ly_key x = event_key (re_order r) (re_kind r)" by (auto simp: find_Some_iff)
  then show ?thesis using replayed(5) by force
next
  case (booked b s1 a')
  then show ?thesis using booked_books [OF inv booked(2) _ _ booked(4)] by simp
qed simp

text \<open>
  An event that was answered as done is never booked again: sent again at any later time, in whatever state, it changes nothing.
\<close>

theorem order_event_once:
  assumes reach: "loyalty_reachable s" and run: "applyLoyaltyOrderEvent env given v s = (LoyaltyDone dup a, s')"
    and later: "loyalty_step\<^sup>*\<^sup>* s' t"
  shows "snd (applyLoyaltyOrderEvent env' given' v t) = t"
proof -
  note inv = loyalty_reachable_inv [OF reach]
  from run obtain r where r: "readLoyaltyEvent v = Some r" "book_event env r s = (LoyaltyDone dup a, s')" by (cases rule: order_event_cases) auto
  have "loyalty_inv s'" using book_event_inv [OF inv r(2)] by simp
  then obtain es where "ls_entries t = ls_entries s' @ es" using loyalty_steps_inv [OF later] by blast
  then have "event_key (re_order r) (re_kind r) \<in> ly_key ` set (ls_entries t)" using done_key_taken [OF inv r(2)] by auto
  from key_taken_unchanged [OF this] show ?thesis using r(1) by (simp add: applyLoyaltyOrderEvent_def)
qed

text \<open>
  An event that is booked belongs to an order of the owner in a status that allows it; an earning raises the balance by its points, every
  other event lowers it, also the reversal of a redemption.
\<close>

theorem event_moves_points:
  assumes reach: "loyalty_reachable s" and run: "applyLoyaltyOrderEvent env given v s = (LoyaltyDone False a, s')"
  shows "\<exists>r x. readLoyaltyEvent v = Some r \<and> loyalty_order_of (re_order r) s = Some x \<and> lo_customer x = re_owner r
     \<and> (re_kind r = Earn \<longrightarrow> qualifying_status (toLowerCase (js_trim (lo_status x))))
     \<and> (re_kind r = Reverse \<longrightarrow> reversible_status (toLowerCase (js_trim (lo_status x))))
     \<and> ledger_points (la_id a) (ls_entries s') = ledger_points (la_id a) (ls_entries s) + (if re_kind r = Earn then re_points r else - re_points r)
     \<and> la_points a = ledger_points (la_id a) (ls_entries s') \<and> 0 \<le> la_points a"
proof -
  note inv = loyalty_reachable_inv [OF reach]
  from run obtain r where r: "readLoyaltyEvent v = Some r" "book_event env r s = (LoyaltyDone False a, s')" by (cases rule: order_event_cases) auto
  from r(2) show ?thesis
  proof (cases rule: book_event_cases)
    case (booked b s1 a')
    note b = booked_books [OF inv booked(2) _ _ booked(4)]
    obtain x where x: "loyalty_order_of (re_order r) s = Some x" using booked(1) by (auto simp: event_refusal_def split: option.splits)
    have e: "ly_account (event_entry r b) = la_id a" "ly_points (event_entry r b) = (if re_kind r = Earn then re_points r else - re_points r)"
      using b booked by (auto simp: event_entry_def)
    have inv': "loyalty_inv s'" "a \<in> set (ls_accounts s')" "ls_entries s' = ls_entries s @ [event_entry r b]" using b booked by auto
    then have "la_points a = ledger_points (la_id a) (ls_entries s') \<and> 0 \<le> la_points a" unfolding loyalty_inv_def by blast
    moreover have "ledger_points (la_id a) (ls_entries s') = ledger_points (la_id a) (ls_entries s) + ly_points (event_entry r b)"
      unfolding inv'(3) using e(1) by simp
    moreover have "lo_customer x = re_owner r" "re_kind r = Earn \<Longrightarrow> qualifying_status (toLowerCase (js_trim (lo_status x)))"
      "re_kind r = Reverse \<Longrightarrow> reversible_status (toLowerCase (js_trim (lo_status x)))"
      using booked(1) x by (auto simp: event_refusal_def Let_def split: if_splits)
    ultimately show ?thesis using r(1) x e(2) by auto
  qed simp_all
qed

lemma books_no_referral:
  "loyalty_step s s' \<Longrightarrow> \<forall>e \<in> set (ls_entries s). ly_source_type e \<noteq> ''REFERRAL'' \<Longrightarrow> \<forall>e \<in> set (ls_entries s'). ly_source_type e \<noteq> ''REFERRAL''"
proof (induction rule: loyalty_step.induct)
  case (Event s env given v)
  obtain reply s' where run: "applyLoyaltyOrderEvent env given v s = (reply, s')" by force
  then have "ls_entries s' = ls_entries s \<or> (\<exists>r a. ls_entries s' = ls_entries s @ [event_entry r a])"
  proof (cases rule: order_event_cases)
    case (2 r)
    from 2(3) show ?thesis
    proof (cases rule: book_event_cases)
      case (booked a s1 a')
      then have "ls_entries s' = ls_entries s1 @ [event_entry r a]" "ls_entries s1 = ls_entries s"
        by (auto simp: book_entry_def ensure_account_def Let_def split: if_splits option.splits)
      then show ?thesis by auto
    qed simp_all
  qed simp
  then show ?case using Event run by (auto simp: event_entry_def)
next
  case (Adjust s d)
  then show ?case by (auto simp: adjustLoyaltyAccount_def book_entry_def Let_def split: option.splits if_splits prod.splits)
next
  case (Orders s xs)
  then show ?case by simp
qed

text \<open>Nothing posts a referral to the ledger, so the budget check finds a difference for every market with a liability.\<close>

theorem referral_budget_never_posted:
  assumes reach: "loyalty_reachable (cs_loyalty c)" and due: "referral_liability (toLowerCase (js_trim market)) c > 0"
  shows "rr_ledger (fst (reconcileReferralRewardBudget market c)) = 0 \<and> rr_exception (fst (reconcileReferralRewardBudget market c))"
proof -
  obtain xs where "loyalty_step\<^sup>*\<^sup>* \<lparr>ls_accounts = [], ls_entries = [], ls_orders = xs\<rparr> (cs_loyalty c)" using reach by (auto simp: loyalty_reachable_def)
  then have "\<forall>e \<in> set (ls_entries (cs_loyalty c)). ly_source_type e \<noteq> ''REFERRAL''"
    by (induction rule: rtranclp_induct) (simp, blast dest: books_no_referral)
  then have "filter (\<lambda>e. ly_source_type e = ''REFERRAL'' \<and> P e) (ls_entries (cs_loyalty c)) = []" for P by (auto simp: filter_empty_conv)
  then have "posted_liability m (cs_loyalty c) = 0" for m by (simp add: posted_liability_def)
  then show ?thesis using due by (simp add: reconcileReferralRewardBudget_def Let_def)
qed

section \<open>Memberships\<close>

text \<open>C36.  A benefit is granted only for an entitlement of the customer that was paid and whose period has not ended.\<close>

theorem benefit_needs_payment:
  assumes reach: "member_reachable s" and run: "resolveMembershipBenefitEligibility env now given q s = BenefitYes i cap"
  shows "\<exists>x \<in> set (ms_entitlements s). en_id x = i \<and> en_owner x = toLowerCase (js_trim (str_or (bq_owner q) [])) \<and> en_state x \<in> {MActive, MGrace}
     \<and> now < en_end x \<and> was_paid i s"
proof -
  let ?o = "toLowerCase (js_trim (str_or (bq_owner q) []))" and ?m = "toLowerCase (js_trim (str_or (bq_market q) []))"
  obtain x where x: "latest_entitlement ?o ?m s = Some x" and d: "\<exists>sv code. benefit_decision now sv code x = BenefitYes i cap"
    using run by (auto simp: resolveMembershipBenefitEligibility_def Let_def split: if_splits option.splits)
  let ?rows = "filter (\<lambda>x. en_owner x = ?o \<and> en_market x = ?m) (ms_entitlements s)"
  obtain ys where ys: "sort_key (\<lambda>x. (- en_end x, - en_updated x)) ?rows = x # ys" using x by (auto simp: latest_entitlement_def split: list.splits)
  have "set (sort_key (\<lambda>x. (- en_end x, - en_updated x)) ?rows) = set ?rows" by (rule set_sort)
  then have mem: "x \<in> set (ms_entitlements s)" "en_owner x = ?o" unfolding ys by auto
  have st: "en_id x = i" "en_state x \<in> {MActive, MGrace}" "now < en_end x"
    using d by (auto simp: benefit_decision_def membershipStateAllowsBenefit_def Let_def split: if_splits)
  have "was_paid (en_id x) s" using member_reachable_inv [OF reach] mem(1) st(2) by (auto simp: member_inv_def)
  then show ?thesis using mem st by blast
qed

text \<open>An entitlement that is cancelled, expired or refunded stays one of these, whatever payments are reported afterwards.\<close>

theorem ended_membership_stays:
  assumes reach: "member_reachable s" and x: "x \<in> set (ms_entitlements s)" "en_state x \<in> {MCancelled, MExpired, MRefunded}"
    and later: "member_step\<^sup>*\<^sup>* s t"
  shows "\<exists>y \<in> set (ms_entitlements t). en_id y = en_id x \<and> en_state y \<in> {MCancelled, MExpired, MRefunded}"
  using later
proof (induction rule: rtranclp_induct)
  case base
  then show ?case using x by blast
next
  case (step t u)
  then obtain y where y: "y \<in> set (ms_entitlements t)" "en_id y = en_id x" "en_state y \<in> {MCancelled, MExpired, MRefunded}" by blast
  have inv: "member_inv t"
    using member_reachable_inv reach step(1) by (auto simp: member_reachable_def intro: rtranclp_trans)
  from step(2) show ?case
  proof cases
    case (Paid env now given q)
    obtain r t' where run: "applyMembershipPaymentEvent env now given q t = (r, t')" by force
    then show ?thesis
    proof (cases rule: payment_cases)
      case same
      then show ?thesis using y Paid run by auto
    next
      case (moved i k p intent provider z)
      let ?st = "resolveMembershipPaymentTransition (en_state z) p"
      have t': "ms_entitlements t' = map (\<lambda>y. if en_id y = i then moved_entitlement now p ?st y else y) (ms_entitlements t)"
        using moved(3,4) by (auto simp: book_membership_def membership_event_row_def Let_def)
      show ?thesis
      proof (cases "en_id y = i")
        case True
        then have "y = z" using distinct_map_eq [of en_id "ms_entitlements t" y z] inv y(1) entitlement_mem [OF moved(2)] by (simp add: member_inv_def)
        then have "?st \<in> {MCancelled, MExpired, MRefunded}" using y(3) by (cases p) (auto simp: resolveMembershipPaymentTransition_def)
        moreover have "moved_entitlement now p ?st y \<in> set (ms_entitlements t')" using y(1) True by (auto simp: t')
        ultimately show ?thesis using y(2) Paid run by (metis moved_simps(1,3) snd_conv)
      next
        case False
        then have "y \<in> set (ms_entitlements t')" using y(1) by (auto simp: t')
        then show ?thesis using y Paid run by auto
      qed
    qed
  next
    case (Bought z)
    then show ?thesis using y by auto
  qed
qed

text \<open>
  A failed payment of an active membership that is reported again is refused as a reused key, because the state it would lead to now is
  another one.
\<close>

theorem failed_replay_refused:
  assumes inv: "member_inv s" and x: "entitlement_of i s = Some x" "en_state x = MActive"
    and q: "readMembershipRequest q = Some (i, k, PFailed, intent, provider)"
    and run: "applyMembershipPaymentEvent env now given q s = (MemberDone False x', s')"
  shows "en_state x' = MGrace \<and> applyMembershipPaymentEvent env now' given q s' = (MemberRefused 409 ''ERR_MEMBERSHIP_IDEMPOTENCY_REUSE'', s')"
  using run
proof (cases rule: payment_cases)
  case same
  then show ?thesis by simp
next
  case (moved i' k' p intent' provider' z)
  then have eq: "i' = i" "k' = k" "p = PFailed" "intent' = intent" "provider' = provider" "z = x" using q x by auto
  let ?e = "membership_event_row i k PFailed intent provider x" and ?x = "moved_entitlement now PFailed MGrace x"
  have tr: "resolveMembershipPaymentTransition MActive PFailed = MGrace" "resolveMembershipPaymentTransition MGrace PFailed = MExpired"
    by (simp_all add: resolveMembershipPaymentTransition_def)
  have s': "s' = s\<lparr>ms_entitlements := map (\<lambda>y. if en_id y = i then moved_entitlement now PFailed MGrace y else y) (ms_entitlements s), ms_events := ms_events s @ [?e]\<rparr>"
    and x': "x' = ?x"
    using moved(3,4,5) eq x(2) tr by (auto simp: book_membership_def membership_event_row_def Let_def)
  have ids: "en_id x = i" "x \<in> set (ms_entitlements s)" using entitlement_mem [OF x(1)] by auto
  have ent: "entitlement_of i s' = Some ?x"
    using x(1) unfolding entitlement_of_def s' by (simp add: find_map_id ids)
  have found: "find (\<lambda>e. mv_key e = k) (ms_events s') = Some ?e"
    using moved(3) eq by (simp add: s' find_append_new membership_event_row_def)
  have key: "internalKeyMatches env given" "\<not> (str_or (en_intent x) [] \<noteq> [] \<and> intent \<noteq> [] \<and> en_intent x \<noteq> Some intent)" "intent \<noteq> [] \<Longrightarrow> pg_uuid intent"
    using run q x by (auto simp: applyMembershipPaymentEvent_def split: if_splits)
  have "\<not> replay_matches ?e PFailed intent provider ?x" using x(2) tr by (simp add: replay_matches_def membership_event_row_def)
  then have "applyMembershipPaymentEvent env now' given q s' = (MemberRefused 409 ''ERR_MEMBERSHIP_IDEMPOTENCY_REUSE'', s')"
    using key q ent found by (cases "intent = []") (simp_all add: applyMembershipPaymentEvent_def book_membership_def)
  then show ?thesis using x' by simp
qed

text \<open>
  A key that was used for another entitlement with the same payment answers as a replay: the payment is reported as applied, and the
  entitlement keeps waiting.
\<close>

theorem shared_key_loses_payment:
  assumes q: "internalKeyMatches env given" "readMembershipRequest q = Some (i, k, PSucceeded, [], provider)"
    and x: "entitlement_of i s = Some x" "en_state x = MPending" "en_intent x = None"
    and e: "find (\<lambda>e. mv_key e = k) (ms_events s) = Some e" "mv_entitlement e \<noteq> i" "mv_payment e = PSucceeded" "mv_result e = MActive"
      "mv_intent e = None" "str_or (mv_provider e) [] = provider"
  shows "applyMembershipPaymentEvent env now given q s = (MemberDone True x, s)"
proof -
  have "resolveMembershipPaymentTransition MPending PSucceeded = MActive" by (simp add: resolveMembershipPaymentTransition_def)
  then have "replay_matches e PSucceeded [] provider x" using x e by (simp add: replay_matches_def str_or_def)
  then show ?thesis using q x e(1) by (simp add: applyMembershipPaymentEvent_def book_membership_def str_or_def)
qed

section \<open>Referrals and reservations\<close>

definition referral_inv :: "crm_store \<Rightarrow> bool" where
  "referral_inv s \<longleftrightarrow> distinct (map at_referred (cs_attributions s)) \<and> (\<forall>a \<in> set (cs_attributions s). at_referrer a \<noteq> at_referred a)"

text \<open>
  A customer is referred at most once and never by the same customer; a code that is applied makes one attribution to a customer, and
  any sign of abuse sends it to review.
\<close>

theorem referral_once:
  assumes inv: "referral_inv s" and run: "applyReferralCode env user code market s = (r, s')"
  shows "referral_inv s' \<and> (cs_attributions s' = cs_attributions s \<or> (\<exists>a st reasons. cs_attributions s' = cs_attributions s @ [a] \<and> r = ReferralDone st reasons
     \<and> at_referred a = user \<and> at_status a = st \<and> (\<exists>u \<in> set (cs_users s). cu_id u = at_referrer a \<and> cu_role u = ''customer'')
     \<and> (st = ''PENDING'' \<longleftrightarrow> (case ce_shared env (at_referrer a) user of (d, p, l) \<Rightarrow> d \<le> 0 \<and> p \<le> 0 \<and> l \<le> 0)
        \<and> \<not> ab_prior (abuse_of env (at_referrer a) user s))))"
proof (cases "cs_attributions s' = cs_attributions s")
  case True
  then show ?thesis using inv by (simp add: referral_inv_def)
next
  case False
  then obtain u c m p where u: "find (\<lambda>u. cu_code u = Some c \<and> cu_id u \<noteq> user \<and> cu_role u = ''customer'') (cs_users s) = Some u"
    and new: "\<not> list_ex (\<lambda>x. at_referred x = user) (cs_attributions s)" and rec: "record_attribution env (cu_id u) user c m p s = (r, s')"
    using run by (auto simp: applyReferralCode_def Let_def split: if_splits option.splits)
  have um: "u \<in> set (cs_users s)" "cu_id u \<noteq> user" "cu_role u = ''customer''" using u by (auto simp: find_Some_iff)
  let ?reasons = "evaluateReferralAbuse (abuse_of env (cu_id u) user s)"
  let ?a = "\<lparr>at_id = ce_id env, at_referrer = cu_id u, at_referred = user, at_code = c, at_market = m, at_status = abuse_status ?reasons,
    at_points = rp_points p, at_liability = rp_liability p\<rparr>"
  have s': "cs_attributions s' = cs_attributions s @ [?a]" "r = ReferralDone (abuse_status ?reasons) ?reasons"
    using rec False by (auto simp: record_attribution_def Let_def split: if_splits)
  have "user \<notin> at_referred ` set (cs_attributions s)" using new by (auto simp: list_ex_iff)
  then have "referral_inv s'" using inv um(2) by (simp add: referral_inv_def s'(1))
  moreover have "abuse_status ?reasons = ''PENDING'' \<longleftrightarrow> (case ce_shared env (cu_id u) user of (d, p, l) \<Rightarrow> d \<le> 0 \<and> p \<le> 0 \<and> l \<le> 0)
      \<and> \<not> ab_prior (abuse_of env (cu_id u) user s)"
    by (auto simp: abuse_status_def evaluateReferralAbuse_def abuse_of_def not_less split: prod.splits)
  ultimately show ?thesis using s' um by (intro conjI disjI2 exI [of _ ?a]) auto
qed

lemma safe_of_int: "\<bar>n\<bar> \<le> max_safe \<Longrightarrow> safe_integer (Fin (of_int n)) = Some n"
  by (simp add: safe_integer_def)

lemma safe_integer_safe: "safe_integer v = Some n \<Longrightarrow> \<bar>n\<bar> \<le> max_safe"
  by (auto simp: safe_integer_def Let_def split: jsnum.splits if_splits)

lemma funding_amount_safe: "funding_amount src k = Some n \<Longrightarrow> 0 \<le> n \<and> n \<le> max_safe"
proof -
  assume r: "funding_amount src k = Some n"
  show ?thesis
  proof (cases "json_field k src = None \<or> json_field k src = Some JNull")
    case True
    then show ?thesis using r by (auto simp: funding_amount_def max_safe_def)
  next
    case False
    then obtain v where v: "json_field k src = Some v" "v \<noteq> JNull" by auto
    then have "safe_integer (json_number (Some v)) = Some n \<and> 0 \<le> n"
      using r unfolding funding_amount_def v(1) by (cases v) (simp_all split: option.splits if_splits)
    then show ?thesis using safe_integer_safe by fastforce
  qed
qed

lemma funding_value_safe: "0 \<le> funding_value src k \<and> funding_value src k \<le> max_safe"
  using funding_amount_safe [of src k] by (cases "funding_amount src k") (simp_all add: funding_value_def max_safe_def)

lemma funding_amount_stored:
  assumes "k \<in> set FUNDING_SOURCES"
  shows "funding_amount (normalized_funding src) k = Some (funding_value src k)"
proof -
  have "json_field k (normalized_funding src) = Some (JNum (show_int (funding_value src k)))"
    using assms by (auto simp: FUNDING_SOURCES_def normalized_funding_def)
  then show ?thesis using funding_value_safe [of src k] safe_of_int [of "funding_value src k"] by (simp add: funding_amount_def)
qed

lemma funding_value_cong:
  assumes v: "\<And>k. k \<in> set FUNDING_SOURCES \<Longrightarrow> funding_value a k = funding_value b k"
  shows "funding_total a = funding_total b \<and> normalized_funding a = normalized_funding b"
proof -
  have "map (funding_value a) FUNDING_SOURCES = map (funding_value b) FUNDING_SOURCES" using v by (rule map_cong [OF refl])
  then have t: "funding_total a = funding_total b" by (simp only: funding_total_def)
  have "map (\<lambda>k. (k, JNum (show_int (funding_value a k)))) FUNDING_SOURCES = map (\<lambda>k. (k, JNum (show_int (funding_value b k)))) FUNDING_SOURCES"
    using v by (intro map_cong [OF refl]) simp
  then show ?thesis using t by (simp add: normalized_funding_def)
qed

text \<open>The split of a reservation that was accepted is read back from the stored JSON as it was, and is valid for the same amount.\<close>

theorem funding_roundtrip:
  assumes ok: "funding_errors src amount = []"
  shows "(\<forall>k \<in> set FUNDING_SOURCES. funding_value (normalized_funding src) k = funding_value src k)
     \<and> validateReservationFunding (normalized_funding src) amount = ([], normalized_funding src)"
proof -
  define n where "n = normalized_funding src"
  have st: "funding_amount n k = Some (funding_value src k)" if "k \<in> set FUNDING_SOURCES" for k
    using funding_amount_stored [OF that] by (simp only: n_def)
  then have v: "funding_value n k = funding_value src k" if "k \<in> set FUNDING_SOURCES" for k
    using that unfolding funding_value_def [of n] by simp
  from funding_value_cong [OF this] have same: "funding_total n = funding_total src" "normalized_funding n = n" by (auto simp: n_def)
  have none: "filter (\<lambda>k. funding_amount n k = None) FUNDING_SOURCES = []" using st by (auto simp: filter_empty_conv)
  have "amount \<le> max_safe \<and> 0 \<le> amount \<and> funding_total src = amount" using ok by (auto simp: funding_errors_def split: if_splits)
  then have "funding_errors n amount = []" unfolding funding_errors_def none same(1) by simp
  then show ?thesis using v same(2) unfolding n_def [symmetric] validateReservationFunding_def by simp
qed

text \<open>A new reservation reconciles without an exception as long as the subsidy of its order stays the same.\<close>

theorem reservation_reconciles:
  assumes run: "reserveCrmCampaignReservation env campaign i split key s = (Inr v, s1)" and new: "\<not> vw_duplicate v"
    and later: "cs_reservations t = cs_reservations s1" "map_option lo_subsidy (crm_order i t) = map_option lo_subsidy (crm_order i s)"
  shows "\<exists>rec. fst (reconcileCrmCampaignReservation (vw_id v) settlement t) = Inr rec \<and> ro_errors rec = [] \<and> \<not> ro_exception rec"
proof -
  obtain c x where x: "find (\<lambda>c. cc_id c = campaign) (cs_campaigns s) = Some c" "toUpperCase (cc_state c) = ''ACTIVE''" "crm_order i s = Some x"
    and ok: "funding_errors split (lo_subsidy x) = []"
    using run by (auto simp: reserveCrmCampaignReservation_def validateReservationFunding_def split: option.splits if_splits)
  let ?r = "\<lparr>rv_id = ce_id env, rv_campaign = campaign, rv_order = i, rv_customer = lo_customer x, rv_amount = lo_subsidy x,
      rv_funding = normalized_funding split, rv_state = ''RESERVED'', rv_key = key, rv_settlement = None\<rparr>"
  obtain r dup where put: "put_reservation ?r s = Some (r, dup, s1)" "v = \<lparr>vw_id = rv_id r, vw_amount = lo_subsidy x, vw_funding = normalized_funding split, vw_duplicate = dup\<rparr>"
    using run x ok by (cases "put_reservation ?r s") (auto simp: reserveCrmCampaignReservation_def validateReservationFunding_def)
  then have r: "vw_id v = ce_id env" "cs_reservations s1 = cs_reservations s @ [?r]" "\<not> list_ex (\<lambda>x. rv_id x = ce_id env) (cs_reservations s)"
    using new by (auto simp: put_reservation_def list_ex_iff split: option.splits if_splits)
  have "find (\<lambda>r. rv_id r = vw_id v) (cs_reservations t) = Some ?r"
    unfolding later(1) r(1,2) by (rule find_append_new) (use r(3) in \<open>auto simp: find_None_iff list_ex_iff\<close>)
  moreover obtain y where "crm_order i t = Some y" "lo_subsidy y = lo_subsidy x" using later(2) x(3) by auto
  ultimately show ?thesis using funding_roundtrip [OF ok] by (simp add: reconcileCrmCampaignReservation_def Let_def)
qed

section \<open>Concrete runs\<close>

definition demo_owner :: uuid where
  "demo_owner = ''aaaaaaaa-aaaa-1aaa-8aaa-aaaaaaaaaaaa''"

definition demo_parcel :: uuid where
  "demo_parcel = ''bbbbbbbb-bbbb-1bbb-8bbb-bbbbbbbbbbbb''"

definition demo_keys :: loyalty_env where
  "demo_keys = \<lparr>lv_loyalty_key = Some ''k'', lv_api_key = None, lv_account_id = ''acc''\<rparr>"

definition demo_loyalty_order :: "string \<Rightarrow> loyalty_order" where
  "demo_loyalty_order st = \<lparr>lo_id = demo_parcel, lo_customer = demo_owner, lo_status = st, lo_payment = Some ''paid'', lo_refunded = 0, lo_subsidy = 10\<rparr>"

definition demo_books :: "string \<Rightarrow> loyalty_store" where
  "demo_books st = \<lparr>ls_accounts = [], ls_entries = [], ls_orders = [demo_loyalty_order st]\<rparr>"

definition demo_loyalty_event :: "string \<Rightarrow> string \<Rightarrow> loyalty_event" where
  "demo_loyalty_event i kind =
     \<lparr>ve_owner = Some demo_owner, ve_market = Some ''id'', ve_order = Some i, ve_type = Some kind, ve_points = Some (JNum ''5''), ve_liability = None\<rparr>"

definition demo_earned :: loyalty_store where
  "demo_earned = snd (applyLoyaltyOrderEvent demo_keys (Some ''k'') (demo_loyalty_event demo_parcel ''EARN'') (demo_books ''delivered''))"

lemma demo_books_reachable: "loyalty_reachable (demo_books st)"
  by (auto simp: loyalty_reachable_def demo_books_def)

lemma demo_earned_reachable: "loyalty_reachable demo_earned"
proof -
  have "loyalty_step (demo_books ''delivered'') demo_earned" unfolding demo_earned_def by (rule loyalty_step.Event)
  then show ?thesis using demo_books_reachable [of "''delivered''"] unfolding loyalty_reachable_def by (meson rtranclp.rtrancl_into_rtrancl)
qed

lemma demo_earned_reply:
  "applyLoyaltyOrderEvent demo_keys (Some ''k'') (demo_loyalty_event demo_parcel ''EARN'') (demo_books ''delivered'')
     = (LoyaltyDone False \<lparr>la_id = ''acc'', la_owner = demo_owner, la_market = ''id'', la_points = 5\<rparr>, demo_earned)"
proof -
  have "fst (applyLoyaltyOrderEvent demo_keys (Some ''k'') (demo_loyalty_event demo_parcel ''EARN'') (demo_books ''delivered''))
     = LoyaltyDone False \<lparr>la_id = ''acc'', la_owner = demo_owner, la_market = ''id'', la_points = 5\<rparr>" by code_simp
  then show ?thesis by (simp add: demo_earned_def prod_eq_iff)
qed

lemma demo_earned_accounts: "ls_accounts demo_earned = [\<lparr>la_id = ''acc'', la_owner = demo_owner, la_market = ''id'', la_points = 5\<rparr>]"
  by code_simp

definition demo_crm :: "loyalty_store \<Rightarrow> crm_store" where
  "demo_crm s = \<lparr>cs_users = [\<lparr>cu_id = ''r'', cu_role = ''customer'', cu_code = Some ''CODE''\<rparr>],
     cs_policies = [\<lparr>rp_market = ''id'', rp_version = ''1'', rp_points = 0, rp_liability = 7, rp_active = True, rp_from = 0, rp_to = None\<rparr>],
     cs_legacy_referred = [], cs_attributions = [], cs_risks = [], cs_campaigns = [\<lparr>cc_id = ''c'', cc_state = ''ACTIVE''\<rparr>],
     cs_reservations = [], cs_loyalty = s, cs_exceptions = []\<rparr>"

definition demo_crm_env :: crm_env where
  "demo_crm_env = \<lparr>ce_now = 1, ce_id = ''n'', ce_shared = (\<lambda>_ _. (0, 0, 0))\<rparr>"

theorem points_balance_is_ledger_witness: "ledger_points ''acc'' (ls_entries demo_earned) = 5"
  using points_balance_is_ledger [OF demo_earned_reachable, of "\<lparr>la_id = ''acc'', la_owner = demo_owner, la_market = ''id'', la_points = 5\<rparr>" "demo_crm demo_earned"]
  by (simp add: demo_earned_accounts demo_crm_def)

theorem order_event_once_witness:
  "snd (applyLoyaltyOrderEvent demo_keys (Some ''k'') (demo_loyalty_event demo_parcel ''EARN'') demo_earned) = demo_earned"
  using order_event_once [OF demo_books_reachable demo_earned_reply rtranclp.rtrancl_refl, of demo_keys "Some ''k''"] .

theorem event_moves_points_witness: "ledger_points ''acc'' (ls_entries demo_earned) = 5"
  using event_moves_points [OF demo_books_reachable demo_earned_reply] by auto

text \<open>
  The same order in capital letters counts as another one: its points are earned twice, and the reconciliation finds an entry without an
  order.
\<close>

theorem order_spelling_earns_twice:
  "map la_points (ls_accounts (snd (applyLoyaltyOrderEvent demo_keys (Some ''k'') (demo_loyalty_event (toUpperCase demo_parcel) ''EARN'') demo_earned))) = [10]"
  by code_simp

definition demo_referred :: crm_store where
  "demo_referred = snd (applyReferralCode demo_crm_env ''u'' (Some ''code'') (Some ''id'') (demo_crm demo_earned))"

theorem referral_once_witness: "map at_status (cs_attributions demo_referred) = [''PENDING''] \<and> referral_inv demo_referred"
proof -
  have "referral_inv (demo_crm demo_earned)" by (simp add: referral_inv_def demo_crm_def)
  from referral_once [OF this prod.collapse [symmetric], of demo_crm_env "''u''" "Some ''code''" "Some ''id''"]
  have "referral_inv demo_referred" by (simp add: demo_referred_def)
  moreover have "map at_status (cs_attributions demo_referred) = [''PENDING'']" by code_simp
  ultimately show ?thesis by simp
qed

theorem referral_budget_never_posted_witness: "rr_exception (fst (reconcileReferralRewardBudget ''id'' demo_referred))"
proof -
  have "cs_loyalty demo_referred = demo_earned" "referral_liability (toLowerCase (js_trim ''id'')) demo_referred = 7" by code_simp+
  then show ?thesis using referral_budget_never_posted [of demo_referred "''id''"] demo_earned_reachable by simp
qed

definition demo_split :: json where
  "demo_split = JObj [(''platform'', JNum ''4''), (''merchant'', JNum ''6'')]"

theorem funding_roundtrip_witness: "funding_value (normalized_funding demo_split) ''merchant'' = 6"
proof -
  have "funding_errors demo_split 10 = []" "funding_value demo_split ''merchant'' = 6" by code_simp+
  then show ?thesis using funding_roundtrip [of demo_split 10] by (simp add: FUNDING_SOURCES_def)
qed

theorem reservation_reconciles_witness:
  "case reserveCrmCampaignReservation demo_crm_env ''c'' demo_parcel demo_split ''key'' (demo_crm demo_earned) of
     (Inr v, t) \<Rightarrow> (\<exists>rec. fst (reconcileCrmCampaignReservation (vw_id v) ''ref'' t) = Inr rec \<and> \<not> ro_exception rec) | _ \<Rightarrow> False"
proof -
  obtain r t where run: "reserveCrmCampaignReservation demo_crm_env ''c'' demo_parcel demo_split ''key'' (demo_crm demo_earned) = (r, t)" by force
  have "case reserveCrmCampaignReservation demo_crm_env ''c'' demo_parcel demo_split ''key'' (demo_crm demo_earned) of (Inr v, _) \<Rightarrow> \<not> vw_duplicate v | _ \<Rightarrow> False"
    by code_simp
  then obtain v where v: "r = Inr v" "\<not> vw_duplicate v" using run by (cases r) auto
  have "map_option lo_subsidy (crm_order demo_parcel (snd (reserveCrmCampaignReservation demo_crm_env ''c'' demo_parcel demo_split ''key'' (demo_crm demo_earned)))) = Some 10"
    "map_option lo_subsidy (crm_order demo_parcel (demo_crm demo_earned)) = Some 10"
    by code_simp+
  then have "map_option lo_subsidy (crm_order demo_parcel t) = map_option lo_subsidy (crm_order demo_parcel (demo_crm demo_earned))" using run by (metis snd_conv)
  from reservation_reconciles [OF run [unfolded v(1)] v(2) refl this] show ?thesis using run v(1) by auto
qed

section \<open>Concrete memberships\<close>

definition demo_entitlement :: "uuid \<Rightarrow> entitlement" where
  "demo_entitlement i = \<lparr>en_id = i, en_owner = demo_owner, en_market = ''id'', en_benefits = JObj [(''free_delivery'', JBool True)],
     en_state = MPending, en_start = 0, en_end = 10, en_intent = None, en_updated = 0\<rparr>"

definition demo_members :: "uuid list \<Rightarrow> member_store" where
  "demo_members is = \<lparr>ms_entitlements = map demo_entitlement is, ms_events = []\<rparr>"

definition demo_payment_report :: "uuid \<Rightarrow> string \<Rightarrow> string \<Rightarrow> member_request" where
  "demo_payment_report i key st = \<lparr>mq_entitlement = i, mq_key = Some key, mq_state = Some st, mq_intent = None, mq_provider = None\<rparr>"

definition demo_member :: member_store where
  "demo_member = snd (applyMembershipPaymentEvent demo_keys 5 (Some ''k'') (demo_payment_report demo_parcel ''key1'' ''SUCCEEDED'') (demo_members [demo_parcel]))"

lemma member_reach_step: "member_reachable s \<Longrightarrow> member_step s s' \<Longrightarrow> member_reachable s'"
  unfolding member_reachable_def by simp

lemma demo_members_reachable: "member_reachable (demo_members [demo_parcel])"
proof -
  let ?s = "\<lparr>ms_entitlements = [], ms_events = []\<rparr>"
  have "member_reachable ?s" by (simp add: member_reachable_def)
  moreover have "member_step ?s (?s\<lparr>ms_entitlements := ms_entitlements ?s @ [demo_entitlement demo_parcel]\<rparr>)"
    by (rule member_step.Bought) (simp_all add: entitlement_of_def demo_entitlement_def)
  ultimately show ?thesis by (simp add: demo_members_def member_reach_step)
qed

lemma demo_member_reachable: "member_reachable demo_member"
  unfolding demo_member_def by (rule member_reach_step [OF demo_members_reachable member_step.Paid])

definition demo_benefit :: benefit_request where
  "demo_benefit = \<lparr>bq_owner = Some demo_owner, bq_market = Some ''id'', bq_service = Some ''parcel'', bq_benefit = None\<rparr>"

theorem benefit_needs_payment_witness: "was_paid demo_parcel demo_member"
proof -
  have "case resolveMembershipBenefitEligibility demo_keys 6 (Some ''k'') demo_benefit demo_member of BenefitYes i _ \<Rightarrow> i = demo_parcel | _ \<Rightarrow> False" by code_simp
  then obtain cap where "resolveMembershipBenefitEligibility demo_keys 6 (Some ''k'') demo_benefit demo_member = BenefitYes demo_parcel cap"
    by (auto split: benefit_reply.splits)
  from benefit_needs_payment [OF demo_member_reachable this] show ?thesis by blast
qed

definition demo_refunded :: member_store where
  "demo_refunded = snd (applyMembershipPaymentEvent demo_keys 6 (Some ''k'') (demo_payment_report demo_parcel ''key2'' ''REFUNDED'') demo_member)"

theorem ended_membership_stays_witness:
  "\<exists>y \<in> set (ms_entitlements (snd (applyMembershipPaymentEvent demo_keys 7 (Some ''k'') (demo_payment_report demo_parcel ''key3'' ''SUCCEEDED'') demo_refunded))).
     en_id y = demo_parcel \<and> en_state y \<in> {MCancelled, MExpired, MRefunded}"
proof -
  have reach: "member_reachable demo_refunded" unfolding demo_refunded_def by (rule member_reach_step [OF demo_member_reachable member_step.Paid])
  have "map en_state (ms_entitlements demo_refunded) = [MRefunded] \<and> map en_id (ms_entitlements demo_refunded) = [demo_parcel]" by code_simp
  then obtain x where x: "x \<in> set (ms_entitlements demo_refunded)" "en_state x = MRefunded" "en_id x = demo_parcel" by (cases "ms_entitlements demo_refunded") auto
  have "member_step\<^sup>*\<^sup>* demo_refunded (snd (applyMembershipPaymentEvent demo_keys 7 (Some ''k'') (demo_payment_report demo_parcel ''key3'' ''SUCCEEDED'') demo_refunded))"
    by (rule r_into_rtranclp) (rule member_step.Paid)
  then show ?thesis using ended_membership_stays [OF reach x(1)] x(2,3) by simp
qed

theorem failed_replay_refused_witness:
  "fst (applyMembershipPaymentEvent demo_keys 8 (Some ''k'') (demo_payment_report demo_parcel ''key4'' ''FAILED'')
     (snd (applyMembershipPaymentEvent demo_keys 7 (Some ''k'') (demo_payment_report demo_parcel ''key4'' ''FAILED'') demo_member)))
   = MemberRefused 409 ''ERR_MEMBERSHIP_IDEMPOTENCY_REUSE''"
proof -
  let ?q = "demo_payment_report demo_parcel ''key4'' ''FAILED''"
  have "map_option en_state (entitlement_of demo_parcel demo_member) = Some MActive" by code_simp
  then obtain x where x: "entitlement_of demo_parcel demo_member = Some x" "en_state x = MActive" by auto
  have q: "readMembershipRequest ?q = Some (demo_parcel, ''key4'', PFailed, [], [])" by code_simp
  have "case fst (applyMembershipPaymentEvent demo_keys 7 (Some ''k'') ?q demo_member) of MemberDone False _ \<Rightarrow> True | _ \<Rightarrow> False" by code_simp
  then obtain x' s' where run: "applyMembershipPaymentEvent demo_keys 7 (Some ''k'') ?q demo_member = (MemberDone False x', s')"
    by (cases "applyMembershipPaymentEvent demo_keys 7 (Some ''k'') ?q demo_member") (auto split: member_reply.splits bool.splits)
  show ?thesis using failed_replay_refused [OF member_reachable_inv [OF demo_member_reachable] x q run] run by simp
qed

definition demo_other :: uuid where
  "demo_other = ''cccccccc-cccc-1ccc-8ccc-cccccccccccc''"

definition demo_two :: member_store where
  "demo_two = snd (applyMembershipPaymentEvent demo_keys 5 (Some ''k'') (demo_payment_report demo_parcel ''key1'' ''SUCCEEDED'') (demo_members [demo_parcel, demo_other]))"

theorem shared_key_loses_payment_witness:
  "snd (applyMembershipPaymentEvent demo_keys 6 (Some ''k'') (demo_payment_report demo_other ''key1'' ''SUCCEEDED'') demo_two) = demo_two"
proof -
  let ?e = "\<lparr>mv_entitlement = demo_parcel, mv_key = ''key1'', mv_payment = PSucceeded, mv_result = MActive, mv_intent = None, mv_provider = None\<rparr>"
  have "internalKeyMatches demo_keys (Some ''k'')" "readMembershipRequest (demo_payment_report demo_other ''key1'' ''SUCCEEDED'') = Some (demo_other, ''key1'', PSucceeded, [], [])"
    "entitlement_of demo_other demo_two = Some (demo_entitlement demo_other)" "find (\<lambda>e. mv_key e = ''key1'') (ms_events demo_two) = Some ?e"
    "demo_parcel \<noteq> demo_other"
    by code_simp+
  then show ?thesis using shared_key_loses_payment [of demo_keys "Some ''k''" "demo_payment_report demo_other ''key1'' ''SUCCEEDED''" demo_other "''key1''" "[]" demo_two
      "demo_entitlement demo_other" ?e 6] by (simp add: demo_entitlement_def str_or_def)
qed

text \<open>An entitlement that ends later hides one that is active, even when it was refunded: the benefit is denied.\<close>

definition demo_hidden :: member_store where
  "demo_hidden = \<lparr>ms_entitlements = [(demo_entitlement demo_parcel)\<lparr>en_state := MActive, en_end := 10\<rparr>, (demo_entitlement demo_other)\<lparr>en_state := MRefunded, en_end := 20\<rparr>], ms_events = []\<rparr>"

theorem ended_entitlement_hides_active:
  "resolveMembershipBenefitEligibility demo_keys 6 (Some ''k'') demo_benefit demo_hidden = BenefitNo ''ENTITLEMENT_NOT_ACTIVE''"
  by code_simp

end
