(* ===== verification/PaymentConfig.thy ===== *)
theory PaymentConfig
  imports Requests
begin

text \<open>
  Changes of the payment configuration (\<open>controllers/paymentConfigApproval.controller.ts\<close>): an administrator asks for a change of the
  health of a provider or of the method catalogue, and another one approves or rejects it.

  A payload is kept typed; two of them are equal exactly when their canonical JSON is.  The statements of a request run one after the
  other; the approval is a transaction.  The audit log, which nothing reads back, is left out.
\<close>

section \<open>Tables\<close>

datatype config_change =
    ProviderHealth (hc_provider: string) (hc_state: string) (hc_reason: string)
  | MethodCatalog (mc_market: string) (mc_currency: string) (mc_method: string) (mc_provider: string) (mc_enabled: bool) (mc_min: "int option") (mc_max: "int option")

datatype change_status = CPending | CRejected | CApplied

record change_row =
  cg_id :: uuid
  cg_change :: config_change
  cg_requester :: uuid
  cg_approver :: "uuid option"
  cg_rejecter :: "uuid option"
  cg_status :: change_status
  cg_key :: string
  cg_reason :: string

datatype change_event = EvRequested | EvRejected | EvApplied

record health_row =
  hp_provider :: string
  hp_state :: string
  hp_allow :: bool
  hp_reason :: string
  hp_by :: uuid

record catalog_row =
  pc_market :: string
  pc_currency :: string
  pc_method :: string
  pc_provider :: string
  pc_enabled :: bool
  pc_min :: "int option"
  pc_max :: "int option"
  pc_version :: nat

record config_store =
  fs_requests :: "change_row list"
  fs_events :: "(uuid \<times> change_event \<times> uuid) list"
  fs_health :: "health_row list"
  fs_catalog :: "catalog_row list"

section \<open>Requests\<close>

record change_body =
  cb_provider :: "string option"
  cb_state :: "string option"
  cb_reason :: "string option"
  cb_market :: "string option"
  cb_currency :: "string option"
  cb_method :: "string option"
  cb_enabled :: "json option"
  cb_min :: "json option"
  cb_max :: "json option"

definition body_text :: "nat \<Rightarrow> string option \<Rightarrow> string" where
  "body_text n v = take n (js_trim (str_or v []))"

definition validateProviderHealth :: "change_body \<Rightarrow> config_change option" where
  "validateProviderHealth b =
     (let provider = take 64 (toLowerCase (js_trim (str_or (cb_provider b) []))); st = toLowerCase (js_trim (str_or (cb_state b) []));
          reason = body_text 1000 (cb_reason b) in
      if provider = [] \<or> st \<notin> {''healthy'', ''degraded'', ''disabled''} \<or> reason = [] then None else Some (ProviderHealth provider st reason))"

text \<open>An amount bound: absent, or a safe integer of which the condition holds.\<close>

definition read_bound :: "(int \<Rightarrow> bool) \<Rightarrow> json option \<Rightarrow> int option option" where
  "read_bound ok v =
     (if v = None \<or> v = Some JNull then Some None
      else case safe_integer (json_number v) of None \<Rightarrow> None | Some n \<Rightarrow> if ok n then Some (Some n) else None)"

definition validateMethodCatalog :: "change_body \<Rightarrow> config_change option" where
  "validateMethodCatalog b =
     (let market = take 32 (toLowerCase (js_trim (str_or (cb_market b) []))); currency = toUpperCase (js_trim (str_or (cb_currency b) []));
          meth = take 64 (toLowerCase (js_trim (str_or (cb_method b) []))); provider = take 64 (toLowerCase (js_trim (str_or (cb_provider b) []))) in
      if market = [] \<or> \<not> currency_ok currency \<or> meth = [] \<or> provider = [] then None
      else case (cb_enabled b, read_bound (\<lambda>n. 0 < n) (cb_min b)) of
        (Some (JBool en), Some lo) \<Rightarrow>
          (case read_bound (\<lambda>n. (case lo of None \<Rightarrow> 0 | Some l \<Rightarrow> l) \<le> n) (cb_max b) of
             None \<Rightarrow> None | Some hi \<Rightarrow> Some (MethodCatalog market currency meth provider en lo hi))
      | _ \<Rightarrow> None)"

definition validatePayload :: "bool \<Rightarrow> change_body \<Rightarrow> config_change option" where
  "validatePayload health b = (if health then validateProviderHealth b else validateMethodCatalog b)"

datatype change_reply = ChangeRefused nat string | ChangeAccepted bool change_row

definition new_change :: "uuid \<Rightarrow> config_change \<Rightarrow> uuid \<Rightarrow> string \<Rightarrow> string \<Rightarrow> change_row" where
  "new_change i c actor k reason =
     \<lparr>cg_id = i, cg_change = c, cg_requester = actor, cg_approver = None, cg_rejecter = None, cg_status = CPending, cg_key = k, cg_reason = reason\<rparr>"

definition requestPaymentConfigChange :: "uuid \<Rightarrow> bool \<Rightarrow> string option \<Rightarrow> change_body \<Rightarrow> uuid \<Rightarrow> config_store \<Rightarrow> change_reply \<times> config_store" where
  "requestPaymentConfigChange new_id health raw_key b actor s =
     (let k = js_trim (str_or raw_key []); reason = body_text 1000 (cb_reason b) in
      if k = [] then (ChangeRefused 428 ''IDEMPOTENCY_KEY_REQUIRED'', s)
      else case validatePayload health b of None \<Rightarrow> (ChangeRefused 400 ''invalid payload'', s)
      | Some c \<Rightarrow>
          if reason = [] then (ChangeRefused 400 ''reason required'', s)
          else case find (\<lambda>r. cg_key r = k) (fs_requests s) of
            Some r \<Rightarrow>
              if cg_change r \<noteq> c \<or> cg_reason r \<noteq> reason then (ChangeRefused 409 ''IDEMPOTENCY_KEY_REUSE'', s) else (ChangeAccepted True r, s)
          | None \<Rightarrow>
              (let r = new_change new_id c actor k reason in
               if length k > 180 \<or> list_ex (\<lambda>x. cg_id x = new_id) (fs_requests s) then (ChangeRefused 500 ''request failed'', s)
               else (ChangeAccepted False r, s\<lparr>fs_requests := fs_requests s @ [r], fs_events := fs_events s @ [(new_id, EvRequested, actor)]\<rparr>)))"

section \<open>Approval\<close>

definition put_health :: "health_row \<Rightarrow> health_row list \<Rightarrow> health_row list" where
  "put_health h hs =
     (if list_ex (\<lambda>x. hp_provider x = hp_provider h) hs then map (\<lambda>x. if hp_provider x = hp_provider h then h else x) hs else hs @ [h])"

definition same_method :: "catalog_row \<Rightarrow> catalog_row \<Rightarrow> bool" where
  "same_method x y \<longleftrightarrow> pc_market x = pc_market y \<and> pc_currency x = pc_currency y \<and> pc_method x = pc_method y \<and> pc_provider x = pc_provider y"

definition put_catalog :: "catalog_row \<Rightarrow> catalog_row list \<Rightarrow> catalog_row list" where
  "put_catalog c cs =
     (if list_ex (same_method c) cs then map (\<lambda>x. if same_method c x then c\<lparr>pc_version := pc_version x + 1\<rparr> else x) cs else cs @ [c])"

definition applyChange :: "config_change \<Rightarrow> uuid \<Rightarrow> health_row list \<times> catalog_row list \<Rightarrow> health_row list \<times> catalog_row list" where
  "applyChange c actor = (\<lambda>(hs, cs).
     (case c of
        ProviderHealth provider st reason \<Rightarrow>
          (put_health \<lparr>hp_provider = provider, hp_state = st, hp_allow = (st = ''healthy''), hp_reason = reason, hp_by = actor\<rparr> hs, cs)
      | MethodCatalog market currency meth provider en lo hi \<Rightarrow>
          (hs, put_catalog \<lparr>pc_market = market, pc_currency = currency, pc_method = meth, pc_provider = provider, pc_enabled = en, pc_min = lo, pc_max = hi, pc_version = 1\<rparr> cs)))"

definition change_of :: "uuid \<Rightarrow> config_store \<Rightarrow> change_row option" where
  "change_of i s = find (\<lambda>r. cg_id r = i) (fs_requests s)"

definition set_change :: "uuid \<Rightarrow> (change_row \<Rightarrow> change_row) \<Rightarrow> config_store \<Rightarrow> config_store" where
  "set_change i f s = s\<lparr>fs_requests := map (\<lambda>r. if cg_id r = i then f r else r) (fs_requests s)\<rparr>"

definition commit_change :: "uuid \<Rightarrow> change_row \<Rightarrow> uuid \<Rightarrow> config_store \<Rightarrow> config_store" where
  "commit_change i r actor s =
     (let projection = applyChange (cg_change r) actor (fs_health s, fs_catalog s);
          s1 = set_change i (\<lambda>r. r\<lparr>cg_status := CApplied, cg_approver := Some actor\<rparr>) s
      in s1\<lparr>fs_health := fst projection, fs_catalog := snd projection, fs_events := fs_events s @ [(i, EvApplied, actor)]\<rparr>)"

definition approvePaymentConfigChange :: "string \<Rightarrow> uuid \<Rightarrow> config_store \<Rightarrow> change_reply \<times> config_store" where
  "approvePaymentConfigChange raw_id actor s =
     (let t = js_trim raw_id; i = toLowerCase t in
      if \<not> uuidLike t then (ChangeRefused 400 ''invalid id'', s)
      else case change_of i s of None \<Rightarrow> (ChangeRefused 404 ''not found'', s)
      | Some r \<Rightarrow>
          if cg_requester r = actor then (ChangeRefused 409 ''MAKER_CHECKER_REQUIRED'', s)
          else if cg_status r = CApplied then (ChangeAccepted True r, s)
          else if cg_status r \<noteq> CPending then (ChangeRefused 409 ''PAYMENT_CONFIG_CHANGE_NOT_PENDING'', s)
          else (ChangeAccepted False (r\<lparr>cg_status := CApplied, cg_approver := Some actor\<rparr>), commit_change i r actor s))"

definition rejectPaymentConfigChange :: "string \<Rightarrow> string option \<Rightarrow> uuid \<Rightarrow> config_store \<Rightarrow> change_reply \<times> config_store" where
  "rejectPaymentConfigChange raw_id raw_reason actor s =
     (let t = js_trim raw_id; i = toLowerCase t in
      if \<not> uuidLike t \<or> body_text 1000 raw_reason = [] then (ChangeRefused 400 ''invalid request'', s)
      else case change_of i s of
        Some r \<Rightarrow>
          if cg_status r = CPending \<and> cg_requester r \<noteq> actor
          then (ChangeAccepted False (r\<lparr>cg_status := CRejected, cg_rejecter := Some actor\<rparr>),
            (set_change i (\<lambda>r. r\<lparr>cg_status := CRejected, cg_rejecter := Some actor\<rparr>) s)\<lparr>fs_events := fs_events s @ [(i, EvRejected, actor)]\<rparr>)
          else (ChangeRefused 409 ''MAKER_CHECKER_REQUIRED_OR_NOT_PENDING'', s)
      | None \<Rightarrow> (ChangeRefused 409 ''MAKER_CHECKER_REQUIRED_OR_NOT_PENDING'', s))"

definition listPaymentConfigChangeRequests :: "change_status option \<Rightarrow> config_store \<Rightarrow> change_row list" where
  "listPaymentConfigChangeRequests st s =
     take 200 (rev (filter (\<lambda>r. case st of None \<Rightarrow> True | Some x \<Rightarrow> cg_status r = x) (fs_requests s)))"

section \<open>Reachable configurations\<close>

text \<open>The changes that took effect, in the order of the event log, with who approved them.\<close>

definition log_entry :: "config_store \<Rightarrow> uuid \<times> change_event \<times> uuid \<Rightarrow> (config_change \<times> uuid) option" where
  "log_entry s = (\<lambda>(i, ev, actor). if ev = EvApplied then map_option (\<lambda>r. (cg_change r, actor)) (change_of i s) else None)"

definition applied_log :: "config_store \<Rightarrow> (config_change \<times> uuid) list" where
  "applied_log s = List.map_filter (log_entry s) (fs_events s)"

definition replay_log :: "(config_change \<times> uuid) list \<Rightarrow> health_row list \<times> catalog_row list" where
  "replay_log cs = fold (\<lambda>(c, actor). applyChange c actor) cs ([], [])"

text \<open>
  Ids and keys are unique; the tables in effect are the replay of the log; decisions are by somebody else than the requester; the log
  knows exactly the applied requests with their approvers.
\<close>

definition config_inv :: "config_store \<Rightarrow> bool" where
  "config_inv s \<longleftrightarrow> distinct (map cg_id (fs_requests s)) \<and> distinct (map cg_key (fs_requests s))
     \<and> (fs_health s, fs_catalog s) = replay_log (applied_log s)
     \<and> (\<forall>(i, ev, actor) \<in> set (fs_events s). change_of i s \<noteq> None)
     \<and> (\<forall>r \<in> set (fs_requests s). cg_approver r \<noteq> Some (cg_requester r) \<and> cg_rejecter r \<noteq> Some (cg_requester r)
          \<and> (cg_status r = CApplied \<longleftrightarrow> cg_approver r \<noteq> None)
          \<and> (\<forall>actor. (cg_id r, EvApplied, actor) \<in> set (fs_events s) \<longleftrightarrow> cg_approver r = Some actor))"

inductive config_step :: "config_store \<Rightarrow> config_store \<Rightarrow> bool" where
  Request: "config_step s (snd (requestPaymentConfigChange i health k b actor s))"
| Approve: "config_step s (snd (approvePaymentConfigChange i actor s))"
| Reject: "config_step s (snd (rejectPaymentConfigChange i reason actor s))"

definition config_reachable :: "config_store \<Rightarrow> bool" where
  "config_reachable s \<longleftrightarrow> config_step\<^sup>*\<^sup>* \<lparr>fs_requests = [], fs_events = [], fs_health = [], fs_catalog = []\<rparr> s"

lemma change_of_mem: "change_of i s = Some r \<Longrightarrow> r \<in> set (fs_requests s) \<and> cg_id r = i"
  by (auto simp: change_of_def find_Some_iff)

lemma change_of_None: "change_of i s = None \<longleftrightarrow> i \<notin> cg_id ` set (fs_requests s)"
  by (auto simp: change_of_def find_None_iff)

lemma log_entry_cong:
  "map_option cg_change (change_of i t) = map_option cg_change (change_of i s) \<Longrightarrow> log_entry t (i, ev, actor) = log_entry s (i, ev, actor)"
  by (cases "change_of i t"; cases "change_of i s") (simp_all add: log_entry_def)

lemma change_of_set_change:
  assumes "\<And>r. cg_id (f r) = cg_id r"
  shows "change_of j (set_change i f s) = map_option (\<lambda>r. if j = i then f r else r) (change_of j s)"
proof -
  have "change_of j (set_change i f s) = map_option (\<lambda>r. if cg_id r = i then f r else r) (change_of j s)"
    unfolding change_of_def set_change_def using assms by (simp add: find_map_id)
  then show ?thesis using change_of_mem [of j s] by (cases "change_of j s") auto
qed

lemma applied_log_known: "config_inv s \<Longrightarrow> (i, ev, actor) \<in> set (fs_events s) \<Longrightarrow> \<exists>r. change_of i s = Some r"
  by (auto simp: config_inv_def)

text \<open>How the log grows: by an applied change at the end, or not at all.\<close>

lemma applied_log_grows:
  assumes inv: "config_inv s" and ev: "fs_events t = fs_events s @ [(i, ev, actor)]" and i: "change_of i t = Some r"
    and old: "\<And>j. j \<in> fst ` set (fs_events s) \<Longrightarrow> map_option cg_change (change_of j t) = map_option cg_change (change_of j s)"
  shows "applied_log t = applied_log s @ (if ev = EvApplied then [(cg_change r, actor)] else [])"
proof -
  have "List.map_filter (log_entry t) (fs_events s) = List.map_filter (log_entry s) (fs_events s)"
  proof (rule map_filter_cong)
    fix x assume x: "x \<in> set (fs_events s)"
    obtain j k a where e: "x = (j, k, a)" by (cases x)
    then have "j \<in> fst ` set (fs_events s)" using x by force
    from log_entry_cong [OF old [OF this]] show "log_entry t x = log_entry s x" by (simp add: e)
  qed
  moreover have "log_entry t (i, ev, actor) = (if ev = EvApplied then Some (cg_change r, actor) else None)" using i by (simp add: log_entry_def)
  ultimately show ?thesis by (simp add: applied_log_def ev map_filter_append)
qed

lemma replay_log_append: "replay_log (cs @ [(c, actor)]) = applyChange c actor (replay_log cs)"
  by (simp add: replay_log_def)

lemma change_unique: "config_inv s \<Longrightarrow> r \<in> set (fs_requests s) \<Longrightarrow> change_of (cg_id r) s = Some r"
proof -
  assume inv: "config_inv s" and r: "r \<in> set (fs_requests s)"
  then obtain x where x: "change_of (cg_id r) s = Some x" using change_of_None by (cases "change_of (cg_id r) s") auto
  then show ?thesis using distinct_map_eq [of cg_id "fs_requests s" x r] change_of_mem [OF x] inv r by (simp add: config_inv_def)
qed

lemma request_inv:
  assumes inv: "config_inv s" and run: "requestPaymentConfigChange i health k b actor s = (reply, s')"
  shows "config_inv s'"
proof (cases "s' = s")
  case True
  then show ?thesis using inv by simp
next
  case False
  then obtain c k' reason where c: "s' = s\<lparr>fs_requests := fs_requests s @ [new_change i c actor k' reason], fs_events := fs_events s @ [(i, EvRequested, actor)]\<rparr>"
    "\<not> list_ex (\<lambda>x. cg_id x = i) (fs_requests s)" "find (\<lambda>r. cg_key r = k') (fs_requests s) = None"
    using run by (auto simp: requestPaymentConfigChange_def Let_def split: if_splits option.splits)
  define r where "r = new_change i c actor k' reason"
  have r: "s' = s\<lparr>fs_requests := fs_requests s @ [r], fs_events := fs_events s @ [(i, EvRequested, actor)]\<rparr>"
    "cg_id r = i" "cg_approver r = None" "cg_rejecter r = None" "cg_status r = CPending"
    "i \<notin> cg_id ` set (fs_requests s)" "cg_key r \<notin> cg_key ` set (fs_requests s)"
    using c by (auto simp: r_def new_change_def list_ex_iff find_None_iff)
  have "change_of i s = None" using r(6) by (simp add: change_of_None)
  then have known: "change_of j s' = (if j = i then Some r else change_of j s)" for j
    using r(1,2) by (auto simp: change_of_def find_append split: option.split)
  have fresh: "(i, ev, a) \<notin> set (fs_events s)" for ev a using applied_log_known [OF inv] change_of_mem r(6) by fastforce
  have "fs_events s' = fs_events s @ [(i, EvRequested, actor)]" "change_of i s' = Some r" using r(1) known by simp_all
  moreover have "map_option cg_change (change_of j s') = map_option cg_change (change_of j s)" if "j \<in> fst ` set (fs_events s)" for j
    using that known fresh by force
  ultimately have log: "applied_log s' = applied_log s" using applied_log_grows [OF inv] by simp
  have rows: "cg_approver x \<noteq> Some (cg_requester x) \<and> cg_rejecter x \<noteq> Some (cg_requester x) \<and> (cg_status x = CApplied \<longleftrightarrow> cg_approver x \<noteq> None)
      \<and> (\<forall>a. (cg_id x, EvApplied, a) \<in> set (fs_events s') \<longleftrightarrow> cg_approver x = Some a)" if x: "x \<in> set (fs_requests s')" for x
  proof (cases "x \<in> set (fs_requests s)")
    case True
    then show ?thesis using inv by (auto simp: config_inv_def r(1))
  next
    case False
    then show ?thesis using x r fresh by auto
  qed
  have "distinct (map cg_id (fs_requests s'))" "distinct (map cg_key (fs_requests s'))" using inv r by (auto simp: config_inv_def)
  moreover have "(fs_health s', fs_catalog s') = replay_log (applied_log s')" using inv log by (simp add: config_inv_def r(1))
  moreover have "\<forall>(j, ev, a) \<in> set (fs_events s'). change_of j s' \<noteq> None" using inv known by (auto simp: config_inv_def r(1))
  ultimately show ?thesis using rows unfolding config_inv_def by blast
qed

text \<open>A decision of somebody else on a pending change: both approval and rejection are one.\<close>

lemma decision_inv:
  assumes inv: "config_inv s" and r: "change_of i s = Some r" "cg_status r = CPending" "cg_requester r \<noteq> actor"
    and f: "f = (\<lambda>r. if ok then r\<lparr>cg_status := CApplied, cg_approver := Some actor\<rparr> else r\<lparr>cg_status := CRejected, cg_rejecter := Some actor\<rparr>)"
    and t: "fs_requests t = fs_requests (set_change i f s)" "fs_events t = fs_events s @ [(i, if ok then EvApplied else EvRejected, actor)]"
      "(fs_health t, fs_catalog t) = (if ok then applyChange (cg_change r) actor (fs_health s, fs_catalog s) else (fs_health s, fs_catalog s))"
  shows "config_inv t"
proof -
  have f_id [simp]: "cg_id (f x) = cg_id x" "cg_key (f x) = cg_key x" "cg_change (f x) = cg_change x" "cg_requester (f x) = cg_requester x" for x
    by (simp_all add: f)
  have known: "change_of j t = map_option (\<lambda>r. if j = i then f r else r) (change_of j s)" for j
    using change_of_set_change [of f j i s] t(1) by (simp add: change_of_def)
  note rm = change_of_mem [OF r(1)]
  have pend: "cg_approver r = None" "\<And>a. (i, EvApplied, a) \<notin> set (fs_events s)" "cg_rejecter r \<noteq> Some (cg_requester r)"
    using inv rm r(2) by (auto simp: config_inv_def)
  have log: "applied_log t = applied_log s @ (if ok then [(cg_change r, actor)] else [])"
    using applied_log_grows [OF inv t(2), of "f r"] known r(1) by (simp add: option.map_comp comp_def if_distrib [of cg_change] cong: if_cong)
  have "replay_log (applied_log s) = (fs_health s, fs_catalog s)" using inv by (simp add: config_inv_def)
  then have tables: "(fs_health t, fs_catalog t) = replay_log (applied_log t)" unfolding log t(3) by (simp add: replay_log_append)
  have ids: "map cg_id (fs_requests t) = map cg_id (fs_requests s)" "map cg_key (fs_requests t) = map cg_key (fs_requests s)"
    by (simp_all add: t(1) set_change_def)
  have rows: "cg_approver x \<noteq> Some (cg_requester x) \<and> cg_rejecter x \<noteq> Some (cg_requester x) \<and> (cg_status x = CApplied \<longleftrightarrow> cg_approver x \<noteq> None)
      \<and> (\<forall>a. (cg_id x, EvApplied, a) \<in> set (fs_events t) \<longleftrightarrow> cg_approver x = Some a)" if x: "x \<in> set (fs_requests t)" for x
  proof -
    obtain y where y: "y \<in> set (fs_requests s)" "x = (if cg_id y = i then f y else y)" using x by (auto simp: t(1) set_change_def)
    show ?thesis
    proof (cases "cg_id y = i")
      case True
      then have "y = r" using change_unique [OF inv y(1)] r(1) by simp
      then show ?thesis using y(2) True pend r(2,3) rm by (auto simp: f t(2))
    next
      case False
      then show ?thesis using y inv by (auto simp: config_inv_def t(2))
    qed
  qed
  have "\<forall>(j, ev, a) \<in> set (fs_events t). change_of j t \<noteq> None" using inv known r(1) by (auto simp: config_inv_def t(2))
  moreover have "distinct (map cg_id (fs_requests t))" "distinct (map cg_key (fs_requests t))" using inv ids by (simp_all add: config_inv_def)
  ultimately show ?thesis using tables rows unfolding config_inv_def by blast
qed

lemma approve_inv:
  assumes inv: "config_inv s" and run: "approvePaymentConfigChange raw_id actor s = (reply, s')"
  shows "config_inv s'"
proof (cases "s' = s")
  case True
  then show ?thesis using inv by simp
next
  case False
  then obtain r where r: "change_of (toLowerCase (js_trim raw_id)) s = Some r" "cg_status r = CPending" "cg_requester r \<noteq> actor"
    "s' = commit_change (toLowerCase (js_trim raw_id)) r actor s"
    using run by (auto simp: approvePaymentConfigChange_def Let_def split: if_splits option.splits)
  show ?thesis
    by (rule decision_inv [OF inv r(1-3) refl, where ok = True]) (simp_all add: r(4) commit_change_def Let_def set_change_def)
qed

lemma reject_change_inv:
  assumes inv: "config_inv s" and run: "rejectPaymentConfigChange raw_id reason actor s = (reply, s')"
  shows "config_inv s'"
proof (cases "s' = s")
  case True
  then show ?thesis using inv by simp
next
  case False
  then obtain r where r: "change_of (toLowerCase (js_trim raw_id)) s = Some r" "cg_status r = CPending" "cg_requester r \<noteq> actor"
    "s' = (set_change (toLowerCase (js_trim raw_id)) (\<lambda>r. r\<lparr>cg_status := CRejected, cg_rejecter := Some actor\<rparr>) s)
       \<lparr>fs_events := fs_events s @ [(toLowerCase (js_trim raw_id), EvRejected, actor)]\<rparr>"
    using run by (auto simp: rejectPaymentConfigChange_def Let_def split: if_splits option.splits)
  show ?thesis
    by (rule decision_inv [OF inv r(1-3) refl, where ok = False]) (simp_all add: r(4) set_change_def)
qed

text \<open>The contract of an operation on the configuration, and the sequences of its requests.\<close>

locale config_operation =
  fixes op :: "'q \<Rightarrow> config_store \<Rightarrow> change_reply \<times> config_store"
  assumes keeps: "config_inv s \<Longrightarrow> op q s = (r, s') \<Longrightarrow> config_inv s'"
begin

lemma run_keeps: "config_inv s \<Longrightarrow> config_inv (snd (op q s))"
  using keeps [OF _ prod.collapse [symmetric]] .

lemma serve_keeps: "config_inv s \<Longrightarrow> config_inv (fold (\<lambda>q s. snd (op q s)) qs s)"
  by (induction qs arbitrary: s) (simp_all add: run_keeps)

end

interpretation asked: config_operation "\<lambda>(i, health, k, b, actor). requestPaymentConfigChange i health k b actor"
  by unfold_locales (simp add: request_inv split: prod.splits)

interpretation approved: config_operation "\<lambda>(i, actor). approvePaymentConfigChange i actor"
  by unfold_locales (simp add: approve_inv split: prod.splits)

interpretation rejected: config_operation "\<lambda>(i, reason, actor). rejectPaymentConfigChange i reason actor"
  by unfold_locales (simp add: reject_change_inv split: prod.splits)

lemma config_step_inv: "config_step s s' \<Longrightarrow> config_inv s \<Longrightarrow> config_inv s'"
proof (induction rule: config_step.induct)
  case (Request s i health k b actor)
  then show ?case using asked.run_keeps [of s "(i, health, k, b, actor)"] by simp
next
  case (Approve s i actor)
  then show ?case using approved.run_keeps [of s "(i, actor)"] by simp
next
  case (Reject s i reason actor)
  then show ?case using rejected.run_keeps [of s "(i, reason, actor)"] by simp
qed

lemma config_reachable_inv: "config_reachable s \<Longrightarrow> config_inv s"
proof -
  assume "config_reachable s"
  then have "config_step\<^sup>*\<^sup>* \<lparr>fs_requests = [], fs_events = [], fs_health = [], fs_catalog = []\<rparr> s" by (simp add: config_reachable_def)
  moreover have "config_inv \<lparr>fs_requests = [], fs_events = [], fs_health = [], fs_catalog = []\<rparr>"
    by (simp add: config_inv_def applied_log_def replay_log_def)
  ultimately show ?thesis by (induction rule: rtranclp_induct) (simp_all add: config_step_inv)
qed

section \<open>What is in effect\<close>

text \<open>
  The specification: the health of a provider is what was approved last for it, a method of the catalogue has its last approved terms and
  a version that counts its approvals.
\<close>

definition health_of :: "config_change \<Rightarrow> uuid \<Rightarrow> health_row" where
  "health_of c actor = \<lparr>hp_provider = hc_provider c, hp_state = hc_state c, hp_allow = (hc_state c = ''healthy''), hp_reason = hc_reason c, hp_by = actor\<rparr>"

definition method_key :: "config_change \<Rightarrow> string \<times> string \<times> string \<times> string" where
  "method_key c = (mc_market c, mc_currency c, mc_method c, mc_provider c)"

definition method_of :: "config_change \<Rightarrow> nat \<Rightarrow> catalog_row" where
  "method_of c v = \<lparr>pc_market = mc_market c, pc_currency = mc_currency c, pc_method = mc_method c, pc_provider = mc_provider c, pc_enabled = mc_enabled c,
     pc_min = mc_min c, pc_max = mc_max c, pc_version = v\<rparr>"

definition row_key :: "catalog_row \<Rightarrow> string \<times> string \<times> string \<times> string" where
  "row_key x = (pc_market x, pc_currency x, pc_method x, pc_provider x)"

definition health_view :: "(config_change \<times> uuid) list \<Rightarrow> string \<Rightarrow> health_row option" where
  "health_view cs p =
     (let mine = filter (\<lambda>(c, _). is_ProviderHealth c \<and> hc_provider c = p) cs in if mine = [] then None else Some (case_prod health_of (last mine)))"

definition catalog_view :: "(config_change \<times> uuid) list \<Rightarrow> string \<times> string \<times> string \<times> string \<Rightarrow> catalog_row option" where
  "catalog_view cs k =
     (let mine = filter (\<lambda>(c, _). \<not> is_ProviderHealth c \<and> method_key c = k) cs in if mine = [] then None else Some (method_of (fst (last mine)) (length mine)))"

lemma find_put_health: "find (\<lambda>x. hp_provider x = p) (put_health h hs) = (if hp_provider h = p then Some h else find (\<lambda>x. hp_provider x = p) hs)"
proof (cases "list_ex (\<lambda>x. hp_provider x = hp_provider h) hs")
  case True
  have put: "find (\<lambda>x. hp_provider x = p) (put_health h hs) = map_option (\<lambda>x. if hp_provider x = hp_provider h then h else x) (find (\<lambda>x. hp_provider x = p) hs)"
    using True by (simp add: put_health_def find_map_id)
  obtain y where y: "y \<in> set hs" "hp_provider y = hp_provider h" using True by (auto simp: list_ex_iff)
  show ?thesis
  proof (cases "find (\<lambda>x. hp_provider x = p) hs")
    case None
    then have "hp_provider h \<noteq> p" using find_NoneD [OF None y(1)] y(2) by simp
    then show ?thesis using put None by simp
  next
    case (Some x)
    then have "hp_provider x = p" using find_SomeD by fastforce
    then show ?thesis using put Some by auto
  qed
next
  case False
  then have "hp_provider h = p \<Longrightarrow> find (\<lambda>x. hp_provider x = p) hs = None" by (auto simp: find_None_iff list_ex_iff)
  then show ?thesis using False by (auto simp: put_health_def find_append split: option.split)
qed

lemma same_method_key: "same_method x y \<longleftrightarrow> row_key y = row_key x"
  by (auto simp: same_method_def row_key_def)

lemma find_put_catalog:
  "find (\<lambda>x. row_key x = k) (put_catalog c cs) =
     (if row_key c = k then Some (case find (\<lambda>x. row_key x = k) cs of None \<Rightarrow> c | Some o' \<Rightarrow> c\<lparr>pc_version := pc_version o' + 1\<rparr>)
      else find (\<lambda>x. row_key x = k) cs)"
proof (cases "list_ex (same_method c) cs")
  case True
  have v [simp]: "row_key (c\<lparr>pc_version := n\<rparr>) = row_key c" for n by (simp add: row_key_def)
  have put: "find (\<lambda>x. row_key x = k) (put_catalog c cs)
      = map_option (\<lambda>x. if same_method c x then c\<lparr>pc_version := pc_version x + 1\<rparr> else x) (find (\<lambda>x. row_key x = k) cs)"
    using True by (simp add: put_catalog_def find_map_id same_method_key)
  obtain y where y: "y \<in> set cs" "row_key y = row_key c" using True by (auto simp: list_ex_iff same_method_key)
  show ?thesis
  proof (cases "find (\<lambda>x. row_key x = k) cs")
    case None
    then have "row_key c \<noteq> k" using find_NoneD [OF None y(1)] y(2) by simp
    then show ?thesis using put None by simp
  next
    case (Some x)
    then have "row_key x = k" using find_SomeD by fastforce
    then show ?thesis using put Some by (auto simp: same_method_key)
  qed
next
  case False
  then have "row_key c = k \<Longrightarrow> find (\<lambda>x. row_key x = k) cs = None" by (auto simp: find_None_iff list_ex_iff same_method_key)
  then show ?thesis using False by (auto simp: put_catalog_def find_append split: option.split)
qed

lemma replay_views:
  "find (\<lambda>x. hp_provider x = p) (fst (replay_log cs)) = health_view cs p \<and> find (\<lambda>x. row_key x = k) (snd (replay_log cs)) = catalog_view cs k"
proof (induction cs rule: rev_induct)
  case Nil
  then show ?case by (simp add: replay_log_def health_view_def catalog_view_def)
next
  case (snoc x cs)
  obtain c actor where x: "x = (c, actor)" by (cases x)
  obtain hs ms where rl: "replay_log cs = (hs, ms)" by force
  note ih = snoc.IH [unfolded rl fst_conv snd_conv]
  show ?case
  proof (cases c)
    case (ProviderHealth provider st reason)
    have "replay_log (cs @ [x]) = (put_health (health_of c actor) hs, ms)"
      by (simp add: x replay_log_append rl applyChange_def ProviderHealth health_of_def)
    then show ?thesis using ih by (simp add: find_put_health x ProviderHealth health_view_def catalog_view_def health_of_def)
  next
    case (MethodCatalog market currency meth provider en lo hi)
    have "replay_log (cs @ [x]) = (hs, put_catalog (method_of c 1) ms)"
      by (simp add: x replay_log_append rl applyChange_def MethodCatalog method_of_def)
    moreover have "row_key (method_of c 1) = method_key c" "(method_of c 1)\<lparr>pc_version := n\<rparr> = method_of c n" for n by (simp_all add: row_key_def method_of_def method_key_def)
    ultimately show ?thesis using ih by (auto simp: find_put_catalog x MethodCatalog health_view_def catalog_view_def Let_def method_of_def)
  qed
qed

lemma log_request: "config_inv s \<Longrightarrow> (c, actor) \<in> set (applied_log s) \<Longrightarrow>
    \<exists>r \<in> set (fs_requests s). cg_change r = c \<and> cg_approver r = Some actor \<and> cg_status r = CApplied \<and> actor \<noteq> cg_requester r"
proof -
  assume inv: "config_inv s" and l: "(c, actor) \<in> set (applied_log s)"
  then obtain i where i: "(i, EvApplied, actor) \<in> set (fs_events s)" "map_option cg_change (change_of i s) = Some c"
    by (auto simp: applied_log_def List.map_filter_def log_entry_def split: if_splits)
  then obtain r where r: "change_of i s = Some r" "cg_change r = c" by auto
  note rm = change_of_mem [OF r(1)]
  then have "cg_approver r = Some actor" "cg_approver r \<noteq> Some (cg_requester r)" "cg_status r = CApplied" using inv i(1) by (auto simp: config_inv_def)
  then show ?thesis using rm r(2) by auto
qed

lemma config_refines_base:
  assumes inv: "config_inv s"
  shows "find (\<lambda>x. hp_provider x = p) (fs_health s) = health_view (applied_log s) p \<and> find (\<lambda>x. row_key x = k) (fs_catalog s) = catalog_view (applied_log s) k"
proof -
  have "replay_log (applied_log s) = (fs_health s, fs_catalog s)" using inv by (simp add: config_inv_def)
  then show ?thesis using replay_views [of p "applied_log s" k] by simp
qed



section \<open>A concrete change\<close>

definition demo_body :: change_body where
  "demo_body = \<lparr>cb_provider = Some ''Midtrans'', cb_state = Some ''disabled'', cb_reason = Some ''down'', cb_market = None, cb_currency = None,
     cb_method = None, cb_enabled = None, cb_min = None, cb_max = None\<rparr>"

definition demo_change_id :: uuid where
  "demo_change_id = ''aaaaaaaa-aaaa-1aaa-8aaa-aaaaaaaaaaaa''"

definition demo_asked :: config_store where
  "demo_asked = snd (requestPaymentConfigChange demo_change_id True (Some ''k'') demo_body ''maker'' \<lparr>fs_requests = [], fs_events = [], fs_health = [], fs_catalog = []\<rparr>)"

definition demo_applied :: config_store where
  "demo_applied = snd (approvePaymentConfigChange demo_change_id ''checker'' demo_asked)"

lemma demo_applied_reachable: "config_reachable demo_applied"
proof -
  have "config_step \<lparr>fs_requests = [], fs_events = [], fs_health = [], fs_catalog = []\<rparr> demo_asked" unfolding demo_asked_def by (rule config_step.Request)
  moreover have "config_step demo_asked demo_applied" unfolding demo_applied_def by (rule config_step.Approve)
  ultimately show ?thesis unfolding config_reachable_def by (meson converse_rtranclp_into_rtranclp rtranclp.rtrancl_refl)
qed



end
