(* ===== verification/WalletHold.thy ===== *)
theory WalletHold
  imports Prelude
begin

text \<open>
  Appeals against penalties of couriers (\<open>updatePenaltyAppeal\<close> of \<open>controllers/driverWalletHold.controller.ts\<close>): a penalty holds an amount
  of the wallet, and an approved appeal releases it.  The statements run one after the other without a transaction; \<open>reaches\<close> says whether
  those after the first one reach the database.  The list of holds is a plain query and left out.
\<close>

record penalty_row =
  pn_id :: uuid
  pn_driver :: uuid
  pn_amount :: int
  pn_appeal :: string
  pn_note :: "string option"

record hold_wallet =
  hw_courier :: uuid
  hw_balance :: int
  hw_hold :: int

record hold_store =
  hs_penalties :: "penalty_row list"
  hs_profiles :: "(uuid \<times> uuid) list"
  hs_wallets :: "hold_wallet list"

datatype appeal_reply = AppealRefused nat | AppealDone penalty_row

definition penalty_of :: "uuid \<Rightarrow> hold_store \<Rightarrow> penalty_row option" where
  "penalty_of i s = find (\<lambda>p. pn_id p = i) (hs_penalties s)"

text \<open>The wallets of the courier: the amount moves from the hold, as far as there is one, to the balance.\<close>

definition release_wallet :: "int \<Rightarrow> hold_wallet \<Rightarrow> hold_wallet" where
  "release_wallet amount w = w\<lparr>hw_balance := hw_balance w + amount, hw_hold := max (hw_hold w - amount) 0\<rparr>"

definition release_hold :: "penalty_row \<Rightarrow> hold_store \<Rightarrow> hold_store" where
  "release_hold p s =
     (case map_of (hs_profiles s) (pn_driver p) of None \<Rightarrow> s
      | Some user \<Rightarrow> s\<lparr>hs_wallets := map (\<lambda>w. if hw_courier w = user then release_wallet (pn_amount p) w else w) (hs_wallets s)\<rparr>)"

definition decide_penalty :: "uuid \<Rightarrow> string \<Rightarrow> string option \<Rightarrow> hold_store \<Rightarrow> hold_store" where
  "decide_penalty i st note s =
     s\<lparr>hs_penalties := map (\<lambda>p. if pn_id p = i then p\<lparr>pn_appeal := st, pn_note := (if str_or note [] = [] then None else note)\<rparr> else p) (hs_penalties s)\<rparr>"

definition updatePenaltyAppeal :: "bool \<Rightarrow> uuid \<Rightarrow> string \<Rightarrow> string option \<Rightarrow> hold_store \<Rightarrow> appeal_reply \<times> hold_store" where
  "updatePenaltyAppeal reaches i st note s =
     (if st \<noteq> ''approved'' \<and> st \<noteq> ''rejected'' then (AppealRefused 400, s)
      else (let s1 = decide_penalty i st note s in
        case penalty_of i s1 of None \<Rightarrow> (AppealRefused 404, s1)
        | Some p \<Rightarrow>
            if st \<noteq> ''approved'' then (AppealDone p, s1)
            else if \<not> reaches then (AppealRefused 500, s1)
            else (AppealDone p, release_hold p s1)))"

section \<open>Money of a courier\<close>

definition held_money :: "uuid \<Rightarrow> hold_store \<Rightarrow> int" where
  "held_money user s = (\<Sum>w \<leftarrow> filter (\<lambda>w. hw_courier w = user) (hs_wallets s). hw_balance w + hw_hold w)"

definition free_money :: "uuid \<Rightarrow> hold_store \<Rightarrow> int" where
  "free_money user s = (\<Sum>w \<leftarrow> filter (\<lambda>w. hw_courier w = user) (hs_wallets s). hw_balance w)"

lemma penalty_of_decide: "penalty_of i (decide_penalty i st note s) = map_option (\<lambda>p. p\<lparr>pn_appeal := st, pn_note := (if str_or note [] = [] then None else note)\<rparr>) (penalty_of i s)"
proof -
  let ?f = "\<lambda>p. if pn_id p = i then p\<lparr>pn_appeal := st, pn_note := (if str_or note [] = [] then None else note)\<rparr> else p"
  have "penalty_of i (decide_penalty i st note s) = map_option ?f (penalty_of i s)"
    by (simp add: penalty_of_def decide_penalty_def find_map_id)
  moreover have "pn_id p = i" if "penalty_of i s = Some p" for p using that find_SomeD by (fastforce simp: penalty_of_def)
  ultimately show ?thesis by (cases "penalty_of i s") simp_all
qed

lemma release_free:
  assumes "map_of (hs_profiles s) (pn_driver p) = Some user"
  shows "free_money user (release_hold p s) = free_money user s + pn_amount p * int (length (filter (\<lambda>w. hw_courier w = user) (hs_wallets s)))"
proof -
  have "(\<Sum>w \<leftarrow> filter (\<lambda>w. hw_courier w = user) (map (\<lambda>w. if hw_courier w = user then release_wallet a w else w) ws). hw_balance w)
      = (\<Sum>w \<leftarrow> filter (\<lambda>w. hw_courier w = user) ws. hw_balance w) + a * int (length (filter (\<lambda>w. hw_courier w = user) ws))" for ws a
    by (induction ws) (auto simp: release_wallet_def algebra_simps)
  then show ?thesis using assms by (simp add: free_money_def release_hold_def)
qed

lemma release_total:
  assumes "map_of (hs_profiles s) (pn_driver p) = Some user" and "\<forall>w \<in> set (hs_wallets s). hw_courier w = user \<longrightarrow> pn_amount p \<le> hw_hold w"
  shows "held_money user (release_hold p s) = held_money user s"
proof -
  have "(\<forall>w \<in> set ws. hw_courier w = user \<longrightarrow> a \<le> hw_hold w) \<Longrightarrow>
      (\<Sum>w \<leftarrow> filter (\<lambda>w. hw_courier w = user) (map (\<lambda>w. if hw_courier w = user then release_wallet a w else w) ws). hw_balance w + hw_hold w)
      = (\<Sum>w \<leftarrow> filter (\<lambda>w. hw_courier w = user) ws. hw_balance w + hw_hold w)" for ws a
    by (induction ws) (auto simp: release_wallet_def)
  then show ?thesis using assms by (simp add: held_money_def release_hold_def)
qed

text \<open>
  An approved appeal of a courier with one wallet that holds the amount frees exactly the amount, and what the courier owns in all stays
  the same.
\<close>

theorem appeal_releases_hold:
  assumes p: "penalty_of i s = Some p" "map_of (hs_profiles s) (pn_driver p) = Some user"
    and w: "filter (\<lambda>w. hw_courier w = user) (hs_wallets s) = [w]" "pn_amount p \<le> hw_hold w"
    and run: "updatePenaltyAppeal True i ''approved'' note s = (r, s')"
  shows "free_money user s' = free_money user s + pn_amount p \<and> held_money user s' = held_money user s \<and> map_option pn_appeal (penalty_of i s') = Some ''approved''"
proof -
  let ?s1 = "decide_penalty i ''approved'' note s" and ?p = "p\<lparr>pn_appeal := ''approved'', pn_note := (if str_or note [] = [] then None else note)\<rparr>"
  have p1: "penalty_of i ?s1 = Some ?p" using p(1) by (simp add: penalty_of_decide)
  then have s': "s' = release_hold ?p ?s1" using run by (simp add: updatePenaltyAppeal_def)
  have same: "hs_profiles ?s1 = hs_profiles s" "hs_wallets ?s1 = hs_wallets s" by (simp_all add: decide_penalty_def)
  have "hs_penalties s' = hs_penalties ?s1" by (simp add: s' release_hold_def split: option.split)
  then have "penalty_of i s' = Some ?p" using p1 by (simp add: penalty_of_def)
  moreover have "free_money user s' = free_money user s + pn_amount p"
    using release_free [of ?s1 ?p user] p(2) w(1) same by (simp add: s' free_money_def)
  moreover have "w' \<in> set (hs_wallets s) \<Longrightarrow> hw_courier w' = user \<Longrightarrow> w' = w" for w'
  proof -
    assume "w' \<in> set (hs_wallets s)" "hw_courier w' = user"
    then have "w' \<in> set (filter (\<lambda>w. hw_courier w = user) (hs_wallets s))" by simp
    then show "w' = w" unfolding w(1) by simp
  qed
  then have "\<forall>v \<in> set (hs_wallets ?s1). hw_courier v = user \<longrightarrow> pn_amount ?p \<le> hw_hold v" using w(2) same(2) by fastforce
  then have "held_money user s' = held_money user ?s1" unfolding s' using p(2) same(1) by (intro release_total) simp_all
  then have "held_money user s' = held_money user s" using same(2) by (simp add: held_money_def)
  ultimately show ?thesis by simp
qed

text \<open>Approving the same appeal again releases the amount again, although nothing is held any more.\<close>

theorem approved_twice_pays_twice:
  assumes p: "penalty_of i s = Some p" "map_of (hs_profiles s) (pn_driver p) = Some user"
    and w: "filter (\<lambda>w. hw_courier w = user) (hs_wallets s) = [w]"
    and s': "s' = snd (updatePenaltyAppeal True i ''approved'' note s)" and s'': "s'' = snd (updatePenaltyAppeal True i ''approved'' note' s')"
  shows "free_money user s'' = free_money user s + 2 * pn_amount p"
proof -
  have step: "free_money user t' = free_money user t + pn_amount q \<and> map_option pn_amount (penalty_of i t') = Some (pn_amount q)
      \<and> map_option pn_driver (penalty_of i t') = Some (pn_driver q) \<and> hs_profiles t' = hs_profiles t \<and> (\<exists>w. filter (\<lambda>w. hw_courier w = user) (hs_wallets t') = [w])"
    if q: "penalty_of i t = Some q" "map_of (hs_profiles t) (pn_driver q) = Some user" "filter (\<lambda>w. hw_courier w = user) (hs_wallets t) = [v]"
      and t': "t' = snd (updatePenaltyAppeal True i ''approved'' n t)" for t t' q v n
  proof -
    let ?t1 = "decide_penalty i ''approved'' n t" and ?q = "q\<lparr>pn_appeal := ''approved'', pn_note := (if str_or n [] = [] then None else n)\<rparr>"
    have q1: "penalty_of i ?t1 = Some ?q" using q(1) by (simp add: penalty_of_decide)
    then have r: "t' = release_hold ?q ?t1" by (simp add: t' updatePenaltyAppeal_def)
    have same: "hs_profiles ?t1 = hs_profiles t" "hs_wallets ?t1 = hs_wallets t" by (simp_all add: decide_penalty_def)
    have f: "free_money user t' = free_money user t + pn_amount q" using release_free [of ?t1 ?q user] q(2,3) same by (simp add: r free_money_def)
    have "hs_wallets t' = map (\<lambda>w. if hw_courier w = user then release_wallet (pn_amount q) w else w) (hs_wallets t)"
      "hs_penalties t' = hs_penalties ?t1" "hs_profiles t' = hs_profiles t"
      using q(2) same by (simp_all add: r release_hold_def)
    moreover have "filter (\<lambda>w. hw_courier w = user) (map (\<lambda>w. if hw_courier w = user then release_wallet a w else w) ws)
        = map (release_wallet a) (filter (\<lambda>w. hw_courier w = user) ws)" for a ws
      by (induction ws) (auto simp: release_wallet_def)
    ultimately show ?thesis using f q(3) q1 by (simp add: penalty_of_def)
  qed
  from step [OF p w s'] obtain v where a: "free_money user s' = free_money user s + pn_amount p" "map_option pn_amount (penalty_of i s') = Some (pn_amount p)"
    "map_option pn_driver (penalty_of i s') = Some (pn_driver p)" "hs_profiles s' = hs_profiles s" "filter (\<lambda>w. hw_courier w = user) (hs_wallets s') = [v]"
    by blast
  then obtain q where q: "penalty_of i s' = Some q" "pn_amount q = pn_amount p" "pn_driver q = pn_driver p" by auto
  from step [OF q(1) _ a(5) s''] show ?thesis using a q p(2) by simp
qed

definition demo_hold :: hold_store where
  "demo_hold = \<lparr>hs_penalties = [\<lparr>pn_id = ''p'', pn_driver = ''d'', pn_amount = 3, pn_appeal = ''submitted'', pn_note = None\<rparr>],
     hs_profiles = [(''d'', ''u'')], hs_wallets = [\<lparr>hw_courier = ''u'', hw_balance = 1, hw_hold = 3\<rparr>]\<rparr>"

theorem appeal_releases_hold_witness: "free_money ''u'' (snd (updatePenaltyAppeal True ''p'' ''approved'' None demo_hold)) = 4"
proof -
  have "free_money ''u'' demo_hold = 1" by code_simp
  then show ?thesis
    using appeal_releases_hold [of "''p''" demo_hold _ "''u''" "\<lparr>hw_courier = ''u'', hw_balance = 1, hw_hold = 3\<rparr>" None, OF _ _ _ _ prod.collapse [symmetric]]
    by (simp add: demo_hold_def penalty_of_def)
qed

theorem approved_twice_pays_twice_witness:
  "free_money ''u'' (snd (updatePenaltyAppeal True ''p'' ''approved'' None (snd (updatePenaltyAppeal True ''p'' ''approved'' None demo_hold)))) = 7"
proof -
  have "free_money ''u'' demo_hold = 1" by code_simp
  then show ?thesis
    using approved_twice_pays_twice [of "''p''" demo_hold _ "''u''" "\<lparr>hw_courier = ''u'', hw_balance = 1, hw_hold = 3\<rparr>", OF _ _ _ refl refl]
    by (simp add: demo_hold_def penalty_of_def)
qed

end
