(* ===== verification/Spec2Isabelle.thy ===== *)
theory Spec2Isabelle
  imports PayoutRecon Resilience AuthProtection Idempotency PromoLifecycle EventOutbox BroadcastDelivery PaymentProperties LoyaltyProperties PaymentConfig
    WalletHold
begin

text \<open>
  LANCAR is a delivery platform: courier and customer apps talk through a gateway to an admin service
  (\<open>src/backend/admin-service/src\<close>, below \<open>AS\<close>) over PostgreSQL.  This development models the parts of
  the admin service that move money or decide who may act, and proves what they promise.

  \<^bold>\<open>Prelude.\<close>  \<open>Prelude\<close> holds the JavaScript operations on texts and numbers that the services share
  (trim, upper case, \<open>Number\<close>, truncation), the type synonyms of the model (\<open>uuid\<close>, \<open>instant\<close>), and
  generic lemmas.  \<open>JsonText\<close> models JSON values and the stable rendering that is hashed, \<open>JsDouble\<close>
  rounds rationals to IEEE doubles, for the places where a percentage of an amount is computed, and \<open>Requests\<close> reads ids, codes
  and integers from requests.

  \<^bold>\<open>Courier payouts.\<close>  A courier asks for a payout of the ledger balance; a risk engine decides, an
  administrator may review, a dispatcher sends approved payouts to a payment gateway, and a webhook or a
  poll reports the result.
  \<^item> \<open>PayoutStatus\<close>: \<open>AS/services/payoutStatusPolicy.ts\<close>, \<open>paymentExceptionPolicy.ts\<close>.
  \<^item> \<open>PayoutLedger\<close>: \<open>AS/services/payoutLedger.ts\<close>, the balance as a sum of entries.
  \<^item> \<open>PayoutStore\<close>: the payout tables, their constraints and shared SQL; one record field per table.
  \<^item> \<open>PayoutAlerts\<close>: the alert checks of \<open>AS/utils/payoutObservability.ts\<close>.
  \<^item> \<open>PayoutEffects\<close>: the abstract specification.  \<open>effect\<close> lists what an operation may do to a payout
    (hold its amount, settle it, refund it once, dispatch it once); the locale \<open>payout_operation\<close> states
    that an operation is made of such effects, and every handler is interpreted in it.
  \<^item> \<open>PayoutRisk\<close>, \<open>PayoutRequest\<close>, \<open>PayoutReview\<close>, \<open>PayoutDispatch\<close>, \<open>PayoutWebhook\<close>: the risk engine,
    the database function and create handler, the admin handlers, the provider dispatcher and the webhook.
  \<^item> \<open>PayoutLifecycle\<close>: all handlers as one step relation.  In every reachable store the ledger rows of a
    payout cancel out or hold its amount, a payout is dispatched once, and one that ended without payment
    is refunded.
  \<^item> \<open>PayoutRecon\<close>: \<open>AS/services/payoutReconciliation.ts\<close>, with the checks that find nothing on reachable
    stores.

  \<^bold>\<open>Promotions.\<close>  Campaigns with budgets are quoted and reserved at checkout, redeemed when the order
  is paid, and released or reversed when it is not.
  \<^item> \<open>PromoStore\<close>: tables, request schema, queries, discount and margin of \<open>AS/services/promoEngine.ts\<close>.
  \<^item> \<open>PromoCheckout\<close>: one campaign (\<open>validatePromoForCheckout\<close>, split into the quote that reads and the
    transaction that writes), the release, and the choice and reservation of a combination.
  \<^item> \<open>PromoOrders\<close>: the promotion steps of the order controllers, and \<open>promo_inv\<close>, which ties the budget
    counters to the redemptions; the locales \<open>row_operation\<close> and \<open>promo_operation\<close> state that an operation
    keeps it, and every operation is interpreted in them.
  \<^item> \<open>PromoCampaign\<close>: the life of a campaign from draft to publication.
  \<^item> \<open>PromoLifecycle\<close>: all operations as one step relation whose reservations commit quotes of earlier
    states.  Counters are the sums of their redemptions and stay within the budget; the limit per user
    holds for reservations that do not overlap, and fails for those that do.

  \<^bold>\<open>On-demand deliveries.\<close>  Orders are offered to couriers one after the other; a courier accepts, proves pickup and
  delivery, and is credited.
  \<^item> \<open>CourierEarnings\<close>: \<open>AS/services/courierEarningsPolicy.ts\<close> and the triggers that price and credit a leg; both
    compute the same components for policies with every compensation enabled.
  \<^item> \<open>Fleet\<close>: the tables, one record per row type, and the jobs of a courier.
  \<^item> \<open>OfferDispatch\<close>: eligibility, ranking, offers, expiry and the queue (\<open>AS/controllers/courier/courierOnDemand.controller.ts\<close>,
    \<open>AS/workers/customer-scheduled-order-worker.ts\<close>), and \<open>fleet_inv\<close>, the invariant of the deliveries.
  \<^item> \<open>OfferResponse\<close>: \<open>AS/controllers/courier/courierOffer.controller.ts\<close>, acceptance and rejection.
  \<^item> \<open>DeliveryProof\<close>: \<open>verifyOnDemandStep\<close> of \<open>AS/controllers/courier/_shared.ts\<close> with every check, face verification and service
    reports of \<open>courierProof.controller.ts\<close>.
  \<^item> \<open>DeliveryChanges\<close>: status updates and pickup cancellations of couriers (\<open>courierAccount.controller.ts\<close>), cancellations by
    customers and administrators.
  \<^item> \<open>DeliveryLifecycle\<close>: all operations as one step relation; the locale \<open>fleet_operation\<close> states that an operation keeps the
    invariant and the orders that have ended, and every operation is interpreted in it.  An order has one courier at a time, and one outside of a
    batch that has ended stays as it is.
  Geography, the eligibility functions of the database (documents, presence, capabilities), locks held by others, random ids and
  the refunds of the order service are fields of \<open>match_env\<close> or arguments.

  \<^bold>\<open>Customer payments.\<close>  A customer pays an order from the own balance (LAPAY) or in a session at the payment provider; the
  provider notifies, or the customer asks for confirmation.
  \<^item> \<open>WebhookSecurity\<close>: \<open>AS/security/webhookSecurity.ts\<close> and the audit table, shared with the payout webhook.
  \<^item> \<open>Payments\<close>: payments, wallets and wallet ledger beside the tables of deliveries, promotions and outbox; what the customer is shown,
    LAPAY and provider sessions (\<open>AS/controllers/order/_shared.ts\<close>, \<open>AS/midtrans.ts\<close>, \<open>AS/services/customerOrderSchedule.ts\<close>,
    \<open>AS/controllers/order/customerOrderPayment.controller.ts\<close>).
  \<^item> \<open>PaymentWebhook\<close>: confirmation, notification, and the cancellation together with its promotions.
  \<^item> \<open>PaymentBooks\<close>: the debit loop and the accounts: \<open>worth\<close> of a wallet with what it paid, \<open>charged\<close> of an order.
  \<^item> \<open>PaymentLifecycle\<close>: \<open>pay_inv\<close> ties ledger, payments, orders and the invariants of deliveries and promotions together; the
    locale \<open>pay_operation\<close> states that an operation keeps it and moves no money of its own, every operation is interpreted
    in it, and \<open>pay_step\<close> interleaves them with the deliveries.
  \<^item> \<open>PaymentProperties\<close>: an order is charged at most once and with the amount due, a refusal is free, a notification counts once; a
    payment in a replaced session is lost and a late failure takes back a payment.

  \<^bold>\<open>Loyalty, memberships and referrals.\<close>  Orders earn points, memberships are paid and give benefits, customers refer each other, and
  finance reconciles what this costs.
  \<^item> \<open>Loyalty\<close>: order events and adjustments of \<open>AS/controllers/loyalty.controller.ts\<close>.  The locale \<open>ledger_operation\<close> states that an
    operation appends to the ledger and keeps every balance the sum of its entries; both handlers are interpreted in it.
  \<^item> \<open>Membership\<close>: payment events and benefit decisions of the same controller with the transitions of \<open>AS/services/crmPolicy.ts\<close>, and the
    invariant that what is active was paid.
  \<^item> \<open>CrmAccounting\<close>: \<open>applyReferralCode\<close> of \<open>AS/controllers/referral.controller.ts\<close> and \<open>AS/services/crmAccounting.service.ts\<close>:
    reservations of campaign budgets with their funding, and the three reconciliations.
  \<^item> \<open>LoyaltyProperties\<close>: balances agree with the ledger, a booked event changes nothing when it is sent again, a benefit needs a payment, an
    ended membership stays ended, a customer is referred once, a reservation reconciles; and where keys and selections go wrong.

  \<^bold>\<open>Administration of money.\<close>
  \<^item> \<open>PaymentConfig\<close>: \<open>AS/controllers/paymentConfigApproval.controller.ts\<close>, changes of provider health and payment methods that one
    administrator requests and another approves.  The abstract specification reads the log of approved changes (\<open>health_view\<close>,
    \<open>catalog_view\<close>); the locale \<open>config_operation\<close> states that an operation keeps tables and log in step.
  \<^item> \<open>WalletHold\<close>: appeals against penalties (\<open>AS/controllers/driverWalletHold.controller.ts\<close>).

  \<^bold>\<open>Events and broadcasts.\<close>  Services write events into an outbox table that workers hand to a message
  broker; administrators schedule broadcasts that become one notification per user.
  \<^item> \<open>CanonicalEvent\<close>, \<open>EventOutbox\<close>: \<open>AS/services/canonicalEvent.ts\<close>, \<open>eventOutbox.ts\<close> and the worker, as
    a step relation in which any number of workers lock, send, mark, fail and stop.  A published event was
    sent, undisturbed ticks drain the table, and the retries of a refused event are bounded.
  \<^item> \<open>BroadcastTarget\<close>: \<open>AS/services/broadcastTarget.service.ts\<close>, the WHERE clauses with their parameters,
    and which of them the database accepts.
  \<^item> \<open>Broadcasts\<close>: validation, edits and the life of a broadcast (\<open>AS/services/broadcast.service.ts\<close>, the claim
    of \<open>broadcastDelivery.service.ts\<close>, the recovery of the scheduler); one claim per broadcast.
  \<^item> \<open>BroadcastDelivery\<close>: the delivery loop of \<open>broadcastDelivery.service.ts\<close>; every user of the audience
    gets one row and one notification.

  \<^bold>\<open>Shared protections.\<close>
  \<^item> \<open>Idempotency\<close>: \<open>AS/middleware/idempotencyRequirement.ts\<close>.  Run alone the middleware refines a memo
    table; interleaved, a lock that has not ended excludes a second run.
  \<^item> \<open>AuthProtection\<close>: \<open>AS/security/bruteForceProtection.ts\<close> over the locale \<open>counter_store\<close>, interpreted
    on the in-memory store.
  \<^item> \<open>Resilience\<close>: circuit breaker, bulkhead and retry of \<open>AS/lib/resilience\<close>.

  \<^bold>\<open>Conventions.\<close>  A table is the list of its rows in insertion order, a row a record.  A handler is a
  function from the request and the store to the answer and the new store; a thrown error leaves the
  store as it was, which is what ROLLBACK does.  Where the code reads outside its transaction, reading
  and writing are separate definitions, so that other requests can come between them.  Amounts are
  integers, times are integers (milliseconds, or seconds where the code rounds), random ids and times are
  arguments.  SHA-256, HMAC, bcrypt, collation, the payment gateway and the vault are parameters: what is
  proved holds for any function in their place, or names the property of it that is used.

  \<^bold>\<open>Bounds and fuel.\<close>  No definition needs fuel.  The retry loop recurses on the attempts left and the
  delivery loop on the pending rows after its cursor, each with a measure; the polling loops are steps of a relation.

  \<^bold>\<open>Not modelled.\<close>  Order creation, pricing and tracking; courier onboarding and
  administration beyond payouts and penalty appeals; loyalty tiers and campaign experiments; content and map configuration; the notification service; the gateway; the web and mobile apps.
  Read-only list endpoints, logging, response images and columns that nothing reads back are left out
  of the modelled parts.
\<close>

end
